(* ===== verification/Prelude.thy ===== *)
theory Prelude
  imports Main "HOL-Library.Word" "HOL-Library.Monad_Syntax"
begin

text \<open>
  What the component theories share.

  \<^item> The machine integers of the C code: \<open>byte\<close>, \<open>u16\<close>, \<open>u32\<close>, \<open>u64\<close>. The signed
    \<open>libsqfs_off_t\<close> (a \<open>long long\<close>) is a \<open>u64\<close> read in two's complement, so that \<open>-1\<close>
    is the all-ones word. A \<open>size_t\<close> that measures an object held in memory is a \<open>nat\<close>.
  \<^item> The C library functions the code uses: \<open>malloc\<close>, \<open>memcpy\<close>, \<open>strcmp\<close>.
  \<^item> The byte order conversions of internal.h and the little-endian layout of an integer.
  \<^item> The outcome of an operation: an operation that can run into undefined behaviour (a call
    through a null pointer, a failing \<open>assert\<close>, a null dereference) returns an option, and
    \<open>None\<close> is that outcome; what C returns is inside the \<open>Some\<close>.
  \<^item> The locale of fixed-width on-disk structures, \<open>struct_codec\<close>, and what holds of arrays
    of them.
\<close>

unbundle bit_operations_syntax

section \<open>Integers\<close>

type_synonym byte = "8 word"
type_synonym u16 = "16 word"
type_synonym u32 = "32 word"
type_synonym u64 = "64 word"

named_theorems layout_simps "sizes and layouts of on-disk structures"

section \<open>The heap\<close>

text \<open>
  The outcomes of the next calls of \<open>malloc\<close>, in order; past the end of the list every call
  succeeds. \<open>[]\<close> is thus a process that never runs out of memory.
\<close>

type_synonym heap = "bool list"

fun malloc :: "heap \<Rightarrow> bool \<times> heap" where
  "malloc [] = (True, [])"
| "malloc (b # bs) = (b, bs)"

text \<open>\<open>memcpy (buf + off, src, length src)\<close>, for a buffer that has room for it.\<close>

definition memcpy :: "'a list \<Rightarrow> nat \<Rightarrow> 'a list \<Rightarrow> 'a list" where
  "memcpy buf off src = take off buf @ src @ drop (off + length src) buf"

lemma length_memcpy [simp]:
  "off + length src \<le> length buf \<Longrightarrow> length (memcpy buf off src) = length buf"
  by (simp add: memcpy_def)

lemma take_memcpy [simp]:
  "off + length src \<le> length buf \<Longrightarrow> take (off + length src) (memcpy buf off src) = take off buf @ src"
  by (simp add: memcpy_def)

lemma take_memcpy_0 [simp]: "take (length src) (memcpy buf 0 src) = src"
  by (simp add: memcpy_def)

lemma memcpy_Nil [simp]: "memcpy buf off [] = buf"
  by (simp add: memcpy_def)

text \<open>The bytes \<open>[off, off + n)\<close> of a buffer.\<close>

definition slice :: "nat \<Rightarrow> nat \<Rightarrow> 'a list \<Rightarrow> 'a list" where
  "slice off n xs = take n (drop off xs)"

lemma length_slice [simp]: "length (slice off n xs) = min n (length xs - off)"
  by (simp add: slice_def min.commute)

lemma slice_memcpy_same:
  "off \<le> length buf \<Longrightarrow> slice off (length src) (memcpy buf off src) = src"
  by (simp add: slice_def memcpy_def)

lemma slice_memcpy_below:
  "o' + n \<le> off \<Longrightarrow> off \<le> length buf \<Longrightarrow> slice o' n (memcpy buf off src) = slice o' n buf"
  by (simp add: slice_def memcpy_def take_drop)

lemma slice_memcpy_above:
  "off + length src \<le> o' \<Longrightarrow> o' + n \<le> length buf \<Longrightarrow> slice o' n (memcpy buf off src) = slice o' n buf"
  by (simp add: slice_def memcpy_def)

lemma slice_append_left: "off + n \<le> length xs \<Longrightarrow> slice off n (xs @ ys) = slice off n xs"
  by (simp add: slice_def)

lemma slice_append_right: "length xs \<le> off \<Longrightarrow> slice off n (xs @ ys) = slice (off - length xs) n ys"
  by (simp add: slice_def)

lemma slice_whole: "slice 0 (length xs) xs = xs"
  by (simp add: slice_def)

lemma slice_append_exact [simp]: "slice (length xs) (length ys) (xs @ ys @ zs) = ys"
  by (simp add: slice_def)

lemma slice_slice:
  "a + k \<le> n \<Longrightarrow> slice a k (slice off n xs) = slice (off + a) k xs"
  by (simp add: slice_def drop_take min_def add.commute)

lemma slice_prefix:
  "slice a n xs = ys \<Longrightarrow> \<exists>r. drop a xs = ys @ r \<and> r = drop (a + n) xs"
  by (metis append_take_drop_id drop_drop slice_def add.commute)

lemma drop_length_append: "length xs = n \<Longrightarrow> drop n (xs @ ys) = ys"
  by simp

section \<open>Little-endian integers\<close>

text \<open>The bytes of an integer, least significant first, and the integer of such bytes.\<close>

primrec le_bytes :: "nat \<Rightarrow> 'a::len word \<Rightarrow> byte list" where
  "le_bytes 0 w = []"
| "le_bytes (Suc n) w = ucast w # le_bytes n (drop_bit 8 w)"

primrec le_word :: "byte list \<Rightarrow> 'a::len word" where
  "le_word [] = 0"
| "le_word (b # bs) = ucast b OR push_bit 8 (le_word bs)"

abbreviation le16 :: "u16 \<Rightarrow> byte list" where "le16 \<equiv> le_bytes 2"
abbreviation le32 :: "u32 \<Rightarrow> byte list" where "le32 \<equiv> le_bytes 4"
abbreviation le64 :: "u64 \<Rightarrow> byte list" where "le64 \<equiv> le_bytes 8"

lemma length_le_bytes [simp, layout_simps]: "length (le_bytes n w) = n"
  by (induction n arbitrary: w) simp_all

lemma le_bytes_eq_Nil [simp]: "le_bytes n w = [] \<longleftrightarrow> n = 0"
  by (cases n) simp_all

lemma low_byte_or_rest:
  "(ucast (ucast w :: byte) :: 'a::len word) OR push_bit 8 (take_bit (8 * n) (drop_bit 8 w)) =
   take_bit (8 + 8 * n) w"
  by (rule bit_word_eqI) (auto simp: bit_simps)

lemma le_word_le_bytes: "le_word (le_bytes n w) = take_bit (8 * n) w"
proof (induction n arbitrary: w)
  case (Suc n)
  then show ?case by (simp add: low_byte_or_rest)
qed simp

lemma le_bytes_numeral:
  "le_bytes (numeral k) w = ucast w # le_bytes (pred_numeral k) (drop_bit 8 w)"
  by (simp add: numeral_eq_Suc)

lemma le_word_full [simp]: "8 * n = LENGTH('a::len) \<Longrightarrow> le_word (le_bytes n (w :: 'a word)) = w"
  by (simp add: le_word_le_bytes take_bit_word_eq_self)

section \<open>Byte order\<close>

text \<open>
  The conversions of internal.h on a little-endian and on a big-endian host, and the bytes an
  integer occupies in the memory of such a host.
\<close>

datatype byte_order = LITTLE_ENDIAN | BIG_ENDIAN

definition bswap :: "nat \<Rightarrow> 'a::len word \<Rightarrow> 'a word" where
  "bswap n w = le_word (rev (le_bytes n w))"

fun cpu_to_le16 :: "byte_order \<Rightarrow> u16 \<Rightarrow> u16" where
  "cpu_to_le16 LITTLE_ENDIAN v = v"
| "cpu_to_le16 BIG_ENDIAN v = bswap 2 v"

fun cpu_to_le32 :: "byte_order \<Rightarrow> u32 \<Rightarrow> u32" where
  "cpu_to_le32 LITTLE_ENDIAN v = v"
| "cpu_to_le32 BIG_ENDIAN v = bswap 4 v"

fun cpu_to_le64 :: "byte_order \<Rightarrow> u64 \<Rightarrow> u64" where
  "cpu_to_le64 LITTLE_ENDIAN v = v"
| "cpu_to_le64 BIG_ENDIAN v = bswap 8 v"

fun in_memory :: "byte_order \<Rightarrow> nat \<Rightarrow> 'a::len word \<Rightarrow> byte list" where
  "in_memory LITTLE_ENDIAN n v = le_bytes n v"
| "in_memory BIG_ENDIAN n v = rev (le_bytes n v)"

lemma le_bytes_take_bit: "8 * n \<le> k \<Longrightarrow> le_bytes n (take_bit k w) = le_bytes n w"
proof (induction n arbitrary: w k)
  case (Suc n)
  have "(ucast (take_bit k w) :: byte) = ucast w"
    using Suc.prems by (intro bit_word_eqI) (auto simp: bit_simps)
  moreover have "drop_bit 8 (take_bit k w) = take_bit (k - 8) (drop_bit 8 w)"
    by (simp add: drop_bit_take_bit)
  ultimately show ?case using Suc by simp
qed simp

lemma le_bytes_le_word_gen:
  "8 * length bs \<le> LENGTH('a::len) \<Longrightarrow> le_bytes (length bs) (le_word bs :: 'a word) = bs"
proof (induction bs)
  case (Cons b bs)
  let ?w = "le_word bs :: 'a word"
  have "(ucast (ucast b OR push_bit 8 ?w) :: byte) = b"
    using Cons.prems by (intro bit_word_eqI) (auto simp: bit_simps)
  moreover have "drop_bit 8 (ucast b OR push_bit 8 ?w) = take_bit (LENGTH('a) - 8) ?w"
    by (rule bit_word_eqI) (auto simp: bit_simps dest: bit_imp_le_length)
  ultimately show ?case using Cons by (simp add: le_bytes_take_bit)
qed simp

lemma le_bytes_bswap: "8 * n = LENGTH('a::len) \<Longrightarrow> le_bytes n (bswap n (w :: 'a word)) = rev (le_bytes n w)"
  using le_bytes_le_word_gen [of "rev (le_bytes n w)", where 'a='a] by (simp add: bswap_def)

text \<open>
  On either kind of host a converted value lies in memory as its little-endian bytes: the model
  may write \<open>le16\<close>, \<open>le32\<close> and \<open>le64\<close> wherever the code stores a \<open>cpu_to_le\<close> of the
  same width.
\<close>

lemma in_memory_cpu_to_le:
  "in_memory ord 2 (cpu_to_le16 ord a) = le16 a"
  "in_memory ord 4 (cpu_to_le32 ord b) = le32 b"
  "in_memory ord 8 (cpu_to_le64 ord c) = le64 c"
  by (cases ord; simp add: le_bytes_bswap)+

section \<open>Reading structures back\<close>

text \<open>
  The readers of the model: what a squashfs driver does with the bytes the library writes. A
  reader takes a field or a structure off the front of a byte list.
\<close>

definition get_le :: "nat \<Rightarrow> byte list \<Rightarrow> ('a::len word \<times> byte list) option" where
  "get_le n bs = (if length bs < n then None else Some (le_word (take n bs), drop n bs))"

lemma get_le_le_bytes [simp]:
  "8 * n = LENGTH('a::len) \<Longrightarrow> get_le n (le_bytes n (w :: 'a word) @ bs) = Some (w, bs)"
  by (simp add: get_le_def)

text \<open>An array of structures: the encoded elements one after the other.\<close>

abbreviation (input) encode_array :: "('a \<Rightarrow> byte list) \<Rightarrow> 'a list \<Rightarrow> byte list" where
  "encode_array enc xs \<equiv> concat (map enc xs)"

fun decode_array :: "(byte list \<Rightarrow> ('a \<times> byte list) option) \<Rightarrow> nat \<Rightarrow> byte list \<Rightarrow> ('a list \<times> byte list) option" where
  "decode_array dec 0 bs = Some ([], bs)"
| "decode_array dec (Suc n) bs = do {
     (x, bs) \<leftarrow> dec bs;
     (xs, bs) \<leftarrow> decode_array dec n bs;
     Some (x # xs, bs) }"

text \<open>A structure of fixed size: every value occupies \<open>width\<close> bytes and can be read back.\<close>

locale struct_codec =
  fixes enc :: "'a \<Rightarrow> byte list"
    and dec :: "byte list \<Rightarrow> ('a \<times> byte list) option"
    and width :: nat
  assumes length_enc: "length (enc x) = width"
    and dec_enc: "dec (enc x @ bs) = Some (x, bs)"
begin

lemma length_encode_array: "length (encode_array enc xs) = width * length xs"
  by (induction xs) (simp_all add: length_enc)

lemma decode_encode_array: "decode_array dec (length xs) (encode_array enc xs @ bs) = Some (xs, bs)"
  by (induction xs) (simp_all add: dec_enc)

lemma decode_encode_array_nil: "decode_array dec (length xs) (encode_array enc xs) = Some (xs, [])"
  using decode_encode_array [of xs "[]"] by simp

lemma drop_encode_array: "drop (width * n) (encode_array enc xs) = encode_array enc (drop n xs)"
proof (induction xs arbitrary: n)
  case (Cons x xs)
  then show ?case by (cases n) (simp_all add: length_enc)
qed simp

text \<open>Random access: the \<open>n\<close>-th element is the structure at byte \<open>width * n\<close>.\<close>

lemma dec_nth:
  assumes "n < length xs"
  shows "map_option fst (dec (drop (width * n) (encode_array enc xs @ bs))) = Some (xs ! n)"
proof -
  have "width * n \<le> length (encode_array enc xs)"
    using assms by (simp add: length_encode_array)
  then have "drop (width * n) (encode_array enc xs @ bs) = encode_array enc (drop n xs) @ bs"
    by (simp add: drop_encode_array)
  also have "\<dots> = enc (xs ! n) @ encode_array enc (drop (Suc n) xs) @ bs"
    using assms by (simp add: Cons_nth_drop_Suc [symmetric])
  finally show ?thesis by (simp add: dec_enc)
qed

lemma enc_inj: "enc x = enc y \<Longrightarrow> x = y"
  using dec_enc [of x "[]"] dec_enc [of y "[]"] by simp

end

text \<open>The integers themselves are such structures.\<close>

interpretation u16_codec: struct_codec "le16" "get_le 2" 2
  by unfold_locales simp_all

interpretation u32_codec: struct_codec "le32" "get_le 4" 4
  by unfold_locales simp_all

interpretation u64_codec: struct_codec "le64" "get_le 8" 8
  by unfold_locales simp_all

section \<open>Words as numbers\<close>

lemma unat_plus_of_nat:
  "unat (a :: 'a::len word) + n < 2 ^ LENGTH('a) \<Longrightarrow> unat (a + of_nat n) = unat a + n"
  by (simp add: unat_word_ariths unat_of_nat)

lemma unat_ucast_u32_u64 [simp]: "unat (ucast (w :: u32) :: u64) = unat w"
proof -
  have "unat w < 2 ^ 32" using unsigned_less [of w] by simp
  then show ?thesis by (simp add: unsigned_ucast_eq take_bit_nat_eq_self)
qed

section \<open>Strings\<close>

text \<open>\<open>strcmp\<close> compares bytes as \<open>unsigned char\<close>; a C string is its bytes without the final zero.\<close>

type_synonym cstring = "byte list"

fun strcmp :: "cstring \<Rightarrow> cstring \<Rightarrow> int" where
  "strcmp [] [] = 0"
| "strcmp [] (b # bs) = - uint b"
| "strcmp (a # as) [] = uint a"
| "strcmp (a # as) (b # bs) = (if a = b then strcmp as bs else uint a - uint b)"

definition is_cstring :: "cstring \<Rightarrow> bool" where
  "is_cstring s \<longleftrightarrow> 0 \<notin> set s"

lemma strcmp_self [simp]: "strcmp s s = 0"
  by (induction s) simp_all

lemma uint_eq_iff [simp]: "uint (a :: byte) = uint b \<longleftrightarrow> a = b"
  by (simp add: word_uint_eq_iff)

lemma uint_eq_0 [simp]: "uint (a :: byte) = 0 \<longleftrightarrow> a = 0"
  using uint_eq_iff [of a 0] by (simp del: uint_eq_iff)

lemma strcmp_eq_0: "is_cstring s \<Longrightarrow> is_cstring t \<Longrightarrow> strcmp s t = 0 \<longleftrightarrow> s = t"
  by (induction s t rule: strcmp.induct) (auto simp: is_cstring_def)

lemma strcmp_antisym: "strcmp t s = - strcmp s t"
  by (induction s t rule: strcmp.induct) auto

lemma strcmp_trans:
  "is_cstring r \<Longrightarrow> is_cstring s \<Longrightarrow> is_cstring t \<Longrightarrow> strcmp r s \<le> 0 \<Longrightarrow> strcmp s t \<le> 0 \<Longrightarrow> strcmp r t \<le> 0"
proof (induction r s arbitrary: t rule: strcmp.induct)
  case 1
  then show ?case by simp
next
  case (2 b bs)
  then show ?case by (cases t) auto
next
  case (3 a as)
  then show ?case
    by (cases t) (auto simp: is_cstring_def word_gt_0 dest!: order_antisym)
next
  case (4 a as b bs)
  then show ?case by (cases t) (auto simp: is_cstring_def split: if_splits dest!: order_antisym)
qed

end
