(* ===== verification/Format.thy ===== *)
theory Format
  imports Prelude
begin

text \<open>
  The on-disk format: squashfs_fs.h. The constants the library uses, the reader's macros, and
  the structures as records with the fields of the C structs in their order. \<open>encode_X\<close> is the
  \<open>sizeof (struct X)\<close> bytes the library copies out of such a struct after storing every field
  with the \<open>cpu_to_le\<close> of its width (no struct of the format has padding); \<open>decode_X\<close> is the
  reader. Each pair is an interpretation of \<open>struct_codec\<close>.
\<close>

section \<open>Constants and macros\<close>

abbreviation (input) SQUASHFS_MAGIC :: u32 where "SQUASHFS_MAGIC \<equiv> 0x73717368"
abbreviation (input) SQUASHFS_METADATA_SIZE :: nat where "SQUASHFS_METADATA_SIZE \<equiv> 8192"
abbreviation (input) SQUASHFS_FILE_SIZE :: nat where "SQUASHFS_FILE_SIZE \<equiv> 131072"

text \<open>Superblock flags: bit numbers, and the macro that tests one.\<close>

abbreviation (input) SQUASHFS_NOI :: nat where "SQUASHFS_NOI \<equiv> 0"
abbreviation (input) SQUASHFS_NOD :: nat where "SQUASHFS_NOD \<equiv> 1"
abbreviation (input) SQUASHFS_CHECK :: nat where "SQUASHFS_CHECK \<equiv> 2"
abbreviation (input) SQUASHFS_NOF :: nat where "SQUASHFS_NOF \<equiv> 3"
abbreviation (input) SQUASHFS_NO_FRAG :: nat where "SQUASHFS_NO_FRAG \<equiv> 4"
abbreviation (input) SQUASHFS_ALWAYS_FRAG :: nat where "SQUASHFS_ALWAYS_FRAG \<equiv> 5"
abbreviation (input) SQUASHFS_DUPLICATE :: nat where "SQUASHFS_DUPLICATE \<equiv> 6"
abbreviation (input) SQUASHFS_EXPORT :: nat where "SQUASHFS_EXPORT \<equiv> 7"
abbreviation (input) SQUASHFS_COMP_OPT :: nat where "SQUASHFS_COMP_OPT \<equiv> 10"

definition SQUASHFS_BIT :: "u16 \<Rightarrow> nat \<Rightarrow> u16" where
  "SQUASHFS_BIT flag b = drop_bit b flag AND 1"

text \<open>Inode types.\<close>

abbreviation (input) SQUASHFS_DIR_TYPE :: u16 where "SQUASHFS_DIR_TYPE \<equiv> 1"
abbreviation (input) SQUASHFS_FILE_TYPE :: u16 where "SQUASHFS_FILE_TYPE \<equiv> 2"
abbreviation (input) SQUASHFS_SYMLINK_TYPE :: u16 where "SQUASHFS_SYMLINK_TYPE \<equiv> 3"
abbreviation (input) SQUASHFS_BLKDEV_TYPE :: u16 where "SQUASHFS_BLKDEV_TYPE \<equiv> 4"
abbreviation (input) SQUASHFS_CHRDEV_TYPE :: u16 where "SQUASHFS_CHRDEV_TYPE \<equiv> 5"
abbreviation (input) SQUASHFS_FIFO_TYPE :: u16 where "SQUASHFS_FIFO_TYPE \<equiv> 6"
abbreviation (input) SQUASHFS_LDIR_TYPE :: u16 where "SQUASHFS_LDIR_TYPE \<equiv> 8"
abbreviation (input) SQUASHFS_LREG_TYPE :: u16 where "SQUASHFS_LREG_TYPE \<equiv> 9"
abbreviation (input) SQUASHFS_LBLKDEV_TYPE :: u16 where "SQUASHFS_LBLKDEV_TYPE \<equiv> 11"
abbreviation (input) SQUASHFS_LCHRDEV_TYPE :: u16 where "SQUASHFS_LCHRDEV_TYPE \<equiv> 12"
abbreviation (input) SQUASHFS_LFIFO_TYPE :: u16 where "SQUASHFS_LFIFO_TYPE \<equiv> 13"

text \<open>Extended attribute namespaces.\<close>

abbreviation (input) SQUASHFS_XATTR_USER :: u16 where "SQUASHFS_XATTR_USER \<equiv> 0"
abbreviation (input) SQUASHFS_XATTR_TRUSTED :: u16 where "SQUASHFS_XATTR_TRUSTED \<equiv> 1"
abbreviation (input) SQUASHFS_XATTR_SECURITY :: u16 where "SQUASHFS_XATTR_SECURITY \<equiv> 2"

text \<open>
  The header of a metadata block: the size, with bit 15 set when the block is stored
  uncompressed. The macros give 0x8000 for the size of a header that holds only that bit.
\<close>

abbreviation (input) SQUASHFS_COMPRESSED_BIT :: u16 where "SQUASHFS_COMPRESSED_BIT \<equiv> 0x8000"

definition SQUASHFS_COMPRESSED_SIZE :: "u16 \<Rightarrow> nat" where
  "SQUASHFS_COMPRESSED_SIZE B =
     (if B AND NOT SQUASHFS_COMPRESSED_BIT \<noteq> 0 then unat (B AND NOT SQUASHFS_COMPRESSED_BIT)
      else unat SQUASHFS_COMPRESSED_BIT)"

definition SQUASHFS_COMPRESSED :: "u16 \<Rightarrow> bool" where
  "SQUASHFS_COMPRESSED B \<longleftrightarrow> B AND SQUASHFS_COMPRESSED_BIT = 0"

text \<open>The size word of a data or fragment block, with bit 24 as its "stored" flag.\<close>

abbreviation (input) SQUASHFS_COMPRESSED_BIT_BLOCK :: u32 where
  "SQUASHFS_COMPRESSED_BIT_BLOCK \<equiv> 0x1000000"

definition SQUASHFS_COMPRESSED_SIZE_BLOCK :: "u32 \<Rightarrow> nat" where
  "SQUASHFS_COMPRESSED_SIZE_BLOCK B = unat (B AND NOT SQUASHFS_COMPRESSED_BIT_BLOCK)"

definition SQUASHFS_COMPRESSED_BLOCK :: "u32 \<Rightarrow> bool" where
  "SQUASHFS_COMPRESSED_BLOCK B \<longleftrightarrow> B AND SQUASHFS_COMPRESSED_BIT_BLOCK = 0"

text \<open>Inode references: a block of the inode table and an offset within it, uncompressed.\<close>

definition SQUASHFS_INODE_BLK :: "u64 \<Rightarrow> u32" where
  "SQUASHFS_INODE_BLK a = ucast (drop_bit 16 a)"

definition SQUASHFS_INODE_OFFSET :: "u64 \<Rightarrow> u32" where
  "SQUASHFS_INODE_OFFSET a = ucast (a AND 0xffff)"

definition SQUASHFS_MODE :: "u32 \<Rightarrow> u32" where
  "SQUASHFS_MODE a = a AND 0xfff"

definition SQUASHFS_XATTR_BLK :: "u64 \<Rightarrow> u32" where
  "SQUASHFS_XATTR_BLK a = ucast (drop_bit 16 a)"

definition SQUASHFS_XATTR_OFFSET :: "u64 \<Rightarrow> u32" where
  "SQUASHFS_XATTR_OFFSET a = ucast (a AND 0xffff)"

section \<open>Structures\<close>

record squashfs_super_block =
  sb_magic :: u32
  sb_inodes :: u32
  sb_mkfs_time :: u32
  sb_block_size :: u32
  sb_fragments :: u32
  sb_compression :: u16
  sb_block_log :: u16
  sb_flags :: u16
  sb_no_ids :: u16
  sb_major :: u16
  sb_minor :: u16
  sb_root_inode :: u64
  sb_bytes_used :: u64
  sb_id_table_start :: u64
  sb_xattr_id_table_start :: u64
  sb_inode_table_start :: u64
  sb_directory_table_start :: u64
  sb_fragment_table_start :: u64
  sb_lookup_table_start :: u64

definition encode_super_block :: "squashfs_super_block \<Rightarrow> byte list" where
  "encode_super_block h =
     le32 (sb_magic h) @ le32 (sb_inodes h) @ le32 (sb_mkfs_time h) @ le32 (sb_block_size h) @
     le32 (sb_fragments h) @ le16 (sb_compression h) @ le16 (sb_block_log h) @
     le16 (sb_flags h) @ le16 (sb_no_ids h) @ le16 (sb_major h) @ le16 (sb_minor h) @
     le64 (sb_root_inode h) @ le64 (sb_bytes_used h) @ le64 (sb_id_table_start h) @
     le64 (sb_xattr_id_table_start h) @ le64 (sb_inode_table_start h) @
     le64 (sb_directory_table_start h) @ le64 (sb_fragment_table_start h) @
     le64 (sb_lookup_table_start h)"

definition decode_super_block :: "byte list \<Rightarrow> (squashfs_super_block \<times> byte list) option" where
  "decode_super_block bs = do {
     (v0, bs) \<leftarrow> get_le 4 bs;
     (v1, bs) \<leftarrow> get_le 4 bs;
     (v2, bs) \<leftarrow> get_le 4 bs;
     (v3, bs) \<leftarrow> get_le 4 bs;
     (v4, bs) \<leftarrow> get_le 4 bs;
     (v5, bs) \<leftarrow> get_le 2 bs;
     (v6, bs) \<leftarrow> get_le 2 bs;
     (v7, bs) \<leftarrow> get_le 2 bs;
     (v8, bs) \<leftarrow> get_le 2 bs;
     (v9, bs) \<leftarrow> get_le 2 bs;
     (v10, bs) \<leftarrow> get_le 2 bs;
     (v11, bs) \<leftarrow> get_le 8 bs;
     (v12, bs) \<leftarrow> get_le 8 bs;
     (v13, bs) \<leftarrow> get_le 8 bs;
     (v14, bs) \<leftarrow> get_le 8 bs;
     (v15, bs) \<leftarrow> get_le 8 bs;
     (v16, bs) \<leftarrow> get_le 8 bs;
     (v17, bs) \<leftarrow> get_le 8 bs;
     (v18, bs) \<leftarrow> get_le 8 bs;
     Some (\<lparr>sb_magic = v0, sb_inodes = v1, sb_mkfs_time = v2, sb_block_size = v3,
       sb_fragments = v4, sb_compression = v5, sb_block_log = v6, sb_flags = v7, sb_no_ids = v8,
       sb_major = v9, sb_minor = v10, sb_root_inode = v11, sb_bytes_used = v12,
       sb_id_table_start = v13, sb_xattr_id_table_start = v14, sb_inode_table_start = v15,
       sb_directory_table_start = v16, sb_fragment_table_start = v17,
       sb_lookup_table_start = v18\<rparr>, bs) }"

interpretation super_block_codec: struct_codec encode_super_block decode_super_block 96
  by unfold_locales (simp_all add: encode_super_block_def decode_super_block_def)

record squashfs_dir_index =
  dir_index_index :: u32
  dir_index_start_block :: u32
  dir_index_size :: u32

definition encode_dir_index :: "squashfs_dir_index \<Rightarrow> byte list" where
  "encode_dir_index h =
     le32 (dir_index_index h) @ le32 (dir_index_start_block h) @ le32 (dir_index_size h)"

definition decode_dir_index :: "byte list \<Rightarrow> (squashfs_dir_index \<times> byte list) option" where
  "decode_dir_index bs = do {
     (v0, bs) \<leftarrow> get_le 4 bs;
     (v1, bs) \<leftarrow> get_le 4 bs;
     (v2, bs) \<leftarrow> get_le 4 bs;
     Some (\<lparr>dir_index_index = v0, dir_index_start_block = v1, dir_index_size = v2\<rparr>, bs) }"

interpretation dir_index_codec: struct_codec encode_dir_index decode_dir_index 12
  by unfold_locales (simp_all add: encode_dir_index_def decode_dir_index_def)

record squashfs_base_inode_header =
  hdr_inode_type :: u16
  hdr_mode :: u16
  hdr_uid :: u16
  hdr_guid :: u16
  hdr_mtime :: u32
  hdr_inode_number :: u32

definition encode_base_inode_header :: "'a squashfs_base_inode_header_scheme \<Rightarrow> byte list" where
  "encode_base_inode_header h =
     le16 (hdr_inode_type h) @ le16 (hdr_mode h) @ le16 (hdr_uid h) @ le16 (hdr_guid h) @
     le32 (hdr_mtime h) @ le32 (hdr_inode_number h)"

definition decode_base_inode_header :: "byte list \<Rightarrow> (squashfs_base_inode_header \<times> byte list) option" where
  "decode_base_inode_header bs = do {
     (v0, bs) \<leftarrow> get_le 2 bs;
     (v1, bs) \<leftarrow> get_le 2 bs;
     (v2, bs) \<leftarrow> get_le 2 bs;
     (v3, bs) \<leftarrow> get_le 2 bs;
     (v4, bs) \<leftarrow> get_le 4 bs;
     (v5, bs) \<leftarrow> get_le 4 bs;
     Some (\<lparr>hdr_inode_type = v0, hdr_mode = v1, hdr_uid = v2, hdr_guid = v3,
       hdr_mtime = v4, hdr_inode_number = v5\<rparr>, bs) }"

lemma length_encode_base_inode_header [simp, layout_simps]: "length (encode_base_inode_header h) = 16"
  by (simp add: encode_base_inode_header_def)

lemma decode_encode_base_inode_header [simp]:
  "decode_base_inode_header (encode_base_inode_header h @ bs) =
     Some (squashfs_base_inode_header.truncate h, bs)"
  by (simp add: encode_base_inode_header_def decode_base_inode_header_def
      squashfs_base_inode_header.defs)

record squashfs_ipc_inode_header = squashfs_base_inode_header +
  ipc_nlink :: u32

definition encode_ipc_inode_header :: "squashfs_ipc_inode_header \<Rightarrow> byte list" where
  "encode_ipc_inode_header h =
     encode_base_inode_header h @ le32 (ipc_nlink h)"

definition decode_ipc_inode_header :: "byte list \<Rightarrow> (squashfs_ipc_inode_header \<times> byte list) option" where
  "decode_ipc_inode_header bs = do {
     (b, bs) \<leftarrow> decode_base_inode_header bs;
     (v0, bs) \<leftarrow> get_le 4 bs;
     Some (\<lparr>hdr_inode_type = hdr_inode_type b, hdr_mode = hdr_mode b, hdr_uid = hdr_uid b,
       hdr_guid = hdr_guid b, hdr_mtime = hdr_mtime b, hdr_inode_number = hdr_inode_number b,
       ipc_nlink = v0\<rparr>, bs) }"

interpretation ipc_inode_header_codec: struct_codec encode_ipc_inode_header decode_ipc_inode_header 20
  by unfold_locales (simp_all add: encode_ipc_inode_header_def decode_ipc_inode_header_def squashfs_base_inode_header.defs)

record squashfs_lipc_inode_header = squashfs_base_inode_header +
  lipc_nlink :: u32
  lipc_xattr :: u32

definition encode_lipc_inode_header :: "squashfs_lipc_inode_header \<Rightarrow> byte list" where
  "encode_lipc_inode_header h =
     encode_base_inode_header h @ le32 (lipc_nlink h) @ le32 (lipc_xattr h)"

definition decode_lipc_inode_header :: "byte list \<Rightarrow> (squashfs_lipc_inode_header \<times> byte list) option" where
  "decode_lipc_inode_header bs = do {
     (b, bs) \<leftarrow> decode_base_inode_header bs;
     (v0, bs) \<leftarrow> get_le 4 bs;
     (v1, bs) \<leftarrow> get_le 4 bs;
     Some (\<lparr>hdr_inode_type = hdr_inode_type b, hdr_mode = hdr_mode b, hdr_uid = hdr_uid b,
       hdr_guid = hdr_guid b, hdr_mtime = hdr_mtime b, hdr_inode_number = hdr_inode_number b,
       lipc_nlink = v0, lipc_xattr = v1\<rparr>, bs) }"

interpretation lipc_inode_header_codec: struct_codec encode_lipc_inode_header decode_lipc_inode_header 24
  by unfold_locales (simp_all add: encode_lipc_inode_header_def decode_lipc_inode_header_def squashfs_base_inode_header.defs)

record squashfs_dev_inode_header = squashfs_base_inode_header +
  dev_nlink :: u32
  dev_rdev :: u32

definition encode_dev_inode_header :: "squashfs_dev_inode_header \<Rightarrow> byte list" where
  "encode_dev_inode_header h =
     encode_base_inode_header h @ le32 (dev_nlink h) @ le32 (dev_rdev h)"

definition decode_dev_inode_header :: "byte list \<Rightarrow> (squashfs_dev_inode_header \<times> byte list) option" where
  "decode_dev_inode_header bs = do {
     (b, bs) \<leftarrow> decode_base_inode_header bs;
     (v0, bs) \<leftarrow> get_le 4 bs;
     (v1, bs) \<leftarrow> get_le 4 bs;
     Some (\<lparr>hdr_inode_type = hdr_inode_type b, hdr_mode = hdr_mode b, hdr_uid = hdr_uid b,
       hdr_guid = hdr_guid b, hdr_mtime = hdr_mtime b, hdr_inode_number = hdr_inode_number b,
       dev_nlink = v0, dev_rdev = v1\<rparr>, bs) }"

interpretation dev_inode_header_codec: struct_codec encode_dev_inode_header decode_dev_inode_header 24
  by unfold_locales (simp_all add: encode_dev_inode_header_def decode_dev_inode_header_def squashfs_base_inode_header.defs)

record squashfs_ldev_inode_header = squashfs_base_inode_header +
  ldev_nlink :: u32
  ldev_rdev :: u32
  ldev_xattr :: u32

definition encode_ldev_inode_header :: "squashfs_ldev_inode_header \<Rightarrow> byte list" where
  "encode_ldev_inode_header h =
     encode_base_inode_header h @ le32 (ldev_nlink h) @ le32 (ldev_rdev h) @
     le32 (ldev_xattr h)"

definition decode_ldev_inode_header :: "byte list \<Rightarrow> (squashfs_ldev_inode_header \<times> byte list) option" where
  "decode_ldev_inode_header bs = do {
     (b, bs) \<leftarrow> decode_base_inode_header bs;
     (v0, bs) \<leftarrow> get_le 4 bs;
     (v1, bs) \<leftarrow> get_le 4 bs;
     (v2, bs) \<leftarrow> get_le 4 bs;
     Some (\<lparr>hdr_inode_type = hdr_inode_type b, hdr_mode = hdr_mode b, hdr_uid = hdr_uid b,
       hdr_guid = hdr_guid b, hdr_mtime = hdr_mtime b, hdr_inode_number = hdr_inode_number b,
       ldev_nlink = v0, ldev_rdev = v1, ldev_xattr = v2\<rparr>, bs) }"

interpretation ldev_inode_header_codec: struct_codec encode_ldev_inode_header decode_ldev_inode_header 28
  by unfold_locales (simp_all add: encode_ldev_inode_header_def decode_ldev_inode_header_def squashfs_base_inode_header.defs)

record squashfs_symlink_inode_header = squashfs_base_inode_header +
  symlink_nlink :: u32
  symlink_symlink_size :: u32

definition encode_symlink_inode_header :: "squashfs_symlink_inode_header \<Rightarrow> byte list" where
  "encode_symlink_inode_header h =
     encode_base_inode_header h @ le32 (symlink_nlink h) @ le32 (symlink_symlink_size h)"

definition decode_symlink_inode_header :: "byte list \<Rightarrow> (squashfs_symlink_inode_header \<times> byte list) option" where
  "decode_symlink_inode_header bs = do {
     (b, bs) \<leftarrow> decode_base_inode_header bs;
     (v0, bs) \<leftarrow> get_le 4 bs;
     (v1, bs) \<leftarrow> get_le 4 bs;
     Some (\<lparr>hdr_inode_type = hdr_inode_type b, hdr_mode = hdr_mode b, hdr_uid = hdr_uid b,
       hdr_guid = hdr_guid b, hdr_mtime = hdr_mtime b, hdr_inode_number = hdr_inode_number b,
       symlink_nlink = v0, symlink_symlink_size = v1\<rparr>, bs) }"

interpretation symlink_inode_header_codec: struct_codec encode_symlink_inode_header decode_symlink_inode_header 24
  by unfold_locales (simp_all add: encode_symlink_inode_header_def decode_symlink_inode_header_def squashfs_base_inode_header.defs)

record squashfs_reg_inode_header = squashfs_base_inode_header +
  reg_start_block :: u32
  reg_fragment :: u32
  reg_offset :: u32
  reg_file_size :: u32

definition encode_reg_inode_header :: "squashfs_reg_inode_header \<Rightarrow> byte list" where
  "encode_reg_inode_header h =
     encode_base_inode_header h @ le32 (reg_start_block h) @ le32 (reg_fragment h) @
     le32 (reg_offset h) @ le32 (reg_file_size h)"

definition decode_reg_inode_header :: "byte list \<Rightarrow> (squashfs_reg_inode_header \<times> byte list) option" where
  "decode_reg_inode_header bs = do {
     (b, bs) \<leftarrow> decode_base_inode_header bs;
     (v0, bs) \<leftarrow> get_le 4 bs;
     (v1, bs) \<leftarrow> get_le 4 bs;
     (v2, bs) \<leftarrow> get_le 4 bs;
     (v3, bs) \<leftarrow> get_le 4 bs;
     Some (\<lparr>hdr_inode_type = hdr_inode_type b, hdr_mode = hdr_mode b, hdr_uid = hdr_uid b,
       hdr_guid = hdr_guid b, hdr_mtime = hdr_mtime b, hdr_inode_number = hdr_inode_number b,
       reg_start_block = v0, reg_fragment = v1, reg_offset = v2, reg_file_size = v3\<rparr>, bs) }"

interpretation reg_inode_header_codec: struct_codec encode_reg_inode_header decode_reg_inode_header 32
  by unfold_locales (simp_all add: encode_reg_inode_header_def decode_reg_inode_header_def squashfs_base_inode_header.defs)

record squashfs_lreg_inode_header = squashfs_base_inode_header +
  lreg_start_block :: u64
  lreg_file_size :: u64
  lreg_sparse :: u64
  lreg_nlink :: u32
  lreg_fragment :: u32
  lreg_offset :: u32
  lreg_xattr :: u32

definition encode_lreg_inode_header :: "squashfs_lreg_inode_header \<Rightarrow> byte list" where
  "encode_lreg_inode_header h =
     encode_base_inode_header h @ le64 (lreg_start_block h) @ le64 (lreg_file_size h) @
     le64 (lreg_sparse h) @ le32 (lreg_nlink h) @ le32 (lreg_fragment h) @
     le32 (lreg_offset h) @ le32 (lreg_xattr h)"

definition decode_lreg_inode_header :: "byte list \<Rightarrow> (squashfs_lreg_inode_header \<times> byte list) option" where
  "decode_lreg_inode_header bs = do {
     (b, bs) \<leftarrow> decode_base_inode_header bs;
     (v0, bs) \<leftarrow> get_le 8 bs;
     (v1, bs) \<leftarrow> get_le 8 bs;
     (v2, bs) \<leftarrow> get_le 8 bs;
     (v3, bs) \<leftarrow> get_le 4 bs;
     (v4, bs) \<leftarrow> get_le 4 bs;
     (v5, bs) \<leftarrow> get_le 4 bs;
     (v6, bs) \<leftarrow> get_le 4 bs;
     Some (\<lparr>hdr_inode_type = hdr_inode_type b, hdr_mode = hdr_mode b, hdr_uid = hdr_uid b,
       hdr_guid = hdr_guid b, hdr_mtime = hdr_mtime b, hdr_inode_number = hdr_inode_number b,
       lreg_start_block = v0, lreg_file_size = v1, lreg_sparse = v2, lreg_nlink = v3,
       lreg_fragment = v4, lreg_offset = v5, lreg_xattr = v6\<rparr>, bs) }"

interpretation lreg_inode_header_codec: struct_codec encode_lreg_inode_header decode_lreg_inode_header 56
  by unfold_locales (simp_all add: encode_lreg_inode_header_def decode_lreg_inode_header_def squashfs_base_inode_header.defs)

record squashfs_dir_inode_header = squashfs_base_inode_header +
  dir_start_block :: u32
  dir_nlink :: u32
  dir_file_size :: u16
  dir_offset :: u16
  dir_parent_inode :: u32

definition encode_dir_inode_header :: "squashfs_dir_inode_header \<Rightarrow> byte list" where
  "encode_dir_inode_header h =
     encode_base_inode_header h @ le32 (dir_start_block h) @ le32 (dir_nlink h) @
     le16 (dir_file_size h) @ le16 (dir_offset h) @ le32 (dir_parent_inode h)"

definition decode_dir_inode_header :: "byte list \<Rightarrow> (squashfs_dir_inode_header \<times> byte list) option" where
  "decode_dir_inode_header bs = do {
     (b, bs) \<leftarrow> decode_base_inode_header bs;
     (v0, bs) \<leftarrow> get_le 4 bs;
     (v1, bs) \<leftarrow> get_le 4 bs;
     (v2, bs) \<leftarrow> get_le 2 bs;
     (v3, bs) \<leftarrow> get_le 2 bs;
     (v4, bs) \<leftarrow> get_le 4 bs;
     Some (\<lparr>hdr_inode_type = hdr_inode_type b, hdr_mode = hdr_mode b, hdr_uid = hdr_uid b,
       hdr_guid = hdr_guid b, hdr_mtime = hdr_mtime b, hdr_inode_number = hdr_inode_number b,
       dir_start_block = v0, dir_nlink = v1, dir_file_size = v2, dir_offset = v3,
       dir_parent_inode = v4\<rparr>, bs) }"

interpretation dir_inode_header_codec: struct_codec encode_dir_inode_header decode_dir_inode_header 32
  by unfold_locales (simp_all add: encode_dir_inode_header_def decode_dir_inode_header_def squashfs_base_inode_header.defs)

record squashfs_ldir_inode_header = squashfs_base_inode_header +
  ldir_nlink :: u32
  ldir_file_size :: u32
  ldir_start_block :: u32
  ldir_parent_inode :: u32
  ldir_i_count :: u16
  ldir_offset :: u16
  ldir_xattr :: u32

definition encode_ldir_inode_header :: "squashfs_ldir_inode_header \<Rightarrow> byte list" where
  "encode_ldir_inode_header h =
     encode_base_inode_header h @ le32 (ldir_nlink h) @ le32 (ldir_file_size h) @
     le32 (ldir_start_block h) @ le32 (ldir_parent_inode h) @ le16 (ldir_i_count h) @
     le16 (ldir_offset h) @ le32 (ldir_xattr h)"

definition decode_ldir_inode_header :: "byte list \<Rightarrow> (squashfs_ldir_inode_header \<times> byte list) option" where
  "decode_ldir_inode_header bs = do {
     (b, bs) \<leftarrow> decode_base_inode_header bs;
     (v0, bs) \<leftarrow> get_le 4 bs;
     (v1, bs) \<leftarrow> get_le 4 bs;
     (v2, bs) \<leftarrow> get_le 4 bs;
     (v3, bs) \<leftarrow> get_le 4 bs;
     (v4, bs) \<leftarrow> get_le 2 bs;
     (v5, bs) \<leftarrow> get_le 2 bs;
     (v6, bs) \<leftarrow> get_le 4 bs;
     Some (\<lparr>hdr_inode_type = hdr_inode_type b, hdr_mode = hdr_mode b, hdr_uid = hdr_uid b,
       hdr_guid = hdr_guid b, hdr_mtime = hdr_mtime b, hdr_inode_number = hdr_inode_number b,
       ldir_nlink = v0, ldir_file_size = v1, ldir_start_block = v2, ldir_parent_inode = v3,
       ldir_i_count = v4, ldir_offset = v5, ldir_xattr = v6\<rparr>, bs) }"

interpretation ldir_inode_header_codec: struct_codec encode_ldir_inode_header decode_ldir_inode_header 40
  by unfold_locales (simp_all add: encode_ldir_inode_header_def decode_ldir_inode_header_def squashfs_base_inode_header.defs)

record squashfs_dir_entry =
  dir_entry_offset :: u16
  dir_entry_inode_number :: u16
  dir_entry_type :: u16
  dir_entry_size :: u16

definition encode_dir_entry :: "squashfs_dir_entry \<Rightarrow> byte list" where
  "encode_dir_entry h =
     le16 (dir_entry_offset h) @ le16 (dir_entry_inode_number h) @ le16 (dir_entry_type h) @
     le16 (dir_entry_size h)"

definition decode_dir_entry :: "byte list \<Rightarrow> (squashfs_dir_entry \<times> byte list) option" where
  "decode_dir_entry bs = do {
     (v0, bs) \<leftarrow> get_le 2 bs;
     (v1, bs) \<leftarrow> get_le 2 bs;
     (v2, bs) \<leftarrow> get_le 2 bs;
     (v3, bs) \<leftarrow> get_le 2 bs;
     Some (\<lparr>dir_entry_offset = v0, dir_entry_inode_number = v1, dir_entry_type = v2,
       dir_entry_size = v3\<rparr>, bs) }"

interpretation dir_entry_codec: struct_codec encode_dir_entry decode_dir_entry 8
  by unfold_locales (simp_all add: encode_dir_entry_def decode_dir_entry_def)

record squashfs_dir_header =
  dir_header_count :: u32
  dir_header_start_block :: u32
  dir_header_inode_number :: u32

definition encode_dir_header :: "squashfs_dir_header \<Rightarrow> byte list" where
  "encode_dir_header h =
     le32 (dir_header_count h) @ le32 (dir_header_start_block h) @
     le32 (dir_header_inode_number h)"

definition decode_dir_header :: "byte list \<Rightarrow> (squashfs_dir_header \<times> byte list) option" where
  "decode_dir_header bs = do {
     (v0, bs) \<leftarrow> get_le 4 bs;
     (v1, bs) \<leftarrow> get_le 4 bs;
     (v2, bs) \<leftarrow> get_le 4 bs;
     Some (\<lparr>dir_header_count = v0, dir_header_start_block = v1,
       dir_header_inode_number = v2\<rparr>, bs) }"

interpretation dir_header_codec: struct_codec encode_dir_header decode_dir_header 12
  by unfold_locales (simp_all add: encode_dir_header_def decode_dir_header_def)

record squashfs_fragment_entry =
  fragment_entry_start_block :: u64
  fragment_entry_size :: u32
  fragment_entry_unused :: u32

definition encode_fragment_entry :: "squashfs_fragment_entry \<Rightarrow> byte list" where
  "encode_fragment_entry h =
     le64 (fragment_entry_start_block h) @ le32 (fragment_entry_size h) @
     le32 (fragment_entry_unused h)"

definition decode_fragment_entry :: "byte list \<Rightarrow> (squashfs_fragment_entry \<times> byte list) option" where
  "decode_fragment_entry bs = do {
     (v0, bs) \<leftarrow> get_le 8 bs;
     (v1, bs) \<leftarrow> get_le 4 bs;
     (v2, bs) \<leftarrow> get_le 4 bs;
     Some (\<lparr>fragment_entry_start_block = v0, fragment_entry_size = v1,
       fragment_entry_unused = v2\<rparr>, bs) }"

interpretation fragment_entry_codec: struct_codec encode_fragment_entry decode_fragment_entry 16
  by unfold_locales (simp_all add: encode_fragment_entry_def decode_fragment_entry_def)

record squashfs_xattr_entry =
  xattr_entry_type :: u16
  xattr_entry_size :: u16

definition encode_xattr_entry :: "squashfs_xattr_entry \<Rightarrow> byte list" where
  "encode_xattr_entry h =
     le16 (xattr_entry_type h) @ le16 (xattr_entry_size h)"

definition decode_xattr_entry :: "byte list \<Rightarrow> (squashfs_xattr_entry \<times> byte list) option" where
  "decode_xattr_entry bs = do {
     (v0, bs) \<leftarrow> get_le 2 bs;
     (v1, bs) \<leftarrow> get_le 2 bs;
     Some (\<lparr>xattr_entry_type = v0, xattr_entry_size = v1\<rparr>, bs) }"

interpretation xattr_entry_codec: struct_codec encode_xattr_entry decode_xattr_entry 4
  by unfold_locales (simp_all add: encode_xattr_entry_def decode_xattr_entry_def)

record squashfs_xattr_val =
  xattr_val_vsize :: u32

definition encode_xattr_val :: "squashfs_xattr_val \<Rightarrow> byte list" where
  "encode_xattr_val h =
     le32 (xattr_val_vsize h)"

definition decode_xattr_val :: "byte list \<Rightarrow> (squashfs_xattr_val \<times> byte list) option" where
  "decode_xattr_val bs = do {
     (v0, bs) \<leftarrow> get_le 4 bs;
     Some (\<lparr>xattr_val_vsize = v0\<rparr>, bs) }"

interpretation xattr_val_codec: struct_codec encode_xattr_val decode_xattr_val 4
  by unfold_locales (simp_all add: encode_xattr_val_def decode_xattr_val_def)

record squashfs_xattr_id =
  xattr_id_xattr :: u64
  xattr_id_count :: u32
  xattr_id_size :: u32

definition encode_xattr_id :: "squashfs_xattr_id \<Rightarrow> byte list" where
  "encode_xattr_id h =
     le64 (xattr_id_xattr h) @ le32 (xattr_id_count h) @ le32 (xattr_id_size h)"

definition decode_xattr_id :: "byte list \<Rightarrow> (squashfs_xattr_id \<times> byte list) option" where
  "decode_xattr_id bs = do {
     (v0, bs) \<leftarrow> get_le 8 bs;
     (v1, bs) \<leftarrow> get_le 4 bs;
     (v2, bs) \<leftarrow> get_le 4 bs;
     Some (\<lparr>xattr_id_xattr = v0, xattr_id_count = v1, xattr_id_size = v2\<rparr>, bs) }"

interpretation xattr_id_codec: struct_codec encode_xattr_id decode_xattr_id 16
  by unfold_locales (simp_all add: encode_xattr_id_def decode_xattr_id_def)

record squashfs_xattr_table =
  xattr_table_xattr_table_start :: u64
  xattr_table_xattr_ids :: u32
  xattr_table_unused :: u32

definition encode_xattr_table :: "squashfs_xattr_table \<Rightarrow> byte list" where
  "encode_xattr_table h =
     le64 (xattr_table_xattr_table_start h) @ le32 (xattr_table_xattr_ids h) @
     le32 (xattr_table_unused h)"

definition decode_xattr_table :: "byte list \<Rightarrow> (squashfs_xattr_table \<times> byte list) option" where
  "decode_xattr_table bs = do {
     (v0, bs) \<leftarrow> get_le 8 bs;
     (v1, bs) \<leftarrow> get_le 4 bs;
     (v2, bs) \<leftarrow> get_le 4 bs;
     Some (\<lparr>xattr_table_xattr_table_start = v0, xattr_table_xattr_ids = v1,
       xattr_table_unused = v2\<rparr>, bs) }"

interpretation xattr_table_codec: struct_codec encode_xattr_table decode_xattr_table 16
  by unfold_locales (simp_all add: encode_xattr_table_def decode_xattr_table_def)

text \<open>The sizes of the encodings, as one collection.\<close>

lemmas length_encode =
  super_block_codec.length_enc dir_index_codec.length_enc ipc_inode_header_codec.length_enc
  lipc_inode_header_codec.length_enc dev_inode_header_codec.length_enc
  ldev_inode_header_codec.length_enc symlink_inode_header_codec.length_enc
  reg_inode_header_codec.length_enc lreg_inode_header_codec.length_enc
  dir_inode_header_codec.length_enc ldir_inode_header_codec.length_enc
  dir_entry_codec.length_enc dir_header_codec.length_enc fragment_entry_codec.length_enc
  xattr_entry_codec.length_enc xattr_val_codec.length_enc xattr_id_codec.length_enc
  xattr_table_codec.length_enc

declare length_encode [simp, layout_simps]

section \<open>The "stored uncompressed" bits\<close>

lemma small_and_high_bit:
  assumes "unat (v :: 'a::len word) < 2 ^ n"
  shows "v AND push_bit n 1 = 0" and "v AND NOT (push_bit n 1) = v"
proof -
  have "\<not> bit (unat v) n" using assms by (simp add: bit_iff_odd)
  then have no_bit: "\<not> bit v n" by (simp add: bit_unsigned_iff)
  show "v AND push_bit n 1 = 0"
    using no_bit by (auto intro!: bit_word_eqI simp: bit_simps)
  show "v AND NOT (push_bit n 1) = v"
    using no_bit by (auto intro!: bit_word_eqI simp: bit_simps)
qed

text \<open>A header of the writer, as the reader's macros take it apart.\<close>

definition block_header :: "nat \<Rightarrow> bool \<Rightarrow> u16" where
  "block_header sz compressed = of_nat sz OR (if compressed then 0 else SQUASHFS_COMPRESSED_BIT)"

definition block_size_word :: "nat \<Rightarrow> bool \<Rightarrow> u32" where
  "block_size_word sz compressed =
     (if compressed then of_nat sz else of_nat sz OR SQUASHFS_COMPRESSED_BIT_BLOCK)"

lemma block_header_macros:
  assumes "0 < sz" "sz < 2 ^ 15"
  shows "SQUASHFS_COMPRESSED_SIZE (block_header sz c) = sz"
    and "SQUASHFS_COMPRESSED (block_header sz c) = c"
proof -
  let ?v = "of_nat sz :: u16"
  have v: "unat ?v = sz" using assms by (simp add: unat_of_nat)
  have hi: "?v AND 0x8000 = 0" and lo: "?v AND NOT 0x8000 = ?v"
    using small_and_high_bit [of ?v 15] v assms by (simp_all add: push_bit_eq_mult)
  have nz: "?v \<noteq> 0" using v assms by auto
  have or: "(?v OR 0x8000) AND NOT 0x8000 = ?v" "(?v OR 0x8000) AND 0x8000 = 0x8000"
    using lo by (simp_all add: bit.conj_disj_distrib2 bit.conj_disj_distrib)
  show "SQUASHFS_COMPRESSED_SIZE (block_header sz c) = sz"
    using lo or nz v by (cases c) (simp_all add: SQUASHFS_COMPRESSED_SIZE_def block_header_def)
  show "SQUASHFS_COMPRESSED (block_header sz c) = c"
    using hi or by (cases c) (simp_all add: SQUASHFS_COMPRESSED_def block_header_def)
qed

lemma block_size_word_macros:
  assumes "sz < 2 ^ 24"
  shows "SQUASHFS_COMPRESSED_SIZE_BLOCK (block_size_word sz c) = sz"
    and "SQUASHFS_COMPRESSED_BLOCK (block_size_word sz c) = c"
proof -
  let ?v = "of_nat sz :: u32"
  have v: "unat ?v = sz" using assms by (simp add: unat_of_nat)
  have hi: "?v AND 0x1000000 = 0" and lo: "?v AND NOT 0x1000000 = ?v"
    using small_and_high_bit [of ?v 24] v assms by (simp_all add: push_bit_eq_mult)
  have or: "(?v OR 0x1000000) AND NOT 0x1000000 = ?v" "(?v OR 0x1000000) AND 0x1000000 = 0x1000000"
    using lo by (simp_all add: bit.conj_disj_distrib2 bit.conj_disj_distrib)
  show "SQUASHFS_COMPRESSED_SIZE_BLOCK (block_size_word sz c) = sz"
    using lo or v by (cases c) (simp_all add: SQUASHFS_COMPRESSED_SIZE_BLOCK_def block_size_word_def)
  show "SQUASHFS_COMPRESSED_BLOCK (block_size_word sz c) = c"
    using hi or by (cases c) (simp_all add: SQUASHFS_COMPRESSED_BLOCK_def block_size_word_def)
qed

end
