(* ===== verification/Compressor.thy ===== *)
theory Compressor
  imports Format
begin

text \<open>
  compressor.h, compressor.c and the compressor_*.c files: compressors and their instances, the
  null compressor, and the wrappers around zlib, liblzma and libzstd. Those libraries are not
  part of the repository: they are the record \<open>external_codecs\<close>, an argument of what uses them.
\<close>

section \<open>Compressor instances\<close>

text \<open>
  A compression routine takes the size of the output area and the input; \<open>None\<close> is the return
  value \<open>-1\<close> and \<open>Some out\<close> a return value \<open>length out\<close> with \<open>out\<close> left in the output area.
\<close>

type_synonym compress_fun = "nat \<Rightarrow> byte list \<Rightarrow> byte list option"

text \<open>The method table of an instance; a slot may be a null pointer.\<close>

record libsqfs_compressor_instance =
  vmt_compress :: "compress_fun option"
  vmt_compress_meta :: "compress_fun option"

definition libsqfs_compressor_instance_compress ::
    "libsqfs_compressor_instance \<Rightarrow> nat \<Rightarrow> byte list \<Rightarrow> byte list option option" where
  "libsqfs_compressor_instance_compress i dst_size src = do {
     f \<leftarrow> vmt_compress i;
     Some (f dst_size src) }"

definition libsqfs_compressor_instance_compress_meta ::
    "libsqfs_compressor_instance \<Rightarrow> nat \<Rightarrow> byte list \<Rightarrow> byte list option option" where
  "libsqfs_compressor_instance_compress_meta i dst_size src = do {
     f \<leftarrow> vmt_compress_meta i;
     Some (f dst_size src) }"

section \<open>The contract of a compression routine\<close>

text \<open>
  What compressor.h promises, and what a reader needs: the output fits the output area, is not
  empty (a block of no bytes cannot be told from one of 32768) and decompresses to the input.
\<close>

locale lossless_codec =
  fixes comp :: compress_fun
    and decomp :: "byte list \<Rightarrow> byte list"
  assumes comp_fits: "comp n src = Some out \<Longrightarrow> length out \<le> n"
    and decomp_comp: "comp n src = Some out \<Longrightarrow> decomp out = src"
    and comp_nonempty: "comp n src = Some out \<Longrightarrow> src \<noteq> [] \<Longrightarrow> out \<noteq> []"
begin

text \<open>
  A block is kept compressed only when that makes it smaller. Whatever the routine does, the
  kept form is no longer than the block, and reading it by its flag gives the block back.
\<close>

lemma kept_form:
  assumes "(stored, flag) = (case comp n src of
      Some out \<Rightarrow> if length out < length src then (out, True) else (src, False)
    | None \<Rightarrow> (src, False))"
  shows "length stored \<le> length src"
    and "(if flag then decomp stored else stored) = src"
  using assms by (auto split: option.splits if_splits dest: decomp_comp)

text \<open>Distinct inputs never share an output.\<close>

lemma comp_inj: "comp n src = Some out \<Longrightarrow> comp m src' = Some out \<Longrightarrow> src = src'"
  using decomp_comp by metis

end

section \<open>The null compressor\<close>

definition null_compressor_instance_compress :: compress_fun where
  "null_compressor_instance_compress dst_size src = None"

definition null_compressor_vmt :: libsqfs_compressor_instance where
  "null_compressor_vmt = \<lparr>vmt_compress = Some null_compressor_instance_compress,
     vmt_compress_meta = None\<rparr>"

interpretation null_codec: lossless_codec null_compressor_instance_compress "\<lambda>bs. bs"
  by unfold_locales (simp_all add: null_compressor_instance_compress_def)

section \<open>The compression libraries\<close>

text \<open>
  \<^item> \<open>ext_deflate\<close>: output area size and input to the result of the \<open>Z_FINISH\<close> call of
    \<open>deflate\<close> and the output produced (\<open>total_out\<close> bytes);
  \<^item> \<open>ext_deflateInit\<close>: whether \<open>deflateInit\<close> returns \<open>Z_OK\<close>;
  \<^item> \<open>ext_lzma_alone_encoder\<close>, \<open>ext_lzma_code\<close>: the results of the two calls with a dictionary
    size, an output area size and an input;
  \<^item> \<open>ext_lzma_stream_buffer_encode\<close>: preset, dictionary size, output area size and input;
  \<^item> \<open>ext_ZSTD_compress\<close>, \<open>ext_ZSTD_isError\<close>: output area size, input and level to the returned
    \<open>size_t\<close> and the output area.
\<close>

record external_codecs =
  ext_deflateInit :: bool
  ext_deflate :: "nat \<Rightarrow> byte list \<Rightarrow> int \<times> byte list"
  ext_lzma_alone_encoder :: "nat \<Rightarrow> int"
  ext_lzma_code :: "nat \<Rightarrow> nat \<Rightarrow> byte list \<Rightarrow> int \<times> byte list"
  ext_lzma_stream_buffer_encode :: "u32 \<Rightarrow> nat \<Rightarrow> nat \<Rightarrow> byte list \<Rightarrow> int \<times> byte list"
  ext_ZSTD_compress :: "nat \<Rightarrow> byte list \<Rightarrow> u32 \<Rightarrow> u64 \<times> byte list"
  ext_ZSTD_isError :: "u64 \<Rightarrow> bool"

abbreviation (input) Z_STREAM_END :: int where "Z_STREAM_END \<equiv> 1"
abbreviation (input) LZMA_OK :: int where "LZMA_OK \<equiv> 0"
abbreviation (input) LZMA_STREAM_END :: int where "LZMA_STREAM_END \<equiv> 1"

definition libsqfs_compressor_instance_zlib_compress :: "external_codecs \<Rightarrow> compress_fun" where
  "libsqfs_compressor_instance_zlib_compress ext dst_size src =
     (let (result, out) = ext_deflate ext dst_size src in
      if result \<noteq> Z_STREAM_END then None else Some out)"

text \<open>The legacy LZMA wrapper patches the size of the input into bytes 5 to 12 of the output.\<close>

definition libsqfs_compressor_instance_lzma_compress :: "external_codecs \<Rightarrow> compress_fun" where
  "libsqfs_compressor_instance_lzma_compress ext dst_size src =
     (if ext_lzma_alone_encoder ext dst_size \<noteq> LZMA_OK then None
      else
        let (res, out) = ext_lzma_code ext dst_size dst_size src in
        if res = LZMA_STREAM_END
        then Some (take (length out) (memcpy out 5 (le64 (of_nat (length src)))))
        else if res = LZMA_OK then None
        else Some [])"

text \<open>The XZ wrapper: one routine, with the dictionary size of its two callers.\<close>

definition libsqfs_compressor_instance_xz_compress ::
    "external_codecs \<Rightarrow> u32 \<Rightarrow> nat \<Rightarrow> compress_fun" where
  "libsqfs_compressor_instance_xz_compress ext preset dict_size dst_size src =
     (let (res, out) = ext_lzma_stream_buffer_encode ext preset dict_size dst_size src in
      if res = LZMA_OK then Some out else None)"

definition libsqfs_compressor_instance_xz_compress_data ::
    "external_codecs \<Rightarrow> u32 \<Rightarrow> nat \<Rightarrow> compress_fun" where
  "libsqfs_compressor_instance_xz_compress_data ext preset dictionary_size =
     libsqfs_compressor_instance_xz_compress ext preset dictionary_size"

definition libsqfs_compressor_instance_xz_compress_meta ::
    "external_codecs \<Rightarrow> u32 \<Rightarrow> compress_fun" where
  "libsqfs_compressor_instance_xz_compress_meta ext preset =
     libsqfs_compressor_instance_xz_compress ext preset SQUASHFS_METADATA_SIZE"

definition libsqfs_compressor_instance_zstd_compress :: "external_codecs \<Rightarrow> u32 \<Rightarrow> compress_fun" where
  "libsqfs_compressor_instance_zstd_compress ext preset dst_size src =
     (let (ret, out) = ext_ZSTD_compress ext dst_size src preset in
      if \<not> ext_ZSTD_isError ext ret then Some (take (unat ret) out) else None)"

section \<open>Compressors\<close>

text \<open>
  A compressor handle: its class, with the parameters the class stores. The method tables are
  the case distinctions of the functions below.
\<close>

datatype libsqfs_compressor =
    Compressor_Null
  | Compressor_Zlib
  | Compressor_Lzma
  | Compressor_Xz (xz_dictionary_size: nat) (xz_flags: int) (xz_preset: u32)
  | Compressor_Zstd (zstd_preset: u32)

fun compressor_id :: "libsqfs_compressor \<Rightarrow> u16" where
  "compressor_id Compressor_Null = 0"
| "compressor_id Compressor_Zlib = 1"
| "compressor_id Compressor_Lzma = 2"
| "compressor_id (Compressor_Xz _ _ _) = 4"
| "compressor_id (Compressor_Zstd _) = 6"

fun compressor_vmt :: "external_codecs \<Rightarrow> libsqfs_compressor \<Rightarrow> libsqfs_compressor_instance" where
  "compressor_vmt ext Compressor_Null = null_compressor_vmt"
| "compressor_vmt ext Compressor_Zlib =
     \<lparr>vmt_compress = Some (libsqfs_compressor_instance_zlib_compress ext),
      vmt_compress_meta = Some (libsqfs_compressor_instance_zlib_compress ext)\<rparr>"
| "compressor_vmt ext Compressor_Lzma =
     \<lparr>vmt_compress = Some (libsqfs_compressor_instance_lzma_compress ext),
      vmt_compress_meta = Some (libsqfs_compressor_instance_lzma_compress ext)\<rparr>"
| "compressor_vmt ext (Compressor_Xz dict flags preset) =
     \<lparr>vmt_compress = Some (libsqfs_compressor_instance_xz_compress_data ext preset dict),
      vmt_compress_meta = Some (libsqfs_compressor_instance_xz_compress_meta ext preset)\<rparr>"
| "compressor_vmt ext (Compressor_Zstd preset) =
     \<lparr>vmt_compress = Some (libsqfs_compressor_instance_zstd_compress ext preset),
      vmt_compress_meta = Some (libsqfs_compressor_instance_zstd_compress ext preset)\<rparr>"

text \<open>\<open>open\<close> allocates the instance; zlib also initialises a stream and gives up if that fails.\<close>

definition libsqfs_compressor_open ::
    "external_codecs \<Rightarrow> heap \<Rightarrow> libsqfs_compressor \<Rightarrow> libsqfs_compressor_instance option \<times> heap" where
  "libsqfs_compressor_open ext h c =
     (let (ok, h) = malloc h in
      if \<not> ok then (None, h)
      else if c = Compressor_Zlib \<and> \<not> ext_deflateInit ext then (None, h)
      else (Some (compressor_vmt ext c), h))"

definition libsqfs_compressor_copy ::
    "heap \<Rightarrow> libsqfs_compressor \<Rightarrow> libsqfs_compressor option \<times> heap" where
  "libsqfs_compressor_copy h c = (let (ok, h) = malloc h in (if ok then Some c else None, h))"

subsection \<open>Option data of the XZ compressor\<close>

text \<open>\<open>ffs\<close>: the position, from 1, of the least significant set bit.\<close>

fun ffs :: "nat \<Rightarrow> nat" where
  "ffs n = (if n = 0 then 0 else if odd n then 1 else Suc (ffs (n div 2)))"

declare ffs.simps [simp del]

definition valid_dictionary_size :: "nat \<Rightarrow> bool" where
  "valid_dictionary_size sz \<longleftrightarrow>
     (if sz = 0 then True
      else if sz < 8192 \<or> sz > 1048576 then False
      else let n = ffs sz - 1 in sz = 1 * 2 ^ n \<or> sz = 3 * 2 ^ n)"

text \<open>
  The block of options stored behind the superblock, for the compressors that have one. The two
  assertions of the XZ compressor guard the null result \<open>None\<close> of the outer option.
\<close>

fun libsqfs_compressor_get_option_data ::
    "heap \<Rightarrow> libsqfs_compressor \<Rightarrow> (byte list option \<times> heap) option" where
  "libsqfs_compressor_get_option_data h (Compressor_Xz dict flags preset) =
     (if flags \<noteq> 0 then None
      else if \<not> valid_dictionary_size dict then None
      else if (dict = 0 \<or> dict = SQUASHFS_FILE_SIZE) \<and> flags = 0 then Some (None, h)
      else
        let (ok, h) = malloc h in
        if \<not> ok then Some (None, h)
        else
          let (ok, h) = malloc h in
          if \<not> ok then Some (None, h)
          else Some (Some (le32 (of_nat dict) @ le32 (of_int flags)), h))"
| "libsqfs_compressor_get_option_data h _ = Some (None, h)"

subsection \<open>Constructors\<close>

abbreviation (input) LZMA_PRESET_DEFAULT :: u32 where "LZMA_PRESET_DEFAULT \<equiv> 6"
abbreviation (input) ZSTD_CLEVEL_DEFAULT :: u32 where "ZSTD_CLEVEL_DEFAULT \<equiv> 3"

definition libsqfs_compressor_xz_create_default :: "heap \<Rightarrow> libsqfs_compressor option \<times> heap" where
  "libsqfs_compressor_xz_create_default h =
     (let (ok, h) = malloc h in
      (if ok then Some (Compressor_Xz SQUASHFS_FILE_SIZE 0 LZMA_PRESET_DEFAULT) else None, h))"

definition libsqfs_compressor_xz_create_level ::
    "heap \<Rightarrow> int \<Rightarrow> libsqfs_compressor option \<times> heap" where
  "libsqfs_compressor_xz_create_level h level =
     (if level < 0 \<or> level > 9 then (None, h)
      else
        let (self, h) = libsqfs_compressor_xz_create_default h in
        case self of
          None \<Rightarrow> (None, h)
        | Some c \<Rightarrow> (Some (Compressor_Xz (xz_dictionary_size c) (xz_flags c) (of_int level)), h))"

definition libsqfs_compressor_zstd_create_default :: "heap \<Rightarrow> libsqfs_compressor option \<times> heap" where
  "libsqfs_compressor_zstd_create_default h =
     (let (ok, h) = malloc h in
      (if ok then Some (Compressor_Zstd ZSTD_CLEVEL_DEFAULT) else None, h))"

definition libsqfs_compressor_zstd_create_level ::
    "heap \<Rightarrow> int \<Rightarrow> libsqfs_compressor option \<times> heap" where
  "libsqfs_compressor_zstd_create_level h level =
     (if level < 0 \<or> level > 22 then (None, h)
      else
        let (self, h) = libsqfs_compressor_zstd_create_default h in
        case self of
          None \<Rightarrow> (None, h)
        | Some c \<Rightarrow> (Some (Compressor_Zstd (of_int level)), h))"

section \<open>Lemmas\<close>

lemma ffs_odd_pow2: "odd m \<Longrightarrow> ffs (m * 2 ^ n) = Suc n"
proof (induction n)
  case 0
  then show ?case by (cases "m = 0") (simp_all add: ffs.simps [of m])
next
  case (Suc n)
  then have "m * 2 ^ n \<noteq> 0" by (cases "m = 0") auto
  moreover have "m * 2 ^ Suc n = 2 * (m * 2 ^ n)" by simp
  ultimately show ?case using Suc ffs.simps [of "2 * (m * 2 ^ n)"]
    by (simp add: mult.left_commute [of m])
qed

lemma valid_dictionary_size_iff:
  "valid_dictionary_size sz \<longleftrightarrow>
     sz = 0 \<or> 8192 \<le> sz \<and> sz \<le> 1048576 \<and> (\<exists>n. sz = 2 ^ n \<or> sz = 2 ^ n + 2 ^ Suc n)"
proof (cases "sz = 0 \<or> sz < 8192 \<or> sz > 1048576")
  case True
  then show ?thesis by (auto simp: valid_dictionary_size_def)
next
  case False
  have "(\<exists>n. sz = 2 ^ n \<or> sz = 2 ^ n + 2 ^ Suc n) \<longleftrightarrow>
      sz = 1 * 2 ^ (ffs sz - 1) \<or> sz = 3 * 2 ^ (ffs sz - 1)" (is "?l \<longleftrightarrow> ?r")
  proof
    assume ?l
    then obtain n where "sz = 1 * 2 ^ n \<or> sz = 3 * 2 ^ n" by auto
    then show ?r using ffs_odd_pow2 [of 1 n] ffs_odd_pow2 [of 3 n] by auto
  next
    assume ?r
    then have "sz = 2 ^ (ffs sz - 1) \<or> sz = 2 ^ (ffs sz - 1) + 2 ^ Suc (ffs sz - 1)"
      by simp
    then show ?l by blast
  qed
  with False show ?thesis by (auto simp: valid_dictionary_size_def Let_def)
qed

text \<open>The option data of a compressor is 8 bytes where there is any.\<close>

lemma get_option_data_length:
  "libsqfs_compressor_get_option_data h c = Some (Some d, h') \<Longrightarrow> length d = 8"
  by (cases c) (auto split: if_splits prod.splits)

text \<open>A compressor made by the library's constructors never fails the assertions.\<close>

lemma xz_created_options:
  assumes "libsqfs_compressor_xz_create_level h level = (Some c, h')
     \<or> libsqfs_compressor_xz_create_default h = (Some c, h')"
  shows "libsqfs_compressor_get_option_data h'' c = Some (None, h'')"
proof -
  have "valid_dictionary_size SQUASHFS_FILE_SIZE"
    unfolding valid_dictionary_size_iff by (auto intro: exI [of _ "17 :: nat"])
  with assms show ?thesis
    by (auto simp: libsqfs_compressor_xz_create_level_def libsqfs_compressor_xz_create_default_def
        split: prod.splits if_splits option.splits)
qed

text \<open>Every instance has both methods, except that of the null compressor.\<close>

lemma open_has_compress_meta:
  assumes "libsqfs_compressor_open ext h c = (Some i, h')"
  shows "vmt_compress_meta i = None \<longleftrightarrow> c = Compressor_Null" and "vmt_compress i \<noteq> None"
  using assms by (cases c; auto simp: libsqfs_compressor_open_def null_compressor_vmt_def
      split: prod.splits if_splits)+

text \<open>
  The zlib, XZ and Zstd wrappers satisfy the contract when their library does what its
  documentation says of a success: the output fits and decompresses to the input.
\<close>

lemma zlib_lossless:
  assumes "\<And>n src out. ext_deflate ext n src = (Z_STREAM_END, out) \<Longrightarrow>
     length out \<le> n \<and> out \<noteq> [] \<and> inflate out = src"
  shows "lossless_codec (libsqfs_compressor_instance_zlib_compress ext) inflate"
  using assms by unfold_locales
    (auto simp: libsqfs_compressor_instance_zlib_compress_def split: prod.splits if_splits)

lemma xz_lossless:
  assumes "\<And>n src out. ext_lzma_stream_buffer_encode ext preset dict n src = (LZMA_OK, out) \<Longrightarrow>
     length out \<le> n \<and> out \<noteq> [] \<and> unxz out = src"
  shows "lossless_codec (libsqfs_compressor_instance_xz_compress ext preset dict) unxz"
  using assms by unfold_locales
    (auto simp: libsqfs_compressor_instance_xz_compress_def split: prod.splits if_splits)

lemma zstd_lossless:
  assumes "\<And>n src out ret. ext_ZSTD_compress ext n src level = (ret, out) \<Longrightarrow> \<not> ext_ZSTD_isError ext ret \<Longrightarrow>
     unat ret \<le> n \<and> take (unat ret) out \<noteq> [] \<and> unzstd (take (unat ret) out) = src"
  shows "lossless_codec (libsqfs_compressor_instance_zstd_compress ext level) unzstd"
  using assms by unfold_locales
    (fastforce simp: libsqfs_compressor_instance_zstd_compress_def split: prod.splits if_splits)+

section \<open>Properties\<close>

text \<open>The dictionary sizes the XZ compressor accepts are 0 (the default) and, between 8192 and
  1048576, the powers of two and the sums of two consecutive powers of two.\<close>

theorem valid_dictionary_size_spec:
  "valid_dictionary_size sz =
     (sz = 0 \<or> (8192 \<le> sz \<and> sz \<le> 1048576 \<and> (\<exists>n. sz = 2 ^ n \<or> sz = 2 ^ n + 2 ^ Suc n)))"
  using valid_dictionary_size_iff by auto

end
