(* ===== verification/Destination.thy ===== *)
theory Destination
  imports Prelude
begin

text \<open>
  destination.c: the output of an image, and \<open>libsqfs_image_reserve\<close> of image.c, which hands
  out space in it. A destination is a file descriptor or the null output; the two method tables
  are the case distinctions of \<open>libsqfs_pwrite\<close>, \<open>libsqfs_truncate\<close> and
  \<open>libsqfs_destination_release\<close>.
\<close>

section \<open>POSIX files\<close>

text \<open>
  An open file: its bytes, the largest size it may grow to (the file size limit or the space on
  its device), whether the descriptor is open, and whether the destination owns it. \<open>pwrite\<close>
  stores as many bytes as there is room for and fails when there is room for none; \<open>ftruncate\<close>
  cuts the file or extends it with zeros; both refuse a negative offset.
\<close>

record libsqfs_destination_file =
  contents :: "byte list"
  size_limit :: nat
  fd_open :: bool
  owns_fd :: bool

definition pwrite :: "libsqfs_destination_file \<Rightarrow> byte list \<Rightarrow> u64 \<Rightarrow> int \<times> libsqfs_destination_file" where
  "pwrite f buf offset =
     (let off = unat offset; n = min (length buf) (size_limit f - off) in
      if sint offset < 0 then (-1, f)
      else if buf = [] then (0, f)
      else if n = 0 then (-1, f)
      else (int n, f\<lparr>contents :=
        memcpy (contents f @ replicate (off - length (contents f)) 0) off (take n buf)\<rparr>))"

definition ftruncate :: "libsqfs_destination_file \<Rightarrow> u64 \<Rightarrow> int \<times> libsqfs_destination_file" where
  "ftruncate f offset =
     (let off = unat offset in
      if sint offset < 0 \<or> size_limit f < off then (-1, f)
      else (0, f\<lparr>contents := take off (contents f) @ replicate (off - length (contents f)) 0\<rparr>))"

section \<open>Destinations\<close>

datatype libsqfs_destination =
    Dest_File (dest_file: libsqfs_destination_file)
  | Dest_Null

definition libsqfs_destination_file_pwrite ::
    "libsqfs_destination_file \<Rightarrow> byte list \<Rightarrow> u64 \<Rightarrow> int \<times> libsqfs_destination_file" where
  "libsqfs_destination_file_pwrite f buffer offset = pwrite f buffer offset"

definition libsqfs_destination_file_truncate ::
    "libsqfs_destination_file \<Rightarrow> u64 \<Rightarrow> int \<times> libsqfs_destination_file" where
  "libsqfs_destination_file_truncate f offset = ftruncate f offset"

definition libsqfs_destination_file_close :: "libsqfs_destination_file \<Rightarrow> libsqfs_destination_file" where
  "libsqfs_destination_file_close f = (if owns_fd f then f\<lparr>fd_open := False\<rparr> else f)"

fun libsqfs_pwrite :: "libsqfs_destination \<Rightarrow> byte list \<Rightarrow> u64 \<Rightarrow> int \<times> libsqfs_destination" where
  "libsqfs_pwrite (Dest_File f) buffer offset =
     (let (count, f) = libsqfs_destination_file_pwrite f buffer offset in (count, Dest_File f))"
| "libsqfs_pwrite Dest_Null buffer offset = (int (length buffer), Dest_Null)"

fun libsqfs_truncate :: "libsqfs_destination \<Rightarrow> u64 \<Rightarrow> int \<times> libsqfs_destination" where
  "libsqfs_truncate (Dest_File f) offset =
     (let (err, f) = libsqfs_destination_file_truncate f offset in (err, Dest_File f))"
| "libsqfs_truncate Dest_Null offset = (0, Dest_Null)"

text \<open>What is left of the file behind a destination once the handle is released.\<close>

fun libsqfs_destination_release :: "libsqfs_destination \<Rightarrow> libsqfs_destination_file option" where
  "libsqfs_destination_release (Dest_File f) = Some (libsqfs_destination_file_close f)"
| "libsqfs_destination_release Dest_Null = None"

text \<open>
  The constructors: the new handle or a null pointer, and the file as they leave it (an error
  after \<open>open\<close> closes the descriptor the constructor opened itself). \<open>opened\<close> is the outcome of
  \<open>open\<close>.
\<close>

definition libsqfs_destination_create_for_filedes ::
    "heap \<Rightarrow> libsqfs_destination_file \<Rightarrow> libsqfs_destination option \<times> libsqfs_destination_file \<times> heap" where
  "libsqfs_destination_create_for_filedes h fd =
     (let (err, fd) = ftruncate fd 0 in
      if err \<noteq> 0 then (None, fd, h)
      else
        let (ok, h) = malloc h in
        if \<not> ok then (None, fd, h)
        else (Some (Dest_File (fd\<lparr>owns_fd := False\<rparr>)), fd, h))"

definition libsqfs_destination_create_for_file ::
    "heap \<Rightarrow> libsqfs_destination_file option \<Rightarrow>
     libsqfs_destination option \<times> libsqfs_destination_file option \<times> heap" where
  "libsqfs_destination_create_for_file h opened =
     (case opened of
        None \<Rightarrow> (None, None, h)
      | Some fd \<Rightarrow>
          let (err, fd) = ftruncate fd 0 in
          if err \<noteq> 0 then (None, Some (fd\<lparr>fd_open := False\<rparr>), h)
          else
            let (ok, h) = malloc h in
            if \<not> ok then (None, Some (fd\<lparr>fd_open := False\<rparr>), h)
            else (Some (Dest_File (fd\<lparr>owns_fd := True\<rparr>)), Some fd, h))"

definition libsqfs_destination_create_null :: "heap \<Rightarrow> libsqfs_destination option \<times> heap" where
  "libsqfs_destination_create_null h =
     (let (ok, h) = malloc h in (if ok then Some Dest_Null else None, h))"

section \<open>The output side of an image\<close>

text \<open>
  The fields of \<open>struct libsqfs_image\<close> that every writer uses, with the process's heap; the
  records of the later theories extend this one.
\<close>

record sqfs_out =
  mem :: heap
  dst :: libsqfs_destination
  img_size :: u64

definition libsqfs_image_reserve :: "'a sqfs_out_scheme \<Rightarrow> nat \<Rightarrow> u64 \<times> 'a sqfs_out_scheme" where
  "libsqfs_image_reserve img bytes =
     (let current = img_size img in
      (current, img\<lparr>img_size := img_size img + of_nat bytes\<rparr>))"

section \<open>The contract of an output\<close>

text \<open>
  A sink into which blocks can be written at any offset: a write that reports the full count is
  there to be read, touches nothing else, and lies below the largest offset. Every squashfs
  table relies on this.
\<close>

locale random_access_sink =
  fixes put :: "'s \<Rightarrow> byte list \<Rightarrow> u64 \<Rightarrow> int \<times> 's"
    and bytes :: "'s \<Rightarrow> byte list"
    and ok :: "'s \<Rightarrow> bool"
  assumes put_ok: "ok s \<Longrightarrow> put s buf off = (r, s') \<Longrightarrow> ok s'"
    and put_full: "ok s \<Longrightarrow> put s buf off = (int (length buf), s') \<Longrightarrow> buf \<noteq> [] \<Longrightarrow>
      slice (unat off) (length buf) (bytes s') = buf"
    and put_bound: "ok s \<Longrightarrow> put s buf off = (int (length buf), s') \<Longrightarrow> buf \<noteq> [] \<Longrightarrow>
      unat off + length buf < 2 ^ 63"
    and put_frame: "ok s \<Longrightarrow> put s buf off = (r, s') \<Longrightarrow> o' + n \<le> length (bytes s) \<Longrightarrow>
      o' + n \<le> unat off \<or> unat off + length buf \<le> o' \<Longrightarrow> slice o' n (bytes s') = slice o' n (bytes s)"
    and put_grows: "ok s \<Longrightarrow> put s buf off = (r, s') \<Longrightarrow> length (bytes s) \<le> length (bytes s')"

text \<open>A run of blocks written one behind the other, stopping at the first short write.\<close>

fun pwrite_run :: "('s \<Rightarrow> byte list \<Rightarrow> u64 \<Rightarrow> int \<times> 's) \<Rightarrow> 's \<Rightarrow> u64 \<Rightarrow> byte list list \<Rightarrow> bool \<times> 's" where
  "pwrite_run put s off [] = (True, s)"
| "pwrite_run put s off (b # bs) =
     (let (r, s) = put s b off in
      if r \<noteq> int (length b) then (False, s) else pwrite_run put s (off + of_nat (length b)) bs)"

context random_access_sink
begin

lemma slice_nonempty_bound: "slice a (length b) xs = b \<Longrightarrow> b \<noteq> [] \<Longrightarrow> a + length b \<le> length xs"
proof -
  assume "slice a (length b) xs = b" "b \<noteq> []"
  then have "length (slice a (length b) xs) = length b" "0 < length b" by auto
  then show ?thesis by (cases "a \<le> length xs") (auto simp: min_def split: if_splits)
qed

text \<open>What a run leaves outside its own range, whether it succeeds or not.\<close>

lemma run_frame:
  assumes "ok s" "pwrite_run put s off bs = (r, s')"
    and "o' + n \<le> length (bytes s)" "o' + n \<le> unat off"
  shows "slice o' n (bytes s') = slice o' n (bytes s) \<and> ok s' \<and> length (bytes s) \<le> length (bytes s')"
  using assms
proof (induction bs arbitrary: s off)
  case (Cons b bs)
  obtain r1 s1 where put: "put s b off = (r1, s1)" by (cases "put s b off")
  note step = put_ok [OF Cons.prems(1) put] put_grows [OF Cons.prems(1) put]
    put_frame [OF Cons.prems(1) put Cons.prems(3)]
  show ?case
  proof (cases "r1 = int (length b)")
    case False
    with Cons.prems put step show ?thesis by auto
  next
    case True
    have "unat off + length b < 2 ^ 64" if "b \<noteq> []"
      using put_bound [OF Cons.prems(1)] put True that by fastforce
    then have "unat off \<le> unat (off + of_nat (length b))"
      using unat_plus_of_nat [of off "length b"] by (cases b) auto
    then have "o' + n \<le> unat (off + of_nat (length b))" using Cons.prems(4) by linarith
    moreover have "pwrite_run put s1 (off + of_nat (length b)) bs = (r, s')"
      using Cons.prems(2) put True by simp
    ultimately show ?thesis
      using Cons.IH [of s1 "off + of_nat (length b)"] step Cons.prems by auto
  qed
qed simp

text \<open>After a complete run the blocks lie in the sink back to back.\<close>

lemma run_full:
  assumes "ok s" "pwrite_run put s off bs = (True, s')"
    and "\<forall>b \<in> set bs. b \<noteq> []"
  shows "slice (unat off) (length (concat bs)) (bytes s') = concat bs"
  using assms
proof (induction bs arbitrary: s off)
  case (Cons b bs)
  obtain s1 where put: "put s b off = (int (length b), s1)"
    and rest: "pwrite_run put s1 (off + of_nat (length b)) bs = (True, s')"
    using Cons.prems(2) by (auto split: prod.splits if_splits)
  have ne: "b \<noteq> []" using Cons.prems(3) by simp
  have ok1: "ok s1" using put_ok [OF Cons.prems(1) put] .
  have here: "slice (unat off) (length b) (bytes s1) = b"
    by (rule put_full [OF Cons.prems(1) put ne])
  have nxt: "unat (off + of_nat (length b)) = unat off + length b"
    using put_bound [OF Cons.prems(1) put ne] by (intro unat_plus_of_nat) simp
  have kept: "slice (unat off) (length b) (bytes s') = b"
    using run_frame [OF ok1 rest slice_nonempty_bound [OF here ne]] nxt here by simp
  have more: "slice (unat off + length b) (length (concat bs)) (bytes s') = concat bs"
    using Cons.IH [OF ok1 rest] Cons.prems(3) nxt by simp
  have "slice (unat off) (length b + length (concat bs)) (bytes s') =
      slice (unat off) (length b) (bytes s') @ slice (unat off + length b) (length (concat bs)) (bytes s')"
    by (simp add: slice_def take_add add.commute)
  with kept more show ?case by simp
qed (simp add: slice_def)

lemma run_bound:
  assumes "ok s" "pwrite_run put s off bs = (True, s')"
    and "\<forall>b \<in> set bs. b \<noteq> []" and "bs \<noteq> []"
  shows "unat off + length (concat bs) < 2 ^ 63"
  using assms
proof (induction bs arbitrary: s off)
  case (Cons b bs)
  obtain s1 where put: "put s b off = (int (length b), s1)"
    and rest: "pwrite_run put s1 (off + of_nat (length b)) bs = (True, s')"
    using Cons.prems(2) by (auto split: prod.splits if_splits)
  have here: "unat off + length b < 2 ^ 63"
    using put_bound [OF Cons.prems(1) put] Cons.prems(3) by simp
  then have "unat (off + of_nat (length b)) = unat off + length b"
    by (intro unat_plus_of_nat) simp
  with Cons.IH [OF put_ok [OF Cons.prems(1) put] rest] Cons.prems(3) here
  show ?case by (cases "bs = []") auto
qed simp

end

text \<open>A file destination is such a sink. The null destination is not: it stores nothing.\<close>

fun dest_bytes :: "libsqfs_destination \<Rightarrow> byte list" where
  "dest_bytes (Dest_File f) = contents f"
| "dest_bytes Dest_Null = []"

fun file_dest_ok :: "libsqfs_destination \<Rightarrow> bool" where
  "file_dest_ok (Dest_File f) \<longleftrightarrow> size_limit f < 2 ^ 63"
| "file_dest_ok Dest_Null \<longleftrightarrow> False"

lemma pwrite_nonneg_offset: "sint (off :: u64) \<ge> 0 \<Longrightarrow> unat off < 2 ^ 63"
proof -
  assume "sint off \<ge> 0"
  then have "\<not> bit off 63" using bit_last_iff [of off] by simp
  then have "take_bit 63 off = off"
  proof (intro bit_word_eqI)
    fix n assume "\<not> bit off 63" "n < LENGTH(64)"
    then show "bit (take_bit 63 off) n = bit off n" by (cases "n = 63") (auto simp: bit_simps)
  qed
  then have "unat off = take_bit 63 (unat off)" by (metis unsigned_take_bit_eq)
  then show ?thesis by (metis take_bit_nat_less_exp)
qed

interpretation dest_sink: random_access_sink libsqfs_pwrite dest_bytes file_dest_ok
proof (unfold_locales, goal_cases)
  case (1 s buf off r s')
  then show ?case
    by (cases s) (auto simp: libsqfs_destination_file_pwrite_def pwrite_def Let_def split: if_splits)
next
  case (2 s buf off s')
  then obtain f where s: "s = Dest_File f" by (cases s) auto
  have "length buf \<le> size_limit f - unat off" "s' = Dest_File (f\<lparr>contents :=
      memcpy (contents f @ replicate (unat off - length (contents f)) 0) (unat off) buf\<rparr>)"
    using 2 s by (auto simp: libsqfs_destination_file_pwrite_def pwrite_def Let_def min_def split: if_splits)
  then show ?case by (simp add: slice_memcpy_same)
next
  case (3 s buf off s')
  then show ?case
    by (cases s; cases buf) (auto simp: libsqfs_destination_file_pwrite_def pwrite_def Let_def min_def split: if_splits)
next
  case (4 s buf off r s' o' n)
  then obtain f where s: "s = Dest_File f" by (cases s) auto
  let ?c = "contents f @ replicate (unat off - length (contents f)) 0"
  have "slice o' n (memcpy ?c (unat off) (take k buf)) = slice o' n (contents f)" for k
  proof (cases "o' + n \<le> unat off")
    case True
    then show ?thesis using 4(3) s by (simp add: slice_memcpy_below slice_append_left)
  next
    case False
    then show ?thesis using 4(3,4) s by (simp add: slice_memcpy_above slice_append_left)
  qed
  then show ?case
    using 4(2) s by (auto simp: libsqfs_destination_file_pwrite_def pwrite_def Let_def split: if_splits)
next
  case (5 s buf off r s')
  then show ?case
    by (cases s) (auto simp: libsqfs_destination_file_pwrite_def pwrite_def Let_def memcpy_def split: if_splits)
qed

end
