(* ===== verification/Metatable.thy ===== *)
theory Metatable
  imports Compressor Destination
begin

text \<open>
  metatable.c: a metadata table collects bytes in blocks of 8192, compresses every full block
  and hands out positions (the start of a block within the table on disk, and an offset in the
  uncompressed block). First the operations as the code has them, then what a table means: the
  bytes appended to it, the positions that refer to them, and how a reader finds them on disk.
\<close>

section \<open>State\<close>

text \<open>
  \<open>blocks\<close> is the chain \<open>first .. last\<close> of finished blocks. The block being filled is
  \<open>opened_block\<close>.
\<close>

record libsqfs_metablock =
  mb_size :: nat
  mb_offset :: u32
  mb_compressed :: bool
  mb_data :: "byte list"

record libsqfs_metatable =
  blocks :: "libsqfs_metablock list"
  nmetablocks :: nat
  opened_block :: "libsqfs_metablock option"
  opened_block_fill :: nat
  mt_compressor :: "libsqfs_compressor_instance option"
  mt_size :: u32
  mt_offset :: u64

record libsqfs_metatable_entry =
  me_block :: u32
  me_offset :: u32

section \<open>Operations\<close>

definition libsqfs_metatable_init :: "libsqfs_compressor_instance option \<Rightarrow> libsqfs_metatable" where
  "libsqfs_metatable_init compressor =
     \<lparr>blocks = [], nmetablocks = 0, opened_block = None, opened_block_fill = 0,
      mt_compressor = compressor, mt_size = 0, mt_offset = -1\<rparr>"

text \<open>
  Closing the opened block: it is replaced by its compressed form when the compressor returns
  one that is smaller. \<open>None\<close>: the call goes through a null method pointer.
\<close>

definition libsqfs_metatable_flush :: "libsqfs_metatable \<Rightarrow> libsqfs_metatable option" where
  "libsqfs_metatable_flush tab =
     (case opened_block tab of
        None \<Rightarrow> Some tab
      | Some block \<Rightarrow> do {
          let block = block\<lparr>mb_size := opened_block_fill tab\<rparr>;
          compressed \<leftarrow>
            (case mt_compressor tab of
               None \<Rightarrow> Some None
             | Some i \<Rightarrow> libsqfs_compressor_instance_compress_meta i SQUASHFS_METADATA_SIZE
                 (take (mb_size block) (mb_data block)));
          let block =
            (case compressed of
               None \<Rightarrow> block
             | Some buffer \<Rightarrow>
                 if length buffer < mb_size block
                 then block\<lparr>mb_data := memcpy (mb_data block) 0 buffer,
                   mb_size := length buffer, mb_compressed := True\<rparr>
                 else block);
          Some (tab\<lparr>opened_block := None, opened_block_fill := 0,
            mt_size := mt_size tab + of_nat (mb_size block + 2),
            blocks := blocks tab @ [block],
            nmetablocks := nmetablocks tab + 1\<rparr>) })"

definition libsqfs_metatable_getblock ::
    "heap \<Rightarrow> libsqfs_metatable \<Rightarrow> libsqfs_metablock option \<times> libsqfs_metatable \<times> heap" where
  "libsqfs_metatable_getblock h tab =
     (case opened_block tab of
        Some block \<Rightarrow> (Some block, tab, h)
      | None \<Rightarrow>
          let (ok, h) = malloc h in
          if \<not> ok then (None, tab, h)
          else
            let block = \<lparr>mb_size = SQUASHFS_METADATA_SIZE, mb_offset = mt_size tab,
              mb_compressed = False, mb_data = replicate SQUASHFS_METADATA_SIZE 0\<rparr> in
            (Some block, tab\<lparr>opened_block := Some block, opened_block_fill := 0\<rparr>, h))"

text \<open>
  The copy loop of append: as much as fits into the opened block, which is flushed when full.
  \<open>None\<close> is a crash in flush or a loop that does not end.
\<close>

partial_function (option) metatable_append_loop ::
    "heap \<Rightarrow> libsqfs_metatable \<Rightarrow> byte list \<Rightarrow> (bool \<times> libsqfs_metatable \<times> heap) option" where
  "metatable_append_loop h tab data =
     (if data = [] then Some (True, tab, h)
      else
        (case libsqfs_metatable_getblock h tab of
           (None, tab, h) \<Rightarrow> Some (False, tab, h)
         | (Some block, tab, h) \<Rightarrow>
             let to_copy = min (SQUASHFS_METADATA_SIZE - opened_block_fill tab) (length data);
                 block = block\<lparr>mb_data :=
                   memcpy (mb_data block) (opened_block_fill tab) (take to_copy data)\<rparr>;
                 tab = tab\<lparr>opened_block := Some block,
                   opened_block_fill := opened_block_fill tab + to_copy\<rparr> in
             Option.bind
               (if opened_block_fill tab = SQUASHFS_METADATA_SIZE then libsqfs_metatable_flush tab
                else Some tab)
               (\<lambda>tab. metatable_append_loop h tab (drop to_copy data))))"

text \<open>The position is recorded before anything is copied.\<close>

definition libsqfs_metatable_append ::
    "heap \<Rightarrow> libsqfs_metatable \<Rightarrow> byte list \<Rightarrow>
     (bool \<times> libsqfs_metatable_entry \<times> libsqfs_metatable \<times> heap) option" where
  "libsqfs_metatable_append h tab data = do {
     let pos = \<lparr>me_block = mt_size tab, me_offset = of_nat (opened_block_fill tab)\<rparr>;
     (ok, tab, h) \<leftarrow> metatable_append_loop h tab data;
     Some (ok, pos, tab, h) }"

text \<open>Writing the blocks, each behind its two-byte header.\<close>

fun metatable_write_blocks ::
    "libsqfs_destination \<Rightarrow> u64 \<Rightarrow> libsqfs_metablock list \<Rightarrow> bool \<times> libsqfs_destination" where
  "metatable_write_blocks d offset [] = (True, d)"
| "metatable_write_blocks d offset (block # rest) =
     (let header = le16 (block_header (mb_size block) (mb_compressed block));
          (written, d) = libsqfs_pwrite d header offset in
      if written \<noteq> 2 then (False, d)
      else
        let (written, d) = libsqfs_pwrite d (take (mb_size block) (mb_data block)) (offset + 2) in
        if written \<noteq> int (mb_size block) then (False, d)
        else metatable_write_blocks d (offset + of_nat (mb_size block) + 2) rest)"

definition libsqfs_metatable_write ::
    "libsqfs_metatable \<Rightarrow> 'a sqfs_out_scheme \<Rightarrow> (bool \<times> libsqfs_metatable \<times> 'a sqfs_out_scheme) option" where
  "libsqfs_metatable_write tab img = do {
     tab \<leftarrow> libsqfs_metatable_flush tab;
     let (start, img) = libsqfs_image_reserve img (unat (mt_size tab));
     let (ok, d) = metatable_write_blocks (dst img) start (blocks tab);
     let img = img\<lparr>dst := d\<rparr>;
     if \<not> ok then Some (False, tab, img)
     else Some (True, tab\<lparr>mt_offset := start\<rparr>, img) }"

definition libsqfs_metatable_write_with_index ::
    "libsqfs_metatable \<Rightarrow> 'a sqfs_out_scheme \<Rightarrow> (bool \<times> libsqfs_metatable \<times> 'a sqfs_out_scheme) option" where
  "libsqfs_metatable_write_with_index tab img = do {
     (ok, tab, img) \<leftarrow> libsqfs_metatable_write tab img;
     if \<not> ok then Some (False, tab, img)
     else do {
       let table_base = mt_offset tab;
       let (index_table_base, img) = libsqfs_image_reserve img (8 * nmetablocks tab);
       if length (blocks tab) < nmetablocks tab then None
       else do {
         let index_table =
           map (\<lambda>block. table_base + ucast (mb_offset block)) (take (nmetablocks tab) (blocks tab));
         let (written, d) = libsqfs_pwrite (dst img) (encode_array le64 index_table) index_table_base;
         let img = img\<lparr>dst := d\<rparr>;
         if written \<noteq> int (8 * nmetablocks tab) then Some (False, tab, img)
         else Some (True, tab\<lparr>mt_offset := index_table_base\<rparr>, img) } } }"

section \<open>What a table holds\<close>

text \<open>The bytes a block stands for, for a reader with the decompressor \<open>decomp\<close>.\<close>

definition block_payload :: "libsqfs_metablock \<Rightarrow> byte list" where
  "block_payload b = take (mb_size b) (mb_data b)"

definition block_plain :: "(byte list \<Rightarrow> byte list) \<Rightarrow> libsqfs_metablock \<Rightarrow> byte list" where
  "block_plain decomp b = (if mb_compressed b then decomp (block_payload b) else block_payload b)"

definition opened_bytes :: "libsqfs_metatable \<Rightarrow> byte list" where
  "opened_bytes tab = (case opened_block tab of None \<Rightarrow> []
     | Some b \<Rightarrow> take (opened_block_fill tab) (mb_data b))"

definition table_bytes :: "(byte list \<Rightarrow> byte list) \<Rightarrow> libsqfs_metatable \<Rightarrow> byte list" where
  "table_bytes decomp tab = concat (map (block_plain decomp) (blocks tab)) @ opened_bytes tab"

text \<open>The finished blocks on disk, and the size the code keeps count of.\<close>

definition block_on_disk :: "libsqfs_metablock \<Rightarrow> byte list" where
  "block_on_disk b = le16 (block_header (mb_size b) (mb_compressed b)) @ block_payload b"

abbreviation on_disk :: "libsqfs_metablock list \<Rightarrow> byte list" where
  "on_disk bs \<equiv> concat (map block_on_disk bs)"

definition disk_size :: "libsqfs_metablock list \<Rightarrow> nat" where
  "disk_size bs = (\<Sum>b\<leftarrow>bs. mb_size b + 2)"

lemma disk_size_simps [simp]:
  "disk_size [] = 0" "disk_size (b # bs) = mb_size b + 2 + disk_size bs"
  "disk_size (xs @ ys) = disk_size xs + disk_size ys"
  by (simp_all add: disk_size_def)

text \<open>The compressor of a table keeps the contract of \<open>lossless_codec\<close> on its metadata slot.\<close>

definition codec_ok :: "(byte list \<Rightarrow> byte list) \<Rightarrow> libsqfs_compressor_instance option \<Rightarrow> bool" where
  "codec_ok decomp c \<longleftrightarrow>
     (case c of None \<Rightarrow> True
      | Some i \<Rightarrow> (case vmt_compress_meta i of None \<Rightarrow> False | Some f \<Rightarrow> lossless_codec f decomp))"

text \<open>
  The invariant. Finished blocks hold between 1 and 8192 bytes, fit their buffer and their
  header, and know their place in the table; the opened block, if any, is uncompressed, neither
  empty nor full; the counters are right.
\<close>

definition block_wf :: "(byte list \<Rightarrow> byte list) \<Rightarrow> libsqfs_metablock \<Rightarrow> bool" where
  "block_wf decomp b \<longleftrightarrow> length (mb_data b) = SQUASHFS_METADATA_SIZE \<and>
     0 < mb_size b \<and> mb_size b \<le> length (block_plain decomp b) \<and> block_plain decomp b \<noteq> [] \<and>
     length (block_plain decomp b) \<le> SQUASHFS_METADATA_SIZE"

fun chain_wf :: "u32 \<Rightarrow> libsqfs_metablock list \<Rightarrow> bool" where
  "chain_wf off [] = True"
| "chain_wf off (b # bs) \<longleftrightarrow> mb_offset b = off \<and> chain_wf (off + of_nat (mb_size b + 2)) bs"

definition opened_upto :: "nat \<Rightarrow> libsqfs_metatable \<Rightarrow> bool" where
  "opened_upto n tab \<longleftrightarrow>
     (case opened_block tab of
        None \<Rightarrow> opened_block_fill tab = 0
      | Some b \<Rightarrow> 0 < opened_block_fill tab \<and> opened_block_fill tab \<le> n \<and>
          length (mb_data b) = SQUASHFS_METADATA_SIZE \<and> \<not> mb_compressed b \<and> mb_offset b = mt_size tab)"

definition table_wf :: "nat \<Rightarrow> (byte list \<Rightarrow> byte list) \<Rightarrow> libsqfs_metatable \<Rightarrow> bool" where
  "table_wf n decomp tab \<longleftrightarrow>
     codec_ok decomp (mt_compressor tab) \<and> nmetablocks tab = length (blocks tab) \<and>
     (\<forall>b \<in> set (blocks tab). block_wf decomp b) \<and> chain_wf 0 (blocks tab) \<and>
     mt_size tab = of_nat (disk_size (blocks tab)) \<and> opened_upto n tab"

abbreviation metatable_wf :: "(byte list \<Rightarrow> byte list) \<Rightarrow> libsqfs_metatable \<Rightarrow> bool" where
  "metatable_wf \<equiv> table_wf 8191"

text \<open>
  While data is being appended every finished block is full, so that the byte at index \<open>k\<close> of
  the table lies in block \<open>k div 8192\<close>.
\<close>

definition full_blocks :: "(byte list \<Rightarrow> byte list) \<Rightarrow> libsqfs_metatable \<Rightarrow> bool" where
  "full_blocks decomp tab \<longleftrightarrow>
     (\<forall>b \<in> set (blocks tab). length (block_plain decomp b) = SQUASHFS_METADATA_SIZE)"

text \<open>A position refers to the byte with index \<open>k\<close>: past \<open>i\<close> blocks, at an offset in the next.\<close>

definition position_of :: "(byte list \<Rightarrow> byte list) \<Rightarrow> libsqfs_metatable \<Rightarrow> libsqfs_metatable_entry \<Rightarrow> nat \<Rightarrow> bool" where
  "position_of decomp tab pos k \<longleftrightarrow>
     (\<exists>i \<le> length (blocks tab). me_block pos = of_nat (disk_size (take i (blocks tab))) \<and>
        unat (me_offset pos) < SQUASHFS_METADATA_SIZE \<and>
        k = length (concat (map (block_plain decomp) (take i (blocks tab)))) + unat (me_offset pos))"

section \<open>Lemmas\<close>

lemma chain_wf_append:
  "chain_wf off (xs @ ys) \<longleftrightarrow> chain_wf off xs \<and> chain_wf (off + of_nat (disk_size xs)) ys"
  by (induction xs arbitrary: off) (simp_all add: add.assoc)

lemma init_wf: "codec_ok decomp c \<Longrightarrow> metatable_wf decomp (libsqfs_metatable_init c)"
  by (simp add: table_wf_def libsqfs_metatable_init_def opened_upto_def)

lemma init_full: "full_blocks decomp (libsqfs_metatable_init c)"
  by (simp add: full_blocks_def libsqfs_metatable_init_def)

lemma init_bytes [simp]: "table_bytes decomp (libsqfs_metatable_init c) = []"
  by (simp add: table_bytes_def opened_bytes_def libsqfs_metatable_init_def)

lemma init_blocks [simp]:
  "blocks (libsqfs_metatable_init c) = []" "mt_compressor (libsqfs_metatable_init c) = c"
  by (simp_all add: libsqfs_metatable_init_def)

subsection \<open>Flushing\<close>

text \<open>Flushing an opened block never crashes and appends a block that stands for its bytes.\<close>

lemma flush_opened:
  assumes codec: "codec_ok decomp (mt_compressor tab)" and opened: "opened_block tab = Some b"
    and wf: "opened_upto 8192 tab"
  shows "\<exists>b'. libsqfs_metatable_flush tab = Some (tab\<lparr>opened_block := None, opened_block_fill := 0,
        mt_size := mt_size tab + of_nat (mb_size b' + 2), blocks := blocks tab @ [b'],
        nmetablocks := nmetablocks tab + 1\<rparr>)
     \<and> block_plain decomp b' = take (opened_block_fill tab) (mb_data b)
     \<and> 0 < mb_size b' \<and> mb_size b' \<le> opened_block_fill tab \<and> length (mb_data b') = SQUASHFS_METADATA_SIZE
     \<and> mb_offset b' = mb_offset b"
proof -
  let ?fill = "opened_block_fill tab" and ?src = "take (opened_block_fill tab) (mb_data b)"
  have b: "0 < ?fill" "?fill \<le> 8192" "length (mb_data b) = 8192" "\<not> mb_compressed b"
    using wf opened by (simp_all add: opened_upto_def)
  show ?thesis
  proof (cases "mt_compressor tab")
    case None
    with opened b show ?thesis
      by (intro exI [of _ "b\<lparr>mb_size := ?fill\<rparr>"])
        (simp add: libsqfs_metatable_flush_def block_plain_def block_payload_def)
  next
    case (Some i)
    then obtain f where f: "vmt_compress_meta i = Some f" "lossless_codec f decomp"
      using codec by (auto simp: codec_ok_def split: option.splits)
    show ?thesis
    proof (cases "f 8192 ?src")
      case None
      with opened b Some f show ?thesis
        by (intro exI [of _ "b\<lparr>mb_size := ?fill\<rparr>"])
          (simp add: libsqfs_metatable_flush_def libsqfs_compressor_instance_compress_meta_def
            block_plain_def block_payload_def)
    next
      case out: (Some out)
      have plain: "decomp out = ?src" using lossless_codec.decomp_comp [OF f(2) out] .
      have "mb_data b \<noteq> []" using b by (metis list.size(3) zero_neq_numeral)
      then have ne: "out \<noteq> []" using lossless_codec.comp_nonempty [OF f(2) out] b by auto
      show ?thesis
      proof (cases "length out < ?fill")
        case True
        with opened b Some f out plain ne show ?thesis
          by (intro exI [of _ "b\<lparr>mb_data := memcpy (mb_data b) 0 out, mb_size := length out,
                mb_compressed := True\<rparr>"])
            (simp add: libsqfs_metatable_flush_def libsqfs_compressor_instance_compress_meta_def
              block_plain_def block_payload_def)
      next
        case False
        with opened b Some f out show ?thesis
          by (intro exI [of _ "b\<lparr>mb_size := ?fill\<rparr>"])
            (simp add: libsqfs_metatable_flush_def libsqfs_compressor_instance_compress_meta_def
              block_plain_def block_payload_def)
      qed
    qed
  qed
qed

text \<open>
  What an operation may do to a table: keep the compressor and the location, and extend the
  chain of finished blocks.
\<close>

definition extends :: "libsqfs_metatable \<Rightarrow> libsqfs_metatable \<Rightarrow> bool" where
  "extends tab tab' \<longleftrightarrow> mt_compressor tab' = mt_compressor tab \<and> mt_offset tab' = mt_offset tab \<and>
     (\<exists>bs. blocks tab' = blocks tab @ bs)"

lemma extends_refl [simp]: "extends tab tab"
  by (simp add: extends_def)

lemma extends_trans [trans]: "extends a b \<Longrightarrow> extends b c \<Longrightarrow> extends a c"
  by (auto simp: extends_def)

lemma flush_correct:
  assumes "table_wf 8192 decomp tab"
  shows "\<exists>tab'. libsqfs_metatable_flush tab = Some tab' \<and> metatable_wf decomp tab' \<and>
     opened_block tab' = None \<and> table_bytes decomp tab' = table_bytes decomp tab \<and> extends tab tab' \<and>
     (opened_block tab = None \<longrightarrow> tab' = tab) \<and>
     (opened_block_fill tab = 8192 \<longrightarrow> full_blocks decomp tab \<longrightarrow> full_blocks decomp tab')"
proof (cases "opened_block tab")
  case None
  with assms show ?thesis
    by (auto simp: libsqfs_metatable_flush_def table_wf_def opened_upto_def)
next
  case (Some b)
  from assms have wf: "opened_upto 8192 tab" and codec: "codec_ok decomp (mt_compressor tab)"
    by (simp_all add: table_wf_def)
  obtain b' where b': "libsqfs_metatable_flush tab = Some (tab\<lparr>opened_block := None,
        opened_block_fill := 0, mt_size := mt_size tab + of_nat (mb_size b' + 2),
        blocks := blocks tab @ [b'], nmetablocks := nmetablocks tab + 1\<rparr>)"
      "block_plain decomp b' = take (opened_block_fill tab) (mb_data b)"
      "0 < mb_size b'" "mb_size b' \<le> opened_block_fill tab" "length (mb_data b') = SQUASHFS_METADATA_SIZE"
      "mb_offset b' = mb_offset b"
    using flush_opened [OF codec Some wf] by blast
  have open_b: "0 < opened_block_fill tab" "opened_block_fill tab \<le> 8192"
      "length (mb_data b) = 8192" "mb_offset b = mt_size tab"
    using wf Some by (simp_all add: opened_upto_def)
  have len: "length (block_plain decomp b') = opened_block_fill tab" using b'(2) open_b by simp
  then have "block_wf decomp b'" using b' open_b by (auto simp: block_wf_def)
  with assms b' open_b len Some show ?thesis
    by (auto simp: table_wf_def chain_wf_append opened_upto_def table_bytes_def opened_bytes_def
        extends_def full_blocks_def)
qed

subsection \<open>Appending\<close>

text \<open>One round of the copy loop, up to the flush.\<close>

lemma copy_round:
  assumes wf: "metatable_wf decomp tab" and get: "libsqfs_metatable_getblock h tab = (Some b, tab1, h')"
    and n: "n = min (SQUASHFS_METADATA_SIZE - opened_block_fill tab1) (length data)"
    and data: "data \<noteq> []"
    and tab2: "tab2 = tab1\<lparr>opened_block := Some (b\<lparr>mb_data :=
        memcpy (mb_data b) (opened_block_fill tab1) (take n data)\<rparr>),
        opened_block_fill := opened_block_fill tab1 + n\<rparr>"
  shows "table_wf 8192 decomp tab2" and "0 < n" and "n \<le> length data"
    and "table_bytes decomp tab2 = table_bytes decomp tab @ take n data"
    and "extends tab tab2" and "blocks tab2 = blocks tab"
    and "opened_block_fill tab2 \<noteq> 8192 \<Longrightarrow> metatable_wf decomp tab2"
proof -
  let ?fill = "opened_block_fill tab1"
  have tab1: "opened_block tab1 = Some b" "blocks tab1 = blocks tab" "?fill < 8192"
      "length (mb_data b) = 8192" "\<not> mb_compressed b" "mb_offset b = mt_size tab"
      "mt_compressor tab1 = mt_compressor tab" "take ?fill (mb_data b) = opened_bytes tab"
      "mt_size tab1 = mt_size tab" "nmetablocks tab1 = nmetablocks tab" "mt_offset tab1 = mt_offset tab"
    using wf get by (auto simp: libsqfs_metatable_getblock_def table_wf_def opened_upto_def
        opened_bytes_def Let_def split: option.splits prod.splits if_splits)
  have room: "n = length (take n data)" "?fill + length (take n data) \<le> length (mb_data b)"
    using n tab1(3,4) by simp_all
  show n0: "0 < n" and nlen: "n \<le> length data" using n data tab1(3) by simp_all
  have "take (?fill + n) (memcpy (mb_data b) ?fill (take n data)) = opened_bytes tab @ take n data"
    using take_memcpy [OF room(2)] room(1) tab1(8) by simp
  then show "table_bytes decomp tab2 = table_bytes decomp tab @ take n data"
    using tab2 tab1 by (simp add: table_bytes_def opened_bytes_def)
  have "?fill + n \<le> 8192" using n tab1(3) by simp
  then show wf2: "table_wf 8192 decomp tab2"
    using wf tab1 tab2 room n0 by (simp add: table_wf_def opened_upto_def)
  then show "opened_block_fill tab2 \<noteq> 8192 \<Longrightarrow> metatable_wf decomp tab2"
    by (auto simp: table_wf_def opened_upto_def split: option.splits)
  show "extends tab tab2" "blocks tab2 = blocks tab"
    using tab1 tab2 by (simp_all add: extends_def)
qed

lemma append_loop_correct:
  assumes "metatable_wf decomp tab" "full_blocks decomp tab"
  shows "\<exists>ok tab' h'. metatable_append_loop h tab data = Some (ok, tab', h') \<and>
     metatable_wf decomp tab' \<and> full_blocks decomp tab' \<and> extends tab tab' \<and>
     (\<exists>n \<le> length data. table_bytes decomp tab' = table_bytes decomp tab @ take n data \<and>
        (ok \<longleftrightarrow> n = length data)) \<and>
     (h = [] \<longrightarrow> ok \<and> h' = [])"
  using assms
proof (induction "length data" arbitrary: h tab data rule: less_induct)
  case less
  show ?case
  proof (cases "data = []")
    case True
    with less.prems show ?thesis
      by (auto simp: metatable_append_loop.simps intro!: exI [of _ True])
  next
    case data: False
    obtain blk tab1 h1 where get: "libsqfs_metatable_getblock h tab = (blk, tab1, h1)"
      by (cases "libsqfs_metatable_getblock h tab") auto
    show ?thesis
    proof (cases blk)
      case None
      then have "tab1 = tab" "h \<noteq> []"
        using get by (auto simp: libsqfs_metatable_getblock_def Let_def
            split: option.splits prod.splits if_splits)
      with data None get less.prems show ?thesis
        by (auto simp: metatable_append_loop.simps [of h tab data] intro!: exI [of _ 0])
    next
      case (Some b)
      define n where "n = min (SQUASHFS_METADATA_SIZE - opened_block_fill tab1) (length data)"
      define tab2 where "tab2 = tab1\<lparr>opened_block := Some (b\<lparr>mb_data :=
          memcpy (mb_data b) (opened_block_fill tab1) (take n data)\<rparr>),
          opened_block_fill := opened_block_fill tab1 + n\<rparr>"
      have get': "libsqfs_metatable_getblock h tab = (Some b, tab1, h1)" using get Some by simp
      note round = copy_round [OF less.prems(1) get' n_def data tab2_def]
      have full2: "full_blocks decomp tab2" using less.prems(2) round(6) by (simp add: full_blocks_def)
      have h1: "h = [] \<longrightarrow> h1 = []"
        using get' by (auto simp: libsqfs_metatable_getblock_def Let_def split: option.splits)
      have "\<exists>tab3. (if opened_block_fill tab2 = SQUASHFS_METADATA_SIZE
            then libsqfs_metatable_flush tab2 else Some tab2) = Some tab3 \<and>
          metatable_wf decomp tab3 \<and> full_blocks decomp tab3 \<and> extends tab tab3 \<and>
          table_bytes decomp tab3 = table_bytes decomp tab @ take n data"
      proof (cases "opened_block_fill tab2 = 8192")
        case True
        with flush_correct [OF round(1)] full2 round(4,5) show ?thesis
          by (auto intro: extends_trans)
      next
        case False
        with round(4,5,7) full2 show ?thesis by auto
      qed
      then obtain tab3 where tab3: "(if opened_block_fill tab2 = SQUASHFS_METADATA_SIZE
            then libsqfs_metatable_flush tab2 else Some tab2) = Some tab3"
          "metatable_wf decomp tab3" "full_blocks decomp tab3" "extends tab tab3"
          "table_bytes decomp tab3 = table_bytes decomp tab @ take n data" by blast
      have "metatable_append_loop h tab data = Option.bind
          (if opened_block_fill tab2 = SQUASHFS_METADATA_SIZE then libsqfs_metatable_flush tab2
           else Some tab2) (\<lambda>tab. metatable_append_loop h1 tab (drop n data))"
        using data get' by (simp add: metatable_append_loop.simps [of h tab data] Let_def n_def tab2_def)
      then have unfold: "metatable_append_loop h tab data = metatable_append_loop h1 tab3 (drop n data)"
        unfolding tab3(1) by simp
      have "length (drop n data) < length data" using round(2,3) by simp
      from less.hyps [OF this tab3(2,3), of h1] obtain ok tab' h' m where IH:
          "metatable_append_loop h1 tab3 (drop n data) = Some (ok, tab', h')"
          "metatable_wf decomp tab'" "full_blocks decomp tab'" "extends tab3 tab'"
          "m \<le> length (drop n data)" "table_bytes decomp tab' = table_bytes decomp tab3 @ take m (drop n data)"
          "ok \<longleftrightarrow> m = length (drop n data)" "h1 = [] \<longrightarrow> ok \<and> h' = []" by blast
      have "table_bytes decomp tab' = table_bytes decomp tab @ take (n + m) data"
        using IH(6) tab3(5) by (simp add: take_add)
      moreover have "n + m \<le> length data" "ok \<longleftrightarrow> n + m = length data" using IH(5,7) round(3) by auto
      ultimately show ?thesis
        using unfold IH(1-4,8) h1 tab3(4) extends_trans by auto
    qed
  qed
qed

text \<open>Positions survive everything that only extends the table.\<close>

lemma position_grows:
  "position_of decomp tab pos k \<Longrightarrow> \<exists>bs. blocks tab' = blocks tab @ bs \<Longrightarrow> position_of decomp tab' pos k"
  unfolding position_of_def by (elim exE conjE, rule_tac x = i in exI) auto

lemma position_extends:
  "position_of decomp tab pos k \<Longrightarrow> extends tab tab' \<Longrightarrow> position_of decomp tab' pos k"
  by (auto simp: extends_def intro: position_grows)

lemma current_position:
  assumes "metatable_wf decomp tab"
  shows "position_of decomp tab \<lparr>me_block = mt_size tab, me_offset = of_nat (opened_block_fill tab)\<rparr>
     (length (table_bytes decomp tab))"
  using assms unfolding position_of_def
  by (intro exI [of _ "length (blocks tab)"])
    (auto simp: table_wf_def opened_upto_def table_bytes_def opened_bytes_def unat_of_nat
      split: option.splits)

lemma append_correct:
  assumes "metatable_wf decomp tab" "full_blocks decomp tab"
  shows "\<exists>ok pos tab' h'. libsqfs_metatable_append h tab data = Some (ok, pos, tab', h') \<and>
     metatable_wf decomp tab' \<and> full_blocks decomp tab' \<and> extends tab tab' \<and>
     position_of decomp tab' pos (length (table_bytes decomp tab)) \<and>
     (\<exists>n \<le> length data. table_bytes decomp tab' = table_bytes decomp tab @ take n data \<and>
        (ok \<longleftrightarrow> n = length data)) \<and>
     (h = [] \<longrightarrow> ok \<and> h' = [])"
proof -
  from append_loop_correct [OF assms, of h data] obtain ok tab' h' n where loop:
      "metatable_append_loop h tab data = Some (ok, tab', h')" "metatable_wf decomp tab'"
      "full_blocks decomp tab'" "extends tab tab'" "n \<le> length data"
      "table_bytes decomp tab' = table_bytes decomp tab @ take n data" "ok \<longleftrightarrow> n = length data"
      "h = [] \<longrightarrow> ok \<and> h' = []" by blast
  have "position_of decomp tab' \<lparr>me_block = mt_size tab, me_offset = of_nat (opened_block_fill tab)\<rparr>
      (length (table_bytes decomp tab))"
    by (rule position_extends [OF current_position [OF assms(1)] loop(4)])
  with loop show ?thesis by (auto simp: libsqfs_metatable_append_def)
qed

section \<open>The reader\<close>

text \<open>
  How a driver reads metadata: a block by its header, as the macros of squashfs_fs.h take the
  header apart, and a run of \<open>n\<close> bytes across as many blocks as it takes.
\<close>

definition read_metablock ::
    "(byte list \<Rightarrow> byte list) \<Rightarrow> byte list \<Rightarrow> (byte list \<times> byte list) option" where
  "read_metablock decomp bs = do {
     (header, bs) \<leftarrow> get_le 2 bs;
     let n = SQUASHFS_COMPRESSED_SIZE header;
     if length bs < n then None
     else Some (if SQUASHFS_COMPRESSED header then decomp (take n bs) else take n bs, drop n bs) }"

function read_run :: "(byte list \<Rightarrow> byte list) \<Rightarrow> byte list \<Rightarrow> nat \<Rightarrow> byte list option" where
  "read_run decomp bs n =
     (if n = 0 then Some []
      else case read_metablock decomp bs of
          None \<Rightarrow> None
        | Some (p, rest) \<Rightarrow>
            if p = [] then None
            else map_option (\<lambda>r. take n p @ r) (read_run decomp rest (n - length p)))"
  by pat_completeness auto
termination
  by (relation "measure (\<lambda>(decomp, bs, n). n)") auto

declare read_run.simps [simp del]

definition read_metadata ::
    "(byte list \<Rightarrow> byte list) \<Rightarrow> byte list \<Rightarrow> libsqfs_metatable_entry \<Rightarrow> nat \<Rightarrow> byte list option" where
  "read_metadata decomp table pos n =
     map_option (drop (unat (me_offset pos)))
       (read_run decomp (drop (unat (me_block pos)) table) (unat (me_offset pos) + n))"

lemma plain_le_payload: "block_wf decomp b \<Longrightarrow> mb_size b \<le> 8192 \<and> length (block_payload b) = mb_size b"
  by (auto simp: block_wf_def block_payload_def)

lemma payload_nonempty: "block_wf decomp b \<Longrightarrow> block_payload b \<noteq> []"
  using plain_le_payload [of decomp b] by (auto simp: block_wf_def)

lemma read_metablock_on_disk:
  assumes "block_wf decomp b"
  shows "read_metablock decomp (block_on_disk b @ rest) = Some (block_plain decomp b, rest)"
proof -
  have sz: "0 < mb_size b" "mb_size b < 2 ^ 15" "length (block_payload b) = mb_size b"
    using assms plain_le_payload [OF assms] by (auto simp: block_wf_def)
  with block_header_macros [OF sz(1,2)] show ?thesis
    by (simp add: read_metablock_def block_on_disk_def block_plain_def)
qed

lemma read_run_on_disk:
  assumes "\<forall>b \<in> set bs. block_wf decomp b" "n \<le> length (concat (map (block_plain decomp) bs))"
  shows "read_run decomp (on_disk bs @ rest) n = Some (take n (concat (map (block_plain decomp) bs)))"
  using assms
proof (induction bs arbitrary: n)
  case Nil
  then show ?case by (simp add: read_run.simps)
next
  case (Cons b bs)
  show ?case
  proof (cases "n = 0")
    case True
    then show ?thesis by (simp add: read_run.simps)
  next
    case False
    have "block_plain decomp b \<noteq> []" using Cons.prems by (simp add: block_wf_def)
    moreover have "read_run decomp (on_disk bs @ rest) (n - length (block_plain decomp b)) =
        Some (take (n - length (block_plain decomp b)) (concat (map (block_plain decomp) bs)))"
      using Cons.prems by (intro Cons.IH) auto
    ultimately show ?thesis
      using False Cons.prems read_metablock_on_disk [of decomp b "on_disk bs @ rest"]
      by (simp add: read_run.simps [of decomp "block_on_disk b @ _"])
  qed
qed

lemma length_concat_bound:
  "\<forall>b \<in> set bs. length (f b) \<le> n \<Longrightarrow> length (concat (map f bs)) \<le> n * length bs"
  by (induction bs) auto

text \<open>Stored blocks are no larger than what they stand for, so a table costs at most three bytes per byte.\<close>

lemma disk_size_bound:
  "\<forall>b \<in> set bs. block_wf decomp b \<Longrightarrow> disk_size bs \<le> 3 * length (concat (map (block_plain decomp) bs))"
proof (induction bs)
  case (Cons b bs)
  then have "mb_size b + 2 \<le> 3 * length (block_plain decomp b)"
    by (cases "block_plain decomp b") (auto simp: block_wf_def)
  with Cons show ?case by simp
qed simp

lemma length_on_disk: "\<forall>b \<in> set bs. block_wf decomp b \<Longrightarrow> length (on_disk bs) = disk_size bs"
  by (induction bs) (auto simp: block_on_disk_def dest: plain_le_payload)

text \<open>Reading \<open>n\<close> bytes at the position of index \<open>k\<close> yields the bytes \<open>k ..< k + n\<close> of the table.\<close>

lemma read_metadata_on_disk:
  assumes wf: "metatable_wf decomp tab" and closed: "opened_block tab = None"
    and fits: "disk_size (blocks tab) < 2 ^ 32" and pos: "position_of decomp tab pos k"
    and range: "k + n \<le> length (table_bytes decomp tab)"
  shows "read_metadata decomp (on_disk (blocks tab) @ rest) pos n = Some (slice k n (table_bytes decomp tab))"
proof -
  obtain i where i: "i \<le> length (blocks tab)"
      "me_block pos = of_nat (disk_size (take i (blocks tab)))"
      "k = length (concat (map (block_plain decomp) (take i (blocks tab)))) + unat (me_offset pos)"
    using pos by (auto simp: position_of_def)
  let ?xs = "take i (blocks tab)" and ?ys = "drop i (blocks tab)" and ?off = "unat (me_offset pos)"
  let ?plain = "\<lambda>bs. concat (map (block_plain decomp) bs)"
  have split: "blocks tab = ?xs @ ?ys" by simp
  have wfs: "\<forall>b \<in> set ?xs. block_wf decomp b" "\<forall>b \<in> set ?ys. block_wf decomp b"
    using wf by (auto simp: table_wf_def dest: in_set_takeD in_set_dropD)
  have "disk_size ?xs \<le> disk_size (blocks tab)"
    by (metis split disk_size_simps(3) le_add1)
  then have blk: "unat (me_block pos) = disk_size ?xs" using i(2) fits by (simp add: unat_of_nat)
  have "on_disk (blocks tab) = on_disk ?xs @ on_disk ?ys"
    by (metis split map_append concat_append)
  then have disk: "drop (unat (me_block pos)) (on_disk (blocks tab) @ rest) = on_disk ?ys @ rest"
    using length_on_disk [OF wfs(1)] blk by simp
  have bytes: "table_bytes decomp tab = ?plain ?xs @ ?plain ?ys"
    using closed by (metis append_Nil2 split map_append concat_append table_bytes_def opened_bytes_def option.case(1))
  have "?off + n \<le> length (?plain ?ys)" using range i(3) bytes by simp
  from read_run_on_disk [OF wfs(2) this, of rest] show ?thesis
    using disk bytes i(3) by (simp add: read_metadata_def slice_def drop_take)
qed

section \<open>Writing\<close>

text \<open>The write loop is a run of the sink: header, payload, header, payload.\<close>

lemma write_blocks_run:
  assumes "\<forall>b \<in> set bs. block_wf decomp b"
  shows "metatable_write_blocks d off bs = pwrite_run libsqfs_pwrite d off
     (concat (map (\<lambda>b. [le16 (block_header (mb_size b) (mb_compressed b)), block_payload b]) bs))"
  using assms
proof (induction bs arbitrary: d off)
  case (Cons b bs)
  have "length (block_payload b) = mb_size b" using Cons.prems plain_le_payload by auto
  with Cons show ?case
    by (simp add: block_payload_def split: prod.splits) (auto simp: ac_simps)
qed simp

lemma on_disk_pieces:
  "concat (concat (map (\<lambda>b. [le16 (block_header (mb_size b) (mb_compressed b)), block_payload b]) bs))
   = on_disk bs"
  by (induction bs) (simp_all add: block_on_disk_def)

lemma write_blocks_full:
  assumes "\<forall>b \<in> set bs. block_wf decomp b" and "file_dest_ok d"
    and "metatable_write_blocks d off bs = (True, d')"
  shows "slice (unat off) (disk_size bs) (dest_bytes d') = on_disk bs"
proof -
  have ne: "\<forall>p \<in> set (concat (map (\<lambda>b. [le16 (block_header (mb_size b) (mb_compressed b)),
      block_payload b]) bs)). p \<noteq> []"
    using assms(1) payload_nonempty by auto
  from dest_sink.run_full [OF assms(2) _ ne] assms(3) show ?thesis
    by (simp add: write_blocks_run [OF assms(1)] on_disk_pieces length_on_disk [OF assms(1)])
qed

lemma write_blocks_bound:
  assumes "\<forall>b \<in> set bs. block_wf decomp b" and "file_dest_ok d"
    and "metatable_write_blocks d off bs = (True, d')" and "bs \<noteq> []"
  shows "unat off + disk_size bs < 2 ^ 63"
proof -
  have ne: "\<forall>p \<in> set (concat (map (\<lambda>b. [le16 (block_header (mb_size b) (mb_compressed b)),
      block_payload b]) bs)). p \<noteq> []"
    using assms(1) payload_nonempty by auto
  have "concat (map (\<lambda>b. [le16 (block_header (mb_size b) (mb_compressed b)), block_payload b]) bs) \<noteq> []"
    using assms(4) by (cases bs) auto
  from dest_sink.run_bound [OF assms(2) _ ne this] assms(3) show ?thesis
    by (simp add: write_blocks_run [OF assms(1)] on_disk_pieces length_on_disk [OF assms(1)])
qed

lemma write_blocks_ok:
  assumes "\<forall>b \<in> set bs. block_wf decomp b" and "file_dest_ok d"
    and "metatable_write_blocks d off bs = (ok, d')"
  shows "file_dest_ok d' \<and> length (dest_bytes d) \<le> length (dest_bytes d')"
  using dest_sink.run_frame [OF assms(2), of off _ ok d' 0 0] assms(3)
  by (simp add: write_blocks_run [OF assms(1)])

text \<open>The null output takes every block.\<close>

lemma write_blocks_null:
  assumes "\<forall>b \<in> set bs. block_wf decomp b"
  shows "metatable_write_blocks Dest_Null off bs = (True, Dest_Null)"
  using assms
proof (induction bs arbitrary: off)
  case (Cons b bs)
  have "length (take (mb_size b) (mb_data b)) = mb_size b"
    using Cons.prems plain_le_payload [of decomp b] by (simp add: block_payload_def)
  with Cons show ?case by simp
qed simp

text \<open>
  Writing a table: it never crashes; the space reserved starts at the old end of the image; and
  when it reports success on a file, the finished blocks lie there.
\<close>

lemma write_correct:
  assumes wf: "metatable_wf decomp tab"
  shows "\<exists>ok tab' img'. libsqfs_metatable_write tab img = Some (ok, tab', img') \<and>
     metatable_wf decomp tab' \<and> opened_block tab' = None \<and>
     table_bytes decomp tab' = table_bytes decomp tab \<and>
     mt_compressor tab' = mt_compressor tab \<and> (\<exists>bs. blocks tab' = blocks tab @ bs) \<and>
     img_size img' = img_size img + of_nat (unat (mt_size tab')) \<and> mem img' = mem img \<and>
     (ok \<longrightarrow> mt_offset tab' = img_size img) \<and>
     (ok \<longrightarrow> file_dest_ok (dst img) \<longrightarrow>
        slice (unat (img_size img)) (disk_size (blocks tab')) (dest_bytes (dst img')) = on_disk (blocks tab')
        \<and> (blocks tab' \<noteq> [] \<longrightarrow> unat (img_size img) + disk_size (blocks tab') < 2 ^ 63)) \<and>
     (file_dest_ok (dst img) \<longrightarrow> file_dest_ok (dst img')) \<and>
     (dst img = Dest_Null \<longrightarrow> ok \<and> dst img' = Dest_Null)"
proof -
  have wf': "table_wf 8192 decomp tab"
    using wf by (auto simp: table_wf_def opened_upto_def split: option.splits)
  obtain t1 where t1: "libsqfs_metatable_flush tab = Some t1" "metatable_wf decomp t1"
      "opened_block t1 = None" "table_bytes decomp t1 = table_bytes decomp tab" "extends tab t1"
    using flush_correct [OF wf'] by blast
  obtain ok d where w: "metatable_write_blocks (dst img) (img_size img) (blocks t1) = (ok, d)"
    by (cases "metatable_write_blocks (dst img) (img_size img) (blocks t1)") auto
  have bwf: "\<forall>b \<in> set (blocks t1). block_wf decomp b" using t1(2) by (simp add: table_wf_def)
  have full: "ok \<Longrightarrow> file_dest_ok (dst img) \<Longrightarrow>
      slice (unat (img_size img)) (disk_size (blocks t1)) (dest_bytes d) = on_disk (blocks t1) \<and>
      (blocks t1 \<noteq> [] \<longrightarrow> unat (img_size img) + disk_size (blocks t1) < 2 ^ 63)"
    using write_blocks_full [OF bwf] write_blocks_bound [OF bwf] w by auto
  have okd: "file_dest_ok (dst img) \<Longrightarrow> file_dest_ok d" using write_blocks_ok [OF bwf] w by auto
  have null: "dst img = Dest_Null \<Longrightarrow> ok \<and> d = Dest_Null"
    using write_blocks_null [OF bwf, of "img_size img"] w by auto
  let ?img' = "img\<lparr>img_size := img_size img + of_nat (unat (mt_size t1)), dst := d\<rparr>"
  have res: "libsqfs_metatable_write tab img =
      (if ok then Some (True, t1\<lparr>mt_offset := img_size img\<rparr>, ?img') else Some (False, t1, ?img'))"
    using t1(1) w by (simp add: libsqfs_metatable_write_def libsqfs_image_reserve_def)
  have keep: "metatable_wf decomp (t1\<lparr>mt_offset := a\<rparr>)"
      "table_bytes decomp (t1\<lparr>mt_offset := a\<rparr>) = table_bytes decomp tab" for a
    using t1(2,4) by (auto simp: table_wf_def opened_upto_def table_bytes_def opened_bytes_def
        split: option.splits)
  show ?thesis
    using res t1 full okd null keep by (cases ok) (auto simp: extends_def)
qed

subsection \<open>With an index\<close>

text \<open>
  A table written with an index can be entered at any block: entry \<open>n\<close> of the index, at
  \<open>mt_offset\<close>, is the absolute offset of block \<open>n\<close>.
\<close>

definition index_entry :: "byte list \<Rightarrow> u64 \<Rightarrow> nat \<Rightarrow> u64 option" where
  "index_entry disk base n = map_option fst (get_le 8 (drop (unat base + 8 * n) disk))"

lemma chain_wf_nth:
  "chain_wf off bs \<Longrightarrow> n < length bs \<Longrightarrow> mb_offset (bs ! n) = off + of_nat (disk_size (take n bs))"
proof (induction bs arbitrary: off n)
  case (Cons b bs)
  then show ?case by (cases n) (auto simp: ac_simps)
qed simp

lemma block_at:
  assumes "\<forall>b \<in> set bs. block_wf decomp b" "n < length bs"
    and "slice a (disk_size bs) disk = on_disk bs" "a + disk_size bs \<le> length disk"
  shows "\<exists>rest. read_metablock decomp (drop (a + disk_size (take n bs)) disk) =
     Some (block_plain decomp (bs ! n), rest)"
proof -
  have "bs = take n bs @ bs ! n # drop (Suc n) bs" using assms(2) by (simp add: id_take_nth_drop [symmetric])
  then have split: "on_disk bs = on_disk (take n bs) @ block_on_disk (bs ! n) @ on_disk (drop (Suc n) bs)"
    by (metis concat.simps(2) concat_append list.simps(9) map_append)
  have wfn: "\<forall>b \<in> set (take n bs). block_wf decomp b" "block_wf decomp (bs ! n)"
    using assms(1,2) by (auto dest: in_set_takeD)
  obtain r where "drop a disk = on_disk bs @ r" using slice_prefix [OF assms(3)] by blast
  then have "drop a disk = on_disk (take n bs) @ block_on_disk (bs ! n) @ on_disk (drop (Suc n) bs) @ r"
    using split by simp
  then have "drop (disk_size (take n bs)) (drop a disk) = block_on_disk (bs ! n) @ on_disk (drop (Suc n) bs) @ r"
    using drop_length_append [OF length_on_disk [OF wfn(1)]] by metis
  with read_metablock_on_disk [OF wfn(2)] show ?thesis by (auto simp: add.commute)
qed

lemma block_offset:
  assumes "chain_wf 0 bs" "n < length bs" "disk_size bs < 2 ^ 32" "unat (start :: u64) + disk_size bs < 2 ^ 63"
  shows "unat (map (\<lambda>b. start + ucast (mb_offset b)) bs ! n) = unat start + disk_size (take n bs)"
proof -
  have "disk_size (take n bs) \<le> disk_size bs" by (metis append_take_drop_id disk_size_simps(3) le_add1)
  with assms(3,4) have le: "disk_size (take n bs) < 2 ^ 32" "unat start + disk_size (take n bs) < 2 ^ 64"
    by simp_all
  have "mb_offset (bs ! n) = of_nat (disk_size (take n bs))" using chain_wf_nth [OF assms(1,2)] by simp
  then have "unat (ucast (mb_offset (bs ! n)) :: u64) = disk_size (take n bs)"
    using le by (simp add: unat_of_nat)
  then have "(ucast (mb_offset (bs ! n)) :: u64) = of_nat (disk_size (take n bs))"
    using le by (simp add: word_unat_eq_iff unat_of_nat)
  with assms(2) le unat_plus_of_nat [of start] show ?thesis by simp
qed

lemma write_with_index_correct:
  assumes wf: "metatable_wf decomp tab" and w: "libsqfs_metatable_write_with_index tab img = Some (True, tab', img')"
    and fdest: "file_dest_ok (dst img)" and fits: "disk_size (blocks tab') < 2 ^ 32"
  shows "table_bytes decomp tab' = table_bytes decomp tab \<and> metatable_wf decomp tab' \<and>
     opened_block tab' = None \<and>
     (\<forall>n < length (blocks tab'). \<exists>o' rest.
        index_entry (dest_bytes (dst img')) (mt_offset tab') n = Some o' \<and>
        read_metablock decomp (drop (unat o') (dest_bytes (dst img'))) =
          Some (block_plain decomp (blocks tab' ! n), rest))"
proof -
  obtain t1 i1 where w1: "libsqfs_metatable_write tab img = Some (True, t1, i1)"
      "metatable_wf decomp t1" "opened_block t1 = None" "table_bytes decomp t1 = table_bytes decomp tab"
      "img_size i1 = img_size img + of_nat (unat (mt_size t1))" "mt_offset t1 = img_size img"
      "slice (unat (img_size img)) (disk_size (blocks t1)) (dest_bytes (dst i1)) = on_disk (blocks t1)"
      "blocks t1 \<noteq> [] \<longrightarrow> unat (img_size img) + disk_size (blocks t1) < 2 ^ 63"
      "file_dest_ok (dst i1)"
    using write_correct [OF wf, of img] w fdest
    by (auto simp: libsqfs_metatable_write_with_index_def split: bind_splits if_splits)
  let ?bs = "blocks t1" and ?start = "img_size img"
  have nm: "nmetablocks t1 = length ?bs" using w1(2) by (simp add: table_wf_def)
  let ?idx = "map (\<lambda>b. ?start + ucast (mb_offset b)) ?bs" and ?base = "img_size i1"
  obtain d where d: "libsqfs_pwrite (dst i1) (encode_array le64 ?idx) ?base = (int (8 * length ?bs), d)"
      "dst img' = d" "tab' = t1\<lparr>mt_offset := ?base\<rparr>"
    using w w1(1,6) nm by (auto simp: libsqfs_metatable_write_with_index_def libsqfs_image_reserve_def Let_def
        split: prod.splits if_splits)
  have len_idx: "length (encode_array le64 ?idx) = 8 * length ?bs"
    using u64_codec.length_encode_array [of ?idx] by simp
  have msz: "unat (mt_size t1) = disk_size ?bs"
    using w1(2) fits d(3) by (simp add: table_wf_def unat_of_nat)
  have bwf: "\<forall>b \<in> set ?bs. block_wf decomp b" and chain: "chain_wf 0 ?bs"
    using w1(2) by (simp_all add: table_wf_def)
  have keep: "table_bytes decomp tab' = table_bytes decomp tab" "metatable_wf decomp tab'"
      "opened_block tab' = None" "blocks tab' = ?bs" "mt_offset tab' = ?base"
    using w1(2-4) d(3) by (auto simp: table_bytes_def opened_bytes_def table_wf_def opened_upto_def)
  have "\<exists>o' rest. index_entry (dest_bytes d) ?base n = Some o' \<and>
      read_metablock decomp (drop (unat o') (dest_bytes d)) = Some (block_plain decomp (?bs ! n), rest)"
    if n: "n < length ?bs" for n
  proof -
    have fits': "disk_size ?bs < 2 ^ 32" using fits keep(4) by simp
    have ne: "?bs \<noteq> []" and ne': "encode_array le64 ?idx \<noteq> []" using n len_idx by auto
    have bound: "unat ?start + disk_size ?bs < 2 ^ 63" using w1(8) ne by simp
    have base: "unat ?base = unat ?start + disk_size ?bs"
      using w1(5) msz bound by (simp add: unat_plus_of_nat)
    have "on_disk ?bs \<noteq> []" using ne by (cases ?bs) (auto simp: block_on_disk_def)
    then have room: "unat ?start + disk_size ?bs \<le> length (dest_bytes (dst i1))"
      using dest_sink.slice_nonempty_bound [of "unat ?start" "on_disk ?bs"] w1(7) length_on_disk [OF bwf]
      by simp
    note put = d(1) [folded len_idx]
    have idx_there: "slice (unat ?base) (8 * length ?bs) (dest_bytes d) = encode_array le64 ?idx"
      using dest_sink.put_full [OF w1(9) put ne'] len_idx by simp
    have blocks_there: "slice (unat ?start) (disk_size ?bs) (dest_bytes d) = on_disk ?bs"
      using dest_sink.put_frame [OF w1(9) put room] base w1(7) by simp
    have room': "unat ?start + disk_size ?bs \<le> length (dest_bytes d)"
      using dest_sink.put_grows [OF w1(9) put] room by simp
    obtain r where "drop (unat ?base) (dest_bytes d) = encode_array le64 ?idx @ r"
      using slice_prefix [OF idx_there] by blast
    then have "drop (unat ?base + 8 * n) (dest_bytes d) = drop (8 * n) (encode_array le64 ?idx @ r)"
      by (metis add.commute drop_drop)
    then have "index_entry (dest_bytes d) ?base n = Some (?idx ! n)"
      using u64_codec.dec_nth [of n ?idx r] n by (simp add: index_entry_def)
    moreover have "unat (?idx ! n) = unat ?start + disk_size (take n ?bs)"
      by (rule block_offset [OF chain n fits' bound])
    ultimately show ?thesis using block_at [OF bwf n blocks_there room'] by auto
  qed
  with keep d(2) show ?thesis by simp
qed

section \<open>The contract of a table\<close>

text \<open>
  What the other components rely on: bytes are only ever added at the end, and every position
  handed out keeps referring to the same byte.
\<close>

locale append_log =
  fixes add :: "heap \<Rightarrow> 't \<Rightarrow> byte list \<Rightarrow> (bool \<times> 'p \<times> 't \<times> heap) option"
    and content :: "'t \<Rightarrow> byte list"
    and inv :: "'t \<Rightarrow> bool"
    and refers :: "'t \<Rightarrow> 'p \<Rightarrow> nat \<Rightarrow> bool"
  assumes add_total: "inv t \<Longrightarrow> \<exists>ok p t' h'. add h t d = Some (ok, p, t', h')"
    and add_inv: "inv t \<Longrightarrow> add h t d = Some (ok, p, t', h') \<Longrightarrow> inv t'"
    and add_content: "inv t \<Longrightarrow> add h t d = Some (ok, p, t', h') \<Longrightarrow>
      \<exists>n \<le> length d. content t' = content t @ take n d \<and> (ok \<longleftrightarrow> n = length d)"
    and add_refers: "inv t \<Longrightarrow> add h t d = Some (ok, p, t', h') \<Longrightarrow> refers t' p (length (content t))"
    and add_stable: "inv t \<Longrightarrow> add h t d = Some (ok, p, t', h') \<Longrightarrow> refers t q k \<Longrightarrow> refers t' q k"
    and add_memory: "inv t \<Longrightarrow> add [] t d = Some (ok, p, t', h') \<Longrightarrow> ok \<and> h' = []"

text \<open>Adding several items, as the writers of directories and attribute sets do: the first failure ends it.\<close>

fun append_all ::
    "(heap \<Rightarrow> 't \<Rightarrow> byte list \<Rightarrow> (bool \<times> 'p \<times> 't \<times> heap) option) \<Rightarrow> heap \<Rightarrow> 't \<Rightarrow> byte list list \<Rightarrow>
     (bool \<times> 'p list \<times> 't \<times> heap) option" where
  "append_all add h t [] = Some (True, [], t, h)"
| "append_all add h t (d # ds) = do {
     (ok, p, t, h) \<leftarrow> add h t d;
     if \<not> ok then Some (False, [p], t, h)
     else do {
       (ok, ps, t, h) \<leftarrow> append_all add h t ds;
       Some (ok, p # ps, t, h) } }"

context append_log
begin

lemma all_total: "inv t \<Longrightarrow> \<exists>ok ps t' h'. append_all add h t ds = Some (ok, ps, t', h') \<and> inv t'"
proof (induction ds arbitrary: h t)
  case (Cons d ds)
  obtain ok p t1 h1 where step: "add h t d = Some (ok, p, t1, h1)"
    using add_total [OF Cons.prems] by blast
  have "inv t1" by (rule add_inv [OF Cons.prems step])
  with Cons.IH [of t1 h1] step show ?case by (cases ok) auto
qed (auto intro: exI [of _ True])

lemma all_stable:
  "inv t \<Longrightarrow> append_all add h t ds = Some (ok, ps, t', h') \<Longrightarrow> refers t q k \<Longrightarrow> refers t' q k"
proof (induction ds arbitrary: h t ps)
  case (Cons d ds)
  obtain ok1 p t1 h1 where step: "add h t d = Some (ok1, p, t1, h1)"
    using add_total [OF Cons.prems(1)] by blast
  with Cons.prems Cons.IH [OF add_inv [OF Cons.prems(1) step]] add_stable [OF Cons.prems(1) step]
  show ?case by (auto split: if_splits bind_splits)
qed simp

text \<open>On success the items lie one behind the other and each position refers to its item.\<close>

lemma all_content:
  assumes "inv t" "append_all add h t ds = Some (True, ps, t', h')"
  shows "content t' = content t @ concat ds \<and> length ps = length ds \<and>
    (\<forall>i < length ds. refers t' (ps ! i) (length (content t) + length (concat (take i ds))))"
  using assms
proof (induction ds arbitrary: h t ps)
  case (Cons d ds)
  obtain p t1 h1 ps' where step: "add h t d = Some (True, p, t1, h1)" and ps: "ps = p # ps'"
    and rest: "append_all add h1 t1 ds = Some (True, ps', t', h')"
    using Cons.prems by (auto split: if_splits bind_splits)
  note inv1 = add_inv [OF Cons.prems(1) step]
  have c1: "content t1 = content t @ d" using add_content [OF Cons.prems(1) step] by auto
  note IH = Cons.IH [OF inv1 rest]
  have first: "refers t' p (length (content t))"
    by (rule all_stable [OF inv1 rest add_refers [OF Cons.prems(1) step]])
  have "refers t' (ps ! i) (length (content t) + length (concat (take i (d # ds))))"
    if "i < length (d # ds)" for i
    using that first IH c1 ps by (cases i) (auto simp: add.assoc)
  with IH c1 ps show ?case by simp
qed simp

lemma all_memory:
  "inv t \<Longrightarrow> append_all add [] t ds = Some (ok, ps, t', h') \<Longrightarrow> ok \<and> h' = []"
proof (induction ds arbitrary: t ps)
  case (Cons d ds)
  obtain ok1 p t1 h1 where step: "add [] t d = Some (ok1, p, t1, h1)"
    using add_total [OF Cons.prems(1)] by blast
  with add_memory [OF Cons.prems(1) step] Cons.prems Cons.IH [OF add_inv [OF Cons.prems(1) step]]
  show ?case by (auto split: if_splits bind_splits)
qed simp

end

text \<open>The metadata table of the code keeps this contract, for every lossless compressor.\<close>

definition table_inv :: "(byte list \<Rightarrow> byte list) \<Rightarrow> libsqfs_metatable \<Rightarrow> bool" where
  "table_inv decomp tab \<longleftrightarrow> metatable_wf decomp tab \<and> full_blocks decomp tab"

interpretation meta_log: append_log libsqfs_metatable_append "table_bytes decomp" "table_inv decomp"
    "position_of decomp" for decomp
proof (unfold_locales, goal_cases)
  case (1 t h d)
  then show ?case using append_correct [of decomp t h d] by (auto simp: table_inv_def)
next
  case (2 t h d ok p t' h')
  then show ?case using append_correct [of decomp t h d] by (auto simp: table_inv_def)
next
  case (3 t h d ok p t' h')
  then show ?case using append_correct [of decomp t h d] by (auto simp: table_inv_def)
next
  case (4 t h d ok p t' h')
  then show ?case using append_correct [of decomp t h d] by (auto simp: table_inv_def)
next
  case (5 t h d ok p t' h' q k)
  then show ?case using append_correct [of decomp t h d] position_extends by (auto simp: table_inv_def)
next
  case (6 t d ok p t' h')
  then show ?case using append_correct [of decomp t "[]" d] by (auto simp: table_inv_def)
qed

section \<open>Arrays in a table\<close>

text \<open>
  The lookup tables of the format (ids, fragments, exported inodes) are arrays of structures of
  size \<open>w\<close>, a divisor of 8192, appended to a fresh table. A driver finds element \<open>k\<close> without
  reading the rest: entry \<open>w * k div 8192\<close> of the index leads to a block, and the element lies
  at \<open>w * k mod 8192\<close> in it (\<open>SQUASHFS_ID_BLOCK\<close> and its likes).
\<close>

definition lookup_element ::
    "(byte list \<Rightarrow> byte list) \<Rightarrow> (byte list \<Rightarrow> ('a \<times> byte list) option) \<Rightarrow> nat \<Rightarrow> byte list \<Rightarrow> u64 \<Rightarrow> nat \<Rightarrow>
     'a option" where
  "lookup_element decomp dec w disk base k = do {
     o' \<leftarrow> index_entry disk base (w * k div SQUASHFS_METADATA_SIZE);
     (p, rest) \<leftarrow> read_metablock decomp (drop (unat o') disk);
     map_option fst (dec (drop (w * k mod SQUASHFS_METADATA_SIZE) p)) }"

definition aligned :: "(byte list \<Rightarrow> byte list) \<Rightarrow> libsqfs_metablock list \<Rightarrow> bool" where
  "aligned decomp bs \<longleftrightarrow> (\<forall>b \<in> set (butlast bs). length (block_plain decomp b) = SQUASHFS_METADATA_SIZE)"

lemma aligned_slice:
  assumes "aligned decomp bs" "\<forall>b \<in> set bs. block_wf decomp b" "n < length bs"
  shows "block_plain decomp (bs ! n) = slice (8192 * n) 8192 (concat (map (block_plain decomp) bs))"
  using assms
proof (induction bs arbitrary: n)
  case (Cons b bs)
  show ?case
  proof (cases n)
    case 0
    then show ?thesis using Cons.prems
      by (cases bs) (auto simp: aligned_def slice_def block_wf_def)
  next
    case (Suc m)
    then have "bs \<noteq> []" "m < length bs" using Cons.prems by auto
    then have "length (block_plain decomp b) = 8192" "aligned decomp bs"
      using Cons.prems by (auto simp: aligned_def)
    with Cons Suc \<open>m < length bs\<close> show ?thesis by (simp add: slice_append_right)
  qed
qed simp

lemma write_aligned:
  assumes wf: "metatable_wf decomp tab" and full: "full_blocks decomp tab"
    and w: "libsqfs_metatable_write tab img = Some (ok, tab', img')"
  shows "aligned decomp (blocks tab')"
proof -
  have wf': "opened_upto 8192 tab" "codec_ok decomp (mt_compressor tab)"
    using wf by (auto simp: table_wf_def opened_upto_def split: option.splits)
  obtain t1 where t1: "libsqfs_metatable_flush tab = Some t1" "blocks tab' = blocks t1"
    using w by (auto simp: libsqfs_metatable_write_def Let_def split: bind_splits prod.splits if_splits)
  have "blocks t1 = blocks tab \<or> (\<exists>b. blocks t1 = blocks tab @ [b])"
    using t1(1) flush_opened [OF wf'(2) _ wf'(1)]
    by (cases "opened_block tab") (auto simp: libsqfs_metatable_flush_def)
  with full t1(2) show ?thesis
    by (auto simp: aligned_def full_blocks_def butlast_append dest: in_set_butlastD)
qed

lemma with_index_aligned:
  assumes "metatable_wf decomp tab" "full_blocks decomp tab"
    and "libsqfs_metatable_write_with_index tab img = Some (True, tab', img')"
  shows "aligned decomp (blocks tab')"
proof -
  obtain t1 i1 where "libsqfs_metatable_write tab img = Some (True, t1, i1)" "blocks tab' = blocks t1"
    using assms(3) by (auto simp: libsqfs_metatable_write_with_index_def Let_def
        split: bind_splits prod.splits if_splits)
  then show ?thesis using write_aligned [OF assms(1,2)] by simp
qed

context struct_codec
begin

lemma element_in_block:
  assumes w: "width dvd 8192" "k < length xs"
  shows "map_option fst (dec (drop (width * k mod 8192)
     (slice (8192 * (width * k div 8192)) 8192 (encode_array enc xs)))) = Some (xs ! k)"
proof -
  let ?o = "width * k mod 8192" and ?b = "8192 * (width * k div 8192)"
  have pos: "?b + ?o = width * k" by simp
  have "width dvd ?o" using w(1) by (simp add: dvd_mod)
  then have fits: "?o + width \<le> 8192"
  proof -
    have "?o < 8192" by simp
    moreover obtain a c where "?o = width * a" "8192 = width * c"
      using \<open>width dvd ?o\<close> w(1) by (auto elim!: dvdE)
    ultimately have "a < c" by simp
    then have "width * Suc a \<le> width * c" by (intro mult_le_mono2) simp
    then have "width * a + width \<le> width * c" by simp
    with \<open>?o = width * a\<close> \<open>8192 = width * c\<close> show ?thesis by metis
  qed
  have "drop (width * k) (encode_array enc xs) = encode_array enc (drop k xs)" by (rule drop_encode_array)
  also have "\<dots> = enc (xs ! k) @ encode_array enc (drop (Suc k) xs)"
    using w(2) by (simp add: Cons_nth_drop_Suc [symmetric])
  finally have "drop ?o (slice ?b 8192 (encode_array enc xs)) =
      take (8192 - ?o) (enc (xs ! k) @ encode_array enc (drop (Suc k) xs))"
    using pos by (simp add: slice_def drop_take add.commute)
  also have "\<dots> = enc (xs ! k) @ take (8192 - ?o - width) (encode_array enc (drop (Suc k) xs))"
    using fits by (simp add: length_enc)
  finally show ?thesis by (simp add: dec_enc)
qed

lemma lookup_in_table:
  assumes codec: "codec_ok decomp c" and w: "width dvd 8192"
    and app: "libsqfs_metatable_append h (libsqfs_metatable_init c) (encode_array enc xs) = Some (True, pos, tab, h')"
    and wr: "libsqfs_metatable_write_with_index tab img = Some (True, tab', img')"
    and fdest: "file_dest_ok (dst img)" and fits: "disk_size (blocks tab') < 2 ^ 32"
    and k: "k < length xs"
  shows "lookup_element decomp dec width (dest_bytes (dst img')) (mt_offset tab') k = Some (xs ! k)"
proof -
  have tab: "metatable_wf decomp tab" "full_blocks decomp tab" "table_bytes decomp tab = encode_array enc xs"
    using append_correct [OF init_wf [OF codec] init_full, of h "encode_array enc xs"] app by auto
  note idx = write_with_index_correct [OF tab(1) wr fdest fits]
  have bytes: "concat (map (block_plain decomp) (blocks tab')) = encode_array enc xs"
  proof -
    have "table_bytes decomp tab' = encode_array enc xs" "opened_block tab' = None" using idx tab(3) by auto
    then show ?thesis by (simp add: table_bytes_def opened_bytes_def)
  qed
  let ?n = "width * k div 8192"
  have "width * k + width \<le> width * length xs" using mult_le_mono2 [of "Suc k" "length xs" width] k by simp
  moreover have "0 < width" using w by (cases "width = 0") auto
  ultimately have lt: "width * k < length (encode_array enc xs)" using k by (simp add: length_encode_array)
  have "length (concat (map (block_plain decomp) (blocks tab'))) \<le> 8192 * length (blocks tab')"
    using idx by (intro length_concat_bound) (auto simp: table_wf_def block_wf_def)
  then have n: "?n < length (blocks tab')"
    using lt bytes by (simp add: div_less_iff_less_mult mult.commute)
  have "\<forall>b \<in> set (blocks tab'). block_wf decomp b" using idx by (simp add: table_wf_def)
  then have "block_plain decomp (blocks tab' ! ?n) = slice (8192 * ?n) 8192 (encode_array enc xs)"
    using aligned_slice [OF with_index_aligned [OF tab(1,2) wr] _ n] bytes by simp
  with idx n element_in_block [OF w k] show ?thesis by (fastforce simp: lookup_element_def)
qed

lemma lookup_in_small_table:
  assumes codec: "codec_ok decomp c" and w: "width dvd 8192"
    and app: "libsqfs_metatable_append h (libsqfs_metatable_init c) (encode_array enc xs) = Some (True, pos, tab, h')"
    and wr: "libsqfs_metatable_write_with_index tab img = Some (True, tab', img')"
    and fdest: "file_dest_ok (dst img)" and small: "3 * (width * length xs) < 2 ^ 32"
    and k: "k < length xs"
  shows "lookup_element decomp dec width (dest_bytes (dst img')) (mt_offset tab') k = Some (xs ! k)"
proof -
  have tab: "metatable_wf decomp tab" "table_bytes decomp tab = encode_array enc xs"
    using append_correct [OF init_wf [OF codec] init_full, of h "encode_array enc xs"] app by auto
  obtain t1 i1 where "libsqfs_metatable_write tab img = Some (True, t1, i1)" "blocks tab' = blocks t1"
    using wr by (auto simp: libsqfs_metatable_write_with_index_def Let_def
        split: bind_splits prod.splits if_splits)
  then have t': "\<forall>b \<in> set (blocks tab'). block_wf decomp b"
      "concat (map (block_plain decomp) (blocks tab')) = encode_array enc xs"
    using write_correct [OF tab(1), of img] tab(2) by (auto simp: table_wf_def table_bytes_def opened_bytes_def)
  have "disk_size (blocks tab') < 2 ^ 32"
    using disk_size_bound [OF t'(1)] t'(2) small by (simp add: length_encode_array)
  then show ?thesis by (rule lookup_in_table [OF codec w app wr fdest _ k])
qed

end

section \<open>Properties\<close>

lemma none_codec [simp]: "codec_ok decomp None"
  by (simp add: codec_ok_def)

lemma init_inv: "codec_ok decomp c \<Longrightarrow> table_inv decomp (libsqfs_metatable_init c)"
  by (simp add: table_inv_def init_wf init_full)

text \<open>A file and a table for the examples.\<close>

definition demo_file :: libsqfs_destination_file where
  "demo_file = \<lparr>contents = [], size_limit = 4096, fd_open = True, owns_fd = False\<rparr>"

definition demo_out :: sqfs_out where
  "demo_out = \<lparr>mem = [], dst = Dest_File demo_file, img_size = 0\<rparr>"

lemmas demo_table_simps =
  libsqfs_metatable_append_def metatable_append_loop.simps libsqfs_metatable_getblock_def
  Let_def libsqfs_metatable_init_def libsqfs_metatable_write_def libsqfs_metatable_flush_def
  libsqfs_image_reserve_def libsqfs_destination_file_pwrite_def pwrite_def
  libsqfs_metatable_write_with_index_def
  demo_out_def demo_file_def block_header_def memcpy_def le_bytes_numeral

text \<open>C10: metadata round trip. Items are appended to a fresh table, the table is written to a file,
  and both report success. Then a reader that starts at the table's offset and follows the position
  recorded for an item finds exactly the bytes of that item, across block boundaries, whichever
  blocks were stored compressed.\<close>

theorem metadata_roundtrip:
  assumes codec: "codec_ok decomp c"
    and app: "append_all libsqfs_metatable_append h (libsqfs_metatable_init c) items = Some (True, ps, tab, h')"
    and wr: "libsqfs_metatable_write tab img = Some (True, tab', img')"
    and fdest: "file_dest_ok (dst img)" and fits: "disk_size (blocks tab') < 2 ^ 32"
    and i: "i < length items"
  shows "read_metadata decomp (drop (unat (mt_offset tab')) (dest_bytes (dst img'))) (ps ! i) (length (items ! i))
     = Some (items ! i)"
proof -
  note inv = init_inv [OF codec]
  have tab: "metatable_wf decomp tab" using meta_log.all_total [OF inv, of h items] app by (auto simp: table_inv_def)
  note c = meta_log.all_content [OF inv app]
  have w: "metatable_wf decomp tab'" "opened_block tab' = None" "table_bytes decomp tab' = concat items"
      "mt_offset tab' = img_size img" "\<exists>bs. blocks tab' = blocks tab @ bs"
      "slice (unat (img_size img)) (disk_size (blocks tab')) (dest_bytes (dst img')) = on_disk (blocks tab')"
    using write_correct [OF tab, of img] wr fdest c by auto
  obtain r where disk: "drop (unat (mt_offset tab')) (dest_bytes (dst img')) = on_disk (blocks tab') @ r"
    using slice_prefix [OF w(6)] w(4) by auto
  have "position_of decomp tab (ps ! i) (length (concat (take i items)))" using c i by simp
  then have pos: "position_of decomp tab' (ps ! i) (length (concat (take i items)))"
    using w(5) position_grows by blast
  have items: "concat items = concat (take i items) @ items ! i @ concat (drop (Suc i) items)"
    using i by (metis concat.simps(2) concat_append id_take_nth_drop)
  then have "length (concat (take i items)) + length (items ! i) \<le> length (table_bytes decomp tab')"
    using w(3) by simp
  from read_metadata_on_disk [OF w(1,2) fits pos this] show ?thesis
    using disk w(3) items by simp
qed

theorem metadata_roundtrip_witness:
  "\<exists>ps tab h tab' img'.
     append_all libsqfs_metatable_append [] (libsqfs_metatable_init None) [[1, 2], [3]] = Some (True, ps, tab, h) \<and>
     libsqfs_metatable_write tab demo_out = Some (True, tab', img') \<and>
     read_metadata (\<lambda>bs. bs) (drop (unat (mt_offset tab')) (dest_bytes (dst img'))) (ps ! 1) 1 = Some [3]"
proof -
  obtain ps tab h where app:
    "append_all libsqfs_metatable_append [] (libsqfs_metatable_init None) [[1, 2], [3]] = Some (True, ps, tab, h)"
    "tab = \<lparr>blocks = [], nmetablocks = 0, opened_block = Some \<lparr>mb_size = 8192, mb_offset = 0,
       mb_compressed = False, mb_data = 1 # 2 # 3 # replicate 8189 0\<rparr>, opened_block_fill = Suc (Suc (Suc 0)),
       mt_compressor = None, mt_size = 0, mt_offset = -1\<rparr>"
    by (simp add: demo_table_simps)
  obtain tab' img' where wr: "libsqfs_metatable_write tab demo_out = Some (True, tab', img')"
    "disk_size (blocks tab') = 5"
    unfolding app(2) by (simp add: demo_table_simps)
  have "read_metadata (\<lambda>bs. bs) (drop (unat (mt_offset tab')) (dest_bytes (dst img'))) (ps ! 1)
      (length ([[1, 2], [3 :: byte]] ! 1)) = Some ([[1, 2], [3]] ! 1)"
    by (rule metadata_roundtrip [OF _ app(1) wr(1)]) (simp_all add: wr(2) demo_out_def demo_file_def)
  with app(1) wr(1) show ?thesis by auto
qed

text \<open>C21: appending always returns, whatever memory is left; it keeps the table's invariant, only adds
  at the end (a prefix of the data when memory runs out, all of it exactly when it reports
  success), every position handed out earlier stays valid, and the new position refers to the
  first byte added.\<close>

theorem append_sound:
  assumes "metatable_wf decomp tab" "full_blocks decomp tab"
  shows "\<exists>ok pos tab' h'. libsqfs_metatable_append h tab data = Some (ok, pos, tab', h') \<and>
     metatable_wf decomp tab' \<and> full_blocks decomp tab' \<and>
     position_of decomp tab' pos (length (table_bytes decomp tab)) \<and>
     (\<forall>q k. position_of decomp tab q k \<longrightarrow> position_of decomp tab' q k) \<and>
     (\<exists>n \<le> length data. table_bytes decomp tab' = table_bytes decomp tab @ take n data \<and>
        (ok \<longleftrightarrow> n = length data)) \<and>
     (h = [] \<longrightarrow> ok)"
  using append_correct [OF assms, of h data] position_extends by blast

theorem append_sound_witness:
  "\<exists>pos tab' h'. libsqfs_metatable_append [] (libsqfs_metatable_init None) [7] = Some (True, pos, tab', h') \<and>
     table_bytes (\<lambda>bs. bs) tab' = [7]"
proof -
  have "metatable_wf (\<lambda>bs. bs) (libsqfs_metatable_init None)" by (simp add: init_wf)
  from append_sound [OF this init_full, of "[]" "[7]"] show ?thesis by auto
qed

text \<open>C34: the table of a null compressor cannot be flushed. Its instance has no method for metadata,
  so flushing a table that holds any byte calls through a null pointer.\<close>

theorem null_compressor_flush_crashes:
  assumes "opened_block tab = Some b" "mt_compressor tab = Some (compressor_vmt ext Compressor_Null)"
  shows "libsqfs_metatable_flush tab = None \<and> libsqfs_metatable_write tab img = None"
  using assms by (simp add: libsqfs_metatable_flush_def libsqfs_metatable_write_def Let_def
      null_compressor_vmt_def libsqfs_compressor_instance_compress_meta_def)

theorem null_compressor_flush_crashes_witness:
  "\<exists>pos tab h. libsqfs_metatable_append [] (libsqfs_metatable_init (Some null_compressor_vmt)) [7] =
       Some (True, pos, tab, h) \<and> libsqfs_metatable_write tab demo_out = None"
proof -
  obtain pos tab h b where
    app: "libsqfs_metatable_append [] (libsqfs_metatable_init (Some null_compressor_vmt)) [7] = Some (True, pos, tab, h)"
    and tab: "opened_block tab = Some b" "mt_compressor tab = Some null_compressor_vmt"
    by (simp add: demo_table_simps)
  then show ?thesis using null_compressor_flush_crashes [OF tab(1), of undefined demo_out] by auto
qed

end
