(* ===== verification/Options.thy ===== *)
theory Options
  imports Compressor
begin

text \<open>
  The options of an image (image.c, \<open>libsqfs_image_options_*\<close>): how blocks are compressed and how
  large they are. A copy owns its own compressor.
\<close>

section \<open>State and operations\<close>

datatype libsqfs_fragments_option =
  libsqfs_fragments_never | libsqfs_fragments_small | libsqfs_fragments_always

record libsqfs_image_options =
  inode_compression :: bool
  data_compression :: bool
  fragment_compression :: bool
  fragments :: libsqfs_fragments_option
  exportable :: bool
  opt_compressor :: "libsqfs_compressor option"
  padding :: bool
  creation_time_set :: bool
  opt_creation_time :: u32
  block_size :: nat
  block_size_log :: nat

text \<open>
  The defaults; \<open>have_zlib\<close> is the build option that selects the default compressor. The
  compressor is \<open>None\<close> when it cannot be copied.
\<close>

definition libsqfs_image_options_defaults :: "bool \<Rightarrow> heap \<Rightarrow> libsqfs_image_options \<times> heap" where
  "libsqfs_image_options_defaults have_zlib h =
     (let (c, h) = libsqfs_compressor_copy h (if have_zlib then Compressor_Zlib else Compressor_Null) in
      (\<lparr>inode_compression = True, data_compression = True, fragment_compression = True,
        fragments = libsqfs_fragments_small, exportable = False, opt_compressor = c, padding = True,
        creation_time_set = False, opt_creation_time = 0,
        block_size = 2 ^ 17, block_size_log = 17\<rparr>, h))"

definition libsqfs_image_options_create :: "bool \<Rightarrow> heap \<Rightarrow> libsqfs_image_options option \<times> heap" where
  "libsqfs_image_options_create have_zlib h =
     (let (ok, h) = malloc h in
      if \<not> ok then (None, h)
      else
        let (options, h) = libsqfs_image_options_defaults have_zlib h in
        if opt_compressor options = None then (None, h) else (Some options, h))"

definition libsqfs_image_options_copy ::
    "heap \<Rightarrow> libsqfs_image_options \<Rightarrow> libsqfs_image_options option \<times> heap" where
  "libsqfs_image_options_copy h options =
     (let (ok, h) = malloc h in
      if \<not> ok then (None, h)
      else
        let (c, h) = (case opt_compressor options of None \<Rightarrow> (None, h) | Some c \<Rightarrow> libsqfs_compressor_copy h c) in
        if c = None then (None, h) else (Some (options\<lparr>opt_compressor := c\<rparr>), h))"

definition libsqfs_image_options_set_inode_compression where
  "libsqfs_image_options_set_inode_compression options compress = options\<lparr>inode_compression := compress\<rparr>"

definition libsqfs_image_options_set_data_compression where
  "libsqfs_image_options_set_data_compression options compress = options\<lparr>data_compression := compress\<rparr>"

definition libsqfs_image_options_set_fragment_compression where
  "libsqfs_image_options_set_fragment_compression options compress = options\<lparr>fragment_compression := compress\<rparr>"

definition libsqfs_image_options_set_exportable where
  "libsqfs_image_options_set_exportable options e = options\<lparr>exportable := e\<rparr>"

definition libsqfs_image_options_set_padding where
  "libsqfs_image_options_set_padding options p = options\<lparr>padding := p\<rparr>"

definition libsqfs_image_options_set_creation_time where
  "libsqfs_image_options_set_creation_time options t =
     options\<lparr>opt_creation_time := t, creation_time_set := True\<rparr>"

definition libsqfs_image_options_set_fragment_option where
  "libsqfs_image_options_set_fragment_option options f = options\<lparr>fragments := f\<rparr>"

text \<open>The loop that counts how often the block size can be halved.\<close>

fun halvings :: "nat \<Rightarrow> nat \<Rightarrow> nat" where
  "halvings n log = (let n = n div 2 in if n = 0 then log else halvings n (Suc log))"

declare halvings.simps [simp del]

definition libsqfs_image_options_set_block_size :: "libsqfs_image_options \<Rightarrow> u64 \<Rightarrow> libsqfs_image_options" where
  "libsqfs_image_options_set_block_size options sz =
     (if sz AND (sz - 1) \<noteq> 0 then options
      else if sz < 4096 \<or> sz > 1048576 then options
      else options\<lparr>block_size := unat sz, block_size_log := halvings (unat sz) 0\<rparr>)"

text \<open>The old compressor is kept when the new one cannot be copied.\<close>

definition libsqfs_image_options_set_compressor ::
    "heap \<Rightarrow> libsqfs_image_options \<Rightarrow> libsqfs_compressor \<Rightarrow> libsqfs_image_options \<times> heap" where
  "libsqfs_image_options_set_compressor h options c =
     (let (new_compressor, h) = libsqfs_compressor_copy h c in
      case new_compressor of
        None \<Rightarrow> (options, h)
      | Some c \<Rightarrow> (options\<lparr>opt_compressor := Some c\<rparr>, h))"

section \<open>Block sizes\<close>

text \<open>Options are sound when there is a compressor and the block size is what the format allows.\<close>

definition options_ok :: "libsqfs_image_options \<Rightarrow> bool" where
  "options_ok options \<longleftrightarrow> opt_compressor options \<noteq> None \<and> block_size options = 2 ^ block_size_log options \<and>
     12 \<le> block_size_log options \<and> block_size_log options \<le> 20"

lemma halvings_pow2: "halvings (2 ^ k) log = log + k"
proof (induction k arbitrary: log)
  case 0
  then show ?case by (simp add: halvings.simps)
next
  case (Suc k)
  have "halvings (2 ^ Suc k) log = halvings (2 ^ k) (Suc log)" by (subst halvings.simps) simp
  with Suc show ?case by simp
qed

text \<open>A word is a power of two, or zero, exactly when it has no bit in common with its predecessor.\<close>

lemma and_pred_pow2: "(n :: nat) > 0 \<Longrightarrow> n AND (n - 1) = 0 \<longleftrightarrow> (\<exists>k. n = 2 ^ k)"
proof (induction n rule: less_induct)
  case (less n)
  show ?case
  proof (cases "even n")
    case True
    then obtain m where m: "n = 2 * m" "0 < m" "m < n" using less.prems by (auto elim!: evenE)
    have "(2 * m - Suc 0) div 2 = m - Suc 0" using m by simp
    then have "n AND (n - 1) = 2 * (m AND (m - 1))"
      using m by (subst and_nat_rec) simp
    with less.IH [OF m(3,2)] have "n AND (n - 1) = 0 \<longleftrightarrow> (\<exists>k. m = 2 ^ k)" by simp
    also have "\<dots> \<longleftrightarrow> (\<exists>k. n = 2 ^ k)"
    proof
      assume "\<exists>k. m = 2 ^ k"
      then obtain k where "n = 2 ^ Suc k" using m by auto
      then show "\<exists>k. n = 2 ^ k" by blast
    next
      assume "\<exists>k. n = 2 ^ k"
      then obtain k where k: "n = 2 ^ k" by blast
      with True show "\<exists>k. m = 2 ^ k" using m by (cases k) auto
    qed
    finally show ?thesis .
  next
    case False
    then obtain m where m: "n = Suc (2 * m)" by (auto elim!: oddE)
    have "n AND (n - 1) = 2 * m"
      unfolding m by (subst and_nat_rec) simp
    moreover have "(\<exists>k. n = 2 ^ k) \<longleftrightarrow> m = 0"
    proof
      assume "\<exists>k. n = 2 ^ k"
      then obtain k where k: "n = 2 ^ k" by blast
      with False have "k = 0" by (cases k) auto
      with k m show "m = 0" by simp
    next
      assume "m = 0"
      then have "n = 2 ^ 0" using m by simp
      then show "\<exists>k. n = 2 ^ k" by blast
    qed
    ultimately show ?thesis by simp
  qed
qed

lemma set_block_size_ok:
  "options_ok options \<Longrightarrow> options_ok (libsqfs_image_options_set_block_size options sz)"
proof -
  assume ok: "options_ok options"
  show ?thesis
  proof (cases "sz AND (sz - 1) \<noteq> 0 \<or> sz < 4096 \<or> sz > 1048576")
    case True
    with ok show ?thesis by (auto simp: libsqfs_image_options_set_block_size_def)
  next
    case False
    then have r: "4096 \<le> unat sz" "unat sz \<le> 1048576" by (auto simp: not_less word_le_nat_alt)
    then have "unat (sz - 1) = unat sz - 1" by (simp add: unat_minus_one word_unat_eq_iff)
    moreover have "unat (sz AND (sz - 1)) = 0" using False by simp
    ultimately have "unat sz AND (unat sz - 1) = 0" by (simp add: unsigned_and_eq)
    then obtain k where k: "unat sz = 2 ^ k" using and_pred_pow2 [of "unat sz"] r by auto
    have p: "(2 :: nat) ^ 12 \<le> 2 ^ k" "(2 :: nat) ^ k \<le> 2 ^ 20" using r k by simp_all
    have "12 \<le> k" "k \<le> 20" using power_le_imp_le_exp [OF _ p(1)] power_le_imp_le_exp [OF _ p(2)] by simp_all
    with False ok k show ?thesis
      by (simp add: libsqfs_image_options_set_block_size_def options_ok_def halvings_pow2)
  qed
qed

section \<open>Properties\<close>

text \<open>C31: the block size. Setting it has an effect exactly for the powers of two from 4096 to 1048576,
  and then stores the size with its logarithm; every other value leaves the options as they
  were. Whatever values are set, the options stay sound: the stored size is two to the stored
  logarithm.\<close>

theorem set_block_size_spec:
  assumes "options_ok options"
  shows "options_ok (libsqfs_image_options_set_block_size options sz) \<and>
    (\<forall>k. 12 \<le> k \<longrightarrow> k \<le> 20 \<longrightarrow> unat sz = 2 ^ k \<longrightarrow>
       libsqfs_image_options_set_block_size options sz = options\<lparr>block_size := 2 ^ k, block_size_log := k\<rparr>) \<and>
    ((\<forall>k \<in> {12..20}. unat sz \<noteq> 2 ^ k) \<longrightarrow> libsqfs_image_options_set_block_size options sz = options)"
proof -
  have ok: "options_ok (libsqfs_image_options_set_block_size options sz)" by (rule set_block_size_ok [OF assms])
  have "libsqfs_image_options_set_block_size options sz = options\<lparr>block_size := 2 ^ k, block_size_log := k\<rparr>"
    if k: "12 \<le> k" "k \<le> 20" "unat sz = 2 ^ k" for k
  proof -
    have "(2 :: nat) ^ 12 \<le> 2 ^ k" by (rule power_increasing [OF k(1)]) simp
    moreover have "(2 :: nat) ^ k \<le> 2 ^ 20" by (rule power_increasing [OF k(2)]) simp
    ultimately have r: "\<not> sz < 4096" "\<not> sz > 1048576" using k(3) by (simp_all add: not_less word_le_nat_alt)
    then have "unat (sz - 1) = unat sz - 1" using k(3) by (simp add: unat_minus_one word_unat_eq_iff)
    moreover have "unat sz AND (unat sz - 1) = 0" using k(3) and_pred_pow2 [of "unat sz"] by auto
    ultimately have "sz AND (sz - 1) = 0" by (simp add: word_unat_eq_iff unsigned_and_eq)
    with r k(3) show ?thesis by (simp add: libsqfs_image_options_set_block_size_def halvings_pow2)
  qed
  moreover have "libsqfs_image_options_set_block_size options sz = options"
    if none: "\<forall>k \<in> {12..20}. unat sz \<noteq> 2 ^ k"
  proof (rule ccontr)
    assume "libsqfs_image_options_set_block_size options sz \<noteq> options"
    then have "block_size (libsqfs_image_options_set_block_size options sz) = unat sz"
      by (auto simp: libsqfs_image_options_set_block_size_def split: if_splits)
    with ok none show False by (auto simp: options_ok_def)
  qed
  ultimately show ?thesis using ok by blast
qed

theorem set_block_size_spec_witness:
  "\<exists>options. options_ok options \<and> block_size (libsqfs_image_options_set_block_size options 65536) = 65536 \<and>
     libsqfs_image_options_set_block_size options 65535 = options"
proof -
  define o' where "o' = fst (libsqfs_image_options_defaults True [])"
  have ok: "options_ok o'" by (simp add: o'_def libsqfs_image_options_defaults_def libsqfs_compressor_copy_def options_ok_def)
  note spec = set_block_size_spec [OF ok, THEN conjunct2]
  have a: "libsqfs_image_options_set_block_size o' 65536 = o'\<lparr>block_size := 2 ^ 16, block_size_log := 16\<rparr>"
    by (rule spec [THEN conjunct1, rule_format]) simp_all
  have "\<forall>k \<in> {12..20}. unat (65535 :: u64) \<noteq> 2 ^ k"
  proof
    fix k :: nat assume "k \<in> {12..20}"
    then have "even ((2 :: nat) ^ k)" by simp
    moreover have "odd (unat (65535 :: u64))" by simp
    ultimately show "unat (65535 :: u64) \<noteq> 2 ^ k" by metis
  qed
  then have b: "libsqfs_image_options_set_block_size o' 65535 = o'" by (rule spec [THEN conjunct2, THEN mp])
  show ?thesis using ok b by (intro exI [of _ o']) (simp add: a)
qed

end
