(* ===== verification/Datasource.thy ===== *)
theory Datasource
  imports Prelude
begin

text \<open>
  datasource.c: where the contents of files come from. A data handle is a file on the host, a
  buffer, or a compound of pieces of other handles; the method tables are the case distinctions
  of \<open>libsqfs_data_get_size\<close> and \<open>libsqfs_data_pread\<close>. Handles never change once created, so a
  piece holds the handle it refers to. Sizes and offsets are those of data that exists, below
  \<open>2 ^ 63\<close>, and are natural numbers.
\<close>

section \<open>Handles\<close>

text \<open>
  A file on the host as the system calls show it: the size reported by \<open>stat\<close>, the bytes behind
  \<open>open\<close> (\<open>None\<close>: the call fails), and how many of them can be read before an I/O error.
\<close>

record host_file =
  pathname :: string
  hf_stat_size :: "nat option"
  hf_bytes :: "byte list option"
  hf_readable :: nat

datatype libsqfs_data =
    Filedata host_file
  | Memorydata "byte list"
  | Compounddata "libsqfs_data_piece list" nat
and libsqfs_data_piece =
    Piece (piece_data: libsqfs_data) (piece_size: nat) (piece_offset: nat)

text \<open>\<open>pread\<close> on a freshly opened file: \<open>None\<close> is \<open>-1\<close>.\<close>

definition host_pread :: "host_file \<Rightarrow> nat \<Rightarrow> nat \<Rightarrow> byte list option" where
  "host_pread f sz offset =
     (case hf_bytes f of
        None \<Rightarrow> None
      | Some bs \<Rightarrow>
          if sz = 0 \<or> length bs \<le> offset then Some []
          else if hf_readable f \<le> offset then None
          else Some (take sz (drop offset (take (hf_readable f) bs))))"

section \<open>Operations\<close>

text \<open>The size, or \<open>-1\<close> with a message that is flagged on the image as a non-fatal error.\<close>

definition libsqfs_filedata_get_size :: "host_file \<Rightarrow> int \<times> string option" where
  "libsqfs_filedata_get_size f =
     (case hf_stat_size f of
        None \<Rightarrow> (-1, Some (''Unable to stat file '' @ pathname f))
      | Some n \<Rightarrow> (int n, None))"

fun libsqfs_data_get_size :: "libsqfs_data \<Rightarrow> int \<times> string option" where
  "libsqfs_data_get_size (Filedata f) = libsqfs_filedata_get_size f"
| "libsqfs_data_get_size (Memorydata buffer) = (int (length buffer), None)"
| "libsqfs_data_get_size (Compounddata pieces sz) = (int sz, None)"

text \<open>
  The bytes read, as many as the count returned; \<open>None\<close> is \<open>-1\<close>. The loop over the pieces of a
  compound carries the file position of the current piece, the count and the output buffer.
\<close>

definition libsqfs_memorydata_pread :: "byte list \<Rightarrow> nat \<Rightarrow> nat \<Rightarrow> byte list option" where
  "libsqfs_memorydata_pread buffer sz offset =
     (if offset > length buffer then Some []
      else
        let sz = (if offset + sz > length buffer then length buffer - offset else sz) in
        Some (take sz (drop offset buffer)))"

function (sequential) libsqfs_data_pread :: "libsqfs_data \<Rightarrow> nat \<Rightarrow> nat \<Rightarrow> byte list option"
  and compound_loop :: "libsqfs_data_piece list \<Rightarrow> nat \<Rightarrow> nat \<Rightarrow> nat \<Rightarrow> nat \<Rightarrow> byte list \<Rightarrow> nat \<times> byte list" where
  "libsqfs_data_pread (Filedata f) sz offset = host_pread f sz offset"
| "libsqfs_data_pread (Memorydata buffer) sz offset = libsqfs_memorydata_pread buffer sz offset"
| "libsqfs_data_pread (Compounddata pieces csize) sz offset =
     (if offset > csize then Some []
      else
        let sz = (if offset + sz > csize then csize - offset else sz);
            (written, buffer) = compound_loop pieces 0 offset sz 0 (replicate sz 0) in
        Some (take written buffer))"
| "compound_loop [] current_offset offset sz written buffer = (written, buffer)"
| "compound_loop (Piece d psize poffset # pieces) current_offset offset sz written buffer =
     (let piece_begin = current_offset; piece_end = current_offset + psize in
      if piece_end \<le> offset then compound_loop pieces piece_end offset sz written buffer
      else if piece_begin \<ge> offset + sz then (written, buffer)
      else
        let copy_begin = (if piece_begin < offset then offset else piece_begin);
            copy_end = (if piece_end > offset + sz then offset + sz else piece_end) in
        case libsqfs_data_pread d (copy_end - copy_begin) (poffset + copy_begin - piece_begin) of
          None \<Rightarrow> (written, buffer)
        | Some bytes \<Rightarrow>
            let buffer = memcpy buffer (copy_begin - offset) bytes; written = written + length bytes in
            if length bytes \<noteq> copy_end - copy_begin then (written, buffer)
            else compound_loop pieces piece_end offset sz written buffer)"
  by pat_completeness auto
termination
  by (relation "measure (\<lambda>x. case x of Inl (d, _) \<Rightarrow> size d | Inr (ps, _) \<Rightarrow> size_list size ps)") auto

fun libsqfs_data_describe :: "libsqfs_data \<Rightarrow> string" where
  "libsqfs_data_describe (Filedata f) = pathname f"
| "libsqfs_data_describe (Memorydata _) = ''<memory-block>''"
| "libsqfs_data_describe (Compounddata _ _) = ''<compound-data-block>''"

text \<open>The size of a compound, summed up when it is created.\<close>

definition compound_size :: "libsqfs_data_piece list \<Rightarrow> nat" where
  "compound_size pieces = (\<Sum>p\<leftarrow>pieces. piece_size p)"

definition libsqfs_compounddata_init :: "libsqfs_data_piece list \<Rightarrow> libsqfs_data" where
  "libsqfs_compounddata_init pieces = Compounddata pieces (compound_size pieces)"

section \<open>What a handle stands for\<close>

primrec data_bytes :: "libsqfs_data \<Rightarrow> byte list" and piece_bytes :: "libsqfs_data_piece \<Rightarrow> byte list" where
  "data_bytes (Filedata f) = (case hf_bytes f of None \<Rightarrow> [] | Some bs \<Rightarrow> bs)"
| "data_bytes (Memorydata buffer) = buffer"
| "data_bytes (Compounddata pieces n) = concat (map piece_bytes pieces)"
| "piece_bytes (Piece d n offset) = slice offset n (data_bytes d)"

text \<open>
  A handle is sound when its files can be read in full and have the size \<open>stat\<close> reports, and the
  pieces of its compounds lie within the data they refer to.
\<close>

primrec data_ok :: "libsqfs_data \<Rightarrow> bool" and piece_ok :: "libsqfs_data_piece \<Rightarrow> bool" where
  "data_ok (Filedata f) \<longleftrightarrow> (case hf_bytes f of None \<Rightarrow> False
     | Some bs \<Rightarrow> length bs \<le> hf_readable f \<and> hf_stat_size f = Some (length bs))"
| "data_ok (Memorydata buffer) \<longleftrightarrow> True"
| "data_ok (Compounddata pieces n) \<longleftrightarrow> list_all piece_ok pieces \<and> n = compound_size pieces"
| "piece_ok (Piece d n offset) \<longleftrightarrow> data_ok d \<and> offset + n \<le> length (data_bytes d)"

lemma length_piece_bytes: "piece_ok p \<Longrightarrow> length (piece_bytes p) = piece_size p"
  by (cases p) (auto simp: min_def)

lemma length_pieces: "list_all piece_ok ps \<Longrightarrow> length (concat (map piece_bytes ps)) = compound_size ps"
  by (induction ps) (simp_all add: compound_size_def length_piece_bytes)

lemma get_size_ok: "data_ok d \<Longrightarrow> libsqfs_data_get_size d = (int (length (data_bytes d)), None)"
  by (cases d) (auto simp: libsqfs_filedata_get_size_def length_pieces split: option.splits)

section \<open>Reading\<close>

text \<open>One piece of the loop: what is copied extends what has been read of the range so far.\<close>

lemma range_split:
  assumes w: "w = min s (c - o')" and n: "length ys = n" and overlap: "o' < c + n" "c < o' + s"
  shows "slice (o' + w - c) (s - w) (ys @ zs) =
     slice (max c o' - c) (min (c + n) (o' + s) - max c o') ys @
     slice (o' + min s (c + n - o') - (c + n)) (s - min s (c + n - o')) zs"
proof (cases "c \<le> o'")
  case before: True
  then have [simp]: "w = 0" "max c o' = o'" using w by auto
  show ?thesis
  proof (cases "c + n \<le> o' + s")
    case True
    then have "min s (c + n - o') = c + n - o'" "min (c + n) (o' + s) = c + n" by auto
    moreover have "o' + (c + n - o') - (c + n) = 0" "s - (n - (o' - c)) = s - (c + n - o')"
      using before overlap by auto
    ultimately show ?thesis using n before overlap by (simp add: slice_def)
  next
    case False
    then have "min s (c + n - o') = s" "min (c + n) (o' + s) = o' + s" by auto
    moreover have "s - (n - (o' - c)) = 0" using before False by auto
    ultimately show ?thesis using n before overlap by (simp add: slice_def)
  qed
next
  case after: False
  then have [simp]: "w = c - o'" "max c o' = c" "o' + (c - o') - c = 0" using w overlap by auto
  show ?thesis
  proof (cases "c + n \<le> o' + s")
    case True
    then have "min s (c + n - o') = c + n - o'" "min (c + n) (o' + s) = c + n" by auto
    moreover have "o' + (c + n - o') - (c + n) = 0" "s - (c - o') - n = s - (c + n - o')"
      using after overlap by auto
    moreover have "min n (s - (c - o')) = n" using after True by auto
    ultimately show ?thesis using n after overlap by (simp add: slice_def)
  next
    case False
    then have "min s (c + n - o') = s" "min (c + n) (o' + s) = o' + s" by auto
    moreover have "s - (c - o') - n = 0" "s - (c - o') = o' + s - c" using after False by auto
    ultimately show ?thesis using n after overlap by (simp add: slice_def)
  qed
qed

lemma pread_correct_aux:
  "data_ok d \<Longrightarrow> libsqfs_data_pread d sz offset = Some (slice offset sz (data_bytes d))"
  "list_all piece_ok ps \<Longrightarrow> length buffer = s \<Longrightarrow> w = min s (c - o') \<Longrightarrow>
     \<exists>w' b'. compound_loop ps c o' s w buffer = (w', b') \<and> length b' = s \<and>
       take w' b' = take w buffer @ slice (o' + w - c) (s - w) (concat (map piece_bytes ps))"
proof (induction d sz offset and ps c o' s w buffer rule: libsqfs_data_pread_compound_loop.induct)
  case (1 f sz offset)
  then show ?case by (auto simp: host_pread_def slice_def split: option.splits)
next
  case (2 buffer sz offset)
  then show ?case by (auto simp: libsqfs_memorydata_pread_def slice_def)
next
  case (3 pieces csize sz offset)
  then have len: "length (concat (map piece_bytes pieces)) = csize" by (simp add: length_pieces)
  show ?case
  proof (cases "offset > csize")
    case True
    then show ?thesis using len by (simp add: slice_def)
  next
    case False
    let ?sz = "if offset + sz > csize then csize - offset else sz"
    obtain w' b' where loop: "compound_loop pieces 0 offset ?sz 0 (replicate ?sz 0) = (w', b')"
      "take w' b' = slice offset ?sz (concat (map piece_bytes pieces))"
      using 3(1) [OF False refl] 3(2) by fastforce
    have "slice offset ?sz (concat (map piece_bytes pieces)) = slice offset sz (concat (map piece_bytes pieces))"
      using len by (auto simp: slice_def)
    with loop False show ?thesis by (simp add: Let_def)
  qed
next
  case (4 c o' s w buffer)
  then show ?case by (simp add: slice_def)
next
  case (5 d psize poffset pieces c o' s w buffer)
  let ?p = "slice poffset psize (data_bytes d)" and ?rest = "concat (map piece_bytes pieces)"
  have ok: "data_ok d" "poffset + psize \<le> length (data_bytes d)" "list_all piece_ok pieces" using 5(4) by auto
  have len: "length ?p = psize" using ok by simp
  consider (before) "c + psize \<le> o'" | (after) "\<not> c + psize \<le> o'" "c \<ge> o' + s"
    | (overlap) "\<not> c + psize \<le> o'" "\<not> c \<ge> o' + s" by blast
  then show ?case
  proof cases
    case before
    then have w: "w = 0" "0 = min s (c + psize - o')" using 5(6) by auto
    obtain w' b' where loop: "compound_loop pieces (c + psize) o' s 0 buffer = (w', b')" "length b' = s"
        "take w' b' = slice (o' - (c + psize)) s ?rest"
      using 5(1) [OF refl refl before ok(3) 5(5)] w by auto
    have "slice (o' - c) s (?p @ ?rest) = slice (o' - (c + psize)) s ?rest"
      using before len by (subst slice_append_right) auto
    with loop before w show ?thesis by simp
  next
    case after
    then show ?thesis using 5(4-6) by (simp add: slice_def)
  next
    case overlap
    let ?b = "if c < o' then o' else c" and ?e = "if c + psize > o' + s then o' + s else c + psize"
    have overlap': "o' < c + psize" "c < o' + s" using overlap by auto
    have be: "?b = max c o'" "?e = min (c + psize) (o' + s)" by auto
    have inside: "?b - c + (?e - ?b) \<le> psize" "poffset + ?b - c = poffset + (?b - c)" using overlap by auto
    have "libsqfs_data_pread d (?e - ?b) (poffset + ?b - c) = Some (slice (poffset + ?b - c) (?e - ?b) (data_bytes d))"
      by (rule 5(2) [OF refl refl overlap refl refl ok(1)])
    also have "slice (poffset + ?b - c) (?e - ?b) (data_bytes d) = slice (?b - c) (?e - ?b) ?p"
      unfolding inside(2) by (rule slice_slice [OF inside(1), symmetric])
    finally have read: "libsqfs_data_pread d (?e - ?b) (poffset + ?b - c) = Some (slice (?b - c) (?e - ?b) ?p)" .
    let ?bytes = "slice (?b - c) (?e - ?b) ?p"
    have blen: "length ?bytes = ?e - ?b" using inside(1) len by auto
    have at: "?b - o' = w" using 5(6) overlap by auto
    have room: "w + length ?bytes \<le> length buffer" using blen at 5(5) overlap by auto
    have w': "w + length ?bytes = min s (c + psize - o')" using blen at overlap by auto
    have full: "\<not> length ?bytes \<noteq> ?e - ?b" using blen by simp
    have mlen: "length (memcpy buffer (?b - o') ?bytes) = s" unfolding at using room 5(5) by simp
    obtain w'' b'' where loop: "compound_loop pieces (c + psize) o' s (w + length ?bytes) (memcpy buffer w ?bytes) = (w'', b'')"
        "length b'' = s"
        "take w'' b'' = take (w + length ?bytes) (memcpy buffer w ?bytes) @
           slice (o' + (w + length ?bytes) - (c + psize)) (s - (w + length ?bytes)) ?rest"
      using 5(3) [OF refl refl overlap refl refl read refl refl full ok(3) mlen w'] unfolding at by blast
    have "take w'' b'' = take w buffer @ ?bytes @
        slice (o' + (w + length ?bytes) - (c + psize)) (s - (w + length ?bytes)) ?rest"
      unfolding loop(3) take_memcpy [OF room] by simp
    also have "\<dots> = take w buffer @ slice (o' + w - c) (s - w) (?p @ ?rest)"
      unfolding range_split [OF 5(6) len overlap', of ?rest] unfolding w' unfolding be ..
    finally have "take w'' b'' = take w buffer @ slice (o' + w - c) (s - w) (?p @ ?rest)" .
    moreover have "compound_loop (Piece d psize poffset # pieces) c o' s w buffer =
        compound_loop pieces (c + psize) o' s (w + length ?bytes) (memcpy buffer w ?bytes)"
      unfolding compound_loop.simps Let_def if_not_P [OF overlap(1)] if_not_P [OF overlap(2)] read
        option.case at if_not_P [OF full] ..
    ultimately show ?thesis using loop(1,2) by simp
  qed
qed

section \<open>The contract of a data handle\<close>

text \<open>
  What the reader of a data handle relies on: its size is that of its contents, and a read within
  the contents returns what is there in full, one past the end less.
\<close>

locale readable =
  fixes get_size :: "'d \<Rightarrow> int \<times> string option"
    and read :: "'d \<Rightarrow> nat \<Rightarrow> nat \<Rightarrow> byte list option"
    and contents_of :: "'d \<Rightarrow> byte list"
    and sound :: "'d \<Rightarrow> bool"
  assumes size_ok: "sound d \<Longrightarrow> get_size d = (int (length (contents_of d)), None)"
    and read_ok: "sound d \<Longrightarrow> read d n k = Some (slice k n (contents_of d))"
begin

lemma read_full: "sound d \<Longrightarrow> k + n \<le> length (contents_of d) \<Longrightarrow> \<exists>bs. read d n k = Some bs \<and> length bs = n"
  by (simp add: read_ok)

text \<open>Reading block by block yields the contents.\<close>

lemma read_blocks:
  assumes "sound d" "length (contents_of d) \<le> b * m"
  shows "concat (map (\<lambda>i. the (read d b (b * i))) [0..<m]) = contents_of d"
proof -
  have "concat (map (\<lambda>i. the (read d b (b * i))) [0..<m]) = take (b * m) (contents_of d)"
  proof (induction m)
    case (Suc m)
    have "take (b * m + b) (contents_of d) = take (b * m) (contents_of d) @ take b (drop (b * m) (contents_of d))"
      by (rule take_add)
    with Suc show ?case by (simp add: read_ok [OF assms(1)] slice_def add.commute)
  qed simp
  with assms(2) show ?thesis by simp
qed

end

interpretation data_handle: readable libsqfs_data_get_size libsqfs_data_pread data_bytes data_ok
  by unfold_locales (simp_all add: get_size_ok pread_correct_aux(1))

section \<open>Properties\<close>

text \<open>C27: a compound of pieces is read as the concatenation of the pieces: for data whose files can
  be read and whose pieces lie within what they refer to, at any nesting, reading \<open>n\<close> bytes
  at an offset returns the bytes of the concatenation in that range (fewer at its end), and
  the size is that of the concatenation.\<close>

theorem compound_read:
  assumes "list_all piece_ok pieces"
  shows "libsqfs_data_pread (libsqfs_compounddata_init pieces) n offset =
      Some (slice offset n (concat (map piece_bytes pieces))) \<and>
    libsqfs_data_get_size (libsqfs_compounddata_init pieces) =
      (int (length (concat (map piece_bytes pieces))), None)"
proof -
  have ok: "data_ok (libsqfs_compounddata_init pieces)"
    using assms by (simp add: libsqfs_compounddata_init_def)
  have "data_bytes (libsqfs_compounddata_init pieces) = concat (map piece_bytes pieces)"
    by (simp add: libsqfs_compounddata_init_def)
  with data_handle.read_ok [OF ok] data_handle.size_ok [OF ok] show ?thesis by metis
qed

theorem compound_read_witness:
  "libsqfs_data_pread (libsqfs_compounddata_init
     [Piece (Memorydata [1, 2, 3]) 2 1, Piece (Memorydata [4]) 0 1, Piece (Memorydata [5, 6]) 2 0]) 2 1 = Some [3, 5]"
  using compound_read [of "[Piece (Memorydata [1, 2, 3]) 2 1, Piece (Memorydata [4]) 0 1, Piece (Memorydata [5, 6]) 2 0]" 2 1]
  by (simp add: slice_def numeral_eq_Suc)

end
