(* ===== verification/Workq.thy ===== *)
theory Workq
  imports Prelude
begin

text \<open>
  The work queues of bulkdata.c: doubly linked lists threaded through the chunks themselves, by
  their \<open>workq_prev\<close> and \<open>workq_next\<close> fields. The operations are modelled on the links, and shown
  to implement operations on lists; Bulkdata works with the lists.
\<close>

section \<open>Links and operations\<close>

text \<open>The link fields of all chunks, by the index of the chunk; a null pointer is \<open>None\<close>.\<close>

record workq_links =
  workq_prev :: "nat option"
  workq_next :: "nat option"

type_synonym links = "nat \<Rightarrow> workq_links"

record libsqfs_chunk_workq =
  wq_first :: "nat option"
  wq_last :: "nat option"

type_synonym workq_state = "links \<times> libsqfs_chunk_workq"

definition set_prev :: "nat option \<Rightarrow> nat option \<Rightarrow> links \<Rightarrow> links" where
  "set_prev p v l = (case p of None \<Rightarrow> l | Some c \<Rightarrow> l(c := (l c)\<lparr>workq_prev := v\<rparr>))"

definition set_next :: "nat option \<Rightarrow> nat option \<Rightarrow> links \<Rightarrow> links" where
  "set_next p v l = (case p of None \<Rightarrow> l | Some c \<Rightarrow> l(c := (l c)\<lparr>workq_next := v\<rparr>))"

definition libsqfs_chunk_workq_init :: libsqfs_chunk_workq where
  "libsqfs_chunk_workq_init = \<lparr>wq_first = None, wq_last = None\<rparr>"

definition libsqfs_chunk_workq_clear :: "workq_state \<Rightarrow> workq_state" where
  "libsqfs_chunk_workq_clear s = (fst s, (snd s)\<lparr>wq_first := None, wq_last := None\<rparr>)"

definition libsqfs_chunk_workq_push_back :: "workq_state \<Rightarrow> nat \<Rightarrow> workq_state" where
  "libsqfs_chunk_workq_push_back s chunk =
     (let (l, workq) = s;
          l = l(chunk := \<lparr>workq_prev = wq_last workq, workq_next = None\<rparr>);
          (l, workq) = (if wq_last workq \<noteq> None then (set_next (wq_last workq) (Some chunk) l, workq)
                        else (l, workq\<lparr>wq_first := Some chunk\<rparr>)) in
      (l, workq\<lparr>wq_last := Some chunk\<rparr>))"

definition libsqfs_chunk_workq_push_front :: "workq_state \<Rightarrow> nat \<Rightarrow> workq_state" where
  "libsqfs_chunk_workq_push_front s chunk =
     (let (l, workq) = s;
          l = l(chunk := \<lparr>workq_prev = None, workq_next = wq_first workq\<rparr>);
          (l, workq) = (if wq_first workq \<noteq> None then (set_prev (wq_first workq) (Some chunk) l, workq)
                        else (l, workq\<lparr>wq_last := Some chunk\<rparr>)) in
      (l, workq\<lparr>wq_first := Some chunk\<rparr>))"

definition libsqfs_chunk_workq_remove :: "workq_state \<Rightarrow> nat \<Rightarrow> workq_state" where
  "libsqfs_chunk_workq_remove s chunk =
     (let (l, workq) = s; p = workq_prev (l chunk); n = workq_next (l chunk);
          (l, workq) = (if p \<noteq> None then (set_next p n l, workq) else (l, workq\<lparr>wq_first := n\<rparr>)) in
      if n \<noteq> None then (set_prev n p l, workq) else (l, workq\<lparr>wq_last := p\<rparr>))"

definition libsqfs_chunk_workq_pop :: "workq_state \<Rightarrow> nat option \<times> workq_state" where
  "libsqfs_chunk_workq_pop s =
     (let (l, workq) = s in
      case wq_first workq of
        None \<Rightarrow> (None, s)
      | Some chunk \<Rightarrow>
          let n = workq_next (l chunk);
              (l, workq) = (if n \<noteq> None then (set_prev n None l, workq) else (l, workq\<lparr>wq_last := None\<rparr>)) in
          (Some chunk, l, workq\<lparr>wq_first := n\<rparr>))"

section \<open>The list a queue stands for\<close>

abbreviation hd_opt :: "'a list \<Rightarrow> 'a option" where "hd_opt xs \<equiv> (case xs of [] \<Rightarrow> None | x # _ \<Rightarrow> Some x)"

definition last_opt :: "'a list \<Rightarrow> 'a option" where
  "last_opt xs = (if xs = [] then None else Some (last xs))"

lemma last_opt_simps [simp]:
  "last_opt [] = None" "last_opt (xs @ [x]) = Some x" "last_opt (x # xs) = (if xs = [] then Some x else last_opt xs)"
  by (simp_all add: last_opt_def)

text \<open>A run of chunks linked to each other, with \<open>p\<close> before and \<open>e\<close> after it.\<close>

fun linked :: "links \<Rightarrow> nat option \<Rightarrow> nat list \<Rightarrow> nat option \<Rightarrow> bool" where
  "linked l p [] e \<longleftrightarrow> True"
| "linked l p (x # xs) e \<longleftrightarrow> workq_prev (l x) = p \<and>
     workq_next (l x) = (case xs of [] \<Rightarrow> e | y # _ \<Rightarrow> Some y) \<and> linked l (Some x) xs e"

definition queue_of :: "workq_state \<Rightarrow> nat list \<Rightarrow> bool" where
  "queue_of s xs \<longleftrightarrow> (case s of (l, workq) \<Rightarrow>
     distinct xs \<and> wq_first workq = hd_opt xs \<and> wq_last workq = last_opt xs \<and> linked l None xs None)"

lemma linked_append:
  "linked l p (xs @ ys) e \<longleftrightarrow> linked l p xs (case ys of [] \<Rightarrow> e | y # _ \<Rightarrow> Some y) \<and>
     linked l (if xs = [] then p else Some (last xs)) ys e"
  by (induction xs arbitrary: p) (auto split: list.splits)

lemma linked_cong: "(\<And>x. x \<in> set xs \<Longrightarrow> l' x = l x) \<Longrightarrow> linked l p xs e \<Longrightarrow> linked l' p xs e"
  by (induction xs arbitrary: p) auto

text \<open>Relinking the two ends of a run.\<close>

lemma linked_set_prev:
  "linked l p (x # xs) e \<Longrightarrow> x \<notin> set xs \<Longrightarrow> linked (set_prev (Some x) q l) q (x # xs) e"
  by (auto simp: set_prev_def intro: linked_cong [rotated])

lemma linked_set_next:
  assumes "linked l p xs e" "xs \<noteq> []" "distinct xs"
  shows "linked (set_next (Some (last xs)) f l) p xs f"
proof -
  obtain ys y where xs: "xs = ys @ [y]" using assms(2) by (cases xs rule: rev_cases) auto
  let ?l = "set_next (Some y) f l"
  have "linked ?l p ys (Some y)" using assms(1,3) unfolding xs
    by (auto simp: linked_append set_next_def intro: linked_cong [rotated])
  moreover have "linked ?l (if ys = [] then p else Some (last ys)) [y] f"
    using assms(1) unfolding xs by (auto simp: linked_append set_next_def)
  ultimately show ?thesis unfolding xs by (simp add: linked_append)
qed

section \<open>Each operation on the list\<close>

lemma push_back_queue: "queue_of s xs \<Longrightarrow> c \<notin> set xs \<Longrightarrow> queue_of (libsqfs_chunk_workq_push_back s c) (xs @ [c])"
proof -
  assume q: "queue_of s xs" "c \<notin> set xs"
  obtain l wq where s: "s = (l, wq)" by (cases s)
  show ?thesis
  proof (cases xs rule: rev_cases)
    case Nil
    with q s show ?thesis by (simp add: queue_of_def libsqfs_chunk_workq_push_back_def)
  next
    case (snoc ys y)
    let ?l = "l(c := \<lparr>workq_prev = Some y, workq_next = None\<rparr>)"
    have "linked ?l None xs None" using q s by (auto simp: queue_of_def intro: linked_cong [rotated])
    then have "linked (set_next (Some (last xs)) (Some c) ?l) None xs (Some c)"
      using q s snoc by (intro linked_set_next) (auto simp: queue_of_def)
    then have "linked (set_next (Some y) (Some c) ?l) None (xs @ [c]) None"
      unfolding linked_append using q(2) snoc by (simp add: set_next_def)
    moreover have "xs \<noteq> []" using snoc by simp
    then have "hd_opt (xs @ [c]) = hd_opt xs" "hd_opt xs \<noteq> None" by (cases xs; simp)+
    moreover have "wq_last wq = Some y" using q s snoc by (simp add: queue_of_def)
    moreover have "last_opt xs = Some y" using snoc by simp
    ultimately show ?thesis
      using q s by (simp add: queue_of_def libsqfs_chunk_workq_push_back_def Let_def)
  qed
qed

lemma push_front_queue: "queue_of s xs \<Longrightarrow> c \<notin> set xs \<Longrightarrow> queue_of (libsqfs_chunk_workq_push_front s c) (c # xs)"
proof -
  assume q: "queue_of s xs" "c \<notin> set xs"
  obtain l wq where s: "s = (l, wq)" by (cases s)
  show ?thesis
  proof (cases xs)
    case Nil
    with q s show ?thesis by (simp add: queue_of_def libsqfs_chunk_workq_push_front_def)
  next
    case (Cons y ys)
    let ?l = "l(c := \<lparr>workq_prev = None, workq_next = Some y\<rparr>)"
    have "linked ?l None (y # ys) None" using q s Cons by (auto simp: queue_of_def intro: linked_cong [rotated])
    then have "linked (set_prev (Some y) (Some c) ?l) (Some c) (y # ys) None"
      using q s Cons by (intro linked_set_prev) (auto simp: queue_of_def)
    with q s Cons show ?thesis
      by (auto simp: queue_of_def libsqfs_chunk_workq_push_front_def set_prev_def)
  qed
qed

lemma pop_queue:
  "queue_of s xs \<Longrightarrow> fst (libsqfs_chunk_workq_pop s) = hd_opt xs \<and> queue_of (snd (libsqfs_chunk_workq_pop s)) (tl xs)"
proof -
  assume q: "queue_of s xs"
  obtain l wq where s: "s = (l, wq)" by (cases s)
  consider "xs = []" | x where "xs = [x]" | x y ys where "xs = x # y # ys" by (cases xs; cases "tl xs") auto
  then show ?thesis
  proof cases
    case (3 x y ys)
    then have "linked (set_prev (Some y) None l) None (y # ys) None"
      using q s by (intro linked_set_prev) (auto simp: queue_of_def)
    with q s 3 show ?thesis by (simp add: queue_of_def libsqfs_chunk_workq_pop_def Let_def)
  qed (use q s in \<open>simp_all add: queue_of_def libsqfs_chunk_workq_pop_def\<close>)
qed

lemma remove_queue: "queue_of s xs \<Longrightarrow> c \<in> set xs \<Longrightarrow> queue_of (libsqfs_chunk_workq_remove s c) (remove1 c xs)"
proof -
  assume q: "queue_of s xs" "c \<in> set xs"
  obtain l wq where s: "s = (l, wq)" by (cases s)
  obtain ys zs where xs: "xs = ys @ c # zs" using q(2) by (metis split_list)
  have d: "distinct xs" and lk: "linked l None ys (Some c)" "workq_prev (l c) = last_opt ys"
    "workq_next (l c) = hd_opt zs" "linked l (Some c) zs None"
    using q s xs by (auto simp: queue_of_def linked_append last_opt_def split: list.splits)
  let ?l1 = "set_next (last_opt ys) (hd_opt zs) l"
  let ?l2 = "set_prev (hd_opt zs) (last_opt ys) ?l1"
  have "linked ?l1 None ys (hd_opt zs)"
    using lk(1) d xs linked_set_next [OF lk(1), of "hd_opt zs"] by (cases ys) (auto simp: last_opt_def)
  then have "linked ?l2 None ys (hd_opt zs)"
    using d xs by (auto simp: set_prev_def split: list.splits intro: linked_cong [rotated])
  moreover have "last ys \<notin> set zs" if "ys \<noteq> []" using d xs last_in_set [OF that] by auto
  then have "linked ?l1 (Some c) zs None"
    by (intro linked_cong [OF _ lk(4)]) (auto simp: set_next_def last_opt_def)
  then have "linked ?l2 (last_opt ys) zs None"
    using d xs linked_set_prev [of ?l1 "Some c"] by (cases zs) auto
  ultimately have "linked ?l2 None (ys @ zs) None"
    unfolding linked_append by (simp add: last_opt_def)
  moreover have "remove1 c xs = ys @ zs" using d xs by (simp add: remove1_append)
  moreover have "libsqfs_chunk_workq_remove s c = (?l2, wq\<lparr>wq_first := hd_opt (ys @ zs), wq_last := last_opt (ys @ zs)\<rparr>)"
    using q s xs lk by (cases ys; cases zs rule: rev_cases)
      (auto simp: queue_of_def libsqfs_chunk_workq_remove_def set_next_def set_prev_def last_opt_def split: list.splits)
  ultimately show ?thesis using d xs by (simp add: queue_of_def)
qed

lemma clear_queue: "queue_of (libsqfs_chunk_workq_clear s) []"
  by (simp add: queue_of_def libsqfs_chunk_workq_clear_def split: prod.splits)

text \<open>Nothing but the chunk and the chunks in the queue is touched.\<close>

lemma push_back_frame:
  "queue_of s xs \<Longrightarrow> x \<noteq> c \<Longrightarrow> x \<notin> set xs \<Longrightarrow> fst (libsqfs_chunk_workq_push_back s c) x = fst s x"
  by (cases s) (auto simp: queue_of_def libsqfs_chunk_workq_push_back_def set_next_def last_opt_def Let_def)

lemma push_front_frame:
  "queue_of s xs \<Longrightarrow> x \<noteq> c \<Longrightarrow> x \<notin> set xs \<Longrightarrow> fst (libsqfs_chunk_workq_push_front s c) x = fst s x"
  by (cases s; cases xs) (auto simp: queue_of_def libsqfs_chunk_workq_push_front_def set_prev_def Let_def)

lemma pop_frame:
  "queue_of s xs \<Longrightarrow> x \<notin> set xs \<Longrightarrow> fst (snd (libsqfs_chunk_workq_pop s)) x = fst s x"
  by (cases s; cases xs; cases "tl xs") (auto simp: queue_of_def libsqfs_chunk_workq_pop_def set_prev_def Let_def)

lemma remove_frame:
  assumes "queue_of s xs" "c \<in> set xs" "x \<notin> set xs"
  shows "fst (libsqfs_chunk_workq_remove s c) x = fst s x"
proof -
  obtain l wq where s: "s = (l, wq)" by (cases s)
  obtain ys zs where xs: "xs = ys @ c # zs" using assms(2) by (metis split_list)
  then have "workq_prev (l c) = last_opt ys" "workq_next (l c) = hd_opt zs"
    using assms(1) s by (auto simp: queue_of_def linked_append last_opt_def)
  moreover have "last_opt ys \<noteq> Some x" "hd_opt zs \<noteq> Some x"
    using assms(3) xs by (auto simp: last_opt_def split: list.splits)
  ultimately show ?thesis
    using s by (auto simp: libsqfs_chunk_workq_remove_def set_next_def set_prev_def Let_def split: option.splits)
qed

section \<open>The contract of a work queue\<close>

locale deque =
  fixes push_back push_front remove :: "'s \<Rightarrow> nat \<Rightarrow> 's"
    and pop :: "'s \<Rightarrow> nat option \<times> 's"
    and clear :: "'s \<Rightarrow> 's"
    and stands_for :: "'s \<Rightarrow> nat list \<Rightarrow> bool"
    and field :: "'s \<Rightarrow> nat \<Rightarrow> 'f"
  assumes pushed_back: "stands_for s xs \<Longrightarrow> c \<notin> set xs \<Longrightarrow> stands_for (push_back s c) (xs @ [c])"
    and pushed_front: "stands_for s xs \<Longrightarrow> c \<notin> set xs \<Longrightarrow> stands_for (push_front s c) (c # xs)"
    and removed: "stands_for s xs \<Longrightarrow> c \<in> set xs \<Longrightarrow> stands_for (remove s c) (remove1 c xs)"
    and popped: "stands_for s xs \<Longrightarrow> fst (pop s) = hd_opt xs \<and> stands_for (snd (pop s)) (tl xs)"
    and cleared: "stands_for (clear s) []"
    and back_frame: "stands_for s xs \<Longrightarrow> x \<noteq> c \<Longrightarrow> x \<notin> set xs \<Longrightarrow> field (push_back s c) x = field s x"
    and front_frame: "stands_for s xs \<Longrightarrow> x \<noteq> c \<Longrightarrow> x \<notin> set xs \<Longrightarrow> field (push_front s c) x = field s x"
    and removed_frame: "stands_for s xs \<Longrightarrow> c \<in> set xs \<Longrightarrow> x \<notin> set xs \<Longrightarrow> field (remove s c) x = field s x"
    and popped_frame: "stands_for s xs \<Longrightarrow> x \<notin> set xs \<Longrightarrow> field (snd (pop s)) x = field s x"

text \<open>Programs over a queue: each call with what it yields on the queue and on a list.\<close>

datatype workq_op = Push_back nat | Push_front nat | Remove nat | Pop | Clear

fun list_call :: "workq_op \<Rightarrow> nat list \<Rightarrow> (nat option \<times> nat list) option" where
  "list_call (Push_back c) xs = (if c \<in> set xs then None else Some (None, xs @ [c]))"
| "list_call (Push_front c) xs = (if c \<in> set xs then None else Some (None, c # xs))"
| "list_call (Remove c) xs = (if c \<in> set xs then Some (None, remove1 c xs) else None)"
| "list_call Pop xs = Some (hd_opt xs, tl xs)"
| "list_call Clear xs = Some (None, [])"

fun list_run :: "workq_op list \<Rightarrow> nat list \<Rightarrow> (nat option list \<times> nat list) option" where
  "list_run [] xs = Some ([], xs)"
| "list_run (a # as) xs = do {
     (r, xs) \<leftarrow> list_call a xs;
     (rs, xs) \<leftarrow> list_run as xs;
     Some (r # rs, xs) }"

fun workq_call :: "workq_op \<Rightarrow> workq_state \<Rightarrow> nat option \<times> workq_state" where
  "workq_call (Push_back c) s = (None, libsqfs_chunk_workq_push_back s c)"
| "workq_call (Push_front c) s = (None, libsqfs_chunk_workq_push_front s c)"
| "workq_call (Remove c) s = (None, libsqfs_chunk_workq_remove s c)"
| "workq_call Pop s = libsqfs_chunk_workq_pop s"
| "workq_call Clear s = (None, libsqfs_chunk_workq_clear s)"

fun workq_run :: "(workq_op \<Rightarrow> 's \<Rightarrow> nat option \<times> 's) \<Rightarrow> workq_op list \<Rightarrow> 's \<Rightarrow> nat option list \<times> 's" where
  "workq_run call [] s = ([], s)"
| "workq_run call (a # as) s = (let (r, s) = call a s; (rs, s) = workq_run call as s in (r # rs, s))"

context deque
begin

definition call :: "workq_op \<Rightarrow> 's \<Rightarrow> nat option \<times> 's" where
  "call a s = (case a of Push_back c \<Rightarrow> (None, push_back s c) | Push_front c \<Rightarrow> (None, push_front s c)
     | Remove c \<Rightarrow> (None, remove s c) | Pop \<Rightarrow> pop s | Clear \<Rightarrow> (None, clear s))"

lemma call_refines:
  "stands_for s xs \<Longrightarrow> list_call a xs = Some (r, ys) \<Longrightarrow> fst (call a s) = r \<and> stands_for (snd (call a s)) ys"
  using pushed_back pushed_front removed popped cleared by (cases a) (auto simp: call_def split: if_splits)

lemma run_refines:
  "stands_for s xs \<Longrightarrow> list_run as xs = Some (rs, ys) \<Longrightarrow>
     fst (workq_run call as s) = rs \<and> stands_for (snd (workq_run call as s)) ys"
proof (induction as arbitrary: s xs rs)
  case (Cons a as)
  obtain r zs rs' where step: "list_call a xs = Some (r, zs)" "list_run as zs = Some (rs', ys)" "rs = r # rs'"
    using Cons.prems(2) by (auto split: bind_splits)
  obtain s' where s': "call a s = (r, s')" "stands_for s' zs"
    using call_refines [OF Cons.prems(1) step(1)] by (cases "call a s") auto
  from Cons.IH [OF s'(2) step(2)] s'(1) step(3) show ?case by (auto split: prod.splits)
qed simp

end

interpretation chunk_queue: deque libsqfs_chunk_workq_push_back libsqfs_chunk_workq_push_front
    libsqfs_chunk_workq_remove libsqfs_chunk_workq_pop libsqfs_chunk_workq_clear queue_of fst
  by unfold_locales (auto simp: push_back_queue push_front_queue remove_queue pop_queue clear_queue
      push_back_frame push_front_frame remove_frame pop_frame)

lemma workq_call_eq: "chunk_queue.call = workq_call"
  by (intro ext) (simp add: chunk_queue.call_def split: workq_op.splits)

section \<open>Properties\<close>

text \<open>C26: a work queue is a list. Any sequence of calls on an initialised queue in which no chunk is
  pushed while it is in the queue, nor removed while it is not, yields what the same calls
  yield on a list, and leaves links that stand for the resulting list.\<close>

theorem workq_refines_list:
  assumes "list_run calls [] = Some (rs, ys)"
  shows "\<exists>s'. workq_run workq_call calls (l, libsqfs_chunk_workq_init) = (rs, s') \<and> queue_of s' ys"
proof -
  have "queue_of (l, libsqfs_chunk_workq_init) []"
    by (simp add: queue_of_def libsqfs_chunk_workq_init_def)
  from chunk_queue.run_refines [OF this assms] show ?thesis
    by (cases "workq_run workq_call calls (l, libsqfs_chunk_workq_init)") (auto simp: workq_call_eq)
qed

theorem workq_refines_list_witness:
  "\<exists>s'. workq_run workq_call [Push_back 4, Push_front 7, Push_back 2, Remove 4, Pop]
     (\<lambda>_. \<lparr>workq_prev = None, workq_next = None\<rparr>, libsqfs_chunk_workq_init) =
     ([None, None, None, None, Some 7], s') \<and> queue_of s' [2]"
  by (rule workq_refines_list) simp

end
