(* ===== verification/Bulkdata.thy ===== *)
theory Bulkdata
  imports Metatable Options Datasource Workq
begin

text \<open>
  bulkdata.h and bulkdata.c: the contents of files on their way into the image. Every chunk (a
  full block, a piece of a fragment block, or the piece that closes the last fragment block)
  passes through the states none, read, deduplicated, assigned, writable, finished; five work
  queues hold the chunks that are ready for their next step; any number of threads take chunks
  from the queues.

  A chunk is known by its index in the order of submission: \<open>chunk->prev\<close> and \<open>chunk->next\<close> are
  the indices before and after, and a queue is the list of the indices in it (Workq shows that
  the linked lists of the code implement these lists). A fragment block is known by its index.

  Every operation that gives up the lock in the middle is divided there: \<open>..._enter\<close> is the part
  under the lock, and \<open>..._leave\<close> what follows, up to the return under the lock. The operation
  is their composition; the model of several threads interleaves the parts.
\<close>

section \<open>State\<close>

datatype libsqfs_chunk_state =
    libsqfs_chunk_none | libsqfs_chunk_read | libsqfs_chunk_deduplicated
  | libsqfs_chunk_assigned | libsqfs_chunk_writable | libsqfs_chunk_finished

text \<open>The states are compared with \<open><\<close>, by the values the enumeration gives them.\<close>

fun chunk_state_rank :: "libsqfs_chunk_state \<Rightarrow> nat" where
  "chunk_state_rank libsqfs_chunk_none = 0"
| "chunk_state_rank libsqfs_chunk_read = 1"
| "chunk_state_rank libsqfs_chunk_deduplicated = 2"
| "chunk_state_rank libsqfs_chunk_assigned = 3"
| "chunk_state_rank libsqfs_chunk_writable = 4"
| "chunk_state_rank libsqfs_chunk_finished = 5"

lemma chunk_state_rank_inj: "chunk_state_rank a = chunk_state_rank b \<Longrightarrow> a = b"
  by (cases a; cases b) simp_all

instantiation libsqfs_chunk_state :: linorder
begin

definition less_eq_libsqfs_chunk_state :: "libsqfs_chunk_state \<Rightarrow> libsqfs_chunk_state \<Rightarrow> bool" where
  "less_eq_libsqfs_chunk_state a b \<longleftrightarrow> chunk_state_rank a \<le> chunk_state_rank b"

definition less_libsqfs_chunk_state :: "libsqfs_chunk_state \<Rightarrow> libsqfs_chunk_state \<Rightarrow> bool" where
  "less_libsqfs_chunk_state a b \<longleftrightarrow> chunk_state_rank a < chunk_state_rank b"

instance
  by standard (auto simp: less_eq_libsqfs_chunk_state_def less_libsqfs_chunk_state_def chunk_state_rank_inj)

end

record libsqfs_image_block =
  ib_offset :: u64
  ib_size :: nat
  ib_data :: "byte list option"
  ib_compressed :: bool

text \<open>The class of a chunk, its method table.\<close>

datatype libsqfs_chunk_vmt = libsqfs_full_block_vmt | libsqfs_fragment_piece_vmt | libsqfs_closing_piece_vmt

text \<open>
  The common fields of a chunk, \<open>ck_dst\<close> of a full block, and the remaining fields of a piece.
\<close>

record libsqfs_chunk =
  ck_vmt :: libsqfs_chunk_vmt
  ck_state :: libsqfs_chunk_state
  ck_data :: libsqfs_data_piece
  cached_data :: "byte list option"
  ck_dst :: libsqfs_image_block
  prev_piece :: "nat option"
  next_piece :: "nat option"
  ck_offset :: u64
  ck_fragment_block :: "nat option"
  flush_previous_block :: bool

record libsqfs_fragment_block =
  fb_pieces :: "nat list"
  fb_size :: nat
  fb_dst :: libsqfs_image_block

record libsqfs_bulkdata =
  bd_chunks :: "libsqfs_chunk list"
  bd_finished :: nat
  fragment_blocks :: "libsqfs_fragment_block list"
  fragment_pieces :: "nat list"
  readq :: "nat list"
  dedupq :: "nat list"
  assignq :: "nat list"
  compressq :: "nat list"
  writeq :: "nat list"
  may_add_chunks :: bool
  aborted :: bool
  compress_blocks :: bool
  compress_fragments :: bool
  frag_table_loc :: u64

abbreviation bd_count :: "libsqfs_bulkdata \<Rightarrow> nat" where "bd_count bd \<equiv> length (bd_chunks bd)"

text \<open>The part of \<open>struct libsqfs_image\<close> that bulk data needs: also the state and the error message.\<close>

datatype libsqfs_image_state =
  libsqfs_image_building | libsqfs_image_fatal_error | libsqfs_image_finalized

record sqfs_bulk = sqfs_out +
  img_options :: libsqfs_image_options
  img_state :: libsqfs_image_state
  error_msg :: "string option"
  bulkdata :: libsqfs_bulkdata

abbreviation upd_bulk :: "(libsqfs_bulkdata \<Rightarrow> libsqfs_bulkdata) \<Rightarrow> 'a sqfs_bulk_scheme \<Rightarrow> 'a sqfs_bulk_scheme" where
  "upd_bulk f img \<equiv> img\<lparr>bulkdata := f (bulkdata img)\<rparr>"

abbreviation chunk_at :: "'a sqfs_bulk_scheme \<Rightarrow> nat \<Rightarrow> libsqfs_chunk" where
  "chunk_at img n \<equiv> bd_chunks (bulkdata img) ! n"

definition upd_chunk :: "nat \<Rightarrow> (libsqfs_chunk \<Rightarrow> libsqfs_chunk) \<Rightarrow> 'a sqfs_bulk_scheme \<Rightarrow> 'a sqfs_bulk_scheme" where
  "upd_chunk n f img = upd_bulk (\<lambda>bd. bd\<lparr>bd_chunks := (bd_chunks bd)[n := f (bd_chunks bd ! n)]\<rparr>) img"

definition upd_fragment_block ::
    "nat \<Rightarrow> (libsqfs_fragment_block \<Rightarrow> libsqfs_fragment_block) \<Rightarrow> 'a sqfs_bulk_scheme \<Rightarrow> 'a sqfs_bulk_scheme" where
  "upd_fragment_block n f img =
     upd_bulk (\<lambda>bd. bd\<lparr>fragment_blocks := (fragment_blocks bd)[n := f (fragment_blocks bd ! n)]\<rparr>) img"

abbreviation push_front_dedupq where "push_front_dedupq n img \<equiv> upd_bulk (dedupq_update (\<lambda>q. n # q)) img"
abbreviation push_front_assignq where "push_front_assignq n img \<equiv> upd_bulk (assignq_update (\<lambda>q. n # q)) img"
abbreviation push_front_compressq where "push_front_compressq n img \<equiv> upd_bulk (compressq_update (\<lambda>q. n # q)) img"
abbreviation push_front_writeq where "push_front_writeq n img \<equiv> upd_bulk (writeq_update (\<lambda>q. n # q)) img"

section \<open>Errors\<close>

definition libsqfs_bulkdata_abort :: "libsqfs_bulkdata \<Rightarrow> libsqfs_bulkdata" where
  "libsqfs_bulkdata_abort bd = bd\<lparr>may_add_chunks := False, aborted := True,
     readq := [], dedupq := [], assignq := [], compressq := [], writeq := []\<rparr>"

definition libsqfs_image_cancel_pending_operations :: "'a sqfs_bulk_scheme \<Rightarrow> 'a sqfs_bulk_scheme" where
  "libsqfs_image_cancel_pending_operations img = upd_bulk libsqfs_bulkdata_abort img"

abbreviation (input) out_of_memory_msg :: string where "out_of_memory_msg \<equiv> ''Memory allocation failed''"

definition libsqfs_image_out_of_memory :: "'a sqfs_bulk_scheme \<Rightarrow> bool \<Rightarrow> 'a sqfs_bulk_scheme" where
  "libsqfs_image_out_of_memory img fatal =
     (let img = (if error_msg img = None then img\<lparr>error_msg := Some out_of_memory_msg\<rparr> else img);
          img = (if fatal then img\<lparr>img_state := libsqfs_image_fatal_error\<rparr> else img) in
      if fatal then libsqfs_image_cancel_pending_operations img else img)"

definition libsqfs_image_flag_error :: "'a sqfs_bulk_scheme \<Rightarrow> string \<Rightarrow> bool \<Rightarrow> 'a sqfs_bulk_scheme" where
  "libsqfs_image_flag_error img description fatal =
     (let img =
        (if error_msg img = None
         then let (ok, h) = malloc (mem img) in
           img\<lparr>mem := h, error_msg := Some (if ok then description else out_of_memory_msg)\<rparr>
         else img);
          img = (if fatal then img\<lparr>img_state := libsqfs_image_fatal_error\<rparr> else img) in
      if fatal then libsqfs_image_cancel_pending_operations img else img)"

section \<open>Steps common to all chunks\<close>

text \<open>
  \<open>None\<close> is a failed assertion (or another undefined behaviour), the boolean what the C function
  returns. \<open>strerror\<close> stands for the text of the system's error in a message.
\<close>

abbreviation (input) strerror :: string where "strerror \<equiv> ''errno''"

definition libsqfs_chunk_do_read_enter :: "nat \<Rightarrow> 'a sqfs_bulk_scheme \<Rightarrow> 'a sqfs_bulk_scheme option" where
  "libsqfs_chunk_do_read_enter n img =
     (if ck_state (chunk_at img n) \<noteq> libsqfs_chunk_none then None else Some img)"

definition libsqfs_chunk_do_read_leave :: "nat \<Rightarrow> 'a sqfs_bulk_scheme \<Rightarrow> (bool \<times> 'a sqfs_bulk_scheme) option" where
  "libsqfs_chunk_do_read_leave n img =
     (let piece = ck_data (chunk_at img n) in
      if piece_size piece = 0 then None
      else
        let (ok, h) = malloc (mem img); img = img\<lparr>mem := h\<rparr> in
        if \<not> ok then Some (False, libsqfs_image_out_of_memory img True)
        else
          let result = libsqfs_data_pread (piece_data piece) (piece_size piece) (piece_offset piece);
              img = upd_chunk n (cached_data_update (\<lambda>_. Some (case result of None \<Rightarrow> [] | Some bs \<Rightarrow> bs))) img in
          if (case result of None \<Rightarrow> True | Some bs \<Rightarrow> length bs \<noteq> piece_size piece)
          then
            let reason = (if result = None then ''short read'' else strerror) in
            Some (False, libsqfs_image_flag_error img
              (''Read failed from '' @ libsqfs_data_describe (piece_data piece) @ '' ('' @ reason @ '')'') True)
          else
            Some (True, push_front_dedupq n (upd_chunk n (ck_state_update (\<lambda>_. libsqfs_chunk_read)) img)))"

definition libsqfs_chunk_do_deduplicate :: "nat \<Rightarrow> 'a sqfs_bulk_scheme \<Rightarrow> (bool \<times> 'a sqfs_bulk_scheme) option" where
  "libsqfs_chunk_do_deduplicate n img =
     (if ck_state (chunk_at img n) \<noteq> libsqfs_chunk_read then None
      else Some (True, push_front_assignq n
        (upd_chunk n (ck_state_update (\<lambda>_. libsqfs_chunk_deduplicated)) img)))"

definition libsqfs_chunk_do_assign :: "nat \<Rightarrow> 'a sqfs_bulk_scheme \<Rightarrow> (bool \<times> 'a sqfs_bulk_scheme) option" where
  "libsqfs_chunk_do_assign n img =
     (if ck_state (chunk_at img n) \<noteq> libsqfs_chunk_deduplicated then None
      else Some (True, push_front_compressq n
        (upd_chunk n (ck_state_update (\<lambda>_. libsqfs_chunk_assigned)) img)))"

definition libsqfs_chunk_try_writeout :: "nat \<Rightarrow> 'a sqfs_bulk_scheme \<Rightarrow> 'a sqfs_bulk_scheme" where
  "libsqfs_chunk_try_writeout n img =
     (if ck_state (chunk_at img n) \<noteq> libsqfs_chunk_writable then img
      else if n \<noteq> 0 \<and> ck_state (chunk_at img (n - 1)) \<noteq> libsqfs_chunk_finished then img
      else push_front_writeq n img)"

definition libsqfs_chunk_mark_finished :: "nat \<Rightarrow> 'a sqfs_bulk_scheme \<Rightarrow> 'a sqfs_bulk_scheme option" where
  "libsqfs_chunk_mark_finished n img =
     (if n \<noteq> 0 \<and> ck_state (chunk_at img (n - 1)) \<noteq> libsqfs_chunk_finished then None
      else
        let img = upd_chunk n (ck_state_update (\<lambda>_. libsqfs_chunk_finished)) img;
            img = (if n + 1 < bd_count (bulkdata img) \<and> ck_state (chunk_at img (n + 1)) = libsqfs_chunk_writable
                   then push_front_writeq (n + 1) img else img) in
        Some (upd_bulk (bd_finished_update Suc) img))"

section \<open>Blocks in the image\<close>

definition libsqfs_image_block_init :: libsqfs_image_block where
  "libsqfs_image_block_init = \<lparr>ib_offset = -1, ib_size = 0, ib_data = None, ib_compressed = False\<rparr>"

text \<open>
  The check after the allocation looks at the size and not at the pointer: with no memory left the
  data goes to a null pointer.
\<close>

definition libsqfs_image_block_compress ::
    "libsqfs_compressor_instance \<Rightarrow> heap \<Rightarrow> libsqfs_image_block \<Rightarrow> byte list \<Rightarrow>
     (bool \<times> libsqfs_image_block \<times> heap) option" where
  "libsqfs_image_block_compress ci h block src =
     (let (ok, h) = malloc h in
      if length src = 0 then Some (False, block, h)
      else if \<not> ok then None
      else do {
        result \<leftarrow> libsqfs_compressor_instance_compress ci (length src) src;
        Some (True,
          (case result of
             Some out \<Rightarrow> block\<lparr>ib_compressed := True, ib_size := length out, ib_data := Some out\<rparr>
           | None \<Rightarrow> block\<lparr>ib_compressed := False, ib_size := length src, ib_data := Some src\<rparr>), h) })"

definition libsqfs_image_block_uncompressed ::
    "heap \<Rightarrow> libsqfs_image_block \<Rightarrow> byte list \<Rightarrow> (bool \<times> libsqfs_image_block \<times> heap) option" where
  "libsqfs_image_block_uncompressed h block src =
     (let (ok, h) = malloc h in
      if length src = 0 then Some (False, block, h)
      else if \<not> ok then None
      else Some (True, block\<lparr>ib_compressed := False, ib_size := length src, ib_data := Some src\<rparr>, h))"

definition libsqfs_image_block_write_enter ::
    "libsqfs_image_block \<Rightarrow> 'a sqfs_bulk_scheme \<Rightarrow> libsqfs_image_block \<times> 'a sqfs_bulk_scheme" where
  "libsqfs_image_block_write_enter block img =
     (let (offset, img) = libsqfs_image_reserve img (ib_size block) in (block\<lparr>ib_offset := offset\<rparr>, img))"

definition libsqfs_image_block_write_leave ::
    "libsqfs_image_block \<Rightarrow> 'a sqfs_bulk_scheme \<Rightarrow> (bool \<times> libsqfs_image_block \<times> 'a sqfs_bulk_scheme) option" where
  "libsqfs_image_block_write_leave block img = do {
     data \<leftarrow> ib_data block;
     let (count, d) = libsqfs_pwrite (dst img) (take (ib_size block) data) (ib_offset block);
     let img = img\<lparr>dst := d\<rparr>;
     if count \<noteq> int (ib_size block)
     then
       let reason = (if count = -1 then ''short write'' else strerror) in
       Some (False, block, libsqfs_image_flag_error img (''Write to image file failed: '' @ reason) True)
     else Some (True, block\<lparr>ib_data := None\<rparr>, img) }"

section \<open>Fragment pieces\<close>

definition libsqfs_fragment_block_create :: "'a sqfs_bulk_scheme \<Rightarrow> nat option \<times> 'a sqfs_bulk_scheme" where
  "libsqfs_fragment_block_create img =
     (let (ok, h) = malloc (mem img); img = img\<lparr>mem := h\<rparr> in
      if \<not> ok then (None, img)
      else (Some (length (fragment_blocks (bulkdata img))), upd_bulk (\<lambda>bd. bd\<lparr>fragment_blocks := fragment_blocks bd @
        [\<lparr>fb_pieces = [], fb_size = 0, fb_dst = libsqfs_image_block_init\<rparr>]\<rparr>) img))"

definition libsqfs_fragment_block_add_piece :: "nat \<Rightarrow> nat \<Rightarrow> 'a sqfs_bulk_scheme \<Rightarrow> 'a sqfs_bulk_scheme" where
  "libsqfs_fragment_block_add_piece b n img =
     (let block = fragment_blocks (bulkdata img) ! b;
          img = upd_chunk n (\<lambda>piece. piece\<lparr>ck_fragment_block := Some b, ck_offset := of_nat (fb_size block)\<rparr>) img in
      upd_fragment_block b (\<lambda>block. block\<lparr>fb_pieces := fb_pieces block @ [n],
        fb_size := fb_size block + piece_size (ck_data (chunk_at img n))\<rparr>) img)"

text \<open>A piece cannot be placed before the piece in front of it has been.\<close>

definition libsqfs_fragment_piece_deduplicate :: "nat \<Rightarrow> 'a sqfs_bulk_scheme \<Rightarrow> (bool \<times> 'a sqfs_bulk_scheme) option" where
  "libsqfs_fragment_piece_deduplicate n img =
     (if ck_state (chunk_at img n) \<noteq> libsqfs_chunk_read then None
      else
        let img = upd_chunk n (ck_state_update (\<lambda>_. libsqfs_chunk_deduplicated)) img in
        if (case prev_piece (chunk_at img n) of None \<Rightarrow> False
            | Some p \<Rightarrow> ck_state (chunk_at img p) < libsqfs_chunk_assigned)
        then Some (True, img)
        else Some (True, push_front_assignq n img))"

text \<open>
  Placing a piece: into the block of the piece before it, if there is room, or else into a new
  block, with the old one to be flushed in front of this piece.
\<close>

definition fragment_piece_choose_block ::
    "nat \<Rightarrow> 'a sqfs_bulk_scheme \<Rightarrow> (nat option \<times> 'a sqfs_bulk_scheme) option" where
  "fragment_piece_choose_block n img =
     (case prev_piece (chunk_at img n) of
        None \<Rightarrow> Some (None, img)
      | Some p \<Rightarrow> do {
          b \<leftarrow> ck_fragment_block (chunk_at img p);
          if fb_size (fragment_blocks (bulkdata img) ! b) + piece_size (ck_data (chunk_at img n)) >
             block_size (img_options img)
          then Some (None, upd_chunk n (flush_previous_block_update (\<lambda>_. True)) img)
          else Some (Some b, img) })"

definition libsqfs_fragment_piece_assign :: "nat \<Rightarrow> 'a sqfs_bulk_scheme \<Rightarrow> (bool \<times> 'a sqfs_bulk_scheme) option" where
  "libsqfs_fragment_piece_assign n img =
     (if ck_state (chunk_at img n) \<noteq> libsqfs_chunk_deduplicated then None
      else do {
        (frag_block, img) \<leftarrow> fragment_piece_choose_block n img;
        let (frag_block, img) = (case frag_block of None \<Rightarrow> libsqfs_fragment_block_create img | Some b \<Rightarrow> (Some b, img));
        case frag_block of
          None \<Rightarrow> Some (False, libsqfs_image_out_of_memory img True)
        | Some b \<Rightarrow>
            let img = libsqfs_fragment_block_add_piece b n img;
                img = (if flush_previous_block (chunk_at img n)
                       then push_front_compressq n (upd_chunk n (ck_state_update (\<lambda>_. libsqfs_chunk_assigned)) img)
                       else libsqfs_chunk_try_writeout n
                         (upd_chunk n (ck_state_update (\<lambda>_. libsqfs_chunk_writable)) img));
                img = (case next_piece (chunk_at img n) of
                         None \<Rightarrow> img
                       | Some k \<Rightarrow> if ck_state (chunk_at img k) = libsqfs_chunk_deduplicated
                           then push_front_assignq k img else img) in
            Some (True, img) })"

text \<open>The fragment block that a flushing piece writes: that of the piece before it.\<close>

definition flushed_block :: "nat \<Rightarrow> 'a sqfs_bulk_scheme \<Rightarrow> nat option" where
  "flushed_block n img = do {
     p \<leftarrow> prev_piece (chunk_at img n);
     ck_fragment_block (chunk_at img p) }"

definition libsqfs_fragment_piece_compress_enter :: "nat \<Rightarrow> 'a sqfs_bulk_scheme \<Rightarrow> 'a sqfs_bulk_scheme option" where
  "libsqfs_fragment_piece_compress_enter n img =
     (if ck_state (chunk_at img n) \<noteq> libsqfs_chunk_assigned then None
      else if \<not> flush_previous_block (chunk_at img n) then None
      else if flushed_block n img = None then None
      else Some img)"

text \<open>The loop over the pieces of a block: their data is collected and released.\<close>

fun collect_pieces :: "nat list \<Rightarrow> 'a sqfs_bulk_scheme \<Rightarrow> (byte list \<times> 'a sqfs_bulk_scheme) option" where
  "collect_pieces [] img = Some ([], img)"
| "collect_pieces (p # ps) img = do {
     data \<leftarrow> cached_data (chunk_at img p);
     let img = upd_chunk p (cached_data_update (\<lambda>_. None)) img;
     (rest, img) \<leftarrow> collect_pieces ps img;
     Some (take (piece_size (ck_data (chunk_at img p))) data @ rest, img) }"

definition libsqfs_fragment_piece_compress_leave ::
    "libsqfs_compressor_instance \<Rightarrow> nat \<Rightarrow> 'a sqfs_bulk_scheme \<Rightarrow> (bool \<times> 'a sqfs_bulk_scheme) option" where
  "libsqfs_fragment_piece_compress_leave ci n img = do {
     b \<leftarrow> flushed_block n img;
     let frag_block = fragment_blocks (bulkdata img) ! b;
     (buffer, img) \<leftarrow> collect_pieces (fb_pieces frag_block) img;
     if length buffer \<noteq> fb_size frag_block then None
     else do {
       (result, block, h) \<leftarrow>
         (if compress_fragments (bulkdata img)
          then libsqfs_image_block_compress ci (mem img) (fb_dst frag_block) buffer
          else libsqfs_image_block_uncompressed (mem img) (fb_dst frag_block) buffer);
       let img = upd_fragment_block b (fb_dst_update (\<lambda>_. block)) (img\<lparr>mem := h\<rparr>);
       if \<not> result then Some (False, libsqfs_image_out_of_memory img True)
       else Some (True, libsqfs_chunk_try_writeout n
         (upd_chunk n (ck_state_update (\<lambda>_. libsqfs_chunk_writable)) img)) } }"

definition libsqfs_fragment_piece_write_enter :: "nat \<Rightarrow> 'a sqfs_bulk_scheme \<Rightarrow> 'a sqfs_bulk_scheme option" where
  "libsqfs_fragment_piece_write_enter n img =
     (if ck_state (chunk_at img n) \<noteq> libsqfs_chunk_writable then None
      else if flush_previous_block (chunk_at img n) then do {
        b \<leftarrow> flushed_block n img;
        let (block, img) = libsqfs_image_block_write_enter (fb_dst (fragment_blocks (bulkdata img) ! b)) img;
        Some (upd_fragment_block b (fb_dst_update (\<lambda>_. block)) img) }
      else Some img)"

definition libsqfs_fragment_piece_write_leave :: "nat \<Rightarrow> 'a sqfs_bulk_scheme \<Rightarrow> (bool \<times> 'a sqfs_bulk_scheme) option" where
  "libsqfs_fragment_piece_write_leave n img = do {
     (ok, img) \<leftarrow>
       (if flush_previous_block (chunk_at img n) then do {
          b \<leftarrow> flushed_block n img;
          (ok, block, img) \<leftarrow> libsqfs_image_block_write_leave (fb_dst (fragment_blocks (bulkdata img) ! b)) img;
          Some (ok, upd_fragment_block b (fb_dst_update (\<lambda>_. block)) img) }
        else Some (True, img));
     if \<not> ok then Some (False, img)
     else do {
       img \<leftarrow> libsqfs_chunk_mark_finished n img;
       Some (True, img) } }"

subsection \<open>The closing piece\<close>

definition libsqfs_closing_piece_read :: "nat \<Rightarrow> 'a sqfs_bulk_scheme \<Rightarrow> (bool \<times> 'a sqfs_bulk_scheme) option" where
  "libsqfs_closing_piece_read n img =
     Some (True, push_front_dedupq n (upd_chunk n (ck_state_update (\<lambda>_. libsqfs_chunk_read)) img))"

definition libsqfs_closing_piece_deduplicate :: "nat \<Rightarrow> 'a sqfs_bulk_scheme \<Rightarrow> (bool \<times> 'a sqfs_bulk_scheme) option" where
  "libsqfs_closing_piece_deduplicate n img =
     (if ck_state (chunk_at img n) \<noteq> libsqfs_chunk_read then None
      else
        let img = upd_chunk n (ck_state_update (\<lambda>_. libsqfs_chunk_deduplicated)) img in
        if (case prev_piece (chunk_at img n) of None \<Rightarrow> False
            | Some p \<Rightarrow> ck_state (chunk_at img p) < libsqfs_chunk_assigned)
        then Some (True, img)
        else Some (True, push_front_assignq n img))"

definition libsqfs_closing_piece_assign :: "nat \<Rightarrow> 'a sqfs_bulk_scheme \<Rightarrow> (bool \<times> 'a sqfs_bulk_scheme) option" where
  "libsqfs_closing_piece_assign n img =
     (if ck_state (chunk_at img n) \<noteq> libsqfs_chunk_deduplicated then None
      else
        let img = (if prev_piece (chunk_at img n) \<noteq> None
                   then upd_chunk n (flush_previous_block_update (\<lambda>_. True)) img else img) in
        if flush_previous_block (chunk_at img n)
        then Some (True, push_front_compressq n (upd_chunk n (ck_state_update (\<lambda>_. libsqfs_chunk_assigned)) img))
        else Some (True, libsqfs_chunk_try_writeout n
          (upd_chunk n (ck_state_update (\<lambda>_. libsqfs_chunk_writable)) img)))"

section \<open>Full blocks\<close>

definition libsqfs_full_block_compress_enter :: "nat \<Rightarrow> 'a sqfs_bulk_scheme \<Rightarrow> 'a sqfs_bulk_scheme option" where
  "libsqfs_full_block_compress_enter n img =
     (if ck_state (chunk_at img n) \<noteq> libsqfs_chunk_assigned then None else Some img)"

definition libsqfs_full_block_compress_leave ::
    "libsqfs_compressor_instance \<Rightarrow> nat \<Rightarrow> 'a sqfs_bulk_scheme \<Rightarrow> (bool \<times> 'a sqfs_bulk_scheme) option" where
  "libsqfs_full_block_compress_leave ci n img = do {
     data \<leftarrow> cached_data (chunk_at img n);
     let src = take (piece_size (ck_data (chunk_at img n))) data;
     (result, block, h) \<leftarrow>
       (if compress_blocks (bulkdata img)
        then libsqfs_image_block_compress ci (mem img) (ck_dst (chunk_at img n)) src
        else libsqfs_image_block_uncompressed (mem img) (ck_dst (chunk_at img n)) src);
     let img = upd_chunk n (ck_dst_update (\<lambda>_. block)) (img\<lparr>mem := h\<rparr>);
     if \<not> result then Some (False, libsqfs_image_out_of_memory img True)
     else
       let img = upd_chunk n (cached_data_update (\<lambda>_. None)) img in
       Some (True, libsqfs_chunk_try_writeout n
         (upd_chunk n (ck_state_update (\<lambda>_. libsqfs_chunk_writable)) img)) }"

definition libsqfs_full_block_write_enter :: "nat \<Rightarrow> 'a sqfs_bulk_scheme \<Rightarrow> 'a sqfs_bulk_scheme option" where
  "libsqfs_full_block_write_enter n img =
     (if ck_state (chunk_at img n) \<noteq> libsqfs_chunk_writable then None
      else
        let (block, img) = libsqfs_image_block_write_enter (ck_dst (chunk_at img n)) img in
        Some (upd_chunk n (ck_dst_update (\<lambda>_. block)) img))"

definition libsqfs_full_block_write_leave :: "nat \<Rightarrow> 'a sqfs_bulk_scheme \<Rightarrow> (bool \<times> 'a sqfs_bulk_scheme) option" where
  "libsqfs_full_block_write_leave n img = do {
     (ok, block, img) \<leftarrow> libsqfs_image_block_write_leave (ck_dst (chunk_at img n)) img;
     let img = upd_chunk n (ck_dst_update (\<lambda>_. block)) img;
     if \<not> ok then Some (False, img)
     else do {
       img \<leftarrow> libsqfs_chunk_mark_finished n img;
       Some (True, img) } }"

section \<open>Processing\<close>

text \<open>What a thread that has given up the lock is doing.\<close>

datatype bulk_task = Reading (task_chunk: nat) | Compressing (task_chunk: nat) | Writing (task_chunk: nat)

text \<open>
  The method calls, by the class of the chunk: the part under the lock, with the task that is left
  to do, and the rest. An outcome is what the C function returned (\<open>Inl\<close>) or a task (\<open>Inr\<close>).
\<close>

definition chunk_read_enter :: "nat \<Rightarrow> 'a sqfs_bulk_scheme \<Rightarrow> ((bool + bulk_task) \<times> 'a sqfs_bulk_scheme) option" where
  "chunk_read_enter n img =
     (case ck_vmt (chunk_at img n) of
        libsqfs_closing_piece_vmt \<Rightarrow> map_option (apfst Inl) (libsqfs_closing_piece_read n img)
      | _ \<Rightarrow> map_option (Pair (Inr (Reading n))) (libsqfs_chunk_do_read_enter n img))"

definition chunk_deduplicate :: "nat \<Rightarrow> 'a sqfs_bulk_scheme \<Rightarrow> (bool \<times> 'a sqfs_bulk_scheme) option" where
  "chunk_deduplicate n img =
     (case ck_vmt (chunk_at img n) of
        libsqfs_full_block_vmt \<Rightarrow> libsqfs_chunk_do_deduplicate n img
      | libsqfs_fragment_piece_vmt \<Rightarrow> libsqfs_fragment_piece_deduplicate n img
      | libsqfs_closing_piece_vmt \<Rightarrow> libsqfs_closing_piece_deduplicate n img)"

definition chunk_assign :: "nat \<Rightarrow> 'a sqfs_bulk_scheme \<Rightarrow> (bool \<times> 'a sqfs_bulk_scheme) option" where
  "chunk_assign n img =
     (case ck_vmt (chunk_at img n) of
        libsqfs_full_block_vmt \<Rightarrow> libsqfs_chunk_do_assign n img
      | libsqfs_fragment_piece_vmt \<Rightarrow> libsqfs_fragment_piece_assign n img
      | libsqfs_closing_piece_vmt \<Rightarrow> libsqfs_closing_piece_assign n img)"

definition chunk_compress_enter :: "nat \<Rightarrow> 'a sqfs_bulk_scheme \<Rightarrow> 'a sqfs_bulk_scheme option" where
  "chunk_compress_enter n img =
     (if ck_vmt (chunk_at img n) = libsqfs_full_block_vmt then libsqfs_full_block_compress_enter n img
      else libsqfs_fragment_piece_compress_enter n img)"

definition chunk_compress_leave ::
    "libsqfs_compressor_instance \<Rightarrow> nat \<Rightarrow> 'a sqfs_bulk_scheme \<Rightarrow> (bool \<times> 'a sqfs_bulk_scheme) option" where
  "chunk_compress_leave ci n img =
     (if ck_vmt (chunk_at img n) = libsqfs_full_block_vmt then libsqfs_full_block_compress_leave ci n img
      else libsqfs_fragment_piece_compress_leave ci n img)"

definition chunk_write_enter :: "nat \<Rightarrow> 'a sqfs_bulk_scheme \<Rightarrow> 'a sqfs_bulk_scheme option" where
  "chunk_write_enter n img =
     (if ck_vmt (chunk_at img n) = libsqfs_full_block_vmt then libsqfs_full_block_write_enter n img
      else libsqfs_fragment_piece_write_enter n img)"

definition chunk_write_leave :: "nat \<Rightarrow> 'a sqfs_bulk_scheme \<Rightarrow> (bool \<times> 'a sqfs_bulk_scheme) option" where
  "chunk_write_leave n img =
     (if ck_vmt (chunk_at img n) = libsqfs_full_block_vmt then libsqfs_full_block_write_leave n img
      else libsqfs_fragment_piece_write_leave n img)"

text \<open>Taking the next chunk: the queues are asked in the order write, compress, assign, deduplicate, read.\<close>

definition process_single_enter :: "'a sqfs_bulk_scheme \<Rightarrow> ((bool + bulk_task) \<times> 'a sqfs_bulk_scheme) option" where
  "process_single_enter img =
     (let bd = bulkdata img in
      case writeq bd of n # q \<Rightarrow>
        map_option (Pair (Inr (Writing n))) (chunk_write_enter n (upd_bulk (writeq_update (\<lambda>_. q)) img))
      | [] \<Rightarrow>
      (case compressq bd of n # q \<Rightarrow>
        map_option (Pair (Inr (Compressing n))) (chunk_compress_enter n (upd_bulk (compressq_update (\<lambda>_. q)) img))
      | [] \<Rightarrow>
      (case assignq bd of n # q \<Rightarrow>
        map_option (apfst Inl) (chunk_assign n (upd_bulk (assignq_update (\<lambda>_. q)) img))
      | [] \<Rightarrow>
      (case dedupq bd of n # q \<Rightarrow>
        map_option (apfst Inl) (chunk_deduplicate n (upd_bulk (dedupq_update (\<lambda>_. q)) img))
      | [] \<Rightarrow>
      (case readq bd of n # q \<Rightarrow>
        chunk_read_enter n (upd_bulk (readq_update (\<lambda>_. q)) img)
      | [] \<Rightarrow> Some (Inl False, img))))))"

fun task_leave :: "libsqfs_compressor_instance \<Rightarrow> bulk_task \<Rightarrow> 'a sqfs_bulk_scheme \<Rightarrow> (bool \<times> 'a sqfs_bulk_scheme) option" where
  "task_leave ci (Reading n) img = libsqfs_chunk_do_read_leave n img"
| "task_leave ci (Compressing n) img = chunk_compress_leave ci n img"
| "task_leave ci (Writing n) img = chunk_write_leave n img"

definition libsqfs_bulkdata_process_single_locked ::
    "libsqfs_compressor_instance \<Rightarrow> 'a sqfs_bulk_scheme \<Rightarrow> (bool \<times> 'a sqfs_bulk_scheme) option" where
  "libsqfs_bulkdata_process_single_locked ci img = do {
     (outcome, img) \<leftarrow> process_single_enter img;
     case outcome of
       Inl result \<Rightarrow> Some (result, img)
     | Inr task \<Rightarrow> task_leave ci task img }"

text \<open>
  The loop of a thread, run alone: a wait that no other thread can end is a loop that does not
  return, \<open>None\<close>.
\<close>

partial_function (option) libsqfs_bulkdata_process ::
    "libsqfs_compressor_instance \<Rightarrow> 'a sqfs_bulk_scheme \<Rightarrow> 'a sqfs_bulk_scheme option" where
  "libsqfs_bulkdata_process ci img =
     Option.bind (libsqfs_bulkdata_process_single_locked ci img) (\<lambda>(more, img).
       if more then libsqfs_bulkdata_process ci img
       else if bd_finished (bulkdata img) = bd_count (bulkdata img) \<and> \<not> may_add_chunks (bulkdata img) then Some img
       else if aborted (bulkdata img) then Some img
       else libsqfs_bulkdata_process ci img)"

section \<open>Submission\<close>

definition libsqfs_chunk_init :: "libsqfs_chunk_vmt \<Rightarrow> libsqfs_data_piece \<Rightarrow> libsqfs_chunk" where
  "libsqfs_chunk_init vmt data = \<lparr>ck_vmt = vmt, ck_state = libsqfs_chunk_none, ck_data = data,
     cached_data = None, ck_dst = libsqfs_image_block_init, prev_piece = None, next_piece = None,
     ck_offset = -1, ck_fragment_block = None, flush_previous_block = False\<rparr>"

definition libsqfs_bulkdata_init :: "bool \<Rightarrow> bool \<Rightarrow> libsqfs_bulkdata" where
  "libsqfs_bulkdata_init may_compress_blocks may_compress_fragments =
     \<lparr>bd_chunks = [], bd_finished = 0, fragment_blocks = [], fragment_pieces = [],
      readq = [], dedupq = [], assignq = [], compressq = [], writeq = [],
      may_add_chunks = True, aborted = False,
      compress_blocks = may_compress_blocks, compress_fragments = may_compress_fragments,
      frag_table_loc = -1\<rparr>"

definition libsqfs_bulkdata_enqueue_chunk_locked :: "libsqfs_bulkdata \<Rightarrow> libsqfs_chunk \<Rightarrow> libsqfs_bulkdata" where
  "libsqfs_bulkdata_enqueue_chunk_locked bd chunk =
     bd\<lparr>bd_chunks := bd_chunks bd @ [chunk], readq := readq bd @ [bd_count bd]\<rparr>"

definition libsqfs_bulkdata_enqueue_piece_locked :: "libsqfs_bulkdata \<Rightarrow> libsqfs_chunk \<Rightarrow> libsqfs_bulkdata" where
  "libsqfs_bulkdata_enqueue_piece_locked bd piece =
     (let n = bd_count bd; p = last_opt (fragment_pieces bd);
          bd = libsqfs_bulkdata_enqueue_chunk_locked bd (piece\<lparr>prev_piece := p, next_piece := None\<rparr>);
          bd = (case p of None \<Rightarrow> bd
            | Some p \<Rightarrow> bd\<lparr>bd_chunks := (bd_chunks bd)[p := (bd_chunks bd ! p)\<lparr>next_piece := Some n\<rparr>]\<rparr>) in
      bd\<lparr>fragment_pieces := fragment_pieces bd @ [n]\<rparr>)"

text \<open>The submitted chunk is returned by its index.\<close>

definition libsqfs_bulkdata_sumbit :: "libsqfs_data_piece \<Rightarrow> 'a sqfs_bulk_scheme \<Rightarrow> nat option \<times> 'a sqfs_bulk_scheme" where
  "libsqfs_bulkdata_sumbit data img =
     (let (ok, h) = malloc (mem img); img = img\<lparr>mem := h\<rparr> in
      if \<not> ok then (None, img)
      else (Some (bd_count (bulkdata img)),
        upd_bulk (\<lambda>bd. libsqfs_bulkdata_enqueue_chunk_locked bd (libsqfs_chunk_init libsqfs_full_block_vmt data)) img))"

definition libsqfs_bulkdata_submit_fragment ::
    "libsqfs_data_piece \<Rightarrow> 'a sqfs_bulk_scheme \<Rightarrow> nat option \<times> 'a sqfs_bulk_scheme" where
  "libsqfs_bulkdata_submit_fragment src img =
     (let (ok, h) = malloc (mem img); img = img\<lparr>mem := h\<rparr> in
      if \<not> ok then (None, img)
      else (Some (bd_count (bulkdata img)),
        upd_bulk (\<lambda>bd. libsqfs_bulkdata_enqueue_piece_locked bd (libsqfs_chunk_init libsqfs_fragment_piece_vmt src)) img))"

text \<open>The closing piece has no data of its own.\<close>

abbreviation (input) null_piece :: libsqfs_data_piece where "null_piece \<equiv> Piece (Memorydata []) 0 0"

definition libsqfs_bulkdata_seal :: "'a sqfs_bulk_scheme \<Rightarrow> bool \<times> 'a sqfs_bulk_scheme" where
  "libsqfs_bulkdata_seal img =
     (if may_add_chunks (bulkdata img)
      then
        let (ok, h) = malloc (mem img); img = img\<lparr>mem := h\<rparr> in
        if \<not> ok then (False, img)
        else (True, upd_bulk (\<lambda>bd. (libsqfs_bulkdata_enqueue_piece_locked bd
          (libsqfs_chunk_init libsqfs_closing_piece_vmt null_piece))\<lparr>may_add_chunks := False\<rparr>) img)
      else (True, img))"

definition libsqfs_bulkdata_finish ::
    "libsqfs_compressor_instance \<Rightarrow> 'a sqfs_bulk_scheme \<Rightarrow> (bool \<times> 'a sqfs_bulk_scheme) option" where
  "libsqfs_bulkdata_finish ci img = do {
     let (_, img) = libsqfs_bulkdata_seal img;
     img \<leftarrow> libsqfs_bulkdata_process ci img;
     Some (True, img) }"

section \<open>The fragment table\<close>

definition fragment_table_entry :: "libsqfs_fragment_block \<Rightarrow> squashfs_fragment_entry" where
  "fragment_table_entry fragment =
     (let value = of_nat (ib_size (fb_dst fragment));
          value = (if \<not> ib_compressed (fb_dst fragment) then value OR SQUASHFS_COMPRESSED_BIT_BLOCK else value) in
      \<lparr>fragment_entry_start_block = ib_offset (fb_dst fragment), fragment_entry_size = value,
       fragment_entry_unused = 0\<rparr>)"

definition libsqfs_bulkdata_write_fragment_table ::
    "libsqfs_compressor_instance \<Rightarrow> 'a sqfs_bulk_scheme \<Rightarrow> (bool \<times> 'a sqfs_bulk_scheme) option" where
  "libsqfs_bulkdata_write_fragment_table ci img =
     (if fragment_blocks (bulkdata img) = []
      then
        let (loc, img) = libsqfs_image_reserve img 0 in
        Some (True, upd_bulk (frag_table_loc_update (\<lambda>_. loc)) img)
      else do {
        let entries = map fragment_table_entry (fragment_blocks (bulkdata img));
        let tab = libsqfs_metatable_init (Some ci);
        (ok, pos, tab, h) \<leftarrow> libsqfs_metatable_append (mem img) tab (encode_array encode_fragment_entry entries);
        let img = img\<lparr>mem := h\<rparr>;
        (ok, tab, img) \<leftarrow> (if ok then libsqfs_metatable_write_with_index tab img else Some (False, tab, img));
        Some (ok, upd_bulk (frag_table_loc_update (\<lambda>_. mt_offset tab)) img) })"

end
