(* ===== verification/Idtable.thy ===== *)
theory Idtable
  imports Metatable
begin

text \<open>
  idtable.c: user and group ids are stored once, in a table, and inodes refer to them by index.
  The index is returned as an \<open>int\<close> (\<open>-1\<close> on failure), here a \<open>u32\<close> in two's complement;
  inodes.c stores it in 16 bits.
\<close>

section \<open>State and operations\<close>

record libsqfs_idtable =
  ids :: "u32 list"
  ids_offset :: u64

abbreviation nids :: "libsqfs_idtable \<Rightarrow> nat" where "nids t \<equiv> length (ids t)"

definition libsqfs_idtable_init :: libsqfs_idtable where
  "libsqfs_idtable_init = \<lparr>ids = [], ids_offset = -1\<rparr>"

text \<open>The first index from \<open>n\<close> on that holds \<open>id\<close>: the search loop of \<open>libsqfs_idtable_map\<close>.\<close>

fun idtable_find :: "u32 \<Rightarrow> nat \<Rightarrow> u32 list \<Rightarrow> nat option" where
  "idtable_find x n [] = None"
| "idtable_find x n (y # ys) = (if y = x then Some n else idtable_find x (Suc n) ys)"

definition idtable_slot :: "heap \<Rightarrow> libsqfs_idtable \<Rightarrow> u32 \<Rightarrow> nat option \<times> libsqfs_idtable \<times> heap" where
  "idtable_slot h idtable x =
     (case idtable_find x 0 (ids idtable) of
        Some n \<Rightarrow> (Some n, idtable, h)
      | None \<Rightarrow>
          let (ok, h) = malloc h in
          if \<not> ok then (None, idtable, h)
          else (Some (nids idtable), idtable\<lparr>ids := ids idtable @ [x]\<rparr>, h))"

definition libsqfs_idtable_map :: "heap \<Rightarrow> libsqfs_idtable \<Rightarrow> u32 \<Rightarrow> u32 \<times> libsqfs_idtable \<times> heap" where
  "libsqfs_idtable_map h idtable x =
     (let (n, idtable, h) = idtable_slot h idtable x in
      (case n of Some n \<Rightarrow> of_nat n | None \<Rightarrow> -1, idtable, h))"

text \<open>
  The table is an array in its own uncompressed metadata table. The offset is taken over from it
  whether or not the write succeeds.
\<close>

definition libsqfs_idtable_write ::
    "libsqfs_idtable \<Rightarrow> 'a sqfs_out_scheme \<Rightarrow> (bool \<times> libsqfs_idtable \<times> 'a sqfs_out_scheme) option" where
  "libsqfs_idtable_write idtable img = do {
     let tab = libsqfs_metatable_init None;
     (ok, pos, tab, h) \<leftarrow> libsqfs_metatable_append (mem img) tab (encode_array le32 (ids idtable));
     let img = img\<lparr>mem := h\<rparr>;
     (ok, tab, img) \<leftarrow> (if ok then libsqfs_metatable_write_with_index tab img else Some (False, tab, img));
     Some (ok, idtable\<lparr>ids_offset := mt_offset tab\<rparr>, img) }"

section \<open>The contract of an interning table\<close>

text \<open>
  Interning a value yields a reference to it; references stay valid; a table has no two
  references to one value; interning what is there changes nothing.
\<close>

locale interning =
  fixes intern :: "heap \<Rightarrow> 't \<Rightarrow> 'v \<Rightarrow> nat option \<times> 't \<times> heap"
    and deref :: "'t \<Rightarrow> nat \<Rightarrow> 'v option"
    and ok :: "'t \<Rightarrow> bool"
  assumes intern_ok: "ok t \<Longrightarrow> intern h t v = (r, t', h') \<Longrightarrow> ok t'"
    and intern_deref: "ok t \<Longrightarrow> intern h t v = (Some n, t', h') \<Longrightarrow> deref t' n = Some v"
    and intern_stable: "intern h t v = (r, t', h') \<Longrightarrow> deref t k = Some w \<Longrightarrow> deref t' k = Some w"
    and intern_failed: "intern h t v = (None, t', h') \<Longrightarrow> t' = t"
    and intern_memory: "intern [] t v = (r, t', h') \<Longrightarrow> r \<noteq> None \<and> h' = []"
    and intern_found: "ok t \<Longrightarrow> deref t k = Some v \<Longrightarrow> intern h t v = (Some k, t, h)"

text \<open>Interning a list of values in order, as image creation does inode by inode.\<close>

fun intern_all ::
    "(heap \<Rightarrow> 't \<Rightarrow> 'v \<Rightarrow> nat option \<times> 't \<times> heap) \<Rightarrow> heap \<Rightarrow> 't \<Rightarrow> 'v list \<Rightarrow> nat option list \<times> 't \<times> heap" where
  "intern_all intern h t [] = ([], t, h)"
| "intern_all intern h t (v # vs) =
     (let (r, t, h) = intern h t v; (rs, t, h) = intern_all intern h t vs in (r # rs, t, h))"

context interning
begin

lemma all_stable:
  "intern_all intern h t vs = (rs, t', h') \<Longrightarrow> deref t k = Some w \<Longrightarrow> deref t' k = Some w"
proof (induction vs arbitrary: h t rs)
  case (Cons v vs)
  then show ?case using intern_stable [of h t v] by (fastforce split: prod.splits)
qed simp

lemma all_deref:
  "ok t \<Longrightarrow> intern_all intern h t vs = (rs, t', h') \<Longrightarrow>
     length rs = length vs \<and> ok t' \<and>
     (\<forall>i < length vs. \<forall>n. rs ! i = Some n \<longrightarrow> deref t' n = Some (vs ! i))"
proof (induction vs arbitrary: h t rs)
  case (Cons v vs)
  obtain r t1 h1 rs' where step: "intern h t v = (r, t1, h1)" "intern_all intern h1 t1 vs = (rs', t', h')"
    "rs = r # rs'" using Cons.prems(2) by (auto split: prod.splits)
  note IH = Cons.IH [OF intern_ok [OF Cons.prems(1) step(1)] step(2)]
  have "deref t' n = Some v" if "r = Some n" for n
    using all_stable [OF step(2) intern_deref [OF Cons.prems(1)]] step(1) that by blast
  with IH step(3) show ?case by (auto simp: nth_Cons split: nat.splits)
qed simp

lemma all_memory: "intern_all intern [] t vs = (rs, t', h') \<Longrightarrow> None \<notin> set rs \<and> h' = []"
proof (induction vs arbitrary: t rs)
  case (Cons v vs)
  then show ?case using intern_memory [of t v] by (auto split: prod.splits)
qed simp

text \<open>Interning the same value twice, with anything in between, gives the same reference.\<close>

lemma intern_twice:
  assumes "ok t" "intern h t v = (Some n, t1, h1)" "intern_all intern h1 t1 vs = (rs, t2, h2)"
  shows "intern h3 t2 v = (Some n, t2, h3)"
proof -
  have "ok t2" using all_deref [OF intern_ok [OF assms(1,2)] assms(3)] by simp
  moreover have "deref t2 n = Some v"
    by (rule all_stable [OF assms(3) intern_deref [OF assms(1,2)]])
  ultimately show ?thesis by (rule intern_found)
qed

end

section \<open>The id table keeps it\<close>

definition id_at :: "libsqfs_idtable \<Rightarrow> nat \<Rightarrow> u32 option" where
  "id_at t k = (if k < nids t then Some (ids t ! k) else None)"

definition ids_distinct :: "libsqfs_idtable \<Rightarrow> bool" where
  "ids_distinct t \<longleftrightarrow> distinct (ids t)"

lemma idtable_find_Some:
  "idtable_find x m ys = Some n \<Longrightarrow> m \<le> n \<and> n - m < length ys \<and> ys ! (n - m) = x"
proof (induction ys arbitrary: m)
  case (Cons y ys)
  show ?case
  proof (cases "y = x")
    case False
    with Cons.prems Cons.IH [of "Suc m"] have "Suc m \<le> n" "n - Suc m < length ys" "ys ! (n - Suc m) = x" by auto
    moreover have "n - m = Suc (n - Suc m)" using \<open>Suc m \<le> n\<close> by simp
    ultimately show ?thesis by simp
  qed (use Cons.prems in auto)
qed simp

lemma idtable_find_None: "idtable_find x m ys = None \<longleftrightarrow> x \<notin> set ys"
  by (induction ys arbitrary: m) auto

lemma idtable_find_nth: "distinct ys \<Longrightarrow> k < length ys \<Longrightarrow> idtable_find (ys ! k) m ys = Some (m + k)"
proof (induction ys arbitrary: k m)
  case (Cons y ys)
  then show ?case by (cases k) auto
qed simp

interpretation id_slots: interning idtable_slot id_at ids_distinct
proof (unfold_locales, goal_cases)
  case (1 t h v r t' h')
  then show ?case by (auto simp: idtable_slot_def ids_distinct_def idtable_find_None
      split: option.splits prod.splits if_splits)
next
  case (2 t h v n t' h')
  then show ?case using idtable_find_Some [of v 0 "ids t"]
    by (auto simp: idtable_slot_def id_at_def split: option.splits prod.splits if_splits)
next
  case (3 h t v r t' h' k w)
  then show ?case
    by (auto simp: idtable_slot_def id_at_def nth_append split: option.splits prod.splits if_splits)
next
  case (4 h t v t' h')
  then show ?case by (auto simp: idtable_slot_def split: option.splits prod.splits if_splits)
next
  case (5 t v r t' h')
  then show ?case by (auto simp: idtable_slot_def split: option.splits) metis
next
  case (6 t k v h)
  then show ?case by (auto simp: idtable_slot_def id_at_def ids_distinct_def idtable_find_nth split: if_splits)
qed

lemma init_distinct [simp]: "ids_distinct libsqfs_idtable_init"
  by (simp add: ids_distinct_def libsqfs_idtable_init_def)

text \<open>Writing the table: a driver looks an id up by its index.\<close>

lemma idtable_write_correct:
  assumes w: "libsqfs_idtable_write t img = Some (True, t', img')"
    and fdest: "file_dest_ok (dst img)" and small: "nids t \<le> 65536" and k: "k < nids t"
  shows "lookup_element (\<lambda>bs. bs) (get_le 4) 4 (dest_bytes (dst img')) (ids_offset t') k = Some (ids t ! k)"
proof -
  obtain pos tab h tab' where app: "libsqfs_metatable_append (mem img) (libsqfs_metatable_init None)
        (encode_array le32 (ids t)) = Some (True, pos, tab, h)"
    and wr: "libsqfs_metatable_write_with_index tab (img\<lparr>mem := h\<rparr>) = Some (True, tab', img')"
    and t': "t' = t\<lparr>ids_offset := mt_offset tab'\<rparr>"
    using w by (auto simp: libsqfs_idtable_write_def Let_def split: bind_splits if_splits)
  show ?thesis
    using u32_codec.lookup_in_small_table [OF none_codec _ app wr _ _ k] fdest small t' by simp
qed

section \<open>Properties\<close>

lemma slot_index:
  "idtable_slot h t x = (Some n, t', h') \<Longrightarrow> n < nids t' \<and> ids t' ! n = x \<and> n \<le> nids t"
  using idtable_find_Some [of x 0 "ids t" n]
  by (auto simp: idtable_slot_def split: option.splits prod.splits if_splits)

lemma slot_extends:
  "idtable_slot h t x = (r, t', h') \<Longrightarrow> ids_offset t' = ids_offset t \<and> (\<exists>s. ids t' = ids t @ s \<and> set s \<subseteq> {x})"
  by (auto simp: idtable_slot_def split: option.splits prod.splits if_splits)

text \<open>C28: mapping an id. The table stays free of duplicates and keeps the ids it has at their indices;
  a failure leaves it as it was, and the index returned otherwise holds the id.\<close>

theorem idtable_map_sound:
  assumes "distinct (ids t)" "nids t < 2 ^ 31" "libsqfs_idtable_map h t x = (r, t', h')"
  shows "distinct (ids t') \<and> (\<exists>s. ids t' = ids t @ s \<and> set s \<subseteq> {x}) \<and>
     (if r = -1 then t' = t \<and> x \<notin> set (ids t) else unat r < nids t' \<and> ids t' ! unat r = x)"
proof -
  obtain n where n: "idtable_slot h t x = (n, t', h')" "r = (case n of Some n \<Rightarrow> of_nat n | None \<Rightarrow> -1)"
    using assms(3) by (auto simp: libsqfs_idtable_map_def split: prod.splits)
  have "distinct (ids t')"
    using id_slots.intern_ok [OF _ n(1)] assms(1) by (simp add: ids_distinct_def)
  moreover note slot_extends [OF n(1)]
  moreover have "if r = -1 then t' = t \<and> x \<notin> set (ids t) else unat r < nids t' \<and> ids t' ! unat r = x"
  proof (cases n)
    case None
    then show ?thesis using n by (auto simp: idtable_slot_def idtable_find_None
        split: option.splits prod.splits if_splits)
  next
    case (Some k)
    then have k: "k < nids t'" "ids t' ! k = x" "k < 2 ^ 31" using slot_index n(1) assms(2) by fastforce+
    then have "unat (of_nat k :: u32) = k" by (simp add: unat_of_nat)
    moreover have "unat (-1 :: u32) = 2 ^ 32 - 1" by (simp add: unsigned_minus_1_eq_mask mask_eq_exp_minus_1)
    with calculation k(3) have "(of_nat k :: u32) \<noteq> -1" by auto
    ultimately show ?thesis using n(2) Some k by simp
  qed
  ultimately show ?thesis by blast
qed

theorem idtable_map_sound_witness:
  "distinct (ids (fst (snd (libsqfs_idtable_map [] \<lparr>ids = [0, 1000], ids_offset = -1\<rparr> 50)))) \<and>
   fst (libsqfs_idtable_map [] \<lparr>ids = [0, 1000], ids_offset = -1\<rparr> 50) = 2"
proof -
  have m: "libsqfs_idtable_map [] \<lparr>ids = [0, 1000], ids_offset = -1\<rparr> 50 =
      (2, \<lparr>ids = [0, 1000, 50], ids_offset = -1\<rparr>, [])"
    by (simp add: libsqfs_idtable_map_def idtable_slot_def)
  from idtable_map_sound [OF _ _ m] show ?thesis by (simp add: m)
qed

text \<open>Id table round trip. Ids are mapped one after the other, starting with an empty table, and
  the table is written to a file. Whatever was mapped in between, a driver that looks up the
  index an id was given finds that id, as long as there are at most 65536 ids.\<close>

theorem idtable_roundtrip:
  assumes map: "intern_all idtable_slot h libsqfs_idtable_init xs = (slots, t, h')"
    and wr: "libsqfs_idtable_write t img = Some (True, t', img')"
    and fdest: "file_dest_ok (dst img)" and small: "nids t \<le> 65536"
    and i: "i < length xs" "slots ! i = Some n"
  shows "lookup_element (\<lambda>bs. bs) (get_le 4) 4 (dest_bytes (dst img')) (ids_offset t') n = Some (xs ! i)"
proof -
  have "id_at t n = Some (xs ! i)"
    using id_slots.all_deref [OF init_distinct map] i by simp
  then have "n < nids t" "ids t ! n = xs ! i" by (auto simp: id_at_def split: if_splits)
  with idtable_write_correct [OF wr fdest small] show ?thesis by simp
qed

theorem idtable_roundtrip_witness:
  "\<exists>t t' img'. intern_all idtable_slot [] libsqfs_idtable_init [0, 1000, 0] = ([Some 0, Some 1, Some 0], t, []) \<and>
     libsqfs_idtable_write t demo_out = Some (True, t', img') \<and>
     lookup_element (\<lambda>bs. bs) (get_le 4) 4 (dest_bytes (dst img')) (ids_offset t') 1 = Some (1000 :: u32)"
proof -
  let ?t = "\<lparr>ids = [0, 1000], ids_offset = -1\<rparr>"
  have m: "intern_all idtable_slot [] libsqfs_idtable_init [0, 1000, 0] = ([Some 0, Some 1, Some 0], ?t, [])"
    by (simp add: idtable_slot_def libsqfs_idtable_init_def)
  obtain t' img' where w: "libsqfs_idtable_write ?t demo_out = Some (True, t', img')"
    by (simp add: demo_table_simps libsqfs_idtable_write_def)
  have "lookup_element (\<lambda>bs. bs) (get_le 4) 4 (dest_bytes (dst img')) (ids_offset t') 1 = Some ([0, 1000, 0 :: u32] ! 1)"
    by (rule idtable_roundtrip [OF m w]) (simp_all add: demo_out_def demo_file_def)
  with m w show ?thesis by auto
qed

text \<open>C35: indices are 16 bits wide in an inode, and nothing keeps the table from growing past 65536
  entries. The id after that is given the index of the first one.\<close>

theorem idtable_index_wraps:
  assumes "nids t = 65536" "x \<notin> set (ids t)" "libsqfs_idtable_map [] t x = (r, t', h')"
  shows "(ucast r :: u16) = 0 \<and> ids t' ! unat (ucast r :: u16) = ids t ! 0 \<and> ids t' ! unat (ucast r :: u16) \<noteq> x"
proof -
  have "idtable_find x 0 (ids t) = None" using assms(2) by (simp add: idtable_find_None)
  then have "r = 65536" "ids t' = ids t @ [x]"
    using assms(1,3) by (auto simp: libsqfs_idtable_map_def idtable_slot_def)
  moreover have "ids t ! 0 \<in> set (ids t)" using assms(1) by (intro nth_mem) simp
  ultimately show ?thesis using assms(1,2) by (auto simp: nth_append)
qed

theorem idtable_index_wraps_witness:
  "\<exists>t t' h' r. distinct (ids t) \<and> libsqfs_idtable_map [] t 70000 = (r, t', h') \<and> ids t ! 0 = 5 \<and>
     ids t' ! unat (ucast r :: u16) = 5"
proof -
  define N where "N = (65535 :: nat)"
  define t where "t = \<lparr>ids = 5 # map (\<lambda>k. of_nat k + 6) [0..<N], ids_offset = -1\<rparr>"
  have val: "unat (of_nat k + 6 :: u32) = k + 6" if "k < N" for k
    using that by (simp add: N_def unat_word_ariths unat_of_nat)
  have inj: "inj_on (\<lambda>k. of_nat k + 6 :: u32) {0..<N}"
    using val by (intro inj_onI) (metis add_right_cancel atLeastLessThan_iff)
  have ne: "of_nat k + 6 \<noteq> (5 :: u32)" "of_nat k + 6 \<noteq> (70000 :: u32)" if "k < N" for k
  proof -
    show "of_nat k + 6 \<noteq> (5 :: u32)" "of_nat k + 6 \<noteq> (70000 :: u32)"
      using val [OF that] that by (auto simp: N_def word_unat_eq_iff)
  qed
  have t: "nids t = 65536" "70000 \<notin> set (ids t)" "ids t ! 0 = 5" "distinct (ids t)"
    using inj ne by (auto simp: t_def distinct_map) (simp add: N_def)
  obtain r t' h' where m: "libsqfs_idtable_map [] t 70000 = (r, t', h')" by (cases "libsqfs_idtable_map [] t 70000")
  from idtable_index_wraps [OF t(1,2) m] m t(3,4) show ?thesis by auto
qed

end
