(* ===== verification/Xattrs.thy ===== *)
theory Xattrs
  imports Metatable
begin

text \<open>
  xattrs.h and xattrs.c: extended attributes. An attribute is a name in one of three domains and
  a value. A set of attributes is written to the attribute data as soon as it is created, and
  gets a descriptor (where its attributes start, how many there are, how many bytes they take);
  inodes refer to the descriptor by its index.
\<close>

section \<open>State\<close>

record libsqfs_xattr =
  xa_name :: cstring
  xa_suffix :: cstring
  xa_domain :: u32
  xa_value :: "byte list"

text \<open>\<open>stored_pos\<close> is \<open>None\<close> as long as it has not been assigned.\<close>

record libsqfs_xattrset =
  xs_attrs :: "libsqfs_xattr list"
  xs_id :: u32
  stored_pos :: "libsqfs_metatable_entry option"
  stored_size :: nat

record libsqfs_xattr_table =
  xattrs :: "libsqfs_xattr list"
  xattrsets :: "libsqfs_xattrset list"
  xt_nids :: nat
  xt_offset :: u64
  xattr_data :: libsqfs_metatable
  xattr_descriptors :: libsqfs_metatable

section \<open>Domains\<close>

definition tolower :: "byte \<Rightarrow> byte" where
  "tolower c = (if 65 \<le> c \<and> c \<le> 90 then c + 32 else c)"

fun strncasecmp :: "cstring \<Rightarrow> cstring \<Rightarrow> nat \<Rightarrow> int" where
  "strncasecmp _ _ 0 = 0"
| "strncasecmp [] [] (Suc n) = 0"
| "strncasecmp [] (b # bs) (Suc n) = - uint (tolower b)"
| "strncasecmp (a # as) [] (Suc n) = uint (tolower a)"
| "strncasecmp (a # as) (b # bs) (Suc n) =
     (if tolower a = tolower b then strncasecmp as bs n else uint (tolower a) - uint (tolower b))"

lemma strncasecmp_numeral:
  "strncasecmp (a # as) (b # bs) (numeral n) =
     (if tolower a = tolower b then strncasecmp as bs (pred_numeral n) else uint (tolower a) - uint (tolower b))"
  by (simp add: numeral_eq_Suc)

text \<open>A domain: its prefix, the length of the prefix, its code.\<close>

type_synonym libsqfs_xattr_domain = "cstring \<times> nat \<times> u32"

abbreviation (input) cstr :: "string \<Rightarrow> cstring" where "cstr \<equiv> map of_char"

definition xattr_domains :: "libsqfs_xattr_domain list" where
  "xattr_domains =
     [(cstr ''user.'', 5, ucast SQUASHFS_XATTR_USER),
      (cstr ''trusted.'', 8, ucast SQUASHFS_XATTR_TRUSTED),
      (cstr ''security.'', 9, ucast SQUASHFS_XATTR_SECURITY)]"

definition classify_xattr_domain :: "cstring \<Rightarrow> libsqfs_xattr_domain option" where
  "classify_xattr_domain name = find (\<lambda>(prefix, len, code). strncasecmp name prefix len = 0) xattr_domains"

section \<open>Operations\<close>

text \<open>The argument \<open>compressor\<close> is not used: neither table is ever compressed.\<close>

definition libsqfs_xattr_table_init :: "libsqfs_compressor_instance option \<Rightarrow> libsqfs_xattr_table" where
  "libsqfs_xattr_table_init compressor =
     \<lparr>xattrs = [], xattrsets = [], xt_nids = 0, xt_offset = 0,
      xattr_data = libsqfs_metatable_init None, xattr_descriptors = libsqfs_metatable_init None\<rparr>"

text \<open>Three allocations: the attribute, the copy of the name, the copy of the value.\<close>

definition libsqfs_xattr_create ::
    "heap \<Rightarrow> libsqfs_xattr_table \<Rightarrow> cstring \<Rightarrow> byte list \<Rightarrow> libsqfs_xattr option \<times> libsqfs_xattr_table \<times> heap" where
  "libsqfs_xattr_create h tab name value =
     (case classify_xattr_domain name of
        None \<Rightarrow> (None, tab, h)
      | Some (prefix, prefix_len, code) \<Rightarrow>
          let (ok, h) = malloc h in
          if \<not> ok then (None, tab, h)
          else
            let (ok, h) = malloc h in
            if \<not> ok then (None, tab, h)
            else
              let (ok, h) = malloc h in
              if \<not> ok then (None, tab, h)
              else
                let xattr = \<lparr>xa_name = name, xa_suffix = drop prefix_len name, xa_domain = code, xa_value = value\<rparr> in
                (Some xattr, tab\<lparr>xattrs := xattrs tab @ [xattr]\<rparr>, h))"

text \<open>
  The fields \<open>type\<close> and \<open>size\<close> of an entry have 16 bits, but are assigned a value converted with
  \<open>cpu_to_le32\<close>: the field keeps the lower half of the converted word. \<open>xattr_entry_field\<close> is the
  number that a reader finds in the two bytes, on a host with the given byte order.
\<close>

definition xattr_entry_field :: "byte_order \<Rightarrow> u32 \<Rightarrow> u16" where
  "xattr_entry_field ord v = le_word (in_memory ord 2 (ucast (cpu_to_le32 ord v) :: u16))"

definition encode_xattr :: "byte_order \<Rightarrow> libsqfs_xattr \<Rightarrow> byte list list" where
  "encode_xattr ord xattr =
     [encode_xattr_entry \<lparr>xattr_entry_type = xattr_entry_field ord (xa_domain xattr),
        xattr_entry_size = xattr_entry_field ord (of_nat (length (xa_suffix xattr)))\<rparr>,
      xa_suffix xattr,
      encode_xattr_val \<lparr>xattr_val_vsize = of_nat (length (xa_value xattr))\<rparr>,
      xa_value xattr]"

text \<open>
  The loop over the attributes: four appends each, the first failure ends it. The position of
  the first entry is kept.
\<close>

fun serialize_attrs ::
    "byte_order \<Rightarrow> heap \<Rightarrow> libsqfs_metatable \<Rightarrow> libsqfs_xattrset \<Rightarrow> bool \<Rightarrow> libsqfs_xattr list \<Rightarrow>
     (bool \<times> libsqfs_metatable \<times> libsqfs_xattrset \<times> heap) option" where
  "serialize_attrs ord h tab xattrset first [] = Some (True, tab, xattrset, h)"
| "serialize_attrs ord h tab xattrset first (xattr # rest) = do {
     let parts = encode_xattr ord xattr;
     (ok, pos, tab, h) \<leftarrow> libsqfs_metatable_append h tab (parts ! 0);
     if \<not> ok then Some (False, tab, xattrset, h)
     else do {
       let xattrset = (if first then xattrset\<lparr>stored_pos := Some pos\<rparr> else xattrset);
       (ok, pos, tab, h) \<leftarrow> libsqfs_metatable_append h tab (parts ! 1);
       if \<not> ok then Some (False, tab, xattrset, h)
       else do {
         (ok, pos, tab, h) \<leftarrow> libsqfs_metatable_append h tab (parts ! 2);
         if \<not> ok then Some (False, tab, xattrset, h)
         else do {
           (ok, pos, tab, h) \<leftarrow> libsqfs_metatable_append h tab (parts ! 3);
           if \<not> ok then Some (False, tab, xattrset, h)
           else
             let xattrset = xattrset\<lparr>stored_size := stored_size xattrset +
               4 + length (xa_suffix xattr) + 4 + length (xa_value xattr)\<rparr> in
             serialize_attrs ord h tab xattrset False rest } } } }"

text \<open>
  The descriptor. The block of the position is a 32-bit word, and so is the result of shifting
  it: only then is it widened. With no attributes the position is used without ever having been
  assigned (\<open>None\<close>).
\<close>

definition xattr_reference :: "libsqfs_metatable_entry \<Rightarrow> u64" where
  "xattr_reference pos = ucast (push_bit 16 (me_block pos) OR me_offset pos)"

definition xattr_descriptor :: "libsqfs_xattrset \<Rightarrow> squashfs_xattr_id option" where
  "xattr_descriptor xattrset = do {
     pos \<leftarrow> stored_pos xattrset;
     Some \<lparr>xattr_id_xattr = xattr_reference pos, xattr_id_count = of_nat (length (xs_attrs xattrset)),
       xattr_id_size = of_nat (stored_size xattrset)\<rparr> }"

definition libsqfs_xattrset_serialize_data ::
    "byte_order \<Rightarrow> heap \<Rightarrow> libsqfs_xattr_table \<Rightarrow> libsqfs_xattrset \<Rightarrow>
     (bool \<times> libsqfs_xattr_table \<times> libsqfs_xattrset \<times> heap) option" where
  "libsqfs_xattrset_serialize_data ord h tab xattrset = do {
     let xattrset = xattrset\<lparr>stored_size := 0\<rparr>;
     (ok, data, xattrset, h) \<leftarrow> serialize_attrs ord h (xattr_data tab) xattrset True (xs_attrs xattrset);
     let tab = tab\<lparr>xattr_data := data\<rparr>;
     if \<not> ok then Some (False, tab, xattrset, h)
     else do {
       descriptor \<leftarrow> xattr_descriptor xattrset;
       (ok, pos, descriptors, h) \<leftarrow>
         libsqfs_metatable_append h (xattr_descriptors tab) (encode_xattr_id descriptor);
       Some (ok, tab\<lparr>xattr_descriptors := descriptors\<rparr>, xattrset, h) } }"

text \<open>
  A set whose data cannot be stored is reported as a null pointer, but stays in the table with
  the id it has been given.
\<close>

definition libsqfs_xattrset_create ::
    "byte_order \<Rightarrow> heap \<Rightarrow> libsqfs_xattr_table \<Rightarrow> libsqfs_xattr list \<Rightarrow>
     (libsqfs_xattrset option \<times> libsqfs_xattr_table \<times> heap) option" where
  "libsqfs_xattrset_create ord h tab attrs =
     (let (ok, h) = malloc h in
      if \<not> ok then Some (None, tab, h)
      else
        let (ok, h) = malloc h in
        if \<not> ok then Some (None, tab, h)
        else do {
          let xattrset = \<lparr>xs_attrs = attrs, xs_id = of_nat (xt_nids tab), stored_pos = None, stored_size = 0\<rparr>;
          let tab = tab\<lparr>xt_nids := xt_nids tab + 1\<rparr>;
          (ok, tab, xattrset, h) \<leftarrow> libsqfs_xattrset_serialize_data ord h tab xattrset;
          let tab = tab\<lparr>xattrsets := xattrsets tab @ [xattrset]\<rparr>;
          Some (if ok then Some xattrset else None, tab, h) })"

text \<open>
  Writing: attribute data, descriptors, a header, and the index of the descriptor blocks. The
  index has as many entries as full descriptors would need blocks; a missing block would be a
  null dereference.
\<close>

definition libsqfs_xattr_table_write ::
    "libsqfs_xattr_table \<Rightarrow> 'a sqfs_out_scheme \<Rightarrow> (bool \<times> libsqfs_xattr_table \<times> 'a sqfs_out_scheme) option" where
  "libsqfs_xattr_table_write tab img =
     (if xt_nids tab = 0 then Some (True, tab\<lparr>xt_offset := -1\<rparr>, img)
      else do {
        let descriptor_table_size = xt_nids tab * 16;
        let index_entries = (descriptor_table_size + SQUASHFS_METADATA_SIZE - 1) div SQUASHFS_METADATA_SIZE;
        (ok, data, img) \<leftarrow> libsqfs_metatable_write (xattr_data tab) img;
        let tab = tab\<lparr>xattr_data := data\<rparr>;
        if \<not> ok then Some (False, tab, img)
        else do {
          (ok, descriptors, img) \<leftarrow> libsqfs_metatable_write (xattr_descriptors tab) img;
          let tab = tab\<lparr>xattr_descriptors := descriptors\<rparr>;
          if \<not> ok then Some (False, tab, img)
          else do {
            let (xattr_header_pos, img) = libsqfs_image_reserve img 16;
            let header = \<lparr>xattr_table_xattr_table_start = mt_offset (xattr_data tab),
              xattr_table_xattr_ids = of_nat (xt_nids tab), xattr_table_unused = 0\<rparr>;
            let (written, d) = libsqfs_pwrite (dst img) (encode_xattr_table header) xattr_header_pos;
            let img = img\<lparr>dst := d\<rparr>;
            if written \<noteq> 16 then Some (False, tab, img)
            else do {
              let (index_pos, img) = libsqfs_image_reserve img (8 * index_entries);
              if length (blocks (xattr_descriptors tab)) < index_entries then None
              else do {
                let index_table = map (\<lambda>block. mt_offset (xattr_descriptors tab) + ucast (mb_offset block))
                  (take index_entries (blocks (xattr_descriptors tab)));
                let (written, d) = libsqfs_pwrite (dst img) (encode_array le64 index_table) index_pos;
                let img = img\<lparr>dst := d\<rparr>;
                if written \<noteq> int (8 * index_entries) then Some (False, tab, img)
                else Some (True, tab\<lparr>xt_offset := xattr_header_pos\<rparr>, img) } } } } })"

section \<open>What a table of attributes holds\<close>

text \<open>The reader of the format: an entry, the rest of the name, the length of the value, the value.\<close>

definition read_xattr :: "byte list \<Rightarrow> ((u16 \<times> cstring \<times> byte list) \<times> byte list) option" where
  "read_xattr bs = do {
     (entry, bs) \<leftarrow> decode_xattr_entry bs;
     let n = unat (xattr_entry_size entry);
     (v, bs') \<leftarrow> decode_xattr_val (drop n bs);
     let m = unat (xattr_val_vsize v);
     if length bs' < m then None
     else Some ((xattr_entry_type entry, take n bs, take m bs'), drop m bs') }"

abbreviation xattr_view :: "libsqfs_xattr \<Rightarrow> u16 \<times> cstring \<times> byte list" where
  "xattr_view x \<equiv> (ucast (xa_domain x), xa_suffix x, xa_value x)"

definition xattr_ok :: "libsqfs_xattr \<Rightarrow> bool" where
  "xattr_ok x \<longleftrightarrow> length (xa_suffix x) < 2 ^ 16 \<and> length (xa_value x) < 2 ^ 32"

abbreviation xattrs_bytes :: "byte_order \<Rightarrow> libsqfs_xattr list \<Rightarrow> byte list" where
  "xattrs_bytes ord xs \<equiv> concat (concat (map (encode_xattr ord) xs))"

text \<open>
  The table is sound when both metadata tables are, and there is one descriptor for every id
  that has been given out.
\<close>

abbreviation (input) plain :: "byte list \<Rightarrow> byte list" where "plain \<equiv> (\<lambda>bs. bs)"

definition xattr_table_ok :: "libsqfs_xattr_table \<Rightarrow> bool" where
  "xattr_table_ok tab \<longleftrightarrow> table_inv plain (xattr_data tab) \<and> table_inv plain (xattr_descriptors tab) \<and>
     length (table_bytes plain (xattr_descriptors tab)) = 16 * xt_nids tab \<and>
     xt_nids tab = length (xattrsets tab)"

lemma xattr_init_ok: "xattr_table_ok (libsqfs_xattr_table_init c)"
  by (simp add: xattr_table_ok_def libsqfs_xattr_table_init_def init_inv)

lemma field_little: "xattr_entry_field LITTLE_ENDIAN v = ucast v"
  by (simp add: xattr_entry_field_def)

lemma le16_bytes: "le16 x = [ucast x, ucast (drop_bit 8 x)]"
  by (simp add: le_bytes_numeral)

lemma le32_bytes: "le32 x = [ucast x, ucast (drop_bit 8 x), ucast (drop_bit 16 x), ucast (drop_bit 24 x)]"
  by (simp add: le_bytes_numeral)

lemma le_bytes_lower_half: "le16 (ucast (w :: u32)) = take 2 (le32 w)"
proof -
  have a: "(ucast (ucast w :: u16) :: byte) = ucast w"
    by (rule bit_word_eqI) (simp add: bit_unsigned_iff)
  have b: "(ucast (drop_bit 8 (ucast w :: u16)) :: byte) = ucast (drop_bit 8 w)"
    by (rule bit_word_eqI) (simp add: bit_unsigned_iff bit_drop_bit_eq)
  have "take 2 (le32 w) = [ucast w, ucast (drop_bit 8 w)]" unfolding le32_bytes by simp
  then show ?thesis unfolding le16_bytes a b by simp
qed

lemma field_big: "unat v < 2 ^ 16 \<Longrightarrow> xattr_entry_field BIG_ENDIAN v = 0"
proof -
  assume v: "unat v < 2 ^ 16"
  have bytes: "le_bytes 4 (bswap 4 v) = rev (le_bytes 4 v)" by (rule le_bytes_bswap) simp
  have lo: "drop_bit 16 v = 0"
  proof -
    have "take_bit 16 v = v"
      using v by (simp add: word_unat_eq_iff unsigned_take_bit_eq take_bit_nat_eq_self)
    then have "drop_bit 16 v = drop_bit 16 (take_bit 16 v)" by simp
    then show ?thesis by (simp add: drop_bit_take_bit)
  qed
  have d24: "drop_bit 24 v = 0"
  proof -
    have "drop_bit 24 v = drop_bit 8 (drop_bit 16 v)" by (simp add: drop_bit_drop_bit)
    then show ?thesis by (simp add: lo)
  qed
  have tail: "drop 2 (le_bytes 4 v) = [0, 0]"
    unfolding le32_bytes by (simp add: lo d24)
  have "le_bytes 2 (ucast (bswap 4 v) :: u16) = take 2 (le_bytes 4 (bswap 4 v))"
    by (rule le_bytes_lower_half)
  also have "\<dots> = rev (drop 2 (le_bytes 4 v))" unfolding bytes by (simp add: take_rev)
  finally have "le_bytes 2 (ucast (bswap 4 v) :: u16) = [0, 0]" by (simp add: tail)
  then show ?thesis by (simp add: xattr_entry_field_def)
qed

lemma read_encoded_xattr:
  assumes "xattr_ok x"
  shows "read_xattr (concat (encode_xattr LITTLE_ENDIAN x) @ bs) = Some (xattr_view x, bs)"
proof -
  let ?e = "\<lparr>xattr_entry_type = ucast (xa_domain x), xattr_entry_size = ucast (of_nat (length (xa_suffix x)) :: u32)\<rparr>"
  let ?v = "\<lparr>xattr_val_vsize = of_nat (length (xa_value x))\<rparr>"
  have n: "unat (xattr_entry_size ?e) = length (xa_suffix x)" and m: "unat (xattr_val_vsize ?v) = length (xa_value x)"
    using assms by (simp_all add: xattr_ok_def unat_of_nat unsigned_ucast_eq take_bit_nat_eq_self)
  have "concat (encode_xattr LITTLE_ENDIAN x) @ bs =
      encode_xattr_entry ?e @ xa_suffix x @ encode_xattr_val ?v @ xa_value x @ bs"
    by (simp add: encode_xattr_def field_little)
  moreover have "read_xattr \<dots> = Some (xattr_view x, bs)"
    unfolding read_xattr_def xattr_entry_codec.dec_enc
    by (simp only: bind.bind_lunit prod.case Let_def n drop_length_append [OF refl] append_eq_conv_conj [THEN iffD1]
        xattr_val_codec.dec_enc m) simp
  ultimately show ?thesis by simp
qed

lemma read_encoded_xattrs:
  "\<forall>x \<in> set xs. xattr_ok x \<Longrightarrow>
   decode_array read_xattr (length xs) (xattrs_bytes LITTLE_ENDIAN xs @ bs) = Some (map xattr_view xs, bs)"
  by (induction xs) (simp_all add: read_encoded_xattr)

lemma length_encode_xattr:
  "length (concat (encode_xattr ord x)) = 4 + length (xa_suffix x) + 4 + length (xa_value x)"
  by (simp add: encode_xattr_def)

section \<open>Serialising a set\<close>

text \<open>The four appends of an attribute are appends of its parts, one after the other.\<close>

lemma serialize_attrs_appends:
  assumes "serialize_attrs ord h tab xattrset first xs = Some (True, tab', xattrset', h')"
  shows "\<exists>ps. append_all libsqfs_metatable_append h tab (concat (map (encode_xattr ord) xs)) = Some (True, ps, tab', h') \<and>
    stored_pos xattrset' = (if first \<and> xs \<noteq> [] then Some (ps ! 0) else stored_pos xattrset) \<and>
    stored_size xattrset' = stored_size xattrset + length (xattrs_bytes ord xs) \<and>
    xs_attrs xattrset' = xs_attrs xattrset \<and> xs_id xattrset' = xs_id xattrset"
  using assms
proof (induction xs arbitrary: h tab xattrset first)
  case (Cons x xs)
  let ?p = "encode_xattr ord x"
  have parts: "?p = [?p ! 0, ?p ! 1, ?p ! 2, ?p ! 3]" by (simp add: encode_xattr_def)
  obtain p0 t0 h0 where a0: "libsqfs_metatable_append h tab (?p ! 0) = Some (True, p0, t0, h0)"
    using Cons.prems by (auto simp: Let_def split: bind_splits if_splits)
  obtain p1 t1 h1 where a1: "libsqfs_metatable_append h0 t0 (?p ! 1) = Some (True, p1, t1, h1)"
    using Cons.prems a0 by (auto simp: Let_def split: bind_splits if_splits)
  obtain p2 t2 h2 where a2: "libsqfs_metatable_append h1 t1 (?p ! 2) = Some (True, p2, t2, h2)"
    using Cons.prems a0 a1 by (auto simp: Let_def split: bind_splits if_splits)
  obtain p3 t3 h3 where a3: "libsqfs_metatable_append h2 t2 (?p ! 3) = Some (True, p3, t3, h3)"
    using Cons.prems a0 a1 a2 by (auto simp: Let_def split: bind_splits if_splits)
  let ?xs = "(if first then xattrset\<lparr>stored_pos := Some p0\<rparr> else xattrset)"
  let ?ys = "?xs\<lparr>stored_size := stored_size ?xs + 4 + length (xa_suffix x) + 4 + length (xa_value x)\<rparr>"
  have rest: "serialize_attrs ord h3 t3 ?ys False xs = Some (True, tab', xattrset', h')"
    using Cons.prems a0 a1 a2 a3 by (simp add: Let_def)
  from Cons.IH [OF rest] obtain ps where ps:
    "append_all libsqfs_metatable_append h3 t3 (concat (map (encode_xattr ord) xs)) = Some (True, ps, tab', h')"
    "stored_pos xattrset' = stored_pos ?ys"
    "stored_size xattrset' = stored_size ?ys + length (xattrs_bytes ord xs)"
    "xs_attrs xattrset' = xs_attrs ?ys" "xs_id xattrset' = xs_id ?ys" by auto
  have "append_all libsqfs_metatable_append h tab (?p @ concat (map (encode_xattr ord) xs)) =
      Some (True, p0 # p1 # p2 # p3 # ps, tab', h')"
    by (subst parts) (simp add: a0 a1 a2 a3 ps(1) del: One_nat_def)
  moreover have "stored_size xattrset' = stored_size xattrset + length (xattrs_bytes ord (x # xs))"
    using ps(3) length_encode_xattr [of ord x] by simp
  ultimately show ?case using ps(2,4,5) by (intro exI [of _ "p0 # p1 # p2 # p3 # ps"]) simp
qed simp

text \<open>The loop always returns, and succeeds as long as there is memory.\<close>

lemma serialize_attrs_total:
  "table_inv plain tab \<Longrightarrow> \<exists>ok tab' xattrset' h'. serialize_attrs ord h tab xattrset first xs = Some (ok, tab', xattrset', h') \<and>
     (h = [] \<longrightarrow> ok \<and> h' = [])"
proof (induction xs arbitrary: h tab xattrset first)
  case (Cons x xs)
  have step: "\<exists>ok p t' h'. libsqfs_metatable_append h t d = Some (ok, p, t', h') \<and> table_inv plain t' \<and>
      (h = [] \<longrightarrow> ok \<and> h' = [])" if "table_inv plain t" for h t d
    using meta_log.add_total [OF that, of h d] meta_log.add_inv [OF that] meta_log.add_memory [OF that] by metis
  obtain ok0 p0 t0 h0 where s0: "libsqfs_metatable_append h tab (encode_xattr ord x ! 0) = Some (ok0, p0, t0, h0)"
    "table_inv plain t0" "h = [] \<longrightarrow> ok0 \<and> h0 = []" using step [OF Cons.prems] by metis
  obtain ok1 p1 t1 h1 where s1: "libsqfs_metatable_append h0 t0 (encode_xattr ord x ! 1) = Some (ok1, p1, t1, h1)"
    "table_inv plain t1" "h0 = [] \<longrightarrow> ok1 \<and> h1 = []" using step [OF s0(2)] by metis
  obtain ok2 p2 t2 h2 where s2: "libsqfs_metatable_append h1 t1 (encode_xattr ord x ! 2) = Some (ok2, p2, t2, h2)"
    "table_inv plain t2" "h1 = [] \<longrightarrow> ok2 \<and> h2 = []" using step [OF s1(2)] by metis
  obtain ok3 p3 t3 h3 where s3: "libsqfs_metatable_append h2 t2 (encode_xattr ord x ! 3) = Some (ok3, p3, t3, h3)"
    "table_inv plain t3" "h2 = [] \<longrightarrow> ok3 \<and> h3 = []" using step [OF s2(2)] by metis
  show ?case
  proof (cases "ok0 \<and> ok1 \<and> ok2 \<and> ok3")
    case True
    let ?xs = "(if first then xattrset\<lparr>stored_pos := Some p0\<rparr> else xattrset)"
    let ?ys = "?xs\<lparr>stored_size := stored_size ?xs + 4 + length (xa_suffix x) + 4 + length (xa_value x)\<rparr>"
    obtain ok tab' xattrset' h' where rest: "serialize_attrs ord h3 t3 ?ys False xs = Some (ok, tab', xattrset', h')"
      "h3 = [] \<longrightarrow> ok \<and> h' = []" using Cons.IH [OF s3(2), of h3 ?ys False] by blast
    have "serialize_attrs ord h tab xattrset first (x # xs) = Some (ok, tab', xattrset', h')"
      using True s0(1) s1(1) s2(1) s3(1) rest(1) by (simp add: Let_def)
    moreover have "h = [] \<longrightarrow> ok \<and> h' = []" using s0(3) s1(3) s2(3) s3(3) rest(2) by blast
    ultimately show ?thesis by blast
  next
    case False
    then have "h \<noteq> []" using s0(3) s1(3) s2(3) s3(3) by blast
    then show ?thesis using False s0(1) s1(1) s2(1) s3(1)
      by (cases ok0; cases ok1; cases ok2; cases ok3) (auto simp: Let_def)
  qed
qed (auto intro: exI [of _ True])

lemma xattrset_create_succeeds:
  assumes ok: "xattr_table_ok tab" and ne: "attrs \<noteq> []"
  shows "\<exists>xattrset tab'. libsqfs_xattrset_create ord [] tab attrs = Some (Some xattrset, tab', [])"
proof -
  define set0 where "set0 = \<lparr>xs_attrs = attrs, xs_id = of_nat (xt_nids tab), stored_pos = None, stored_size = 0\<rparr>"
  have inv: "table_inv plain (xattr_data tab)" "table_inv plain (xattr_descriptors tab)"
    using ok by (simp_all add: xattr_table_ok_def)
  obtain data xattrset where attrs: "serialize_attrs ord [] (xattr_data tab) set0 True attrs = Some (True, data, xattrset, [])"
    using serialize_attrs_total [OF inv(1), of ord "[]" set0 True attrs] by auto
  have "stored_pos xattrset \<noteq> None" using serialize_attrs_appends [OF attrs] ne by auto
  then obtain d where d: "xattr_descriptor xattrset = Some d" by (auto simp: xattr_descriptor_def)
  obtain p descr where "libsqfs_metatable_append [] (xattr_descriptors tab) (encode_xattr_id d) = Some (True, p, descr, [])"
    using meta_log.add_total [OF inv(2)] meta_log.add_memory [OF inv(2)] by metis
  with attrs d show ?thesis
    by (simp add: libsqfs_xattrset_create_def libsqfs_xattrset_serialize_data_def set0_def)
qed

lemma xattrset_create_correct:
  assumes ok: "xattr_table_ok tab"
    and create: "libsqfs_xattrset_create ord h tab attrs = Some (Some xattrset, tab', h')"
  shows "\<exists>pos k. attrs \<noteq> [] \<and> stored_pos xattrset = Some pos \<and>
      k = length (table_bytes plain (xattr_data tab)) \<and>
      table_bytes plain (xattr_data tab') = table_bytes plain (xattr_data tab) @ xattrs_bytes ord attrs \<and>
      position_of plain (xattr_data tab') pos k \<and>
      table_bytes plain (xattr_descriptors tab') = table_bytes plain (xattr_descriptors tab) @
        encode_xattr_id \<lparr>xattr_id_xattr = xattr_reference pos, xattr_id_count = of_nat (length attrs),
          xattr_id_size = of_nat (length (xattrs_bytes ord attrs))\<rparr> \<and>
      xs_id xattrset = of_nat (xt_nids tab) \<and> xt_nids tab' = xt_nids tab + 1 \<and> xattr_table_ok tab' \<and>
      (\<forall>q j. position_of plain (xattr_data tab) q j \<longrightarrow> position_of plain (xattr_data tab') q j)"
proof -
  define set0 where "set0 = \<lparr>xs_attrs = attrs, xs_id = of_nat (xt_nids tab), stored_pos = None, stored_size = 0\<rparr>"
  obtain h2 where ser: "\<exists>t. libsqfs_xattrset_serialize_data ord h2 (tab\<lparr>xt_nids := xt_nids tab + 1\<rparr>) set0 =
      Some (True, t, xattrset, h') \<and> tab' = t\<lparr>xattrsets := xattrsets t @ [xattrset]\<rparr>"
    using create unfolding libsqfs_xattrset_create_def set0_def
    by (auto simp: Let_def split: prod.splits if_splits bind_splits)
  obtain data descr h3 d p where attrs: "serialize_attrs ord h2 (xattr_data tab) set0 True attrs = Some (True, data, xattrset, h3)"
    and d: "xattr_descriptor xattrset = Some d"
    and descr: "libsqfs_metatable_append h3 (xattr_descriptors tab) (encode_xattr_id d) = Some (True, p, descr, h')"
    and tab': "tab' = tab\<lparr>xt_nids := xt_nids tab + 1, xattr_data := data, xattr_descriptors := descr,
      xattrsets := xattrsets tab @ [xattrset]\<rparr>"
    using ser unfolding libsqfs_xattrset_serialize_data_def set0_def
    by (auto simp: Let_def split: if_splits bind_splits)
  from serialize_attrs_appends [OF attrs] obtain ps where ps:
    "append_all libsqfs_metatable_append h2 (xattr_data tab) (concat (map (encode_xattr ord) attrs)) = Some (True, ps, data, h3)"
    "stored_pos xattrset = (if attrs \<noteq> [] then Some (ps ! 0) else None)"
    "stored_size xattrset = length (xattrs_bytes ord attrs)" "xs_attrs xattrset = attrs"
    "xs_id xattrset = of_nat (xt_nids tab)"
    by (auto simp: set0_def)
  have ne: "attrs \<noteq> []" using d ps(2) by (auto simp: xattr_descriptor_def)
  have inv: "table_inv plain (xattr_data tab)" "table_inv plain (xattr_descriptors tab)"
    using ok by (simp_all add: xattr_table_ok_def)
  note c = meta_log.all_content [OF inv(1) ps(1)]
  have inv': "table_inv plain data" "table_inv plain descr"
    using meta_log.all_total [OF inv(1), of h2 "concat (map (encode_xattr ord) attrs)"] ps(1)
      meta_log.add_inv [OF inv(2) descr] by auto
  have stable: "\<forall>q j. position_of plain (xattr_data tab) q j \<longrightarrow> position_of plain data q j"
    using meta_log.all_stable [OF inv(1) ps(1)] by blast
  have "concat (map (encode_xattr ord) attrs) \<noteq> []" using ne by (cases attrs) (simp_all add: encode_xattr_def)
  then have at: "position_of plain data (ps ! 0) (length (table_bytes plain (xattr_data tab)))"
    using c by (auto dest: spec [of _ 0])
  have d_def: "d = \<lparr>xattr_id_xattr = xattr_reference (ps ! 0), xattr_id_count = of_nat (length attrs),
      xattr_id_size = of_nat (length (xattrs_bytes ord attrs))\<rparr>"
    using d ps ne by (simp add: xattr_descriptor_def)
  have bytes: "table_bytes plain descr = table_bytes plain (xattr_descriptors tab) @ encode_xattr_id d"
    using meta_log.add_content [OF inv(2) descr] by auto
  have "xattr_table_ok tab'"
    using ok inv' bytes by (simp add: xattr_table_ok_def tab')
  then show ?thesis using ne ps(2,5) c at bytes d_def stable by (simp add: tab')
qed

text \<open>A set that fails leaves the first descriptor unwritten.\<close>

lemma append_small_fails:
  assumes "libsqfs_metatable_append h (libsqfs_metatable_init None) (encode_xattr_id d) = Some (False, p, t, h')"
  shows "t = libsqfs_metatable_init None"
proof (cases "malloc h")
  case (Pair b h1)
  have ne: "encode_xattr_id d \<noteq> []" using xattr_id_codec.length_enc [of d] by (metis list.size(3) zero_neq_numeral)
  show ?thesis
  proof (cases b)
    case True
    then show ?thesis using assms Pair ne
      by (simp add: libsqfs_metatable_append_def metatable_append_loop.simps [of h] metatable_append_loop.simps [of h1]
          libsqfs_metatable_getblock_def libsqfs_metatable_init_def Let_def)
  next
    case False
    then show ?thesis using assms Pair ne
      by (simp add: libsqfs_metatable_append_def metatable_append_loop.simps [of h]
          libsqfs_metatable_getblock_def libsqfs_metatable_init_def Let_def)
  qed
qed

lemma failed_create_no_descriptor:
  assumes "libsqfs_xattrset_create ord (True # True # h) (libsqfs_xattr_table_init c) attrs = Some (None, tab, h')"
  shows "xt_nids tab = 1 \<and> xattr_descriptors tab = libsqfs_metatable_init None"
  using assms append_small_fails
  by (fastforce simp: libsqfs_xattrset_create_def libsqfs_xattrset_serialize_data_def libsqfs_xattr_table_init_def
      Let_def split: bind_splits if_splits prod.splits)

section \<open>Inode references\<close>

lemma reference_parts:
  assumes "unat (me_block pos) < 2 ^ 16" "unat (me_offset pos) < 2 ^ 16"
  shows "SQUASHFS_XATTR_BLK (xattr_reference pos) = me_block pos"
    and "SQUASHFS_XATTR_OFFSET (xattr_reference pos) = me_offset pos"
proof -
  let ?b = "me_block pos" and ?o = "me_offset pos"
  have b: "take_bit 16 ?b = ?b" and o: "take_bit 16 ?o = ?o"
    using assms by (simp_all add: word_unat_eq_iff unsigned_take_bit_eq take_bit_nat_eq_self)
  have o_bit: "\<not> bit ?o n" if "16 \<le> n" for n using that by (subst o [symmetric]) (simp add: bit_simps)
  have b_bit: "\<not> bit ?b n" if "16 \<le> n" for n using that by (subst b [symmetric]) (simp add: bit_simps)
  have mask: "(0xffff :: u64) = mask 16" by (simp add: mask_eq_exp_minus_1)
  show "SQUASHFS_XATTR_BLK (xattr_reference pos) = ?b"
    by (rule bit_word_eqI) (auto simp: SQUASHFS_XATTR_BLK_def xattr_reference_def bit_simps o_bit b_bit
      dest: b_bit intro: ccontr)
  show "SQUASHFS_XATTR_OFFSET (xattr_reference pos) = ?o"
    unfolding SQUASHFS_XATTR_OFFSET_def mask
    by (rule bit_word_eqI) (auto simp: xattr_reference_def bit_simps o_bit intro: ccontr)
qed

section \<open>Properties\<close>

text \<open>C24: attribute sets. Creating a set keeps the table sound; the set gets the next id; the
  descriptor at that index of the descriptor table has the number of attributes and the size of
  their encoding, and from the position it is made of a reader finds, on a little-endian host, every
  attribute with its domain, the rest of its name and its value. Earlier positions stay valid.\<close>

theorem xattrset_roundtrip:
  assumes "xattr_table_ok tab" "\<forall>x \<in> set attrs. xattr_ok x"
    and "libsqfs_xattrset_create LITTLE_ENDIAN h tab attrs = Some (Some xattrset, tab', h')"
  shows "xattr_table_ok tab' \<and> xs_id xattrset = of_nat (xt_nids tab) \<and>
    (\<exists>pos k. position_of plain (xattr_data tab') pos k \<and>
       map_option fst (decode_xattr_id (drop (16 * xt_nids tab) (table_bytes plain (xattr_descriptors tab')))) =
         Some \<lparr>xattr_id_xattr = xattr_reference pos, xattr_id_count = of_nat (length attrs),
           xattr_id_size = of_nat (length (table_bytes plain (xattr_data tab')) - k)\<rparr> \<and>
       decode_array read_xattr (length attrs) (drop k (table_bytes plain (xattr_data tab'))) =
         Some (map xattr_view attrs, [])) \<and>
    (\<forall>q j. position_of plain (xattr_data tab) q j \<longrightarrow> position_of plain (xattr_data tab') q j)"
proof -
  from xattrset_create_correct [OF assms(1,3)] obtain pos where c:
    "position_of plain (xattr_data tab') pos (length (table_bytes plain (xattr_data tab)))"
    "table_bytes plain (xattr_data tab') = table_bytes plain (xattr_data tab) @ xattrs_bytes LITTLE_ENDIAN attrs"
    "table_bytes plain (xattr_descriptors tab') = table_bytes plain (xattr_descriptors tab) @
        encode_xattr_id \<lparr>xattr_id_xattr = xattr_reference pos, xattr_id_count = of_nat (length attrs),
          xattr_id_size = of_nat (length (xattrs_bytes LITTLE_ENDIAN attrs))\<rparr>"
    "xs_id xattrset = of_nat (xt_nids tab)" "xattr_table_ok tab'"
    "\<forall>q j. position_of plain (xattr_data tab) q j \<longrightarrow> position_of plain (xattr_data tab') q j" by blast
  have len: "length (table_bytes plain (xattr_descriptors tab)) = 16 * xt_nids tab"
    using assms(1) by (simp add: xattr_table_ok_def)
  have descr: "map_option fst (decode_xattr_id (drop (16 * xt_nids tab) (table_bytes plain (xattr_descriptors tab')))) =
      Some \<lparr>xattr_id_xattr = xattr_reference pos, xattr_id_count = of_nat (length attrs),
        xattr_id_size = of_nat (length (table_bytes plain (xattr_data tab')) - length (table_bytes plain (xattr_data tab)))\<rparr>"
    using xattr_id_codec.dec_enc [of _ "[]"] unfolding c(2,3) drop_length_append [OF len] by simp
  have data: "decode_array read_xattr (length attrs)
      (drop (length (table_bytes plain (xattr_data tab))) (table_bytes plain (xattr_data tab'))) =
      Some (map xattr_view attrs, [])"
    using read_encoded_xattrs [OF assms(2), of "[]"] by (simp add: c(2))
  show ?thesis using c(1,4,5,6) descr data by blast
qed

definition demo_xattr :: libsqfs_xattr where
  "demo_xattr = \<lparr>xa_name = cstr ''User.a'', xa_suffix = cstr ''a'', xa_domain = 0, xa_value = [1, 2]\<rparr>"

theorem xattrset_roundtrip_witness:
  "\<exists>xattr tab xattrset tab'. libsqfs_xattr_create [] (libsqfs_xattr_table_init None) (cstr ''User.a'') [1, 2] =
       (Some xattr, tab, []) \<and>
     libsqfs_xattrset_create LITTLE_ENDIAN [] tab [xattr] = Some (Some xattrset, tab', []) \<and>
     xattr_table_ok tab' \<and>
     (\<exists>k. decode_array read_xattr 1 (drop k (table_bytes plain (xattr_data tab'))) =
        Some ([(0, cstr ''a'', [1, 2])], []))"
proof -
  define tab where "tab = (libsqfs_xattr_table_init None)\<lparr>xattrs := [demo_xattr]\<rparr>"
  have "strncasecmp (cstr ''User.a'') (cstr ''user.'') 5 = 0" by (simp add: strncasecmp_numeral tolower_def)
  then have "classify_xattr_domain (cstr ''User.a'') = Some (cstr ''user.'', 5, 0)"
    by (simp only: classify_xattr_domain_def xattr_domains_def find.simps prod.case if_True) simp
  moreover have "drop 5 (cstr ''User.a'') = cstr ''a''" by simp
  ultimately have create: "libsqfs_xattr_create [] (libsqfs_xattr_table_init None) (cstr ''User.a'') [1, 2] =
      (Some demo_xattr, tab, [])"
    by (simp only: libsqfs_xattr_create_def option.case prod.case malloc.simps Let_def not_True_eq_False if_False)
      (simp only: libsqfs_xattr_table_init_def tab_def demo_xattr_def libsqfs_xattr_table.simps append_Nil)
  have ok: "xattr_table_ok tab" using xattr_init_ok [of None] by (simp add: tab_def xattr_table_ok_def)
  obtain xattrset tab' where set: "libsqfs_xattrset_create LITTLE_ENDIAN [] tab [demo_xattr] = Some (Some xattrset, tab', [])"
    using xattrset_create_succeeds [OF ok, of "[demo_xattr]" LITTLE_ENDIAN] by blast
  have "xattr_ok demo_xattr" by (simp add: demo_xattr_def xattr_ok_def)
  then have all: "\<forall>x \<in> set [demo_xattr]. xattr_ok x" by simp
  have "xattr_view demo_xattr = (0, cstr ''a'', [1, 2])" by (simp add: demo_xattr_def)
  then have "xattr_table_ok tab' \<and> (\<exists>k. decode_array read_xattr 1 (drop k (table_bytes plain (xattr_data tab'))) =
        Some ([(0, cstr ''a'', [1, 2])], []))"
  proof -
    from xattrset_roundtrip [OF ok all set] obtain k where "xattr_table_ok tab'"
      "decode_array read_xattr (length [demo_xattr]) (drop k (table_bytes plain (xattr_data tab'))) =
        Some (map xattr_view [demo_xattr], [])" by blast
    then show ?thesis by (intro conjI exI [of _ k]) (simp_all add: demo_xattr_def)
  qed
  with create set show ?thesis by blast
qed

text \<open>C36: references to attribute data. A position in the first 64 KiB of the stored attribute data is
  turned into a reference that the macros of the format take apart again; the block of a position
  beyond is shifted out of its 32-bit word, and the reference leads to another block: the block
  number modulo 65536.\<close>

theorem xattr_reference_range:
  assumes "unat (me_offset pos) < 2 ^ 16"
  shows "SQUASHFS_XATTR_OFFSET (xattr_reference pos) = me_offset pos \<and>
    SQUASHFS_XATTR_BLK (xattr_reference pos) = take_bit 16 (me_block pos) \<and>
    (SQUASHFS_XATTR_BLK (xattr_reference pos) = me_block pos \<longleftrightarrow> unat (me_block pos) < 2 ^ 16)"
proof -
  let ?low = "pos\<lparr>me_block := take_bit 16 (me_block pos)\<rparr>"
  have same: "xattr_reference pos = xattr_reference ?low"
    by (simp add: xattr_reference_def push_bit_take_bit take_bit_word_eq_self)
  have range: "unat (take_bit 16 (me_block pos)) < 2 ^ 16"
    using take_bit_nat_less_exp [of 16 "unat (me_block pos)"] by (simp add: unsigned_take_bit_eq)
  have eq: "take_bit 16 (me_block pos) = me_block pos \<longleftrightarrow> unat (me_block pos) < 2 ^ 16"
    by (simp add: word_unat_eq_iff unsigned_take_bit_eq take_bit_nat_eq_self_iff)
  show ?thesis using reference_parts [of ?low] assms range eq unfolding same by simp
qed

theorem xattr_reference_range_witness:
  "SQUASHFS_XATTR_BLK (xattr_reference \<lparr>me_block = 0x12345, me_offset = 7\<rparr>) = 0x2345 \<and>
   SQUASHFS_XATTR_BLK (xattr_reference \<lparr>me_block = 0x2345, me_offset = 7\<rparr>) = 0x2345"
  using xattr_reference_range [of "\<lparr>me_block = 0x12345, me_offset = 7\<rparr>"]
    xattr_reference_range [of "\<lparr>me_block = 0x2345, me_offset = 7\<rparr>"] by simp

text \<open>C37: attribute entries on a big-endian host. The 16-bit fields are assigned values converted as 32-bit
  words, and what is left of them is zero: whatever the domain and the name, a reader sees an
  attribute of the first domain (user) with an empty name.\<close>

theorem xattr_entry_big_endian:
  assumes "length (xa_suffix x) < 2 ^ 16" "unat (xa_domain x) < 2 ^ 16"
  shows "map_option fst (decode_xattr_entry (encode_xattr BIG_ENDIAN x ! 0)) =
    Some \<lparr>xattr_entry_type = 0, xattr_entry_size = 0\<rparr>"
proof -
  have "unat (of_nat (length (xa_suffix x)) :: u32) < 2 ^ 16" using assms(1) by (simp add: unat_of_nat)
  from field_big [OF this] show ?thesis using xattr_entry_codec.dec_enc [of _ "[]"] field_big [OF assms(2)]
    by (simp add: encode_xattr_def)
qed

theorem xattr_entry_big_endian_witness:
  "map_option fst (decode_xattr_entry (encode_xattr BIG_ENDIAN (demo_xattr\<lparr>xa_domain := 2\<rparr>) ! 0)) =
    Some \<lparr>xattr_entry_type = 0, xattr_entry_size = 0\<rparr>"
  by (rule xattr_entry_big_endian) (simp_all add: demo_xattr_def)

text \<open>C38: a set that could not be stored. When memory runs out for the first set of a table before its
  descriptor is appended, the caller gets a null pointer, but the table counts the set. Writing the
  table then never succeeds: it looks for a block of descriptors that does not exist and
  dereferences a null pointer, unless a write to the image fails before that.\<close>

theorem failed_xattrset_crashes_write:
  assumes "libsqfs_xattrset_create ord (True # True # h) (libsqfs_xattr_table_init c) attrs = Some (None, tab, h')"
  shows "xt_nids tab = 1 \<and> (libsqfs_xattr_table_write tab img = None \<or>
    (\<exists>tab' img'. libsqfs_xattr_table_write tab img = Some (False, tab', img')))"
proof -
  have tab: "xt_nids tab = 1" "xattr_descriptors tab = libsqfs_metatable_init None"
    using failed_create_no_descriptor [OF assms] by blast+
  obtain r where r: "libsqfs_metatable_write (xattr_data tab) img = r" by simp
  show ?thesis
  proof (cases r)
    case None
    then show ?thesis using r tab(1) by (simp add: libsqfs_xattr_table_write_def)
  next
    case (Some x)
    obtain ok data i1 where x: "x = (ok, data, i1)" by (cases x)
    show ?thesis
    proof (cases ok)
      case False
      then show ?thesis using r Some x tab(1) by (simp add: libsqfs_xattr_table_write_def)
    next
      case True
      have "libsqfs_metatable_write (libsqfs_metatable_init None) i1 =
          Some (True, (libsqfs_metatable_init None)\<lparr>mt_offset := img_size i1\<rparr>, i1)"
        by (simp add: libsqfs_metatable_write_def libsqfs_metatable_flush_def libsqfs_metatable_init_def
            libsqfs_image_reserve_def)
      then show ?thesis using r Some x True tab
        by (auto simp: libsqfs_xattr_table_write_def libsqfs_image_reserve_def Let_def split: prod.splits)
    qed
  qed
qed

theorem failed_xattrset_crashes_write_witness:
  "\<exists>tab. libsqfs_xattrset_create LITTLE_ENDIAN [True, True, False] (libsqfs_xattr_table_init None) [demo_xattr] =
       Some (None, tab, []) \<and> libsqfs_xattr_table_write tab demo_out = None"
proof -
  define tab where "tab = (libsqfs_xattr_table_init None)\<lparr>xt_nids := 1, xattrsets := [\<lparr>xs_attrs = [demo_xattr],
      xs_id = 0, stored_pos = None, stored_size = 0\<rparr>]\<rparr>"
  have create: "libsqfs_xattrset_create LITTLE_ENDIAN [True, True, False] (libsqfs_xattr_table_init None) [demo_xattr] =
      Some (None, tab, [])"
    by (simp add: libsqfs_xattrset_create_def libsqfs_xattrset_serialize_data_def libsqfs_metatable_append_def
        metatable_append_loop.simps libsqfs_metatable_getblock_def libsqfs_xattr_table_init_def
        libsqfs_metatable_init_def encode_xattr_def encode_xattr_entry_def tab_def Let_def)
  have "libsqfs_xattr_table_write tab demo_out \<noteq> Some (False, t, i)" for t i
    by (simp add: tab_def libsqfs_xattr_table_write_def libsqfs_xattr_table_init_def libsqfs_metatable_write_def
        libsqfs_metatable_flush_def libsqfs_metatable_init_def libsqfs_image_reserve_def demo_out_def demo_file_def
        libsqfs_destination_file_pwrite_def pwrite_def encode_xattr_table_def)
  then show ?thesis using failed_xattrset_crashes_write [OF create, of demo_out] create by blast
qed

end
