(* ===== verification/Inodes.thy ===== *)
theory Inodes
  imports Bulkdata Idtable Xattrs
begin

text \<open>
  inodes.h and inodes.c, with the rest of \<open>struct libsqfs_image\<close> of internal.h: the attributes
  of inodes, what all kinds of inodes have in common, and the state of an image.

  The inodes of an image form a list in the order of their creation. A pointer to an inode is
  its index in this list, and its inode number is that index plus one. The class of an inode is
  the constructor of its body. Attributes are never changed once they have been created, so an
  inode holds them; a set of extended attributes is known by its id.
\<close>

section \<open>State\<close>

record libsqfs_inodeattr =
  ia_uid :: u32
  ia_gid :: u32
  ia_mode :: u32
  ia_ctime :: u64
  mapped_uid :: u16
  mapped_gid :: u16
  ia_xattrset :: "u32 option"

text \<open>
  An entry of a directory. The chain through \<open>next_indexed\<close> is the list \<open>first_indexed\<close> of the
  directory, the positions of the indexed entries.
\<close>

record libsqfs_directory_entry =
  de_name :: cstring
  de_inode :: nat
  de_serialno :: nat
  de_offset :: nat
  directory_table_entry :: libsqfs_metatable_entry
  de_encoded_data :: "byte list option"
  de_encoded_size :: nat

record libsqfs_directory =
  dd_parent :: "nat option"
  dd_entries :: "libsqfs_directory_entry list"
  indexed_count :: nat
  first_indexed :: "nat list"
  dir_table_entry :: libsqfs_metatable_entry
  encoded_entries_size :: nat

text \<open>A regular file: its full blocks and the piece in a fragment are chunks of the bulk data.\<close>

record libsqfs_regular =
  file_size :: u64
  sparse_size :: u64
  reg_blocks :: "nat option list"
  tail_piece :: "nat option"

datatype libsqfs_inode_body =
    Symlink_Inode cstring
  | Device_Inode byte u32 u32
  | Fifo_Inode
  | Regular_Inode (body_regular: libsqfs_regular)
  | Directory_Inode (body_directory: libsqfs_directory)

record libsqfs_inode =
  in_body :: libsqfs_inode_body
  in_attr :: libsqfs_inodeattr
  in_nlink :: nat
  inode_table_entry :: libsqfs_metatable_entry
  in_inode_number :: u32
  encoded_type :: u16
  encoded_base_type :: u16

record libsqfs_image = sqfs_bulk +
  creation_time :: u32
  dataitems :: "libsqfs_data list"
  inodeattrs :: "libsqfs_inodeattr list"
  inodes :: "libsqfs_inode list"
  idtable :: libsqfs_idtable
  inode_table :: libsqfs_metatable
  dir_table :: libsqfs_metatable
  export_offset :: u64
  xattr_table :: libsqfs_xattr_table
  compressor :: libsqfs_compressor_instance
  compressor_option_data :: "byte list option"
  compressor_option_data_loc :: u64
  root :: "nat option"
  threads :: nat

abbreviation inode_at :: "libsqfs_image \<Rightarrow> nat \<Rightarrow> libsqfs_inode" where
  "inode_at img n \<equiv> inodes img ! n"

definition upd_inode :: "nat \<Rightarrow> (libsqfs_inode \<Rightarrow> libsqfs_inode) \<Rightarrow> libsqfs_image \<Rightarrow> libsqfs_image" where
  "upd_inode n f img = img\<lparr>inodes := (inodes img)[n := f (inodes img ! n)]\<rparr>"

section \<open>Attributes\<close>

text \<open>
  The mapped ids are stored in 16 bits before they are compared with \<open>-1\<close> as an \<open>int\<close>. The new
  attributes are part of the image's list from the start, also when the call fails later.
\<close>

definition libsqfs_inodeattr_create_simple ::
    "u32 \<Rightarrow> u32 \<Rightarrow> u32 \<Rightarrow> u64 \<Rightarrow> libsqfs_image \<Rightarrow> libsqfs_inodeattr option \<times> libsqfs_image" where
  "libsqfs_inodeattr_create_simple uid gid mode ctime img =
     (let (ok, h) = malloc (mem img) in
      if \<not> ok then (None, img\<lparr>mem := h\<rparr>)
      else
        let (u, tab, h) = libsqfs_idtable_map h (idtable img) uid;
            (g, tab, h) = libsqfs_idtable_map h tab gid;
            attr = \<lparr>ia_uid = uid, ia_gid = gid, ia_mode = SQUASHFS_MODE mode, ia_ctime = ctime,
              mapped_uid = ucast u, mapped_gid = ucast g, ia_xattrset = None\<rparr>;
            img = img\<lparr>mem := h, idtable := tab, inodeattrs := inodeattrs img @ [attr]\<rparr> in
        if (ucast (mapped_uid attr) :: u32) = -1 \<or> (ucast (mapped_gid attr) :: u32) = -1
        then (None, libsqfs_image_flag_error img ''Too many user/group ids'' False)
        else (Some attr, img))"

definition libsqfs_inodeattr_create_extended ::
    "u32 \<Rightarrow> u32 \<Rightarrow> u32 \<Rightarrow> u64 \<Rightarrow> libsqfs_xattrset option \<Rightarrow> libsqfs_image \<Rightarrow>
     libsqfs_inodeattr option \<times> libsqfs_image" where
  "libsqfs_inodeattr_create_extended uid gid mode ctime xattrset img =
     (case libsqfs_inodeattr_create_simple uid gid mode ctime img of
        (None, img) \<Rightarrow> (None, img)
      | (Some attr, img) \<Rightarrow>
          let attr = attr\<lparr>ia_xattrset := map_option xs_id xattrset\<rparr> in
          (Some attr, img\<lparr>inodeattrs := butlast (inodeattrs img) @ [attr]\<rparr>))"

section \<open>Inodes\<close>

abbreviation no_entry :: libsqfs_metatable_entry where
  "no_entry \<equiv> \<lparr>me_block = -1, me_offset = -1\<rparr>"

text \<open>Initialising an inode adds it to the image; the result is its index.\<close>

definition libsqfs_inode_init ::
    "libsqfs_inode_body \<Rightarrow> libsqfs_inodeattr \<Rightarrow> libsqfs_image \<Rightarrow> nat \<times> libsqfs_image" where
  "libsqfs_inode_init body attr img =
     (let inode = \<lparr>in_body = body, in_attr = attr, in_nlink = 0, inode_table_entry = no_entry,
        in_inode_number = of_nat (length (inodes img) + 1), encoded_type = 0, encoded_base_type = 0\<rparr> in
      (length (inodes img), img\<lparr>inodes := inodes img @ [inode]\<rparr>))"

definition libsqfs_encoded_inode :: "libsqfs_inode \<Rightarrow> u64" where
  "libsqfs_encoded_inode inode =
     ucast (me_offset (inode_table_entry inode)) OR push_bit 16 (ucast (me_block (inode_table_entry inode)))"

datatype libsqfs_inode_class =
    libsqfs_symlink_inode_vmt | libsqfs_device_inode_vmt | libsqfs_fifo_inode_vmt
  | libsqfs_regular_inode_vmt | libsqfs_directory_inode_vmt

definition libsqfs_inode_get_class :: "libsqfs_inode \<Rightarrow> libsqfs_inode_class" where
  "libsqfs_inode_get_class inode =
     (case in_body inode of
        Symlink_Inode _ \<Rightarrow> libsqfs_symlink_inode_vmt
      | Device_Inode _ _ _ \<Rightarrow> libsqfs_device_inode_vmt
      | Fifo_Inode \<Rightarrow> libsqfs_fifo_inode_vmt
      | Regular_Inode _ \<Rightarrow> libsqfs_regular_inode_vmt
      | Directory_Inode _ \<Rightarrow> libsqfs_directory_inode_vmt)"

section \<open>The two tables\<close>

text \<open>
  Appending to the inode table and to the directory table of the image. With a position the call
  is \<open>append_inode_header\<close>: the position is stored in the inode, whether or not the data fits.
\<close>

definition append_inode_table :: "byte list \<Rightarrow> libsqfs_image \<Rightarrow> (bool \<times> libsqfs_metatable_entry \<times> libsqfs_image) option" where
  "append_inode_table data img = do {
     (ok, pos, tab, h) \<leftarrow> libsqfs_metatable_append (mem img) (inode_table img) data;
     Some (ok, pos, img\<lparr>mem := h, inode_table := tab\<rparr>) }"

definition append_inode_header :: "nat \<Rightarrow> byte list \<Rightarrow> libsqfs_image \<Rightarrow> (bool \<times> libsqfs_image) option" where
  "append_inode_header n hdr img = do {
     (ok, pos, img) \<leftarrow> append_inode_table hdr img;
     Some (ok, upd_inode n (inode_table_entry_update (\<lambda>_. pos)) img) }"

definition append_dir_table :: "byte list \<Rightarrow> libsqfs_image \<Rightarrow> (bool \<times> libsqfs_metatable_entry \<times> libsqfs_image) option" where
  "append_dir_table data img = do {
     (ok, pos, tab, h) \<leftarrow> libsqfs_metatable_append (mem img) (dir_table img) data;
     Some (ok, pos, img\<lparr>mem := h, dir_table := tab\<rparr>) }"

section \<open>Lemmas\<close>

lemma upd_inode_simps [simp]:
  "length (inodes (upd_inode n f img)) = length (inodes img)"
  "n < length (inodes img) \<Longrightarrow> inodes (upd_inode n f img) ! n = f (inodes img ! n)"
  "m \<noteq> n \<Longrightarrow> inodes (upd_inode n f img) ! m = inodes img ! m"
  "bulkdata (upd_inode n f img) = bulkdata img" "img_options (upd_inode n f img) = img_options img"
  "inode_table (upd_inode n f img) = inode_table img" "dir_table (upd_inode n f img) = dir_table img"
  "mem (upd_inode n f img) = mem img" "root (upd_inode n f img) = root img"
  by (simp_all add: upd_inode_def)

text \<open>An image in its initial state that writes to a file, for the examples.\<close>

definition demo_image :: libsqfs_image where
  "demo_image = \<lparr>mem = [], dst = dst demo_out, img_size = 96,
     img_options = fst (libsqfs_image_options_defaults True []), img_state = libsqfs_image_building,
     error_msg = None, bulkdata = libsqfs_bulkdata_init True True, creation_time = 0, dataitems = [],
     inodeattrs = [], inodes = [], idtable = libsqfs_idtable_init,
     inode_table = libsqfs_metatable_init None, dir_table = libsqfs_metatable_init None, export_offset = -1,
     xattr_table = libsqfs_xattr_table_init None, compressor = null_compressor_vmt,
     compressor_option_data = None, compressor_option_data_loc = 0, root = None, threads = 0\<rparr>"

definition demo_attr :: libsqfs_inodeattr where
  "demo_attr = \<lparr>ia_uid = 0, ia_gid = 0, ia_mode = 0x1a4, ia_ctime = 0, mapped_uid = 0, mapped_gid = 0, ia_xattrset = None\<rparr>"

text \<open>A mapped id of 16 bits is never \<open>-1\<close>.\<close>

lemma mapped_id_not_minus_one: "(ucast (w :: u16) :: u32) \<noteq> -1"
proof
  assume "(ucast w :: u32) = -1"
  then have "bit (ucast w :: u32) 31" by simp
  then show False using bit_imp_le_length [of w 31] by (simp add: bit_unsigned_iff)
qed

section \<open>Properties\<close>

text \<open>C39: running out of memory while an id is entered into the id table is not noticed. Attributes are
  created all the same, and their user id is index 65535 of a table that does not have it: the
  failure, \<open>-1\<close>, has been cut to 16 bits before it is compared with \<open>-1\<close>.\<close>

theorem failed_id_not_noticed:
  assumes "idtable_find uid 0 (ids (idtable img)) = None" "mem img = True # False # h"
  shows "\<exists>attr img'. libsqfs_inodeattr_create_simple uid gid mode ctime img = (Some attr, img') \<and>
    mapped_uid attr = 0xffff \<and> error_msg img' = error_msg img"
proof -
  have u: "libsqfs_idtable_map (False # h) (idtable img) uid = (-1, idtable img, h)"
    using assms(1) by (simp add: libsqfs_idtable_map_def idtable_slot_def)
  obtain g tab h' where g: "libsqfs_idtable_map h (idtable img) gid = (g, tab, h')" by (cases rule: prod_cases3)
  have "(ucast (-1 :: u32) :: u16) = 0xffff"
  proof -
    have "(ucast (-1 :: u32) :: u16) = -1" by (rule bit_word_eqI) (simp add: bit_unsigned_iff)
    then show ?thesis by simp
  qed
  then show ?thesis using assms(2) u g mapped_id_not_minus_one by (simp add: libsqfs_inodeattr_create_simple_def Let_def)
qed

theorem failed_id_not_noticed_witness:
  "\<exists>attr img'. libsqfs_inodeattr_create_simple 1000 1000 0x1a4 0 (demo_image\<lparr>mem := [True, False]\<rparr>) = (Some attr, img') \<and>
    mapped_uid attr = 0xffff"
  using failed_id_not_noticed [of 1000 "demo_image\<lparr>mem := [True, False]\<rparr>" "[]" 1000 "0x1a4" 0]
  by (auto simp: demo_image_def libsqfs_idtable_init_def)

text \<open>The reference to an inode, as it appears in the superblock and in the export table. The macros of
  the format take it apart into the block and the offset of the inode's position.\<close>

theorem encoded_inode_parts:
  assumes "unat (me_offset (inode_table_entry inode)) < 2 ^ 16"
  shows "SQUASHFS_INODE_BLK (libsqfs_encoded_inode inode) = me_block (inode_table_entry inode) \<and>
    SQUASHFS_INODE_OFFSET (libsqfs_encoded_inode inode) = me_offset (inode_table_entry inode)"
proof -
  let ?b = "me_block (inode_table_entry inode)" and ?o = "me_offset (inode_table_entry inode)"
  have o: "take_bit 16 ?o = ?o"
    using assms by (simp add: word_unat_eq_iff unsigned_take_bit_eq take_bit_nat_eq_self)
  have o_bit: "\<not> bit ?o n" if "16 \<le> n" for n using that by (subst o [symmetric]) (simp add: bit_simps)
  have mask: "(0xffff :: u64) = mask 16" by (simp add: mask_eq_exp_minus_1)
  have "SQUASHFS_INODE_BLK (libsqfs_encoded_inode inode) = ?b"
    by (rule bit_word_eqI) (auto simp: SQUASHFS_INODE_BLK_def libsqfs_encoded_inode_def bit_simps o_bit)
  moreover have "SQUASHFS_INODE_OFFSET (libsqfs_encoded_inode inode) = ?o"
    unfolding SQUASHFS_INODE_OFFSET_def mask
    by (rule bit_word_eqI) (auto simp: libsqfs_encoded_inode_def bit_simps o_bit intro: ccontr)
  ultimately show ?thesis by simp
qed

theorem encoded_inode_parts_witness:
  "SQUASHFS_INODE_BLK (libsqfs_encoded_inode \<lparr>in_body = Fifo_Inode, in_attr = demo_attr, in_nlink = 1,
     inode_table_entry = \<lparr>me_block = 0x12345, me_offset = 32\<rparr>, in_inode_number = 1,
     encoded_type = 6, encoded_base_type = 6\<rparr>) = 0x12345"
  using encoded_inode_parts [of "\<lparr>in_body = Fifo_Inode, in_attr = demo_attr, in_nlink = 1,
     inode_table_entry = \<lparr>me_block = 0x12345, me_offset = 32\<rparr>, in_inode_number = 1,
     encoded_type = 6, encoded_base_type = 6\<rparr>"] by simp

end
