(* ===== verification/Special.thy ===== *)
theory Special
  imports Inodes
begin

text \<open>
  special.c: symbolic links, devices and named pipes: creating them and writing their inodes.
\<close>

section \<open>Symbolic links\<close>

text \<open>
  The format has no symbolic links with extended attributes: they are left out. \<open>serialize\<close>
  returns \<open>None\<close> for an inode of another class, here and below.
\<close>

definition libsqfs_symlink_inode_create ::
    "libsqfs_inodeattr \<Rightarrow> cstring \<Rightarrow> libsqfs_image \<Rightarrow> nat option \<times> libsqfs_image" where
  "libsqfs_symlink_inode_create attr name img =
     (let (ok, h) = malloc (mem img); img = img\<lparr>mem := h\<rparr> in
      if \<not> ok then (None, libsqfs_image_out_of_memory img False)
      else
        let (ok, h) = malloc (mem img); img = img\<lparr>mem := h\<rparr> in
        if \<not> ok then (None, libsqfs_image_out_of_memory img False)
        else apfst Some (libsqfs_inode_init (Symlink_Inode name) attr img))"

definition libsqfs_symlink_inode_serialize :: "nat \<Rightarrow> libsqfs_image \<Rightarrow> (bool \<times> libsqfs_image) option" where
  "libsqfs_symlink_inode_serialize n img =
     (case in_body (inode_at img n) of Symlink_Inode name \<Rightarrow> do {
        let img = upd_inode n (\<lambda>i. i\<lparr>encoded_type := SQUASHFS_SYMLINK_TYPE,
          encoded_base_type := SQUASHFS_SYMLINK_TYPE\<rparr>) img;
        let lnk = inode_at img n;
        let hdr = \<lparr>hdr_inode_type = encoded_type lnk, hdr_mode = ucast (ia_mode (in_attr lnk)),
          hdr_uid = mapped_uid (in_attr lnk), hdr_guid = mapped_gid (in_attr lnk),
          hdr_mtime = ucast (ia_ctime (in_attr lnk)), hdr_inode_number = in_inode_number lnk,
          symlink_nlink = of_nat (in_nlink lnk), symlink_symlink_size = of_nat (length name)\<rparr>;
        (ok, img) \<leftarrow> append_inode_header n (encode_symlink_inode_header hdr) img;
        if \<not> ok then Some (False, img)
        else do {
          (ok, pos, img) \<leftarrow> append_inode_table name img;
          Some (ok, img) } }
      | _ \<Rightarrow> None)"

section \<open>Devices\<close>

abbreviation (input) chr_c :: byte where "chr_c \<equiv> 99"
abbreviation (input) chr_b :: byte where "chr_b \<equiv> 98"

definition libsqfs_device_inode_create ::
    "libsqfs_inodeattr \<Rightarrow> byte \<Rightarrow> u32 \<Rightarrow> u32 \<Rightarrow> libsqfs_image \<Rightarrow> nat option \<times> libsqfs_image" where
  "libsqfs_device_inode_create attr type major minor img =
     (if type \<noteq> chr_c \<and> type \<noteq> chr_b then (None, libsqfs_image_flag_error img ''Unknown device type'' False)
      else
        let (ok, h) = malloc (mem img); img = img\<lparr>mem := h\<rparr> in
        if \<not> ok then (None, libsqfs_image_out_of_memory img False)
        else apfst Some (libsqfs_inode_init (Device_Inode type major minor) attr img))"

definition encode_rdev :: "u32 \<Rightarrow> u32 \<Rightarrow> u32" where
  "encode_rdev major minor =
     push_bit 8 major OR (minor AND 0xff) OR push_bit 12 (minor AND NOT 0xff)"

definition libsqfs_device_inode_serialize :: "nat \<Rightarrow> libsqfs_image \<Rightarrow> (bool \<times> libsqfs_image) option" where
  "libsqfs_device_inode_serialize n img =
     (case in_body (inode_at img n) of Device_Inode type major minor \<Rightarrow>
        (case ia_xattrset (in_attr (inode_at img n)) of
           None \<Rightarrow>
             let img = upd_inode n (\<lambda>i.
                   if type = chr_c then i\<lparr>encoded_type := SQUASHFS_CHRDEV_TYPE, encoded_base_type := SQUASHFS_CHRDEV_TYPE\<rparr>
                   else i\<lparr>encoded_type := SQUASHFS_BLKDEV_TYPE, encoded_base_type := SQUASHFS_BLKDEV_TYPE\<rparr>) img;
                 dev = inode_at img n;
                 hdr = \<lparr>hdr_inode_type = encoded_type dev, hdr_mode = ucast (ia_mode (in_attr dev)),
                   hdr_uid = mapped_uid (in_attr dev), hdr_guid = mapped_gid (in_attr dev),
                   hdr_mtime = ucast (ia_ctime (in_attr dev)), hdr_inode_number = in_inode_number dev,
                   dev_nlink = of_nat (in_nlink dev), dev_rdev = encode_rdev major minor\<rparr> in
             append_inode_header n (encode_dev_inode_header hdr) img
         | Some xattr \<Rightarrow>
             let img = upd_inode n (\<lambda>i.
                   if type = chr_c then i\<lparr>encoded_type := SQUASHFS_LCHRDEV_TYPE, encoded_base_type := SQUASHFS_CHRDEV_TYPE\<rparr>
                   else i\<lparr>encoded_type := SQUASHFS_LBLKDEV_TYPE, encoded_base_type := SQUASHFS_BLKDEV_TYPE\<rparr>) img;
                 dev = inode_at img n;
                 hdr = \<lparr>hdr_inode_type = encoded_type dev, hdr_mode = ucast (ia_mode (in_attr dev)),
                   hdr_uid = mapped_uid (in_attr dev), hdr_guid = mapped_gid (in_attr dev),
                   hdr_mtime = ucast (ia_ctime (in_attr dev)), hdr_inode_number = in_inode_number dev,
                   ldev_nlink = of_nat (in_nlink dev), ldev_rdev = encode_rdev major minor, ldev_xattr = xattr\<rparr> in
             append_inode_header n (encode_ldev_inode_header hdr) img)
      | _ \<Rightarrow> None)"

section \<open>Named pipes\<close>

definition libsqfs_fifo_inode_create :: "libsqfs_inodeattr \<Rightarrow> libsqfs_image \<Rightarrow> nat option \<times> libsqfs_image" where
  "libsqfs_fifo_inode_create attr img =
     (let (ok, h) = malloc (mem img); img = img\<lparr>mem := h\<rparr> in
      if \<not> ok then (None, libsqfs_image_out_of_memory img False)
      else apfst Some (libsqfs_inode_init Fifo_Inode attr img))"

definition libsqfs_fifo_inode_serialize :: "nat \<Rightarrow> libsqfs_image \<Rightarrow> (bool \<times> libsqfs_image) option" where
  "libsqfs_fifo_inode_serialize n img =
     (case in_body (inode_at img n) of Fifo_Inode \<Rightarrow>
        let img = upd_inode n (\<lambda>i. i\<lparr>encoded_base_type := SQUASHFS_FIFO_TYPE,
              encoded_type := (if ia_xattrset (in_attr i) \<noteq> None then SQUASHFS_LFIFO_TYPE else SQUASHFS_FIFO_TYPE)\<rparr>) img;
            fifo = inode_at img n in
        if encoded_type fifo = SQUASHFS_FIFO_TYPE
        then
          let hdr = \<lparr>hdr_inode_type = encoded_type fifo, hdr_mode = ucast (ia_mode (in_attr fifo)),
                hdr_uid = mapped_uid (in_attr fifo), hdr_guid = mapped_gid (in_attr fifo),
                hdr_mtime = ucast (ia_ctime (in_attr fifo)), hdr_inode_number = in_inode_number fifo,
                ipc_nlink = of_nat (in_nlink fifo)\<rparr> in
          append_inode_header n (encode_ipc_inode_header hdr) img
        else
          let hdr = \<lparr>hdr_inode_type = encoded_type fifo, hdr_mode = ucast (ia_mode (in_attr fifo)),
                hdr_uid = mapped_uid (in_attr fifo), hdr_guid = mapped_gid (in_attr fifo),
                hdr_mtime = ucast (ia_ctime (in_attr fifo)), hdr_inode_number = in_inode_number fifo,
                lipc_nlink = of_nat (in_nlink fifo),
                lipc_xattr = (case ia_xattrset (in_attr fifo) of Some xattr \<Rightarrow> xattr | None \<Rightarrow> -1)\<rparr> in
          append_inode_header n (encode_lipc_inode_header hdr) img
      | _ \<Rightarrow> None)"

section \<open>Properties\<close>

text \<open>The device number as Linux takes it apart (\<open>new_decode_dev\<close>).\<close>

definition rdev_major :: "u32 \<Rightarrow> u32" where
  "rdev_major dev = drop_bit 8 (dev AND 0xfff00)"

definition rdev_minor :: "u32 \<Rightarrow> u32" where
  "rdev_minor dev = (dev AND 0xff) OR (drop_bit 12 dev AND 0xfff00)"

lemma small_bits: "unat (w :: u32) < 2 ^ k \<Longrightarrow> \<not> bit w (k + n)"
proof -
  assume "unat w < 2 ^ k"
  then have "take_bit k w = w" by (simp add: word_unat_eq_iff unsigned_take_bit_eq take_bit_nat_eq_self)
  then show ?thesis by (metis bit_take_bit_iff not_add_less1)
qed

lemma masks: "(0xff :: u32) = mask 8" "(0xfff00 :: u32) = push_bit 8 (mask 12)"
  by (simp_all add: mask_eq_exp_minus_1)

text \<open>C32: device numbers. A driver gets the major and minor numbers back that a device was created with, as
  long as they have 12 and 20 bits, the widths of the format.\<close>

theorem rdev_roundtrip:
  assumes "unat major < 2 ^ 12" "unat minor < 2 ^ 20"
  shows "rdev_major (encode_rdev major minor) = major \<and> rdev_minor (encode_rdev major minor) = minor"
proof
  have major: "\<not> bit major n" if "12 \<le> n" for n using small_bits [OF assms(1), of "n - 12"] that by simp
  have minor: "\<not> bit minor n" if "20 \<le> n" for n using small_bits [OF assms(2), of "n - 20"] that by simp
  show "rdev_major (encode_rdev major minor) = major"
  proof (rule bit_word_eqI)
    fix n assume "n < LENGTH(32)"
    then show "bit (rdev_major (encode_rdev major minor)) n \<longleftrightarrow> bit major n"
      using major [of n] minor [of n] by (cases "n < 12") (auto simp: rdev_major_def encode_rdev_def masks bit_simps)
  qed
  show "rdev_minor (encode_rdev major minor) = minor"
  proof (rule bit_word_eqI)
    fix n assume "n < LENGTH(32)"
    then show "bit (rdev_minor (encode_rdev major minor)) n \<longleftrightarrow> bit minor n"
      using major [of "n - 8"] major [of "4 + n"] minor [of n]
      by (cases "n < 8"; cases "n < 20") (auto simp: rdev_minor_def encode_rdev_def masks bit_simps)
  qed
qed

theorem rdev_roundtrip_witness:
  "rdev_major (encode_rdev 8 1048575) = 8 \<and> rdev_minor (encode_rdev 8 1048575) = 1048575"
  using rdev_roundtrip [of 8 1048575] by simp

text \<open>Larger numbers are not refused. A device with major number 4096 is taken for one whose major number
  is 0 and whose minor number is larger than the one given.\<close>

theorem rdev_major_overflow:
  "rdev_major (encode_rdev 4096 0) = 0 \<and> rdev_minor (encode_rdev 4096 0) = 256"
  by (simp add: rdev_major_def rdev_minor_def encode_rdev_def)

end
