(* ===== verification/Pipeline.thy ===== *)
theory Pipeline
  imports Bulkdata
begin

text \<open>
  The discipline of the work queues, apart from what the chunks contain: \<open>N\<close> chunks with a state
  each, a map to the previous piece, the number of finished chunks, and for each step the set of
  the chunks that are ready for it, in a queue or in the hands of a thread. This is the abstract
  specification of the scheduling in bulkdata.c; Bulkinv shows that the code keeps to it.
\<close>

section \<open>The discipline\<close>

abbreviation placed :: "libsqfs_chunk_state \<Rightarrow> bool" where
  "placed s \<equiv> libsqfs_chunk_assigned \<le> s"

lemmas chunk_state_less = less_libsqfs_chunk_state_def less_eq_libsqfs_chunk_state_def

text \<open>A deduplicated chunk can be placed once the piece before it has been.\<close>

definition ready :: "(nat \<Rightarrow> libsqfs_chunk_state) \<Rightarrow> (nat \<Rightarrow> nat option) \<Rightarrow> nat \<Rightarrow> bool" where
  "ready st pp i \<longleftrightarrow> (case pp i of None \<Rightarrow> True | Some p \<Rightarrow> placed (st p))"

text \<open>
  What is waiting is waiting in the right place; and unless the run was aborted nothing is lost:
  whatever can be worked on is waiting.
\<close>

definition holds :: "bool \<Rightarrow> nat \<Rightarrow> nat set \<Rightarrow> (nat \<Rightarrow> bool) \<Rightarrow> bool" where
  "holds ab N Q P \<longleftrightarrow> (\<forall>i \<in> Q. i < N \<and> P i) \<and> (\<not> ab \<longrightarrow> (\<forall>i < N. P i \<longrightarrow> i \<in> Q))"

definition pipe_ok ::
    "nat \<Rightarrow> (nat \<Rightarrow> libsqfs_chunk_state) \<Rightarrow> (nat \<Rightarrow> nat option) \<Rightarrow> nat \<Rightarrow> bool \<Rightarrow>
     nat set \<Rightarrow> nat set \<Rightarrow> nat set \<Rightarrow> nat set \<Rightarrow> nat set \<Rightarrow> bool" where
  "pipe_ok N st pp fin ab R D A C W \<longleftrightarrow>
     fin \<le> N \<and> (\<forall>i < N. st i = libsqfs_chunk_finished \<longleftrightarrow> i < fin) \<and>
     (\<forall>i < N. \<forall>p. pp i = Some p \<longrightarrow> p < i \<and> (placed (st i) \<longrightarrow> placed (st p))) \<and>
     holds ab N R (\<lambda>i. st i = libsqfs_chunk_none) \<and>
     holds ab N D (\<lambda>i. st i = libsqfs_chunk_read) \<and>
     holds ab N A (\<lambda>i. st i = libsqfs_chunk_deduplicated \<and> ready st pp i) \<and>
     holds ab N C (\<lambda>i. st i = libsqfs_chunk_assigned) \<and>
     holds ab N W (\<lambda>i. st i = libsqfs_chunk_writable \<and> i = fin)"

text \<open>The pieces that become ready when piece \<open>i\<close> is placed.\<close>

definition woken :: "nat \<Rightarrow> (nat \<Rightarrow> libsqfs_chunk_state) \<Rightarrow> (nat \<Rightarrow> nat option) \<Rightarrow> nat \<Rightarrow> nat set" where
  "woken N st pp i = {k. k < N \<and> pp k = Some i \<and> st k = libsqfs_chunk_deduplicated}"

lemma pipe_empty: "pipe_ok 0 st pp 0 ab {} {} {} {} {}"
  by (simp add: pipe_ok_def holds_def)

lemma holds_same: "holds ab N Q P \<Longrightarrow> (\<And>k. k < N \<Longrightarrow> P' k \<longleftrightarrow> P k) \<Longrightarrow> holds ab N Q P'"
  by (auto simp: holds_def)

lemma holds_change:
  "holds ab N Q P \<Longrightarrow> (\<And>k. k \<in> E \<Longrightarrow> k < N) \<Longrightarrow> (\<And>k. k < N \<Longrightarrow> P' k \<longleftrightarrow> P k \<and> k \<notin> F \<or> k \<in> E) \<Longrightarrow>
     Q' = Q - F \<union> E \<Longrightarrow> holds ab N Q' P'"
  by (auto simp: holds_def)

lemma pipe_parts:
  assumes "pipe_ok N st pp fin ab R D A C W"
  shows "fin \<le> N" "\<And>i. i < N \<Longrightarrow> st i = libsqfs_chunk_finished \<longleftrightarrow> i < fin"
    "\<And>i p. i < N \<Longrightarrow> pp i = Some p \<Longrightarrow> p < i"
    "\<And>i p. i < N \<Longrightarrow> pp i = Some p \<Longrightarrow> placed (st i) \<Longrightarrow> placed (st p)"
    "holds ab N R (\<lambda>i. st i = libsqfs_chunk_none)"
    "holds ab N D (\<lambda>i. st i = libsqfs_chunk_read)"
    "holds ab N A (\<lambda>i. st i = libsqfs_chunk_deduplicated \<and> ready st pp i)"
    "holds ab N C (\<lambda>i. st i = libsqfs_chunk_assigned)"
    "holds ab N W (\<lambda>i. st i = libsqfs_chunk_writable \<and> i = fin)"
proof -
  note a = assms [unfolded pipe_ok_def]
  note b = a [THEN conjunct2, THEN conjunct2, THEN conjunct2]
  show "fin \<le> N" by (rule a [THEN conjunct1])
  show "st i = libsqfs_chunk_finished \<longleftrightarrow> i < fin" if "i < N" for i
    using a [THEN conjunct2, THEN conjunct1] that by blast
  show "p < i" if "i < N" "pp i = Some p" for i p
    using a [THEN conjunct2, THEN conjunct2, THEN conjunct1] that by blast
  show "placed (st p)" if "i < N" "pp i = Some p" "placed (st i)" for i p
    using a [THEN conjunct2, THEN conjunct2, THEN conjunct1] that by blast
  show "holds ab N R (\<lambda>i. st i = libsqfs_chunk_none)" by (rule b [THEN conjunct1])
  note c = b [THEN conjunct2]
  show "holds ab N D (\<lambda>i. st i = libsqfs_chunk_read)" by (rule c [THEN conjunct1])
  note d = c [THEN conjunct2]
  show "holds ab N A (\<lambda>i. st i = libsqfs_chunk_deduplicated \<and> ready st pp i)" by (rule d [THEN conjunct1])
  note e = d [THEN conjunct2]
  show "holds ab N C (\<lambda>i. st i = libsqfs_chunk_assigned)" by (rule e [THEN conjunct1])
  show "holds ab N W (\<lambda>i. st i = libsqfs_chunk_writable \<and> i = fin)" by (rule e [THEN conjunct2])
qed

lemma pipe_in:
  assumes "pipe_ok N st pp fin ab R D A C W"
  shows "i \<in> R \<Longrightarrow> i < N \<and> st i = libsqfs_chunk_none"
    "i \<in> D \<Longrightarrow> i < N \<and> st i = libsqfs_chunk_read"
    "i \<in> A \<Longrightarrow> i < N \<and> st i = libsqfs_chunk_deduplicated \<and> ready st pp i"
    "i \<in> C \<Longrightarrow> i < N \<and> st i = libsqfs_chunk_assigned"
    "i \<in> W \<Longrightarrow> i < N \<and> st i = libsqfs_chunk_writable \<and> i = fin"
proof -
  have h: "holds ab N Q P \<Longrightarrow> i \<in> Q \<Longrightarrow> i < N \<and> P i" for Q P by (auto simp: holds_def)
  note p = pipe_parts [OF assms]
  show "i \<in> R \<Longrightarrow> i < N \<and> st i = libsqfs_chunk_none" by (rule h [OF p(5)])
  show "i \<in> D \<Longrightarrow> i < N \<and> st i = libsqfs_chunk_read" by (rule h [OF p(6)])
  show "i \<in> A \<Longrightarrow> i < N \<and> st i = libsqfs_chunk_deduplicated \<and> ready st pp i" by (rule h [OF p(7)])
  show "i \<in> C \<Longrightarrow> i < N \<and> st i = libsqfs_chunk_assigned" by (rule h [OF p(8)])
  show "i \<in> W \<Longrightarrow> i < N \<and> st i = libsqfs_chunk_writable \<and> i = fin" by (rule h [OF p(9)])
qed

lemma placed_simps [simp]:
  "\<not> placed libsqfs_chunk_none" "\<not> placed libsqfs_chunk_read" "\<not> placed libsqfs_chunk_deduplicated"
  "placed libsqfs_chunk_assigned" "placed libsqfs_chunk_writable" "placed libsqfs_chunk_finished"
  by (simp_all add: chunk_state_less)

lemma ready_unplaced: "\<not> placed s \<Longrightarrow> \<not> placed (st i) \<Longrightarrow> ready (st(i := s)) pp k = ready st pp k"
  by (auto simp: ready_def split: option.splits)

lemma ready_placed: "placed s \<Longrightarrow> ready (st(i := s)) pp k \<longleftrightarrow> ready st pp k \<or> pp k = Some i"
  by (auto simp: ready_def split: option.splits)

lemma pipe_read:
  assumes ok: "pipe_ok N st pp fin ab R D A C W" and i: "i \<in> R"
  shows "pipe_ok N (st(i := libsqfs_chunk_read)) pp fin ab (R - {i}) (insert i D) A C W"
proof -
  note p = pipe_parts [OF ok] and at = pipe_in(1) [OF ok i]
  have nf: "\<not> i < fin" using p(2) [of i] at by simp
  have r: "ready (st(i := libsqfs_chunk_read)) pp k = ready st pp k" for k
    by (rule ready_unplaced) (use at in simp_all)
  show ?thesis unfolding pipe_ok_def r
  proof (intro conjI)
    show "\<forall>k < N. \<forall>q. pp k = Some q \<longrightarrow> q < k \<and> (placed ((st(i := libsqfs_chunk_read)) k) \<longrightarrow> placed ((st(i := libsqfs_chunk_read)) q))"
      using p(3) at by (auto split: if_splits dest: p(4))
  qed (use p(1,2) at nf in \<open>auto intro: holds_same [OF p(7)] holds_same [OF p(8)] holds_same [OF p(9)]
      holds_change [OF p(5), of "{}" _ "{i}"] holds_change [OF p(6), of "{i}" _ "{}"] split: if_splits\<close>)
qed

lemma pipe_deduplicate:
  assumes ok: "pipe_ok N st pp fin ab R D A C W" and i: "i \<in> D"
  shows "pipe_ok N (st(i := libsqfs_chunk_deduplicated)) pp fin ab R (D - {i}) (if ready st pp i then insert i A else A) C W"
proof -
  note p = pipe_parts [OF ok] and at = pipe_in(2) [OF ok i]
  have nf: "\<not> i < fin" using p(2) [of i] at by simp
  have r: "ready (st(i := libsqfs_chunk_deduplicated)) pp k = ready st pp k" for k
    by (rule ready_unplaced) (use at in simp_all)
  show ?thesis unfolding pipe_ok_def r
  proof (intro conjI)
    show "\<forall>k < N. \<forall>q. pp k = Some q \<longrightarrow> q < k \<and> (placed ((st(i := libsqfs_chunk_deduplicated)) k) \<longrightarrow>
        placed ((st(i := libsqfs_chunk_deduplicated)) q))"
      using p(3) at by (auto split: if_splits dest: p(4))
    show "holds ab N (if ready st pp i then insert i A else A)
        (\<lambda>k. (st(i := libsqfs_chunk_deduplicated)) k = libsqfs_chunk_deduplicated \<and> ready st pp k)"
      by (rule holds_change [OF p(7), of "if ready st pp i then {i} else {}" _ "{}"])
        (use at in \<open>auto split: if_splits\<close>)
  qed (use p(1,2) at nf in \<open>auto intro: holds_same [OF p(5)] holds_same [OF p(8)] holds_same [OF p(9)]
      holds_change [OF p(6), of "{}" _ "{i}"] split: if_splits\<close>)
qed

lemma woken_set:
  assumes ok: "pipe_ok N st pp fin ab R D A C W" and i: "i \<in> A" and s: "placed s"
  shows "holds ab N (A - {i} \<union> woken N st pp i)
    (\<lambda>k. (st(i := s)) k = libsqfs_chunk_deduplicated \<and> ready (st(i := s)) pp k)"
proof -
  note p = pipe_parts [OF ok] and at = pipe_in(3) [OF ok i]
  have nf: "\<not> i < fin" using p(2) [of i] at by simp
  have "s \<noteq> libsqfs_chunk_deduplicated" using s by auto
  moreover have "pp i \<noteq> Some i" using p(3) at by auto
  ultimately show ?thesis using at
    by (intro holds_change [OF p(7), of "woken N st pp i" _ "{i}"]) (auto simp: woken_def ready_placed [OF s])
qed

lemma pipe_assign:
  assumes ok: "pipe_ok N st pp fin ab R D A C W" and i: "i \<in> A"
  shows "pipe_ok N (st(i := libsqfs_chunk_assigned)) pp fin ab R D (A - {i} \<union> woken N st pp i) (insert i C) W"
proof -
  note p = pipe_parts [OF ok] and at = pipe_in(3) [OF ok i]
  have nf: "\<not> i < fin" using p(2) [of i] at by simp
  show ?thesis unfolding pipe_ok_def
  proof (intro conjI)
    show "\<forall>k < N. \<forall>q. pp k = Some q \<longrightarrow> q < k \<and> (placed ((st(i := libsqfs_chunk_assigned)) k) \<longrightarrow>
        placed ((st(i := libsqfs_chunk_assigned)) q))"
      using p(3,4) at by (auto simp: ready_def)
    show "holds ab N (A - {i} \<union> woken N st pp i) (\<lambda>k. (st(i := libsqfs_chunk_assigned)) k = libsqfs_chunk_deduplicated \<and>
        ready (st(i := libsqfs_chunk_assigned)) pp k)"
      by (rule woken_set [OF ok i]) simp
  qed (use p(1,2) at nf in \<open>auto intro: holds_same [OF p(5)] holds_same [OF p(6)] holds_same [OF p(9)]
      holds_change [OF p(8), of "{i}" _ "{}"] split: if_splits\<close>)
qed

lemma pipe_assign_writable:
  assumes ok: "pipe_ok N st pp fin ab R D A C W" and i: "i \<in> A"
  shows "pipe_ok N (st(i := libsqfs_chunk_writable)) pp fin ab R D (A - {i} \<union> woken N st pp i) C
       (if i = fin then insert i W else W)"
proof -
  note p = pipe_parts [OF ok] and at = pipe_in(3) [OF ok i]
  have nf: "\<not> i < fin" using p(2) [of i] at by simp
  show ?thesis unfolding pipe_ok_def
  proof (intro conjI)
    show "\<forall>k < N. \<forall>q. pp k = Some q \<longrightarrow> q < k \<and> (placed ((st(i := libsqfs_chunk_writable)) k) \<longrightarrow>
        placed ((st(i := libsqfs_chunk_writable)) q))"
      using p(3,4) at by (auto simp: ready_def)
    show "holds ab N (A - {i} \<union> woken N st pp i) (\<lambda>k. (st(i := libsqfs_chunk_writable)) k = libsqfs_chunk_deduplicated \<and>
        ready (st(i := libsqfs_chunk_writable)) pp k)"
      by (rule woken_set [OF ok i]) simp
    show "holds ab N (if i = fin then insert i W else W) (\<lambda>k. (st(i := libsqfs_chunk_writable)) k = libsqfs_chunk_writable \<and> k = fin)"
      by (rule holds_change [OF p(9), of "if i = fin then {i} else {}" _ "{}"])
        (use at in \<open>auto split: if_splits\<close>)
  qed (use p(1,2) at nf in \<open>auto intro: holds_same [OF p(5)] holds_same [OF p(6)] holds_same [OF p(8)] split: if_splits\<close>)
qed

lemma pipe_compress:
  assumes ok: "pipe_ok N st pp fin ab R D A C W" and i: "i \<in> C"
  shows "pipe_ok N (st(i := libsqfs_chunk_writable)) pp fin ab R D A (C - {i}) (if i = fin then insert i W else W)"
proof -
  note p = pipe_parts [OF ok] and at = pipe_in(4) [OF ok i]
  have nf: "\<not> i < fin" using p(2) [of i] at by simp
  have r: "ready (st(i := libsqfs_chunk_writable)) pp k = ready st pp k" for k
    using at by (auto simp: ready_def split: option.splits)
  show ?thesis unfolding pipe_ok_def r
  proof (intro conjI)
    show "\<forall>k < N. \<forall>q. pp k = Some q \<longrightarrow> q < k \<and> (placed ((st(i := libsqfs_chunk_writable)) k) \<longrightarrow>
        placed ((st(i := libsqfs_chunk_writable)) q))"
      using p(3,4) at by auto
    show "holds ab N (if i = fin then insert i W else W) (\<lambda>k. (st(i := libsqfs_chunk_writable)) k = libsqfs_chunk_writable \<and> k = fin)"
      by (rule holds_change [OF p(9), of "if i = fin then {i} else {}" _ "{}"])
        (use at in \<open>auto split: if_splits\<close>)
  qed (use p(1,2) at nf in \<open>auto intro: holds_same [OF p(5)] holds_same [OF p(6)] holds_same [OF p(7)]
      holds_change [OF p(8), of "{}" _ "{i}"] split: if_splits\<close>)
qed

lemma pipe_write:
  assumes ok: "pipe_ok N st pp fin ab R D A C W" and i: "i \<in> W"
  shows "pipe_ok N (st(i := libsqfs_chunk_finished)) pp (Suc fin) ab R D A C
       (W - {i} \<union> (if Suc i < N \<and> st (Suc i) = libsqfs_chunk_writable then {Suc i} else {}))"
proof -
  note p = pipe_parts [OF ok] and at = pipe_in(5) [OF ok i]
  have r: "ready (st(i := libsqfs_chunk_finished)) pp k = ready st pp k" for k
    using at by (auto simp: ready_def split: option.splits)
  show ?thesis unfolding pipe_ok_def r
  proof (intro conjI)
    show "\<forall>k < N. \<forall>q. pp k = Some q \<longrightarrow> q < k \<and> (placed ((st(i := libsqfs_chunk_finished)) k) \<longrightarrow>
        placed ((st(i := libsqfs_chunk_finished)) q))"
      using p(3,4) at by auto
    show "\<forall>k < N. (st(i := libsqfs_chunk_finished)) k = libsqfs_chunk_finished \<longleftrightarrow> k < Suc fin"
      using p(2) at by (auto simp: less_Suc_eq)
    show "holds ab N (W - {i} \<union> (if Suc i < N \<and> st (Suc i) = libsqfs_chunk_writable then {Suc i} else {}))
        (\<lambda>k. (st(i := libsqfs_chunk_finished)) k = libsqfs_chunk_writable \<and> k = Suc fin)"
      by (rule holds_change [OF p(9), of "if Suc i < N \<and> st (Suc i) = libsqfs_chunk_writable then {Suc i} else {}" _ "{i}"])
        (use at in \<open>auto split: if_splits\<close>)
  qed (use p(1) at in \<open>auto intro: holds_same [OF p(5)] holds_same [OF p(6)] holds_same [OF p(7)]
      holds_same [OF p(8)] split: if_splits\<close>)
qed

lemma holds_enqueue:
  "holds ab N Q P \<Longrightarrow> (\<And>k. k < N \<Longrightarrow> P' k \<longleftrightarrow> P k) \<Longrightarrow> Q' = (if P' N then insert N Q else Q) \<Longrightarrow> holds ab (Suc N) Q' P'"
  by (auto simp: holds_def less_Suc_eq)

lemma pipe_enqueue:
  assumes ok: "pipe_ok N st pp fin ab R D A C W" and q: "\<And>p. q = Some p \<Longrightarrow> p < N"
  shows "pipe_ok (Suc N) (st(N := libsqfs_chunk_none)) (pp(N := q)) fin ab (insert N R) D A C W"
proof -
  note p = pipe_parts [OF ok]
  let ?st = "st(N := libsqfs_chunk_none)"
  have r: "ready ?st (pp(N := q)) k = ready st pp k" if "k < N" for k
    using p(3) [OF that] that by (fastforce simp: ready_def split: option.splits)
  show ?thesis unfolding pipe_ok_def
  proof (intro conjI)
    show "\<forall>k < Suc N. \<forall>v. (pp(N := q)) k = Some v \<longrightarrow> v < k \<and> (placed (?st k) \<longrightarrow> placed (?st v))"
      using p(3,4) q by (fastforce simp: less_Suc_eq)
    show "\<forall>k < Suc N. (?st k = libsqfs_chunk_finished) = (k < fin)" using p(1,2) by (auto simp: less_Suc_eq)
    show "holds ab (Suc N) (insert N R) (\<lambda>k. ?st k = libsqfs_chunk_none)"
      by (rule holds_enqueue [OF p(5)]) auto
    show "holds ab (Suc N) D (\<lambda>k. ?st k = libsqfs_chunk_read)"
      by (rule holds_enqueue [OF p(6)]) auto
    show "holds ab (Suc N) A (\<lambda>k. ?st k = libsqfs_chunk_deduplicated \<and> ready ?st (pp(N := q)) k)"
      by (rule holds_enqueue [OF p(7)]) (auto simp: r simp del: fun_upd_apply, auto)
    show "holds ab (Suc N) C (\<lambda>k. ?st k = libsqfs_chunk_assigned)"
      by (rule holds_enqueue [OF p(8)]) auto
    show "holds ab (Suc N) W (\<lambda>k. ?st k = libsqfs_chunk_writable \<and> k = fin)"
      by (rule holds_enqueue [OF p(9)]) auto
  qed (use p(1) in simp)
qed

lemma pipe_abort:
  "pipe_ok N st pp fin ab R D A C W \<Longrightarrow> R' \<subseteq> R \<Longrightarrow> D' \<subseteq> D \<Longrightarrow> A' \<subseteq> A \<Longrightarrow> C' \<subseteq> C \<Longrightarrow> W' \<subseteq> W \<Longrightarrow>
     pipe_ok N st pp fin True R' D' A' C' W'"
proof -
  have h: "holds ab N Q P \<Longrightarrow> Q' \<subseteq> Q \<Longrightarrow> holds True N Q' P" for Q Q' P by (auto simp: holds_def)
  assume ok: "pipe_ok N st pp fin ab R D A C W"
  note p = pipe_parts [OF ok] and a = ok [unfolded pipe_ok_def]
  assume "R' \<subseteq> R" "D' \<subseteq> D" "A' \<subseteq> A" "C' \<subseteq> C" "W' \<subseteq> W"
  then show ?thesis unfolding pipe_ok_def
    by (intro conjI a [THEN conjunct1] a [THEN conjunct2, THEN conjunct1]
        a [THEN conjunct2, THEN conjunct2, THEN conjunct1]
        h [OF p(5)] h [OF p(6)] h [OF p(7)] h [OF p(8)] h [OF p(9)])
qed

text \<open>As long as a chunk is unfinished, the first one of them is waiting for someone to work on it.\<close>

lemma pipe_progress:
  assumes "pipe_ok N st pp fin False R D A C W" "fin < N"
  shows "fin \<in> R \<union> D \<union> A \<union> C \<union> W"
proof -
  have h: "holds False N Q P \<Longrightarrow> P fin \<Longrightarrow> fin \<in> Q" for Q P using assms(2) by (auto simp: holds_def)
  note p = pipe_parts [OF assms(1)]
  have unfinished: "st fin \<noteq> libsqfs_chunk_finished" using p(2) [OF assms(2)] by simp
  have rdy: "ready st pp fin"
  proof (cases "pp fin")
    case (Some q)
    then have "q < fin" by (rule p(3) [OF assms(2)])
    moreover from this have "st q = libsqfs_chunk_finished" using p(2) [of q] assms(2) by simp
    ultimately show ?thesis using Some by (simp add: ready_def)
  qed (simp add: ready_def)
  show ?thesis
  proof (cases "st fin")
    case libsqfs_chunk_none
    then show ?thesis using h [OF p(5)] by blast
  next
    case libsqfs_chunk_read
    then show ?thesis using h [OF p(6)] by blast
  next
    case libsqfs_chunk_deduplicated
    then show ?thesis using h [OF p(7)] rdy by blast
  next
    case libsqfs_chunk_assigned
    then show ?thesis using h [OF p(8)] by blast
  next
    case libsqfs_chunk_writable
    then show ?thesis using h [OF p(9)] by blast
  qed (use unfinished in simp)
qed

lemma pipe_cong:
  assumes "\<And>i. i < N \<Longrightarrow> st i = st' i" "\<And>i. i < N \<Longrightarrow> pp i = pp' i" "pipe_ok N st pp fin ab R D A C W"
  shows "pipe_ok N st' pp' fin ab R D A C W"
proof -
  have lt: "p < N" if "pp i = Some p" "i < N" for i p
    using assms(3) that by (auto simp: pipe_ok_def intro: less_trans)
  have r: "ready st' pp' i = ready st pp i" if "i < N" for i
    using assms(1,2) lt that by (auto simp: ready_def split: option.splits)
  note p = pipe_parts [OF assms(3)]
  have nn: "\<forall>i < N. \<forall>p. pp' i = Some p \<longrightarrow> p < i \<and> (placed (st' i) \<longrightarrow> placed (st' p))"
  proof (intro allI impI)
    fix i q assume "i < N" "pp' i = Some q"
    then have "pp i = Some q" "q < N" "st i = st' i" "st q = st' q" using assms(1,2) lt by metis+
    then show "q < i \<and> (placed (st' i) \<longrightarrow> placed (st' q))"
      using p(3) [OF \<open>i < N\<close>] p(4) [OF \<open>i < N\<close>] by metis
  qed
  show ?thesis unfolding pipe_ok_def
    by (intro conjI nn holds_same [OF p(5)] holds_same [OF p(6)] holds_same [OF p(7)] holds_same [OF p(8)]
        holds_same [OF p(9)]) (use p(1,2) assms(1) r in auto)
qed

end
