(* ===== verification/Plan.thy ===== *)
theory Plan
  imports Pipeline
begin

text \<open>
  What bulkdata.c is to produce, as a function of the submitted chunks alone: which pieces share a
  fragment block, which chunk writes what, and where. Bulkinv shows that every interleaving of
  threads produces just that.
\<close>

section \<open>The chain of pieces\<close>

type_synonym submission = "libsqfs_chunk_vmt \<times> libsqfs_data_piece"

abbreviation is_piece :: "submission list \<Rightarrow> nat \<Rightarrow> bool" where
  "is_piece xs i \<equiv> fst (xs ! i) \<noteq> libsqfs_full_block_vmt"

definition pieces_below :: "submission list \<Rightarrow> nat \<Rightarrow> nat list" where
  "pieces_below xs i = filter (is_piece xs) [0..<i]"

definition piece_before :: "submission list \<Rightarrow> nat \<Rightarrow> nat option" where
  "piece_before xs i = (if is_piece xs i then last_opt (pieces_below xs i) else None)"

lemma pieces_below_Suc: "pieces_below xs (Suc i) = pieces_below xs i @ (if is_piece xs i then [i] else [])"
  by (simp add: pieces_below_def)

lemma pieces_below_append: "i \<le> length xs \<Longrightarrow> pieces_below (xs @ ys) i = pieces_below xs i"
  unfolding pieces_below_def by (rule filter_cong) (auto simp: nth_append)

lemma set_pieces_below: "set (pieces_below xs i) = {j. j < i \<and> is_piece xs j}"
  by (auto simp: pieces_below_def)

lemma last_pieces_below:
  "last_opt (pieces_below xs i) = Some p \<longleftrightarrow> p < i \<and> is_piece xs p \<and> (\<forall>j. p < j \<and> j < i \<longrightarrow> \<not> is_piece xs j)"
proof (induction i)
  case 0
  then show ?case by (simp add: pieces_below_def)
next
  case (Suc i)
  then show ?case by (auto simp: pieces_below_Suc less_Suc_eq)
qed

lemma last_pieces_below_None: "last_opt (pieces_below xs i) = None \<longleftrightarrow> (\<forall>j < i. \<not> is_piece xs j)"
proof -
  have "last_opt (pieces_below xs i) = None \<longleftrightarrow> set (pieces_below xs i) = {}" by (simp add: last_opt_def)
  then show ?thesis by (auto simp: set_pieces_below)
qed

lemma piece_before_Some:
  "piece_before xs i = Some p \<longleftrightarrow> is_piece xs i \<and> p < i \<and> is_piece xs p \<and> (\<forall>j. p < j \<and> j < i \<longrightarrow> \<not> is_piece xs j)"
  by (auto simp: piece_before_def last_pieces_below)

lemma piece_before_None: "piece_before xs i = None \<longleftrightarrow> is_piece xs i \<longrightarrow> (\<forall>j < i. \<not> is_piece xs j)"
  by (auto simp: piece_before_def last_pieces_below_None)

lemma piece_before_inj: "piece_before xs i = Some p \<Longrightarrow> piece_before xs k = Some p \<Longrightarrow> i = k"
  unfolding piece_before_Some by (metis linorder_neqE_nat)

lemma piece_before_append: "i < length xs \<Longrightarrow> piece_before (xs @ ys) i = piece_before xs i"
  by (simp add: piece_before_def pieces_below_append nth_append)

section \<open>Packing pieces into fragment blocks\<close>

text \<open>
  The blocks after the first \<open>a\<close> chunks have been placed, each with its pieces and their size: a
  piece goes into the last block unless the block would overflow.
\<close>

type_synonym plan = "(nat list \<times> nat) list"

fun plan_step :: "nat \<Rightarrow> nat \<Rightarrow> submission \<Rightarrow> plan \<Rightarrow> plan" where
  "plan_step bs i (libsqfs_fragment_piece_vmt, d) p =
     (if p = [] \<or> snd (last p) + piece_size d > bs then p @ [([i], piece_size d)]
      else butlast p @ [(fst (last p) @ [i], snd (last p) + piece_size d)])"
| "plan_step bs i _ p = p"

primrec plan_upto :: "nat \<Rightarrow> submission list \<Rightarrow> nat \<Rightarrow> plan" where
  "plan_upto bs xs 0 = []"
| "plan_upto bs xs (Suc a) = plan_step bs a (xs ! a) (plan_upto bs xs a)"

text \<open>The chunks in front of which the last block is flushed.\<close>

fun plan_flush :: "nat \<Rightarrow> submission list \<Rightarrow> nat \<Rightarrow> bool" where
  "plan_flush bs xs i = (plan_upto bs xs i \<noteq> [] \<and>
     (case xs ! i of
        (libsqfs_full_block_vmt, d) \<Rightarrow> False
      | (libsqfs_fragment_piece_vmt, d) \<Rightarrow> snd (last (plan_upto bs xs i)) + piece_size d > bs
      | (libsqfs_closing_piece_vmt, d) \<Rightarrow> True))"

declare plan_flush.simps [simp del]

definition plan_offset :: "nat \<Rightarrow> submission list \<Rightarrow> nat \<Rightarrow> nat" where
  "plan_offset bs xs i = (if plan_upto bs xs i = [] \<or> plan_flush bs xs i then 0 else snd (last (plan_upto bs xs i)))"

lemma plan_upto_append: "a \<le> length xs \<Longrightarrow> plan_upto bs (xs @ ys) a = plan_upto bs xs a"
  by (induction a) (auto simp: nth_append)

lemma plan_flush_nonempty: "plan_flush bs xs i \<Longrightarrow> plan_upto bs xs i \<noteq> []"
  by (simp add: plan_flush.simps)

lemma plan_flush_full: "plan_flush bs xs i \<Longrightarrow> is_piece xs i"
  by (cases "xs ! i") (auto simp: plan_flush.simps)

lemma plan_flush_append: "i < length xs \<Longrightarrow> plan_flush bs (xs @ ys) i = plan_flush bs xs i"
  by (simp add: plan_flush.simps plan_upto_append nth_append split: prod.splits libsqfs_chunk_vmt.splits)

lemma plan_offset_append: "i < length xs \<Longrightarrow> plan_offset bs (xs @ ys) i = plan_offset bs xs i"
  by (simp add: plan_offset_def plan_upto_append plan_flush_append)

lemma plan_step_other:
  "fst x \<noteq> libsqfs_fragment_piece_vmt \<Longrightarrow> plan_step bs i x p = p"
  by (cases x; cases "fst x") auto

lemma plan_step_full: "fst x = libsqfs_full_block_vmt \<Longrightarrow> plan_step bs i x p = p"
  by (cases x) simp

lemma plan_gap: "a \<le> b \<Longrightarrow> (\<And>j. a \<le> j \<Longrightarrow> j < b \<Longrightarrow> \<not> is_piece xs j) \<Longrightarrow> plan_upto bs xs b = plan_upto bs xs a"
proof (induction b)
  case (Suc b)
  then show ?case by (cases "a = Suc b") (auto simp: plan_step_full)
qed simp

lemma length_plan_step: "length p \<le> length (plan_step bs i x p)"
  by (cases "(bs, i, x, p)" rule: plan_step.cases) auto

lemma plan_step_nonempty: "p \<noteq> [] \<or> fst x = libsqfs_fragment_piece_vmt \<Longrightarrow> plan_step bs i x p \<noteq> []"
  by (cases "(bs, i, x, p)" rule: plan_step.cases) auto

lemma length_plan_mono: "a \<le> b \<Longrightarrow> length (plan_upto bs xs a) \<le> length (plan_upto bs xs b)"
proof (induction b)
  case (Suc b)
  then show ?case using length_plan_step [of "plan_upto bs xs b" bs b "xs ! b"]
    by (cases "a = Suc b") (auto intro: le_trans)
qed simp

lemma plan_before:
  assumes "piece_before xs i = Some p"
  shows "plan_upto bs xs i = plan_upto bs xs (Suc p)"
  using assms by (intro plan_gap) (auto simp: piece_before_Some Suc_le_eq)

lemma plan_first:
  assumes "piece_before xs i = None" "is_piece xs i"
  shows "plan_upto bs xs i = []"
  using plan_gap [of 0 i xs bs] assms by (auto simp: piece_before_None)

text \<open>A flushing piece opens a new block, so every block is flushed by one chunk at most.\<close>

lemma plan_flush_fragment:
  assumes "plan_flush bs xs i" "fst (xs ! i) = libsqfs_fragment_piece_vmt"
  shows "plan_upto bs xs (Suc i) = plan_upto bs xs i @ [([i], piece_size (snd (xs ! i)))]"
  using assms by (cases "xs ! i") (auto simp: plan_flush.simps)

lemma flusher_unique:
  assumes "plan_flush bs xs i" "plan_flush bs xs k" "i < k" "fst (xs ! i) = libsqfs_fragment_piece_vmt"
  shows "length (plan_upto bs xs i) < length (plan_upto bs xs k)"
  using plan_flush_fragment [OF assms(1,4)] length_plan_mono [of "Suc i" k bs xs] assms(3) by simp

text \<open>Every block of a plan starts with one piece and grows piece by piece.\<close>

lemma plan_blocks_induct:
  assumes "b \<in> set (plan_upto bs xs a)"
    and single: "\<And>i d. i < a \<Longrightarrow> xs ! i = (libsqfs_fragment_piece_vmt, d) \<Longrightarrow> Q ([i], piece_size d)"
    and grow: "\<And>i d b. i < a \<Longrightarrow> xs ! i = (libsqfs_fragment_piece_vmt, d) \<Longrightarrow> Q b \<Longrightarrow> snd b + piece_size d \<le> bs \<Longrightarrow>
      Q (fst b @ [i], snd b + piece_size d)"
  shows "Q b"
  using assms
proof (induction a arbitrary: b)
  case (Suc a)
  have IH: "Q b" if "b \<in> set (plan_upto bs xs a)" for b
    using Suc.IH [OF that] Suc.prems(2,3) by (meson less_SucI)
  show ?case
  proof (cases "fst (xs ! a) = libsqfs_fragment_piece_vmt")
    case True
    then obtain d where x: "xs ! a = (libsqfs_fragment_piece_vmt, d)" by (cases "xs ! a") auto
    show ?thesis
    proof (cases "plan_upto bs xs a = [] \<or> snd (last (plan_upto bs xs a)) + piece_size d > bs")
      case True
      with Suc.prems(1) x have "b \<in> set (plan_upto bs xs a) \<or> b = ([a], piece_size d)" by auto
      then show ?thesis using IH Suc.prems(2) [OF _ x] by blast
    next
      case False
      then have l: "last (plan_upto bs xs a) \<in> set (plan_upto bs xs a)"
        "snd (last (plan_upto bs xs a)) + piece_size d \<le> bs" by auto
      from Suc.prems(1) x False have "b \<in> set (plan_upto bs xs a) \<or>
          b = (fst (last (plan_upto bs xs a)) @ [a], snd (last (plan_upto bs xs a)) + piece_size d)"
        by (auto dest: in_set_butlastD)
      then show ?thesis using IH Suc.prems(3) [OF _ x IH [OF l(1)] l(2)] by blast
    qed
  qed (use Suc.prems(1) IH in \<open>simp add: plan_step_other\<close>)
qed simp

text \<open>The pieces of a block are fragment pieces, their sizes add up, and a piece is in one block only.\<close>

lemma plan_pieces:
  "b \<in> set (plan_upto bs xs a) \<Longrightarrow> \<forall>i \<in> set (fst b). i < a \<and> fst (xs ! i) = libsqfs_fragment_piece_vmt"
  by (erule plan_blocks_induct) auto

lemma plan_sizes:
  "b \<in> set (plan_upto bs xs a) \<Longrightarrow> snd b = (\<Sum>i\<leftarrow>fst b. piece_size (snd (xs ! i)))"
  by (erule plan_blocks_induct) auto

lemma plan_fits:
  "b \<in> set (plan_upto bs xs a) \<Longrightarrow>
    (\<And>i. i < a \<Longrightarrow> fst (xs ! i) = libsqfs_fragment_piece_vmt \<Longrightarrow> piece_size (snd (xs ! i)) \<le> bs) \<Longrightarrow> snd b \<le> bs"
  by (erule plan_blocks_induct) fastforce+

lemma plan_nonempty_blocks: "b \<in> set (plan_upto bs xs a) \<Longrightarrow> fst b \<noteq> []"
  by (erule plan_blocks_induct) auto

lemma concat_last_grows: "p \<noteq> [] \<Longrightarrow> concat (map fst (butlast p @ [(fst (last p) @ [a], z)])) = concat (map fst p) @ [a]"
  by (induction p rule: rev_induct) auto

lemma plan_distinct: "distinct (concat (map fst (plan_upto bs xs a)))"
proof (induction a)
  case (Suc a)
  have fresh: "a \<notin> set (concat (map fst (plan_upto bs xs a)))"
    using plan_pieces [of _ bs xs a] by fastforce
  show ?case
  proof (cases "fst (xs ! a) = libsqfs_fragment_piece_vmt")
    case True
    then obtain d where x: "xs ! a = (libsqfs_fragment_piece_vmt, d)" by (cases "xs ! a") auto
    have "concat (map fst (plan_upto bs xs (Suc a))) = concat (map fst (plan_upto bs xs a)) @ [a]"
    proof (cases "plan_upto bs xs a = [] \<or> snd (last (plan_upto bs xs a)) + piece_size d > bs")
      case False
      then have "plan_upto bs xs (Suc a) =
          butlast (plan_upto bs xs a) @ [(fst (last (plan_upto bs xs a)) @ [a], snd (last (plan_upto bs xs a)) + piece_size d)]"
        using x by simp
      with False concat_last_grows [of "plan_upto bs xs a" a] show ?thesis by simp
    qed (use x in auto)
    with Suc fresh show ?thesis by (metis distinct_append distinct_singleton disjoint_insert(2) inf_bot_right list.set(1,2) set_append)
  qed (use Suc in \<open>simp add: plan_step_other\<close>)
qed simp

section \<open>What is written, and where\<close>

text \<open>
  The fixed circumstances of a run: the compressor instance, the options, where the image ends and
  what the output holds when the run begins.
\<close>

record bulk_job =
  job_ci :: libsqfs_compressor_instance
  job_compress_blocks :: bool
  job_compress_fragments :: bool
  job_block_size :: nat
  job_base :: u64
  job_dst :: libsqfs_destination

definition src_bytes :: "submission \<Rightarrow> byte list" where
  "src_bytes x = (case libsqfs_data_pread (piece_data (snd x)) (piece_size (snd x)) (piece_offset (snd x)) of
     None \<Rightarrow> [] | Some bs \<Rightarrow> bs)"

text \<open>The stored form of a block, with the flag that it is compressed.\<close>

definition stored_form :: "libsqfs_compressor_instance \<Rightarrow> bool \<Rightarrow> byte list \<Rightarrow> byte list \<times> bool" where
  "stored_form ci compress src =
     (if compress then
        (case libsqfs_compressor_instance_compress ci (length src) src of
           Some (Some out) \<Rightarrow> (out, True) | _ \<Rightarrow> (src, False))
      else (src, False))"

definition block_content :: "nat \<Rightarrow> submission list \<Rightarrow> nat \<Rightarrow> byte list" where
  "block_content bs xs i = concat (map (\<lambda>p. src_bytes (xs ! p)) (fst (last (plan_upto bs xs i))))"

definition chunk_output :: "bulk_job \<Rightarrow> submission list \<Rightarrow> nat \<Rightarrow> (byte list \<times> bool) option" where
  "chunk_output J xs i =
     (if \<not> is_piece xs i then Some (stored_form (job_ci J) (job_compress_blocks J) (src_bytes (xs ! i)))
      else if plan_flush (job_block_size J) xs i
      then Some (stored_form (job_ci J) (job_compress_fragments J) (block_content (job_block_size J) xs i))
      else None)"

definition output_size :: "bulk_job \<Rightarrow> submission list \<Rightarrow> nat \<Rightarrow> nat" where
  "output_size J xs i = (case chunk_output J xs i of None \<Rightarrow> 0 | Some (b, _) \<Rightarrow> length b)"

primrec output_offset :: "bulk_job \<Rightarrow> submission list \<Rightarrow> nat \<Rightarrow> u64" where
  "output_offset J xs 0 = job_base J"
| "output_offset J xs (Suc n) = output_offset J xs n + of_nat (output_size J xs n)"

primrec output_disk :: "bulk_job \<Rightarrow> submission list \<Rightarrow> nat \<Rightarrow> libsqfs_destination" where
  "output_disk J xs 0 = job_dst J"
| "output_disk J xs (Suc n) =
     (case chunk_output J xs n of
        None \<Rightarrow> output_disk J xs n
      | Some (b, _) \<Rightarrow> snd (libsqfs_pwrite (output_disk J xs n) b (output_offset J xs n)))"

definition write_complete :: "bulk_job \<Rightarrow> submission list \<Rightarrow> nat \<Rightarrow> bool" where
  "write_complete J xs i = (case chunk_output J xs i of
     None \<Rightarrow> True
   | Some (b, _) \<Rightarrow> fst (libsqfs_pwrite (output_disk J xs i) b (output_offset J xs i)) = int (length b))"

lemma block_content_append: "i < length xs \<Longrightarrow> plan_upto bs xs i \<noteq> [] \<Longrightarrow> block_content bs (xs @ ys) i = block_content bs xs i"
proof -
  assume i: "i < length xs" "plan_upto bs xs i \<noteq> []"
  then have "last (plan_upto bs xs i) \<in> set (plan_upto bs xs i)" by simp
  then have "\<forall>p \<in> set (fst (last (plan_upto bs xs i))). p < length xs"
    using plan_pieces i(1) by (metis less_trans)
  then show ?thesis using i
    by (auto simp: block_content_def plan_upto_append nth_append intro!: arg_cong [where f = concat])
qed

lemma chunk_output_append: "i < length xs \<Longrightarrow> chunk_output J (xs @ ys) i = chunk_output J xs i"
  using block_content_append [of i xs "job_block_size J" ys] plan_flush_nonempty [of "job_block_size J" xs i]
  by (simp add: chunk_output_def nth_append plan_flush_append)

lemma output_size_append: "i < length xs \<Longrightarrow> output_size J (xs @ ys) i = output_size J xs i"
  by (simp add: output_size_def chunk_output_append)

lemma output_offset_append: "i \<le> length xs \<Longrightarrow> output_offset J (xs @ ys) i = output_offset J xs i"
  by (induction i) (simp_all add: output_size_append)

lemma output_disk_append: "i \<le> length xs \<Longrightarrow> output_disk J (xs @ ys) i = output_disk J xs i"
  by (induction i) (simp_all add: chunk_output_append output_offset_append split: option.splits)

lemma write_complete_append: "i < length xs \<Longrightarrow> write_complete J (xs @ ys) i = write_complete J xs i"
  by (simp add: write_complete_def chunk_output_append output_offset_append output_disk_append cong: option.case_cong)

end
