(* ===== verification/Regular.thy ===== *)
theory Regular
  imports Inodes Plan
begin

text \<open>
  regular.c: regular files. Creating the inode cuts the file into full blocks and possibly a piece
  for a fragment, and submits them to the bulk data; writing the inode needs to know where they
  went. File sizes are below \<open>2 ^ 63\<close> and are natural numbers while the file is cut up.
\<close>

section \<open>Cutting up a file\<close>

text \<open>The number of full blocks and the size of the tail, by the fragment option.\<close>

definition regular_layout :: "libsqfs_image_options \<Rightarrow> nat \<Rightarrow> nat \<times> nat" where
  "regular_layout options fsize =
     (case fragments options of
        libsqfs_fragments_never \<Rightarrow> ((fsize + block_size options - 1) div block_size options, 0)
      | libsqfs_fragments_small \<Rightarrow>
          if fsize < block_size options then (0, fsize)
          else ((fsize + block_size options - 1) div block_size options, 0)
      | libsqfs_fragments_always \<Rightarrow> (fsize div block_size options, fsize mod block_size options))"

definition block_piece :: "nat \<Rightarrow> libsqfs_data \<Rightarrow> nat \<Rightarrow> nat \<Rightarrow> libsqfs_data_piece" where
  "block_piece bsize data fsize n =
     (let offset = n * bsize; sz = (if fsize - offset < bsize then fsize - offset else bsize) in
      Piece data sz offset)"

definition upd_regular :: "nat \<Rightarrow> (libsqfs_regular \<Rightarrow> libsqfs_regular) \<Rightarrow> libsqfs_image \<Rightarrow> libsqfs_image" where
  "upd_regular i f img = upd_inode i (\<lambda>inode. inode\<lparr>in_body := Regular_Inode (f (body_regular (in_body inode)))\<rparr>) img"

fun submit_blocks :: "nat \<Rightarrow> libsqfs_data \<Rightarrow> nat \<Rightarrow> nat list \<Rightarrow> libsqfs_image \<Rightarrow> bool \<times> libsqfs_image" where
  "submit_blocks i data fsize [] img = (True, img)"
| "submit_blocks i data fsize (n # ns) img =
     (case libsqfs_bulkdata_sumbit (block_piece (block_size (img_options img)) data fsize n) img of
        (None, img) \<Rightarrow> (False, libsqfs_image_out_of_memory img False)
      | (Some block, img) \<Rightarrow>
          submit_blocks i data fsize ns (upd_regular i (\<lambda>reg. reg\<lparr>reg_blocks := (reg_blocks reg)[n := Some block]\<rparr>) img))"

text \<open>
  An error of \<open>get_size\<close> has already been flagged when it returns \<open>-1\<close>. A file whose blocks cannot
  all be submitted is reported as a null pointer, but its inode stays in the image.
\<close>

definition libsqfs_regular_inode_create ::
    "libsqfs_inodeattr \<Rightarrow> libsqfs_data \<Rightarrow> libsqfs_image \<Rightarrow> nat option \<times> libsqfs_image" where
  "libsqfs_regular_inode_create attr data img =
     (let (fsize, msg) = libsqfs_data_get_size data;
          img = (case msg of None \<Rightarrow> img | Some m \<Rightarrow> libsqfs_image_flag_error img m False) in
      if fsize = -1 then (None, img)
      else
        let (nblocks, tail_size) = regular_layout (img_options img) (nat fsize);
            (ok, h) = malloc (mem img); img = img\<lparr>mem := h\<rparr> in
        if \<not> ok then (None, img)
        else
          let (ok, h) = malloc (mem img); img = img\<lparr>mem := h\<rparr> in
          if \<not> ok then (None, libsqfs_image_out_of_memory img False)
          else
            let reg = \<lparr>file_size = of_int fsize, sparse_size = 0, reg_blocks = replicate nblocks None, tail_piece = None\<rparr>;
                (i, img) = libsqfs_inode_init (Regular_Inode reg) attr img;
                (ok, img) = submit_blocks i data (nat fsize) [0..<nblocks] img in
            if \<not> ok then (None, img)
            else if tail_size \<noteq> 0
            then
              (case libsqfs_bulkdata_submit_fragment (Piece data tail_size (nat fsize - tail_size)) img of
                 (None, img) \<Rightarrow> (None, libsqfs_image_out_of_memory img False)
               | (Some piece, img) \<Rightarrow>
                   (Some i, upd_regular i (\<lambda>reg. reg\<lparr>tail_piece := Some piece\<rparr>) img))
            else (Some i, img))"

section \<open>Writing the inode\<close>

abbreviation UINT_MAX :: int where "UINT_MAX \<equiv> 2 ^ 32 - 1"

text \<open>Where a block went: \<open>reg->blocks[n]->dst\<close>, where the pointer may be null.\<close>

definition block_dst :: "libsqfs_regular \<Rightarrow> nat \<Rightarrow> libsqfs_image \<Rightarrow> libsqfs_image_block option" where
  "block_dst reg n img = map_option (\<lambda>c. ck_dst (chunk_at img c)) (reg_blocks reg ! n)"

text \<open>The start of the first block, and the fragment with the offset in it.\<close>

definition start_block_of :: "libsqfs_regular \<Rightarrow> libsqfs_image \<Rightarrow> u64 option" where
  "start_block_of reg img =
     (if reg_blocks reg \<noteq> [] then map_option ib_offset (block_dst reg 0 img) else Some 0)"

definition fragment_of :: "libsqfs_regular \<Rightarrow> libsqfs_image \<Rightarrow> (u32 \<times> u32) option" where
  "fragment_of reg img =
     (case tail_piece reg of
        None \<Rightarrow> Some (-1, 0)
      | Some p \<Rightarrow> map_option (\<lambda>f. (of_nat f, ucast (ck_offset (chunk_at img p)))) (ck_fragment_block (chunk_at img p)))"

text \<open>
  The type of the inode: extended when the file is sparse, has more than one name, attributes, or
  sizes or positions beyond 32 bits.
\<close>

definition regular_type :: "libsqfs_inode \<Rightarrow> libsqfs_regular \<Rightarrow> libsqfs_image \<Rightarrow> u16 option" where
  "regular_type inode reg img = do {
     start \<leftarrow> start_block_of reg img;
     Some (if sparse_size reg \<noteq> 0 \<or> in_nlink inode \<noteq> 1 \<or> sint (file_size reg) > UINT_MAX \<or>
              ia_xattrset (in_attr inode) \<noteq> None \<or> (reg_blocks reg \<noteq> [] \<and> sint start > UINT_MAX)
           then SQUASHFS_LREG_TYPE else SQUASHFS_FILE_TYPE) }"

fun block_infos :: "libsqfs_image_block option list \<Rightarrow> u32 list option" where
  "block_infos [] = Some []"
| "block_infos (None # bs) = None"
| "block_infos (Some b # bs) = map_option ((#) (block_size_word (ib_size b) (ib_compressed b))) (block_infos bs)"

definition libsqfs_regular_inode_serialize :: "nat \<Rightarrow> libsqfs_image \<Rightarrow> (bool \<times> libsqfs_image) option" where
  "libsqfs_regular_inode_serialize i img =
     (case in_body (inode_at img i) of Regular_Inode reg \<Rightarrow> do {
        type \<leftarrow> regular_type (inode_at img i) reg img;
        let img = upd_inode i (\<lambda>n. n\<lparr>encoded_type := type, encoded_base_type := SQUASHFS_FILE_TYPE\<rparr>) img;
        let inode = inode_at img i;
        let attr = in_attr inode;
        start \<leftarrow> start_block_of reg img;
        (fragment, offset) \<leftarrow> fragment_of reg img;
        (ok, img) \<leftarrow>
          (if encoded_type inode = SQUASHFS_FILE_TYPE
           then append_inode_header i (encode_reg_inode_header
             \<lparr>hdr_inode_type = encoded_type inode, hdr_mode = ucast (ia_mode attr), hdr_uid = mapped_uid attr,
              hdr_guid = mapped_gid attr, hdr_mtime = ucast (ia_ctime attr), hdr_inode_number = in_inode_number inode,
              reg_start_block = ucast start, reg_fragment = fragment, reg_offset = offset,
              reg_file_size = ucast (file_size reg)\<rparr>) img
           else append_inode_header i (encode_lreg_inode_header
             \<lparr>hdr_inode_type = encoded_type inode, hdr_mode = ucast (ia_mode attr), hdr_uid = mapped_uid attr,
              hdr_guid = mapped_gid attr, hdr_mtime = ucast (ia_ctime attr), hdr_inode_number = in_inode_number inode,
              lreg_start_block = start, lreg_file_size = file_size reg, lreg_sparse = sparse_size reg,
              lreg_nlink = of_nat (in_nlink inode), lreg_fragment = fragment, lreg_offset = offset,
              lreg_xattr = (case ia_xattrset attr of Some xattr \<Rightarrow> xattr | None \<Rightarrow> -1)\<rparr>) img);
        if \<not> ok then Some (False, img)
        else if reg_blocks reg = [] then Some (True, img)
        else do {
          infos \<leftarrow> block_infos (map (\<lambda>n. block_dst reg n img) [0..<length (reg_blocks reg)]);
          (ok, pos, img) \<leftarrow> append_inode_table (encode_array le32 infos) img;
          Some (ok, img) } }
      | _ \<Rightarrow> None)"

section \<open>The chunks of a file\<close>

abbreviation submissions :: "'a sqfs_bulk_scheme \<Rightarrow> submission list" where
  "submissions img \<equiv> map (\<lambda>c. (ck_vmt c, ck_data c)) (bd_chunks (bulkdata img))"

definition file_chunks :: "libsqfs_image_options \<Rightarrow> libsqfs_data \<Rightarrow> nat \<Rightarrow> submission list" where
  "file_chunks options data fsize =
     (let (nblocks, tail_size) = regular_layout options fsize in
      map (\<lambda>n. (libsqfs_full_block_vmt, block_piece (block_size options) data fsize n)) [0..<nblocks] @
      (if tail_size \<noteq> 0 then [(libsqfs_fragment_piece_vmt, Piece data tail_size (fsize - tail_size))] else []))"

text \<open>The blocks of a file, one after the other, are the file up to their end.\<close>

lemma block_pieces_prefix:
  assumes "length (data_bytes data) = fsize" "0 < bsize"
  shows "concat (map (\<lambda>n. piece_bytes (block_piece bsize data fsize n)) [0..<k]) = take (k * bsize) (data_bytes data)"
proof (induction k)
  case (Suc k)
  have "piece_bytes (block_piece bsize data fsize k) = take bsize (drop (k * bsize) (data_bytes data))"
    using assms by (auto simp: block_piece_def slice_def Let_def)
  moreover have "take (k * bsize) (data_bytes data) @ take bsize (drop (k * bsize) (data_bytes data)) =
      take (k * bsize + bsize) (data_bytes data)" by (simp add: take_add)
  ultimately show ?case using Suc by (simp add: add.commute)
qed simp

lemma round_up: "0 < (b :: nat) \<Longrightarrow> n \<le> (n + b - 1) div b * b \<and> (\<forall>k < (n + b - 1) div b. k * b < n)"
proof -
  assume b: "0 < b"
  let ?q = "(n + b - 1) div b"
  have eq: "n + b - 1 = ?q * b + (n + b - 1) mod b" by simp
  have m: "(n + b - 1) mod b < b" using b by simp
  have 1: "n \<le> ?q * b" using eq m b by linarith
  have 2: "?q * b \<le> n + b - 1" using eq by linarith
  have "k * b < n" if "k < ?q" for k
  proof -
    have "Suc k * b \<le> ?q * b" using that by (intro mult_le_mono1) simp
    then have "k * b + b \<le> n + b - 1" using 2 unfolding mult_Suc by linarith
    then show ?thesis using b by linarith
  qed
  with 1 show ?thesis by blast
qed

lemma below_quotient: "0 < (b :: nat) \<Longrightarrow> k < n div b \<Longrightarrow> k * b < n"
proof -
  assume b: "0 < b" "k < n div b"
  have "Suc k * b \<le> n div b * b" using b(2) by (intro mult_le_mono1) simp
  also have "\<dots> \<le> n" by simp
  finally have "b + k * b \<le> n" unfolding mult_Suc .
  then show ?thesis using b(1) by linarith
qed

lemma regular_layout_cover:
  assumes b: "0 < block_size options" and layout: "regular_layout options fsize = (nblocks, tail_size)"
  shows "fsize \<le> nblocks * block_size options + tail_size \<and> (\<forall>k < nblocks. k * block_size options < fsize) \<and>
    tail_size < block_size options \<and> (tail_size \<noteq> 0 \<longrightarrow> nblocks * block_size options + tail_size = fsize)"
proof (cases "fragments options")
  case libsqfs_fragments_never
  then show ?thesis using layout round_up [OF b, of fsize] b by (auto simp: regular_layout_def)
next
  case libsqfs_fragments_small
  then show ?thesis using layout round_up [OF b, of fsize] b by (auto simp: regular_layout_def split: if_splits)
next
  case libsqfs_fragments_always
  then show ?thesis using layout below_quotient [OF b] b by (auto simp: regular_layout_def)
qed

lemma block_piece_bounds:
  assumes "n * bsize < fsize" "0 < bsize"
  shows "0 < piece_size (block_piece bsize data fsize n) \<and> piece_size (block_piece bsize data fsize n) \<le> bsize \<and>
    piece_offset (block_piece bsize data fsize n) + piece_size (block_piece bsize data fsize n) \<le> fsize"
  using assms unfolding block_piece_def Let_def libsqfs_data_piece.sel by (simp split: if_split) linarith

text \<open>The chunks are no larger than a block, not empty, and hold the bytes of the file in order.\<close>

lemma file_chunks_correct:
  assumes len: "length (data_bytes data) = fsize" and b: "0 < block_size options"
  shows "concat (map (\<lambda>x. piece_bytes (snd x)) (file_chunks options data fsize)) = data_bytes data"
    and "\<forall>x \<in> set (file_chunks options data fsize). 0 < piece_size (snd x) \<and> piece_size (snd x) \<le> block_size options \<and>
      piece_offset (snd x) + piece_size (snd x) \<le> fsize"
proof -
  obtain nblocks tail_size where layout: "regular_layout options fsize = (nblocks, tail_size)" by force
  note c = regular_layout_cover [OF b layout]
  have blocks: "concat (map (\<lambda>n. piece_bytes (block_piece (block_size options) data fsize n)) [0..<nblocks]) =
      take (nblocks * block_size options) (data_bytes data)"
    by (rule block_pieces_prefix [OF len b])
  show "concat (map (\<lambda>x. piece_bytes (snd x)) (file_chunks options data fsize)) = data_bytes data"
  proof (cases "tail_size = 0")
    case True
    then show ?thesis using c blocks len by (simp add: file_chunks_def layout comp_def)
  next
    case False
    then have "piece_bytes (Piece data tail_size (fsize - tail_size)) = drop (nblocks * block_size options) (data_bytes data)"
    proof -
      have "fsize - tail_size = nblocks * block_size options" using c False by auto
      then show ?thesis using c len by (simp add: slice_def)
    qed
    with False blocks show ?thesis by (simp add: file_chunks_def layout comp_def)
  qed
  show "\<forall>x \<in> set (file_chunks options data fsize). 0 < piece_size (snd x) \<and> piece_size (snd x) \<le> block_size options \<and>
      piece_offset (snd x) + piece_size (snd x) \<le> fsize"
  proof
    fix x assume "x \<in> set (file_chunks options data fsize)"
    then consider k where "k < nblocks" "x = (libsqfs_full_block_vmt, block_piece (block_size options) data fsize k)"
      | "tail_size \<noteq> 0" "x = (libsqfs_fragment_piece_vmt, Piece data tail_size (fsize - tail_size))"
      by (auto simp: file_chunks_def layout split: if_splits)
    then show "0 < piece_size (snd x) \<and> piece_size (snd x) \<le> block_size options \<and>
      piece_offset (snd x) + piece_size (snd x) \<le> fsize"
    proof cases
      case 1
      then show ?thesis using block_piece_bounds [OF _ b] c by simp
    next
      case 2
      then show ?thesis using c by auto
    qed
  qed
qed

section \<open>Submitting them\<close>

lemma submit_block_ok:
  assumes "libsqfs_bulkdata_sumbit d img = (Some b, img')"
  shows "b = bd_count (bulkdata img) \<and> submissions img' = submissions img @ [(libsqfs_full_block_vmt, d)] \<and>
    (\<exists>h bd. img' = img\<lparr>mem := h, bulkdata := bd\<rparr>)"
  using assms by (auto simp: libsqfs_bulkdata_sumbit_def libsqfs_bulkdata_enqueue_chunk_locked_def
      libsqfs_chunk_init_def Let_def split: prod.splits if_splits)

lemma submit_fragment_ok:
  assumes "libsqfs_bulkdata_submit_fragment d img = (Some b, img')"
  shows "b = bd_count (bulkdata img) \<and> submissions img' = submissions img @ [(libsqfs_fragment_piece_vmt, d)] \<and>
    (\<exists>h bd. img' = img\<lparr>mem := h, bulkdata := bd\<rparr>)"
proof -
  have upd: "map (\<lambda>c. (ck_vmt c, ck_data c)) (cs[p := (cs ! p)\<lparr>next_piece := n\<rparr>]) = map (\<lambda>c. (ck_vmt c, ck_data c)) cs"
    for cs :: "libsqfs_chunk list" and p n
    by (cases "p < length cs") (auto intro!: nth_equalityI simp: nth_list_update)
  show ?thesis
    using assms by (auto simp: libsqfs_bulkdata_submit_fragment_def libsqfs_bulkdata_enqueue_piece_locked_def
        libsqfs_bulkdata_enqueue_chunk_locked_def libsqfs_chunk_init_def Let_def upd
        split: prod.splits if_splits option.splits)
qed

abbreviation has_regular :: "libsqfs_image \<Rightarrow> nat \<Rightarrow> libsqfs_regular \<Rightarrow> bool" where
  "has_regular img i reg \<equiv> i < length (inodes img) \<and> in_body (inode_at img i) = Regular_Inode reg"

lemma upd_regular_has:
  "has_regular img i reg \<Longrightarrow> has_regular (upd_regular i f img) i (f reg)"
  by (simp add: upd_regular_def upd_inode_def)

lemma upd_regular_frame:
  "bulkdata (upd_regular i f img) = bulkdata img" "img_options (upd_regular i f img) = img_options img"
  "length (inodes (upd_regular i f img)) = length (inodes img)"
  by (simp_all add: upd_regular_def upd_inode_def)

lemma submit_blocks_ok:
  assumes "submit_blocks i data fsize ns img = (True, img')" "has_regular img i reg"
  shows "submissions img' = submissions img @
      map (\<lambda>n. (libsqfs_full_block_vmt, block_piece (block_size (img_options img)) data fsize n)) ns \<and>
    has_regular img' i (reg\<lparr>reg_blocks := fold (\<lambda>(n, b) bs. bs[n := Some b])
      (zip ns [bd_count (bulkdata img)..<bd_count (bulkdata img) + length ns]) (reg_blocks reg)\<rparr>) \<and>
    img_options img' = img_options img \<and> length (inodes img') = length (inodes img)"
  using assms
proof (induction ns arbitrary: img reg)
  case (Cons n ns)
  let ?d = "block_piece (block_size (img_options img)) data fsize n"
  obtain b img1 where sub: "libsqfs_bulkdata_sumbit ?d img = (Some b, img1)"
    using Cons.prems(1) by (auto split: prod.splits option.splits)
  let ?f = "\<lambda>reg. reg\<lparr>reg_blocks := (reg_blocks reg)[n := Some b]\<rparr>"
  let ?img = "upd_regular i ?f img1"
  from submit_block_ok [OF sub] obtain h bd where s:
    "b = bd_count (bulkdata img)" "submissions img1 = submissions img @ [(libsqfs_full_block_vmt, ?d)]"
    "img1 = img\<lparr>mem := h, bulkdata := bd\<rparr>" by blast
  have rest: "submit_blocks i data fsize ns ?img = (True, img')" using Cons.prems(1) sub by simp
  have has: "has_regular ?img i (?f reg)" by (rule upd_regular_has) (use Cons.prems(2) s(3) in simp)
  have count: "bd_count (bulkdata ?img) = Suc b"
    using arg_cong [OF s(2), of length] s(1) by (simp add: upd_regular_frame)
  have "submissions ?img = submissions img @ [(libsqfs_full_block_vmt, ?d)]" using s(2) by (simp add: upd_regular_frame)
  moreover have "img_options ?img = img_options img" "length (inodes ?img) = length (inodes img)"
    using s(3) by (simp_all add: upd_regular_frame)
  moreover have "[b..<b + length (n # ns)] = b # [Suc b..<Suc b + length ns]" by (simp add: upt_rec)
  ultimately show ?case using Cons.IH [OF rest has] unfolding count s(1) [symmetric] by simp
qed simp

lemma assign_blocks:
  "k \<le> length bs \<Longrightarrow> fold (\<lambda>(n, b) bs. bs[n := Some b]) (zip [0..<k] [c..<c + k]) bs = map Some [c..<c + k] @ drop k bs"
proof (induction k)
  case (Suc k)
  have "zip [0..<Suc k] [c..<c + Suc k] = zip [0..<k] [c..<c + k] @ [(k, c + k)]" by simp
  moreover have "drop k bs = bs ! k # drop (Suc k) bs" using Suc.prems by (simp add: Cons_nth_drop_Suc)
  ultimately show ?case using Suc by (simp add: list_update_append)
qed simp

text \<open>What a successful creation leaves behind.\<close>

lemma regular_create_ok:
  assumes data: "data_ok data" and size: "length (data_bytes data) < 2 ^ 63"
    and create: "libsqfs_regular_inode_create attr data img = (Some i, img')"
  shows "\<exists>nblocks tail_size. regular_layout (img_options img) (length (data_bytes data)) = (nblocks, tail_size) \<and>
    i = length (inodes img) \<and>
    submissions img' = submissions img @ file_chunks (img_options img) data (length (data_bytes data)) \<and>
    has_regular img' i \<lparr>file_size = of_nat (length (data_bytes data)), sparse_size = 0,
      reg_blocks = map Some [bd_count (bulkdata img)..<bd_count (bulkdata img) + nblocks],
      tail_piece = (if tail_size \<noteq> 0 then Some (bd_count (bulkdata img) + nblocks) else None)\<rparr> \<and>
    img_options img' = img_options img"
proof -
  let ?fsize = "length (data_bytes data)" and ?c = "bd_count (bulkdata img)"
  have get: "libsqfs_data_get_size data = (int ?fsize, None)" by (rule get_size_ok [OF data])
  obtain nblocks tail_size where layout: "regular_layout (img_options img) ?fsize = (nblocks, tail_size)" by force
  let ?reg = "\<lparr>file_size = of_nat ?fsize, sparse_size = 0, reg_blocks = replicate nblocks None, tail_piece = None\<rparr>"
  obtain h where h: "\<exists>img2. submit_blocks (length (inodes img)) data ?fsize [0..<nblocks]
        (snd (libsqfs_inode_init (Regular_Inode ?reg) attr (img\<lparr>mem := h\<rparr>))) = (True, img2) \<and> i = length (inodes img) \<and>
      (if tail_size \<noteq> 0 then \<exists>piece img3. libsqfs_bulkdata_submit_fragment (Piece data tail_size (?fsize - tail_size)) img2 =
          (Some piece, img3) \<and> img' = upd_regular i (\<lambda>reg. reg\<lparr>tail_piece := Some piece\<rparr>) img3
       else img' = img2)"
    using create unfolding libsqfs_regular_inode_create_def get layout
    by (auto simp: Let_def libsqfs_inode_init_def layout split: prod.splits if_splits option.splits)
  let ?img1 = "snd (libsqfs_inode_init (Regular_Inode ?reg) attr (img\<lparr>mem := h\<rparr>))"
  from h obtain img2 where blocks: "submit_blocks i data ?fsize [0..<nblocks] ?img1 = (True, img2)" and i: "i = length (inodes img)"
    and tail: "if tail_size \<noteq> 0 then \<exists>piece img3. libsqfs_bulkdata_submit_fragment (Piece data tail_size (?fsize - tail_size)) img2 =
          (Some piece, img3) \<and> img' = upd_regular i (\<lambda>reg. reg\<lparr>tail_piece := Some piece\<rparr>) img3
       else img' = img2" by auto
  have "has_regular ?img1 i ?reg" using i by (simp add: libsqfs_inode_init_def Let_def)
  note b = submit_blocks_ok [OF blocks this]
  have frame: "submissions ?img1 = submissions img" "img_options ?img1 = img_options img" "bd_count (bulkdata ?img1) = ?c"
    by (simp_all add: libsqfs_inode_init_def Let_def)
  let ?reg2 = "\<lparr>file_size = of_nat ?fsize, sparse_size = 0, reg_blocks = map Some [?c..<?c + nblocks], tail_piece = None\<rparr>"
  have img2: "submissions img2 = submissions img @
        map (\<lambda>n. (libsqfs_full_block_vmt, block_piece (block_size (img_options img)) data ?fsize n)) [0..<nblocks]"
      "has_regular img2 i ?reg2" "img_options img2 = img_options img"
    using b assign_blocks [of nblocks "replicate nblocks None" ?c] unfolding frame by simp_all
  have count: "bd_count (bulkdata img2) = ?c + nblocks" using arg_cong [OF img2(1), of length] by simp
  show ?thesis
  proof (cases "tail_size = 0")
    case True
    then show ?thesis using tail img2 i layout by (intro exI [of _ nblocks] exI [of _ 0]) (simp add: file_chunks_def)
  next
    case False
    then obtain piece img3 where sub: "libsqfs_bulkdata_submit_fragment (Piece data tail_size (?fsize - tail_size)) img2 = (Some piece, img3)"
      and img': "img' = upd_regular i (\<lambda>reg. reg\<lparr>tail_piece := Some piece\<rparr>) img3" using tail by auto
    from submit_fragment_ok [OF sub] obtain h3 bd3 where s: "piece = ?c + nblocks"
      "submissions img3 = submissions img2 @ [(libsqfs_fragment_piece_vmt, Piece data tail_size (?fsize - tail_size))]"
      "img3 = img2\<lparr>mem := h3, bulkdata := bd3\<rparr>" unfolding count by blast
    have "has_regular img3 i ?reg2" using img2(2) s(3) by simp
    from upd_regular_has [OF this, of "\<lambda>reg. reg\<lparr>tail_piece := Some piece\<rparr>"]
    have "has_regular img' i (?reg2\<lparr>tail_piece := Some piece\<rparr>)" unfolding img' .
    moreover have "img_options img' = img_options img" using s(3) img2(3) by (simp add: img' upd_regular_frame)
    moreover have "submissions img' = submissions img @ file_chunks (img_options img) data ?fsize"
      using s(2) img2(1) False by (simp add: img' upd_regular_frame file_chunks_def layout)
    ultimately show ?thesis using False i layout s(1) by (intro exI [of _ nblocks] exI [of _ tail_size]) simp
  qed
qed

section \<open>Properties\<close>

text \<open>C12: a regular file is cut up completely. When creating the inode succeeds, the chunks that have been
  submitted to the bulk data hold, in order, exactly the bytes of the file; none is empty or larger
  than a block; the inode refers to just these chunks in this order, a piece of a fragment block
  only at the end; and the fragment option is respected: there is no such piece for
  \<open>never\<close>, nor for \<open>small\<close> when there is a full block, and with \<open>always\<close> every full block is full.\<close>

theorem regular_create_covers:
  assumes "data_ok data" "length (data_bytes data) < 2 ^ 63" "options_ok (img_options img)"
    and "libsqfs_regular_inode_create attr data img = (Some i, img')"
  shows "\<exists>new reg. submissions img' = submissions img @ new \<and>
    concat (map (\<lambda>x. piece_bytes (snd x)) new) = data_bytes data \<and>
    (\<forall>x \<in> set new. 0 < piece_size (snd x) \<and> piece_size (snd x) \<le> block_size (img_options img)) \<and>
    has_regular img' i reg \<and> file_size reg = of_nat (length (data_bytes data)) \<and>
    reg_blocks reg @ (case tail_piece reg of None \<Rightarrow> [] | Some p \<Rightarrow> [Some p]) =
      map Some [bd_count (bulkdata img)..<bd_count (bulkdata img')] \<and>
    (\<forall>k < length new. fst (new ! k) =
      (if k < length (reg_blocks reg) then libsqfs_full_block_vmt else libsqfs_fragment_piece_vmt)) \<and>
    (fragments (img_options img) = libsqfs_fragments_never \<longrightarrow> tail_piece reg = None) \<and>
    (fragments (img_options img) = libsqfs_fragments_small \<and> reg_blocks reg \<noteq> [] \<longrightarrow> tail_piece reg = None) \<and>
    (fragments (img_options img) = libsqfs_fragments_always \<longrightarrow>
      (\<forall>k < length (reg_blocks reg). piece_size (snd (new ! k)) = block_size (img_options img)))"
proof -
  let ?o = "img_options img" and ?n = "length (data_bytes data)"
  have b: "0 < block_size ?o" using assms(3) by (simp add: options_ok_def)
  obtain nb ts where layout: "regular_layout ?o ?n = (nb, ts)" and sub: "submissions img' = submissions img @ file_chunks ?o data ?n"
    and reg: "has_regular img' i \<lparr>file_size = of_nat ?n, sparse_size = 0,
      reg_blocks = map Some [bd_count (bulkdata img)..<bd_count (bulkdata img) + nb],
      tail_piece = (if ts \<noteq> 0 then Some (bd_count (bulkdata img) + nb) else None)\<rparr>"
    using regular_create_ok [OF assms(1,2,4)] by blast
  let ?new = "file_chunks ?o data ?n"
  note cover = file_chunks_correct [OF refl b, of data]
  have count: "bd_count (bulkdata img') = bd_count (bulkdata img) + nb + (if ts \<noteq> 0 then 1 else 0)"
    using arg_cong [OF sub, of length] by (simp add: file_chunks_def layout)
  have kind: "\<forall>k < length ?new. fst (?new ! k) = (if k < nb then libsqfs_full_block_vmt else libsqfs_fragment_piece_vmt)"
    by (simp add: file_chunks_def layout nth_append)
  have full: "fragments ?o = libsqfs_fragments_always \<Longrightarrow> k < nb \<Longrightarrow> piece_size (snd (?new ! k)) = block_size ?o" for k
  proof -
    assume a: "fragments ?o = libsqfs_fragments_always" "k < nb"
    have "Suc k * block_size ?o \<le> ?n div block_size ?o * block_size ?o"
      using a layout by (intro mult_le_mono1) (simp add: regular_layout_def)
    also have "\<dots> \<le> ?n" by simp
    finally have "block_size ?o \<le> ?n - k * block_size ?o" by simp
    with a(2) show ?thesis by (simp add: file_chunks_def layout nth_append block_piece_def Let_def)
  qed
  let ?reg = "\<lparr>file_size = of_nat ?n, sparse_size = 0,
      reg_blocks = map Some [bd_count (bulkdata img)..<bd_count (bulkdata img) + nb],
      tail_piece = (if ts \<noteq> 0 then Some (bd_count (bulkdata img) + nb) else None)\<rparr>"
  have order: "reg_blocks ?reg @ (case tail_piece ?reg of None \<Rightarrow> [] | Some p \<Rightarrow> [Some p]) =
      map Some [bd_count (bulkdata img)..<bd_count (bulkdata img')]" using count by simp
  have never: "fragments ?o = libsqfs_fragments_never \<Longrightarrow> ts = 0"
    and small: "fragments ?o = libsqfs_fragments_small \<Longrightarrow> 0 < nb \<Longrightarrow> ts = 0"
    using layout by (auto simp: regular_layout_def split: if_splits)
  show ?thesis
    by (intro exI [of _ ?new] exI [of _ ?reg])
      (use sub cover reg order kind full never small in \<open>simp add: upt_conv_Nil\<close>)
qed

theorem regular_create_covers_witness:
  "\<exists>img'. libsqfs_regular_inode_create demo_attr (Memorydata [1, 2, 3]) demo_image = (Some 0, img') \<and>
     (\<exists>new. submissions img' = new \<and> concat (map (\<lambda>x. piece_bytes (snd x)) new) = [1, 2, 3])"
proof -
  obtain img' where create: "libsqfs_regular_inode_create demo_attr (Memorydata [1, 2, 3]) demo_image = (Some 0, img')"
    by (simp add: libsqfs_regular_inode_create_def demo_image_def regular_layout_def libsqfs_image_options_defaults_def
        libsqfs_compressor_copy_def libsqfs_inode_init_def libsqfs_bulkdata_submit_fragment_def)
  have "options_ok (img_options demo_image)"
    by (simp add: demo_image_def libsqfs_image_options_defaults_def libsqfs_compressor_copy_def options_ok_def)
  from regular_create_covers [OF _ _ this create] obtain new where
    "submissions img' = submissions demo_image @ new" "concat (map (\<lambda>x. piece_bytes (snd x)) new) = [1, 2, 3]" by auto
  moreover have "submissions demo_image = []" by (simp add: demo_image_def libsqfs_bulkdata_init_def)
  ultimately show ?thesis using create by auto
qed

end
