(* ===== verification/Directory.thy ===== *)
theory Directory
  imports Inodes
begin

text \<open>
  directory.c: directories. Entries are kept sorted by name. Writing a directory puts its entries
  into the directory table, in runs behind headers, chooses some of the headers for the index, and
  writes the inode. The recursion over the tree is in Serialize.
\<close>

section \<open>Building directories\<close>

abbreviation directory_at :: "libsqfs_image \<Rightarrow> nat \<Rightarrow> libsqfs_directory" where
  "directory_at img n \<equiv> body_directory (in_body (inode_at img n))"

definition upd_directory :: "nat \<Rightarrow> (libsqfs_directory \<Rightarrow> libsqfs_directory) \<Rightarrow> libsqfs_image \<Rightarrow> libsqfs_image" where
  "upd_directory n f img =
     upd_inode n (\<lambda>i. i\<lparr>in_body := Directory_Inode (f (body_directory (in_body i)))\<rparr>) img"

abbreviation empty_directory :: libsqfs_directory where
  "empty_directory \<equiv> \<lparr>dd_parent = None, dd_entries = [], indexed_count = 0, first_indexed = [],
     dir_table_entry = no_entry, encoded_entries_size = 0\<rparr>"

definition libsqfs_directory_inode_create :: "libsqfs_inodeattr \<Rightarrow> libsqfs_image \<Rightarrow> nat option \<times> libsqfs_image" where
  "libsqfs_directory_inode_create attr img =
     (let (ok, h) = malloc (mem img); img = img\<lparr>mem := h\<rparr> in
      if \<not> ok then (None, img)
      else apfst Some (libsqfs_inode_init (Directory_Inode empty_directory) attr img))"

text \<open>The search for the place of a new entry: in front of the first name that is not smaller.\<close>

fun insert_entry :: "libsqfs_directory_entry \<Rightarrow> libsqfs_directory_entry list \<Rightarrow> libsqfs_directory_entry list" where
  "insert_entry entry [] = [entry]"
| "insert_entry entry (e # es) =
     (if strcmp (de_name entry) (de_name e) > 0 then e # insert_entry entry es else entry # e # es)"

text \<open>
  A directory is given its parent, and the parent's link is counted, before memory for the entry
  is allocated. \<open>None\<close>: the parent is not a directory.
\<close>

definition libsqfs_directory_add_entry ::
    "nat \<Rightarrow> cstring \<Rightarrow> nat \<Rightarrow> libsqfs_image \<Rightarrow> (bool \<times> libsqfs_image) option" where
  "libsqfs_directory_add_entry parent name inode img =
     (case in_body (inode_at img parent) of Directory_Inode _ \<Rightarrow>
        (let is_dir = (libsqfs_inode_get_class (inode_at img inode) = libsqfs_directory_inode_vmt) in
         if is_dir \<and> dd_parent (directory_at img inode) \<noteq> None
         then Some (False, libsqfs_image_flag_error img ''Directory can have only one parent directory'' False)
         else
           let img = (if is_dir
                      then upd_inode parent (\<lambda>i. i\<lparr>in_nlink := in_nlink i + 1\<rparr>)
                        (upd_directory inode (\<lambda>d. d\<lparr>dd_parent := Some parent\<rparr>) img)
                      else img);
               (ok, h) = malloc (mem img); img = img\<lparr>mem := h\<rparr> in
           if \<not> ok then Some (False, libsqfs_image_out_of_memory img False)
           else
             let (ok, h) = malloc (mem img); img = img\<lparr>mem := h\<rparr> in
             if \<not> ok then Some (False, libsqfs_image_out_of_memory img False)
             else
               let entry = \<lparr>de_name = name, de_inode = inode, de_serialno = 0, de_offset = 0,
                     directory_table_entry = no_entry, de_encoded_data = None, de_encoded_size = 0\<rparr>;
                   img = upd_inode inode (\<lambda>i. i\<lparr>in_nlink := in_nlink i + 1\<rparr>) img in
               Some (True, upd_directory parent (\<lambda>d. d\<lparr>dd_entries := insert_entry entry (dd_entries d)\<rparr>) img))
      | _ \<Rightarrow> None)"

definition libsqfs_directory_inode_lookup :: "libsqfs_directory \<Rightarrow> cstring \<Rightarrow> nat option" where
  "libsqfs_directory_inode_lookup dir name =
     map_option de_inode (find (\<lambda>entry. strcmp (de_name entry) name = 0) (dd_entries dir))"

section \<open>Encoding the entries\<close>

text \<open>
  Whether the next entry needs a new header; \<open>reference\<close> is the first entry behind the last header.
  Inode numbers are subtracted as 64-bit signed numbers.
\<close>

definition need_new_dir_header ::
    "libsqfs_inode list \<Rightarrow> libsqfs_directory_entry \<Rightarrow> libsqfs_directory_entry option \<Rightarrow> bool" where
  "need_new_dir_header inos entry reference =
     (case reference of
        None \<Rightarrow> True
      | Some r \<Rightarrow>
          let e = inos ! de_inode entry; i = inos ! de_inode r;
              diff = int (unat (in_inode_number e)) - int (unat (in_inode_number i)) in
          me_block (inode_table_entry e) \<noteq> me_block (inode_table_entry i) \<or>
          diff < -32768 \<or> diff > 32767 \<or>
          de_encoded_size entry + de_offset entry - de_offset r > SQUASHFS_METADATA_SIZE \<or>
          de_serialno entry - de_serialno r > 255)"

text \<open>Revisiting a header that has already been encoded, to fill in its count.\<close>

definition set_header_count :: "u32 \<Rightarrow> libsqfs_directory_entry \<Rightarrow> libsqfs_directory_entry" where
  "set_header_count count = de_encoded_data_update (map_option (\<lambda>data. memcpy data 0 (le32 count)))"

text \<open>
  The header of a run, with a count that is filled in later, and an entry. The type, the
  difference of the inode numbers and the length of the name are cut to 16 bits.
\<close>

definition entry_header :: "libsqfs_inode \<Rightarrow> squashfs_dir_header" where
  "entry_header inode = \<lparr>dir_header_count = 0, dir_header_start_block = me_block (inode_table_entry inode),
     dir_header_inode_number = in_inode_number inode\<rparr>"

definition entry_record :: "libsqfs_inode \<Rightarrow> libsqfs_inode \<Rightarrow> nat \<Rightarrow> squashfs_dir_entry" where
  "entry_record inode reference namelen =
     \<lparr>dir_entry_offset = ucast (me_offset (inode_table_entry inode)),
      dir_entry_inode_number = ucast (in_inode_number inode - in_inode_number reference),
      dir_entry_type = encoded_base_type inode, dir_entry_size = of_nat namelen - 1\<rparr>"

text \<open>
  The loop over the entries; \<open>pos\<close> is the position of the entry, which is its serial number,
  \<open>reference\<close> the position of the first entry behind the last header, \<open>count\<close> the number of
  entries behind that header.
\<close>

fun encode_entries ::
    "libsqfs_inode list \<Rightarrow> nat list \<Rightarrow> heap \<Rightarrow> libsqfs_directory \<Rightarrow> nat option \<Rightarrow> u32 \<Rightarrow> nat \<Rightarrow>
     bool \<times> libsqfs_directory \<times> nat option \<times> u32 \<times> nat \<times> heap" where
  "encode_entries inos [] h dir reference count offset = (True, dir, reference, count, offset, h)"
| "encode_entries inos (pos # rest) h dir reference count offset =
     (let entry = dd_entries dir ! pos;
          namelen = length (de_name entry);
          entry = entry\<lparr>de_serialno := pos, de_offset := offset, de_encoded_size := 8 + namelen\<rparr>;
          insert_dir_header = need_new_dir_header inos entry (map_option ((!) (dd_entries dir)) reference);
          entry = (if insert_dir_header then entry\<lparr>de_encoded_size := de_encoded_size entry + 12\<rparr> else entry);
          (ok, h) = malloc h in
      if \<not> ok then (False, dir\<lparr>dd_entries := (dd_entries dir)[pos := entry\<lparr>de_encoded_data := None\<rparr>]\<rparr>, reference, count, offset, h)
      else
        let inode = inos ! de_inode entry;
            dir = (if insert_dir_header
                   then (case reference of None \<Rightarrow> dir
                     | Some r \<Rightarrow> dir\<lparr>dd_entries := (dd_entries dir)[r := set_header_count (count - 1) (dd_entries dir ! r)]\<rparr>)
                   else dir);
            dir = (if insert_dir_header
                   then dir\<lparr>first_indexed := first_indexed dir @ [pos], indexed_count := indexed_count dir + 1\<rparr>
                   else dir);
            count = (if insert_dir_header then 0 else count);
            reference = (if insert_dir_header then Some pos else reference);
            ref_inode = (case reference of None \<Rightarrow> inode
              | Some r \<Rightarrow> if r = pos then inode else inos ! de_inode (dd_entries dir ! r));
            data = (if insert_dir_header then encode_dir_header (entry_header inode) else []) @
              encode_dir_entry (entry_record inode ref_inode namelen) @ de_name entry;
            entry = entry\<lparr>de_encoded_data := Some data\<rparr> in
        encode_entries inos rest h (dir\<lparr>dd_entries := (dd_entries dir)[pos := entry]\<rparr>) reference
          (count + 1) (offset + de_encoded_size entry))"

text \<open>Appending the encoded entries to the table; the position of the first is that of the listing.\<close>

fun write_entries :: "nat \<Rightarrow> nat list \<Rightarrow> bool \<Rightarrow> libsqfs_image \<Rightarrow> (bool \<times> libsqfs_image) option" where
  "write_entries n [] first img = Some (True, img)"
| "write_entries n (pos # rest) first img = do {
     data \<leftarrow> de_encoded_data (dd_entries (directory_at img n) ! pos);
     (ok, at, img) \<leftarrow> append_dir_table data img;
     let img = upd_directory n (\<lambda>d. d\<lparr>dd_entries := (dd_entries d)[pos :=
       (dd_entries d ! pos)\<lparr>directory_table_entry := at\<rparr>]\<rparr>) img;
     if \<not> ok then Some (False, img)
     else
       let img = (if first then upd_directory n (\<lambda>d. d\<lparr>dir_table_entry := at\<rparr>) img else img);
           img = upd_directory n (\<lambda>d. d\<lparr>dd_entries := (dd_entries d)[pos :=
             (dd_entries d ! pos)\<lparr>de_encoded_data := None\<rparr>]\<rparr>) img in
       write_entries n rest False img }"

definition libsqfs_directory_encode :: "nat \<Rightarrow> libsqfs_image \<Rightarrow> (bool \<times> libsqfs_image) option" where
  "libsqfs_directory_encode n img =
     (let dir = directory_at img n;
          positions = [0..<length (dd_entries dir)];
          (ok, dir, reference, count, offset, h) = encode_entries (inodes img) positions (mem img) dir None 0 0;
          img = upd_directory n (\<lambda>_. dir) (img\<lparr>mem := h\<rparr>) in
      if \<not> ok then Some (False, img)
      else
        let dir = (case reference of None \<Rightarrow> dir
              | Some r \<Rightarrow> dir\<lparr>dd_entries := (dd_entries dir)[r := set_header_count (count - 1) (dd_entries dir ! r)]\<rparr>);
            dir = dir\<lparr>encoded_entries_size := offset, dir_table_entry := \<lparr>me_block = 0, me_offset = 0\<rparr>\<rparr> in
        write_entries n positions True (upd_directory n (\<lambda>_. dir) img))"

section \<open>The index\<close>

fun prune_loop :: "libsqfs_directory_entry list \<Rightarrow> nat \<Rightarrow> nat list \<Rightarrow> nat \<Rightarrow> nat list \<times> nat" where
  "prune_loop entries current [] count = ([current], count)"
| "prune_loop entries current (next_indexed # rest) count =
     (if de_serialno (entries ! next_indexed) - de_serialno (entries ! current) > 128
      then apfst ((#) current) (prune_loop entries next_indexed rest count)
      else prune_loop entries current rest (count - 1))"

definition libsqfs_directory_inode_prune_index :: "libsqfs_directory \<Rightarrow> libsqfs_directory" where
  "libsqfs_directory_inode_prune_index dir =
     (case first_indexed dir of
        [] \<Rightarrow> dir
      | current # rest \<Rightarrow>
          let (indexed, count) = prune_loop (dd_entries dir) current rest (indexed_count dir) in
          dir\<lparr>first_indexed := tl indexed, indexed_count := count - 1\<rparr>)"

section \<open>The inode\<close>

definition parent_inode_number :: "libsqfs_directory \<Rightarrow> libsqfs_image \<Rightarrow> u32" where
  "parent_inode_number dir img =
     (case dd_parent dir of
        Some p \<Rightarrow> in_inode_number (inode_at img p)
      | None \<Rightarrow> of_nat (length (inodes img) + 1))"

fun write_index :: "libsqfs_directory \<Rightarrow> nat list \<Rightarrow> libsqfs_image \<Rightarrow> (bool \<times> libsqfs_image) option" where
  "write_index dir [] img = Some (True, img)"
| "write_index dir (pos # rest) img = do {
     let entry = dd_entries dir ! pos;
     let index = \<lparr>dir_index_index = of_nat (de_offset entry),
       dir_index_start_block = me_block (directory_table_entry entry),
       dir_index_size = of_nat (length (de_name entry)) - 1\<rparr>;
     (ok, at, img) \<leftarrow> append_inode_table (encode_dir_index index) img;
     if \<not> ok then Some (False, img)
     else do {
       (ok, at, img) \<leftarrow> append_inode_table (de_name entry) img;
       if \<not> ok then Some (False, img)
       else write_index dir rest img } }"

definition libsqfs_directory_inode_encode :: "nat \<Rightarrow> libsqfs_image \<Rightarrow> (bool \<times> libsqfs_image) option" where
  "libsqfs_directory_inode_encode n img =
     (let inode = inode_at img n; attr = in_attr inode; dir = directory_at img n in
      if encoded_type inode = SQUASHFS_DIR_TYPE
      then append_inode_header n (encode_dir_inode_header
        \<lparr>hdr_inode_type = encoded_type inode, hdr_mode = ucast (ia_mode attr), hdr_uid = mapped_uid attr,
         hdr_guid = mapped_gid attr, hdr_mtime = ucast (ia_ctime attr), hdr_inode_number = in_inode_number inode,
         dir_start_block = me_block (dir_table_entry dir), dir_nlink = of_nat (in_nlink inode),
         dir_file_size = of_nat (encoded_entries_size dir + 3),
         dir_offset = ucast (me_offset (dir_table_entry dir)), dir_parent_inode = parent_inode_number dir img\<rparr>) img
      else do {
        (ok, img) \<leftarrow> append_inode_header n (encode_ldir_inode_header
          \<lparr>hdr_inode_type = encoded_type inode, hdr_mode = ucast (ia_mode attr), hdr_uid = mapped_uid attr,
           hdr_guid = mapped_gid attr, hdr_mtime = ucast (ia_ctime attr), hdr_inode_number = in_inode_number inode,
           ldir_nlink = of_nat (in_nlink inode), ldir_file_size = of_nat (encoded_entries_size dir + 3),
           ldir_start_block = me_block (dir_table_entry dir), ldir_parent_inode = parent_inode_number dir img,
           ldir_i_count = of_nat (indexed_count dir), ldir_offset = ucast (me_offset (dir_table_entry dir)),
           ldir_xattr = (case ia_xattrset attr of Some xattr \<Rightarrow> xattr | None \<Rightarrow> -1)\<rparr>) img;
        if \<not> ok then Some (False, img)
        else write_index dir (first_indexed dir) img })"

text \<open>The part of \<open>libsqfs_directory_serialize\<close> that follows the serialisation of the entries.\<close>

abbreviation (input) USHRT_MAX :: nat where "USHRT_MAX \<equiv> 65535"

definition directory_write :: "nat \<Rightarrow> libsqfs_image \<Rightarrow> (bool \<times> libsqfs_image) option" where
  "directory_write n img = do {
     (ok, img) \<leftarrow> libsqfs_directory_encode n img;
     if \<not> ok then Some (False, img)
     else
       let img = upd_directory n libsqfs_directory_inode_prune_index img;
           dir = directory_at img n;
           type = (if indexed_count dir \<noteq> 0 \<or> encoded_entries_size dir > USHRT_MAX - 3 \<or>
                      ia_xattrset (in_attr (inode_at img n)) \<noteq> None
                   then SQUASHFS_LDIR_TYPE else SQUASHFS_DIR_TYPE);
           img = upd_inode n (\<lambda>i. i\<lparr>encoded_type := type, encoded_base_type := SQUASHFS_DIR_TYPE\<rparr>) img in
       libsqfs_directory_inode_encode n img }"

end
