(* ===== verification/Serialize.thy ===== *)
theory Serialize
  imports Special Regular Directory
begin

text \<open>
  Writing the tree of inodes (\<open>libsqfs_inode_serialize\<close> of inodes.c and the loop of
  \<open>libsqfs_directory_serialize\<close> of directory.c): the inodes of a directory's entries before the
  directory, each inode once. The recursion of the code has no bound of its own; the model counts
  the depth of the stack, and \<open>None\<close> when it is used up is a stack overflow.
\<close>

section \<open>Operations\<close>

fun serialize_entries ::
    "(nat \<Rightarrow> libsqfs_image \<Rightarrow> (bool \<times> libsqfs_image) option) \<Rightarrow> nat list \<Rightarrow> libsqfs_image \<Rightarrow>
     (bool \<times> libsqfs_image) option" where
  "serialize_entries serialize [] img = Some (True, img)"
| "serialize_entries serialize (i # rest) img = do {
     (ok, img) \<leftarrow> serialize i img;
     if \<not> ok then Some (False, img) else serialize_entries serialize rest img }"

definition libsqfs_directory_serialize ::
    "(nat \<Rightarrow> libsqfs_image \<Rightarrow> (bool \<times> libsqfs_image) option) \<Rightarrow> nat \<Rightarrow> libsqfs_image \<Rightarrow>
     (bool \<times> libsqfs_image) option" where
  "libsqfs_directory_serialize serialize n img = do {
     (ok, img) \<leftarrow> serialize_entries serialize (map de_inode (dd_entries (directory_at img n))) img;
     if \<not> ok then Some (False, img) else directory_write n img }"

fun serialize_upto :: "nat \<Rightarrow> nat \<Rightarrow> libsqfs_image \<Rightarrow> (bool \<times> libsqfs_image) option" where
  "serialize_upto 0 n img = None"
| "serialize_upto (Suc depth) n img =
     (if encoded_type (inode_at img n) \<noteq> 0 then Some (True, img)
      else
        (case in_body (inode_at img n) of
           Symlink_Inode _ \<Rightarrow> libsqfs_symlink_inode_serialize n img
         | Device_Inode _ _ _ \<Rightarrow> libsqfs_device_inode_serialize n img
         | Fifo_Inode \<Rightarrow> libsqfs_fifo_inode_serialize n img
         | Regular_Inode _ \<Rightarrow> libsqfs_regular_inode_serialize n img
         | Directory_Inode _ \<Rightarrow> libsqfs_directory_serialize (serialize_upto depth) n img))"

text \<open>A stack as deep as there are inodes is enough for a tree (below), so none deeper is modelled.\<close>

definition libsqfs_inode_serialize :: "nat \<Rightarrow> libsqfs_image \<Rightarrow> (bool \<times> libsqfs_image) option" where
  "libsqfs_inode_serialize n img = serialize_upto (length (inodes img) + 1) n img"

end
