(* ===== verification/Superblock.thy ===== *)
theory Superblock
  imports Inodes
begin

text \<open>
  superblock.c and export.c: the superblock, which is written last and leads to everything else,
  and the export table, which maps inode numbers to the places of the inodes.
\<close>

section \<open>The export table\<close>

text \<open>Every inode of the image stores its reference at the index that belongs to its number.\<close>

definition inode_map :: "libsqfs_inode list \<Rightarrow> u64 list" where
  "inode_map inos =
     fold (\<lambda>inode m. m[unat (in_inode_number inode) - 1 := libsqfs_encoded_inode inode]) inos
       (replicate (length inos) 0)"

definition libsqfs_export_table_write :: "libsqfs_image \<Rightarrow> (bool \<times> libsqfs_image) option" where
  "libsqfs_export_table_write img = do {
     let tab = libsqfs_metatable_init None;
     (ok, pos, tab, h) \<leftarrow> libsqfs_metatable_append (mem img) tab (encode_array le64 (inode_map (inodes img)));
     let img = img\<lparr>mem := h\<rparr>;
     (ok, tab, img) \<leftarrow> (if ok then libsqfs_metatable_write_with_index tab img else Some (False, tab, img));
     Some (ok, img\<lparr>export_offset := mt_offset tab\<rparr>) }"

section \<open>The superblock\<close>

fun fragments_option_to_flag :: "libsqfs_fragments_option \<Rightarrow> u16" where
  "fragments_option_to_flag libsqfs_fragments_never = push_bit SQUASHFS_NO_FRAG 1"
| "fragments_option_to_flag libsqfs_fragments_small = 0"
| "fragments_option_to_flag libsqfs_fragments_always = push_bit SQUASHFS_ALWAYS_FRAG 1"

definition superblock_flags :: "libsqfs_image \<Rightarrow> u16" where
  "superblock_flags img = 0
     OR (if inode_compression (img_options img) then 0 else push_bit SQUASHFS_NOI 1)
     OR (if data_compression (img_options img) then 0 else push_bit SQUASHFS_NOD 1)
     OR (if fragment_compression (img_options img) then 0 else push_bit SQUASHFS_NOF 1)
     OR fragments_option_to_flag (fragments (img_options img))
     OR (if exportable (img_options img) then push_bit SQUASHFS_EXPORT 1 else 0)
     OR push_bit SQUASHFS_DUPLICATE 1
     OR (if compressor_option_data img \<noteq> None then push_bit SQUASHFS_COMP_OPT 1 else 0)"

text \<open>\<open>None\<close>: there is no root directory, or no compressor.\<close>

definition superblock_of :: "libsqfs_image \<Rightarrow> squashfs_super_block option" where
  "superblock_of img = do {
     c \<leftarrow> opt_compressor (img_options img);
     r \<leftarrow> root img;
     Some \<lparr>sb_magic = SQUASHFS_MAGIC, sb_inodes = of_nat (length (inodes img)), sb_mkfs_time = creation_time img,
       sb_block_size = of_nat (block_size (img_options img)),
       sb_fragments = of_nat (length (fragment_blocks (bulkdata img))),
       sb_compression = compressor_id c, sb_block_log = of_nat (block_size_log (img_options img)),
       sb_flags = superblock_flags img, sb_no_ids = of_nat (nids (idtable img)), sb_major = 4, sb_minor = 0,
       sb_root_inode = libsqfs_encoded_inode (inode_at img r), sb_bytes_used = img_size img,
       sb_id_table_start = ids_offset (idtable img), sb_xattr_id_table_start = xt_offset (xattr_table img),
       sb_inode_table_start = mt_offset (inode_table img), sb_directory_table_start = mt_offset (dir_table img),
       sb_fragment_table_start = frag_table_loc (bulkdata img), sb_lookup_table_start = export_offset img\<rparr> }"

definition libsqfs_write_superblock :: "libsqfs_image \<Rightarrow> (bool \<times> libsqfs_image) option" where
  "libsqfs_write_superblock img = do {
     sb \<leftarrow> superblock_of img;
     let (count, d) = libsqfs_pwrite (dst img) (encode_super_block sb) 0;
     Some (count = 96, img\<lparr>dst := d\<rparr>) }"

definition libsqfs_reserve_superblock :: "'a sqfs_out_scheme \<Rightarrow> 'a sqfs_out_scheme" where
  "libsqfs_reserve_superblock img = snd (libsqfs_image_reserve img 96)"

section \<open>Properties\<close>

lemma length_map_fold [simp]:
  "length (fold (\<lambda>i m. m[f i := g i]) is m) = length m"
  by (induction "is" arbitrary: m) simp_all

text \<open>Inodes are numbered in their order, from 1.\<close>

definition numbers_ok :: "libsqfs_inode list \<Rightarrow> bool" where
  "numbers_ok inos \<longleftrightarrow> length inos < 2 ^ 32 \<and> (\<forall>k < length inos. in_inode_number (inos ! k) = of_nat (k + 1))"

lemma fold_updates:
  assumes "\<forall>k < length is. f (is ! k) = a + k" "a + length is \<le> length m"
  shows "fold (\<lambda>i m. m[f i := g i]) is m = take a m @ map g is @ drop (a + length is) m"
  using assms
proof (induction "is" arbitrary: a m)
  case (Cons i "is")
  have fi: "f i = a" using Cons.prems(1) by (metis add_0_right length_Cons nth_Cons_0 zero_less_Suc)
  have "\<forall>k < length is. f (is ! k) = Suc a + k"
  proof (intro allI impI)
    fix k assume "k < length is"
    then show "f (is ! k) = Suc a + k" using Cons.prems(1) [THEN spec, of "Suc k"] by simp
  qed
  from Cons.IH [OF this, of "m[a := g i]"] Cons.prems(2)
  have "fold (\<lambda>i m. m[f i := g i]) is (m[a := g i]) = take (Suc a) (m[a := g i]) @ map g is @ drop (Suc a + length is) m"
    by simp
  moreover have "take (Suc a) (m[a := g i]) = take a m @ [g i]"
    using Cons.prems(2) by (simp add: take_Suc_conv_app_nth)
  ultimately show ?case using fi by simp
qed simp

lemma inode_map_numbered: "numbers_ok inos \<Longrightarrow> inode_map inos = map libsqfs_encoded_inode inos"
proof -
  assume ok: "numbers_ok inos"
  have "\<forall>k < length inos. (\<lambda>i. unat (in_inode_number i) - 1) (inos ! k) = 0 + k"
  proof (intro allI impI)
    fix k assume k: "k < length inos"
    then have "k + 1 < 2 ^ 32" "in_inode_number (inos ! k) = of_nat (k + 1)" using ok by (auto simp: numbers_ok_def)
    then show "(\<lambda>i. unat (in_inode_number i) - 1) (inos ! k) = 0 + k" by (simp add: unat_of_nat del: of_nat_Suc of_nat_add)
  qed
  from fold_updates [OF this, of "replicate (length inos) 0" libsqfs_encoded_inode] show ?thesis
    by (simp add: inode_map_def)
qed

text \<open>C22: the export table. A driver that looks up the number of an inode in the table finds the reference to
  the inode, once the inodes have been serialised the place of its record.\<close>

theorem export_table_roundtrip:
  assumes "libsqfs_export_table_write img = Some (True, img')" "numbers_ok (inodes img)" "24 * length (inodes img) < 2 ^ 32"
    and "file_dest_ok (dst img)" "k < length (inodes img)"
  shows "lookup_element (\<lambda>bs. bs) (get_le 8) 8 (dest_bytes (dst img')) (export_offset img') k =
    Some (libsqfs_encoded_inode (inodes img ! k))"
proof -
  obtain pos tab h tab' i where app: "libsqfs_metatable_append (mem img) (libsqfs_metatable_init None)
        (encode_array le64 (inode_map (inodes img))) = Some (True, pos, tab, h)"
    and wr: "libsqfs_metatable_write_with_index tab (img\<lparr>mem := h\<rparr>) = Some (True, tab', i)"
    and img': "img' = i\<lparr>export_offset := mt_offset tab'\<rparr>"
    using assms(1) by (auto simp: libsqfs_export_table_write_def Let_def split: bind_splits if_splits)
  have map: "inode_map (inodes img) = map libsqfs_encoded_inode (inodes img)" by (rule inode_map_numbered [OF assms(2)])
  show ?thesis
    using u64_codec.lookup_in_small_table [OF none_codec _ app wr, of k] assms(3-5) img' map by simp
qed

text \<open>Two inodes that have been serialised, for the examples.\<close>

definition demo_finished :: libsqfs_image where
  "demo_finished = demo_image\<lparr>root := Some 0, inodes := map (\<lambda>k. \<lparr>in_body = Fifo_Inode, in_attr = demo_attr, in_nlink = 1,
     inode_table_entry = \<lparr>me_block = 0, me_offset = 32 * of_nat k\<rparr>, in_inode_number = of_nat (k + 1),
     encoded_type = 6, encoded_base_type = 6\<rparr>) [0..<2]\<rparr>"

theorem export_table_roundtrip_witness:
  "\<exists>img'. libsqfs_export_table_write demo_finished = Some (True, img') \<and>
     lookup_element (\<lambda>bs. bs) (get_le 8) 8 (dest_bytes (dst img')) (export_offset img') 1 =
       Some (libsqfs_encoded_inode (inodes demo_finished ! 1))"
proof -
  obtain img' where w: "libsqfs_export_table_write demo_finished = Some (True, img')"
    by (simp add: demo_table_simps libsqfs_export_table_write_def demo_finished_def demo_image_def inode_map_def
        libsqfs_encoded_inode_def upt_rec)
  have "numbers_ok (inodes demo_finished)" by (simp add: numbers_ok_def demo_finished_def)
  then have "lookup_element (\<lambda>bs. bs) (get_le 8) 8 (dest_bytes (dst img')) (export_offset img') 1 =
      Some (libsqfs_encoded_inode (inodes demo_finished ! 1))"
    by (rule export_table_roundtrip [OF w]) (simp_all add: demo_finished_def demo_image_def demo_out_def demo_file_def)
  with w show ?thesis by blast
qed



text \<open>The flags of the superblock are independent of each other and say what the options of the image
  are: which parts are stored uncompressed, how fragments are used, whether there is an export table
  and whether options of the compressor are stored.\<close>

theorem superblock_flags_spec:
  "(SQUASHFS_BIT (superblock_flags img) SQUASHFS_NOI = 1 \<longleftrightarrow> \<not> inode_compression (img_options img)) \<and>
   (SQUASHFS_BIT (superblock_flags img) SQUASHFS_NOD = 1 \<longleftrightarrow> \<not> data_compression (img_options img)) \<and>
   (SQUASHFS_BIT (superblock_flags img) SQUASHFS_NOF = 1 \<longleftrightarrow> \<not> fragment_compression (img_options img)) \<and>
   (SQUASHFS_BIT (superblock_flags img) SQUASHFS_NO_FRAG = 1 \<longleftrightarrow> fragments (img_options img) = libsqfs_fragments_never) \<and>
   (SQUASHFS_BIT (superblock_flags img) SQUASHFS_ALWAYS_FRAG = 1 \<longleftrightarrow> fragments (img_options img) = libsqfs_fragments_always) \<and>
   (SQUASHFS_BIT (superblock_flags img) SQUASHFS_EXPORT = 1 \<longleftrightarrow> exportable (img_options img)) \<and>
   (SQUASHFS_BIT (superblock_flags img) SQUASHFS_COMP_OPT = 1 \<longleftrightarrow> compressor_option_data img \<noteq> None)"
  unfolding superblock_flags_def SQUASHFS_BIT_def
  by (cases "inode_compression (img_options img)"; cases "data_compression (img_options img)";
      cases "fragment_compression (img_options img)"; cases "fragments (img_options img)";
      cases "exportable (img_options img)"; cases "compressor_option_data img"; simp)

end
