(* ===== verification/Threadpool.thy ===== *)
theory Threadpool
  imports Prelude
begin

text \<open>
  threadpool.h and threadpool.c. The pool is the number of workers that have been started and not
  yet joined. Whether \<open>pthread_create\<close> succeeds comes from a list of outcomes, as for \<open>malloc\<close>.
  What a worker does is libsqfs_image_thread_function (Image); signal masks are not modelled.
\<close>

section \<open>Operations\<close>

definition libsqfs_threadpool_init :: nat where
  "libsqfs_threadpool_init = 0"

definition libsqfs_threadpool_spawn_worker ::
    "nat \<times> heap \<times> bool list \<Rightarrow> bool \<times> nat \<times> heap \<times> bool list" where
  "libsqfs_threadpool_spawn_worker pool =
     (let (threads, h, creates) = pool; (ok, h) = malloc h in
      if \<not> ok then (False, threads, h, creates)
      else
        let (created, creates) = malloc creates in
        if \<not> created then (False, threads, h, creates)
        else (True, threads + 1, h, creates))"

text \<open>The loop that starts up to \<open>n\<close> workers; \<open>spawned\<close> counts them.\<close>

fun spawn_loop :: "nat \<Rightarrow> nat \<Rightarrow> nat \<times> heap \<times> bool list \<Rightarrow> nat \<times> nat \<times> heap \<times> bool list" where
  "spawn_loop 0 spawned pool = (spawned, pool)"
| "spawn_loop (Suc n) spawned pool =
     (let (ok, pool) = libsqfs_threadpool_spawn_worker pool in
      if \<not> ok then (spawned, pool) else spawn_loop n (spawned + 1) pool)"

text \<open>Twice as many workers as there are processors, one if their number is not known.\<close>

definition libsqfs_threadpool_auto_spawn_worker ::
    "nat option \<Rightarrow> nat \<times> heap \<times> bool list \<Rightarrow> nat \<times> nat \<times> heap \<times> bool list" where
  "libsqfs_threadpool_auto_spawn_worker nprocs pool =
     spawn_loop ((case nprocs of None \<Rightarrow> 1 | Some n \<Rightarrow> n) * 2) 0 pool"

text \<open>Joining the workers one by one, until there is none; what remains of the pool.\<close>

fun libsqfs_threadpool_wait :: "nat \<Rightarrow> nat" where
  "libsqfs_threadpool_wait 0 = 0"
| "libsqfs_threadpool_wait (Suc threads) = libsqfs_threadpool_wait threads"

definition libsqfs_threadpool_fini :: "nat \<Rightarrow> nat" where
  "libsqfs_threadpool_fini threads = libsqfs_threadpool_wait threads"

section \<open>Lemmas\<close>

lemma wait_joins_all: "libsqfs_threadpool_wait n = 0"
  by (induction n) simp_all

lemma spawn_loop_count:
  "spawn_loop n k (t, h, c) = (k', t', h', c') \<Longrightarrow> k \<le> k' \<and> k' \<le> k + n \<and> t' + k = t + k'"
proof (induction n arbitrary: k t h c)
  case (Suc n)
  obtain ok t1 h1 c1 where s: "libsqfs_threadpool_spawn_worker (t, h, c) = (ok, t1, h1, c1)"
    by (metis prod.exhaust)
  then have "t1 = (if ok then t + 1 else t)"
    by (auto simp: libsqfs_threadpool_spawn_worker_def split: prod.splits if_splits)
  with Suc.IH [of "k + 1" t1 h1 c1] Suc.prems s show ?case by (auto split: if_splits)
qed simp

lemma spawn_loop_all: "spawn_loop n k (t, [], []) = (k + n, t + n, [], [])"
  by (induction n arbitrary: k t) (simp_all add: libsqfs_threadpool_spawn_worker_def)

end
