(* ===== verification/Image.thy ===== *)
theory Image
  imports Serialize Superblock Threadpool
begin

text \<open>
  image.c: the life of an image, from its creation to its end, and the handles of data sources
  (datasource.c) that belong to it.

  A null pointer that C returns is the \<open>None\<close> of a \<open>libsqfs_image option\<close>. The host supplies the
  compression libraries (\<open>ext\<close>), the build option for the default compressor and the time. An
  operation runs without helper threads: what they may do in between is the interleaving of the
  bulk data's steps.
\<close>

section \<open>Creation\<close>

text \<open>The image before its parts are initialised one by one.\<close>

abbreviation bare_image :: "libsqfs_image_options \<Rightarrow> libsqfs_compressor_instance \<Rightarrow> libsqfs_image" where
  "bare_image opts ci \<equiv> \<lparr>mem = [], dst = Dest_Null, img_size = 0, img_options = opts, img_state = libsqfs_image_building,
     error_msg = None, bulkdata = libsqfs_bulkdata_init False False, creation_time = 0, dataitems = [],
     inodeattrs = [], inodes = [], idtable = libsqfs_idtable_init,
     inode_table = libsqfs_metatable_init None, dir_table = libsqfs_metatable_init None, export_offset = -1,
     xattr_table = libsqfs_xattr_table_init None, compressor = ci,
     compressor_option_data = None, compressor_option_data_loc = 0, root = None, threads = libsqfs_threadpool_init\<rparr>"

text \<open>
  Option data always comes with its bytes, so that the check for a missing \<open>data\<close> pointer never
  strikes: a compressor that cannot allocate it returns a null pointer, which is taken to mean that
  there are no options. The outer \<open>None\<close> is an assertion of the XZ compressor.
\<close>

definition libsqfs_image_create ::
    "external_codecs \<Rightarrow> bool \<Rightarrow> u32 \<Rightarrow> heap \<Rightarrow> libsqfs_destination \<Rightarrow> libsqfs_image_options option \<Rightarrow>
     (libsqfs_image option \<times> heap) option" where
  "libsqfs_image_create ext have_zlib now h destination options =
     (let (ok, h) = malloc h in
      if \<not> ok then Some (None, h)
      else
        let (opts, h) = (case options of
              Some options \<Rightarrow> libsqfs_image_options_copy h options
            | None \<Rightarrow> libsqfs_image_options_create have_zlib h) in
        case opts of None \<Rightarrow> Some (None, h) | Some opts \<Rightarrow>
        (case opt_compressor opts of None \<Rightarrow> None | Some c \<Rightarrow>
          let (ci, h) = libsqfs_compressor_open ext h c in
          case ci of None \<Rightarrow> Some (None, h) | Some ci \<Rightarrow>
            let img = (bare_image opts ci)\<lparr>dst := destination, img_size := 0,
                  creation_time := (if creation_time_set opts then opt_creation_time opts else now),
                  img_state := libsqfs_image_building, error_msg := None,
                  bulkdata := libsqfs_bulkdata_init (data_compression opts) (fragment_compression opts),
                  dir_table := libsqfs_metatable_init (if inode_compression opts then Some ci else None),
                  inode_table := libsqfs_metatable_init (if inode_compression opts then Some ci else None),
                  xattr_table := libsqfs_xattr_table_init (if data_compression opts then Some ci else None)\<rparr>;
                img = libsqfs_reserve_superblock img in
            case libsqfs_compressor_get_option_data h c of
              None \<Rightarrow> None
            | Some (None, h) \<Rightarrow> Some (Some (img\<lparr>mem := h\<rparr>), h)
            | Some (Some data, h) \<Rightarrow>
                let (loc, img) = libsqfs_image_reserve img (length data + 2) in
                Some (Some (img\<lparr>mem := h, compressor_option_data := Some data, compressor_option_data_loc := loc\<rparr>), h)))"

section \<open>Data sources\<close>

definition libsqfs_data_init :: "libsqfs_data \<Rightarrow> libsqfs_image \<Rightarrow> libsqfs_image" where
  "libsqfs_data_init data img = img\<lparr>dataitems := dataitems img @ [data]\<rparr>"

definition libsqfs_data_create_from_file :: "host_file \<Rightarrow> libsqfs_image \<Rightarrow> libsqfs_data option \<times> libsqfs_image" where
  "libsqfs_data_create_from_file f img =
     (let (ok, h) = malloc (mem img); img = img\<lparr>mem := h\<rparr> in
      if \<not> ok then (None, img)
      else
        let (ok, h) = malloc (mem img); img = img\<lparr>mem := h\<rparr> in
        if \<not> ok then (None, libsqfs_image_out_of_memory img False)
        else (Some (Filedata f), libsqfs_data_init (Filedata f) img))"

definition libsqfs_data_create_for_buffer :: "byte list \<Rightarrow> libsqfs_image \<Rightarrow> libsqfs_data option \<times> libsqfs_image" where
  "libsqfs_data_create_for_buffer buffer img =
     (let (ok, h) = malloc (mem img); img = img\<lparr>mem := h\<rparr> in
      if \<not> ok then (None, img)
      else (Some (Memorydata buffer), libsqfs_data_init (Memorydata buffer) img))"

text \<open>Buffers that the caller keeps, and buffers that the image releases in the end: the contents are the same.\<close>

definition libsqfs_data_create_for_static_buffer :: "byte list \<Rightarrow> libsqfs_image \<Rightarrow> libsqfs_data option \<times> libsqfs_image" where
  "libsqfs_data_create_for_static_buffer buffer img = libsqfs_data_create_for_buffer buffer img"

definition libsqfs_data_create_for_transferred_buffer :: "byte list \<Rightarrow> libsqfs_image \<Rightarrow> libsqfs_data option \<times> libsqfs_image" where
  "libsqfs_data_create_for_transferred_buffer buffer img = libsqfs_data_create_for_buffer buffer img"

definition libsqfs_data_create_compound ::
    "libsqfs_data_piece list \<Rightarrow> libsqfs_image \<Rightarrow> libsqfs_data option \<times> libsqfs_image" where
  "libsqfs_data_create_compound pieces img =
     (let (ok, h) = malloc (mem img); img = img\<lparr>mem := h\<rparr> in
      if \<not> ok then (None, img)
      else
        let (ok, h) = malloc (mem img); img = img\<lparr>mem := h\<rparr> in
        if \<not> ok then (None, img)
        else
          let comp = libsqfs_compounddata_init pieces in
          (Some comp, libsqfs_data_init comp img))"

section \<open>The root directory\<close>

definition libsqfs_image_set_root :: "nat \<Rightarrow> libsqfs_image \<Rightarrow> bool \<times> libsqfs_image" where
  "libsqfs_image_set_root r img =
     (if root img \<noteq> None \<or> img_state img \<noteq> libsqfs_image_building then (False, img)
      else (True, upd_inode r (\<lambda>i. i\<lparr>in_nlink := in_nlink i + 1\<rparr>) (img\<lparr>root := Some r\<rparr>)))"

definition libsqfs_image_get_root :: "libsqfs_image \<Rightarrow> nat option" where
  "libsqfs_image_get_root img = root img"

section \<open>Errors\<close>

definition libsqfs_image_error_message :: "libsqfs_image \<Rightarrow> string option" where
  "libsqfs_image_error_message img = error_msg img"

definition libsqfs_image_abort :: "libsqfs_image \<Rightarrow> libsqfs_image" where
  "libsqfs_image_abort img = libsqfs_image_flag_error img ''User abort'' True"

definition libsqfs_image_error_clear :: "libsqfs_image \<Rightarrow> libsqfs_image" where
  "libsqfs_image_error_clear img = img\<lparr>error_msg := None\<rparr>"

section \<open>Worker threads\<close>

text \<open>What a worker does, run to its end; and starting workers.\<close>

definition libsqfs_image_thread_function :: "external_codecs \<Rightarrow> libsqfs_image \<Rightarrow> libsqfs_image option" where
  "libsqfs_image_thread_function ext img =
     (case opt_compressor (img_options img) of None \<Rightarrow> None | Some c \<Rightarrow>
        let (ci, h) = libsqfs_compressor_open ext (mem img) c; img = img\<lparr>mem := h\<rparr> in
        case ci of None \<Rightarrow> Some (libsqfs_image_out_of_memory img True)
        | Some ci \<Rightarrow> libsqfs_bulkdata_process ci img)"

definition libsqfs_image_spawn_threads :: "nat \<Rightarrow> bool list \<Rightarrow> libsqfs_image \<Rightarrow> nat \<times> libsqfs_image" where
  "libsqfs_image_spawn_threads count creates img =
     (let (spawned, t, h, _) = spawn_loop count 0 (threads img, mem img, creates) in
      (spawned, img\<lparr>threads := t, mem := h\<rparr>))"

definition libsqfs_image_auto_spawn_threads :: "nat option \<Rightarrow> bool list \<Rightarrow> libsqfs_image \<Rightarrow> nat \<times> libsqfs_image" where
  "libsqfs_image_auto_spawn_threads nprocs creates img =
     (let (spawned, t, h, _) = libsqfs_threadpool_auto_spawn_worker nprocs (threads img, mem img, creates) in
      (spawned, img\<lparr>threads := t, mem := h\<rparr>))"

section \<open>Finalisation\<close>

definition libsqfs_image_write_compressor_options :: "libsqfs_image \<Rightarrow> bool \<times> libsqfs_image" where
  "libsqfs_image_write_compressor_options img =
     (case compressor_option_data img of
        None \<Rightarrow> (True, img)
      | Some data \<Rightarrow>
          let stored_size = of_nat (length data) OR SQUASHFS_COMPRESSED_BIT;
              (count, d) = libsqfs_pwrite (dst img) (le16 stored_size) (compressor_option_data_loc img);
              img = img\<lparr>dst := d\<rparr> in
          if count \<noteq> 2 then (False, img)
          else
            let (count, d) = libsqfs_pwrite (dst img) data (compressor_option_data_loc img + 2) in
            (count = int (length data), img\<lparr>dst := d\<rparr>))"

text \<open>The writers of finalize as steps on the image, each with its C result.\<close>

type_synonym final_step = "libsqfs_image \<Rightarrow> (bool \<times> libsqfs_image) option"

definition write_inode_table :: final_step where
  "write_inode_table img = do {
     (ok, tab, img) \<leftarrow> libsqfs_metatable_write (inode_table img) img;
     Some (ok, img\<lparr>inode_table := tab\<rparr>) }"

definition write_dir_table :: final_step where
  "write_dir_table img = do {
     (ok, tab, img) \<leftarrow> libsqfs_metatable_write (dir_table img) img;
     Some (ok, img\<lparr>dir_table := tab\<rparr>) }"

definition write_id_table :: final_step where
  "write_id_table img = do {
     (ok, tab, img) \<leftarrow> libsqfs_idtable_write (idtable img) img;
     Some (ok, img\<lparr>idtable := tab\<rparr>) }"

definition write_xattr_table :: final_step where
  "write_xattr_table img = do {
     (ok, tab, img) \<leftarrow> libsqfs_xattr_table_write (xattr_table img) img;
     Some (ok, img\<lparr>xattr_table := tab\<rparr>) }"

text \<open>The result of serialising the root directory is not looked at.\<close>

definition serialize_root :: final_step where
  "serialize_root img = do {
     r \<leftarrow> root img;
     (ok, img) \<leftarrow> libsqfs_inode_serialize r img;
     Some (True, img) }"

text \<open>\<open>success = success && step\<close>, for a sequence of steps.\<close>

fun all_steps :: "final_step list \<Rightarrow> final_step" where
  "all_steps [] img = Some (True, img)"
| "all_steps (step # steps) img = do {
     (ok, img) \<leftarrow> step img;
     if \<not> ok then Some (False, img) else all_steps steps img }"

definition final_steps :: "libsqfs_image \<Rightarrow> final_step list" where
  "final_steps img =
     [\<lambda>img. Some (libsqfs_bulkdata_seal img),
      \<lambda>img. libsqfs_bulkdata_finish (compressor img) img,
      serialize_root, write_inode_table, write_dir_table,
      \<lambda>img. libsqfs_bulkdata_write_fragment_table (compressor img) img] @
     (if exportable (img_options img) then [libsqfs_export_table_write] else []) @
     [write_id_table, write_xattr_table, \<lambda>img. Some (libsqfs_image_write_compressor_options img),
      libsqfs_write_superblock]"

definition padded_size :: "u64 \<Rightarrow> u64" where
  "padded_size n = (n + 4095) AND NOT 4095"

text \<open>
  When the image cannot be extended to its padded size, the code returns \<open>false\<close>, which is the
  state \<open>building\<close>.
\<close>

definition libsqfs_image_finalize :: "libsqfs_image \<Rightarrow> (libsqfs_image_state \<times> libsqfs_image) option" where
  "libsqfs_image_finalize img =
     (if img_state img \<noteq> libsqfs_image_building then Some (img_state img, img)
      else do {
        (success, img) \<leftarrow>
          (if root img = None then Some (False, libsqfs_image_flag_error img ''No root directory set'' True)
           else all_steps (final_steps img) img);
        let (err, img) =
          (if success \<and> padding (img_options img) \<and> padded_size (img_size img) \<noteq> img_size img
           then let (err, d) = libsqfs_truncate (dst img) (padded_size (img_size img)) in (err, img\<lparr>dst := d\<rparr>)
           else (0, img));
        if err \<noteq> 0 then Some (libsqfs_image_building, img)
        else
          let img = (if success then img\<lparr>img_state := libsqfs_image_finalized\<rparr>
                     else libsqfs_image_flag_error img ''Cannot finalize image (unknown error)'' True) in
          Some (img_state img, img) })"

text \<open>Closing finalizes, waits for the workers and frees everything; the state and the output remain.\<close>

definition libsqfs_image_close :: "libsqfs_image \<Rightarrow> (libsqfs_image_state \<times> libsqfs_destination) option" where
  "libsqfs_image_close img = do {
     (state, img) \<leftarrow> libsqfs_image_finalize img;
     let img = libsqfs_image_error_clear img;
     let img = img\<lparr>threads := libsqfs_threadpool_fini (threads img)\<rparr>;
     Some (state, dst img) }"

end
