(* ===== verification/Listing.thy ===== *)
theory Listing
  imports Directory
begin

text \<open>
  What the directory table holds: the listing that \<open>libsqfs_directory_encode\<close> writes is read back,
  by the reader of the format, as the entries of the directory in their order.
\<close>

section \<open>The reader\<close>

text \<open>An entry as a driver sees it: name, block and offset of the inode, inode number, type.\<close>

type_synonym dirent = "cstring \<times> u32 \<times> u16 \<times> u32 \<times> u16"

fun read_entries :: "nat \<Rightarrow> u32 \<Rightarrow> u32 \<Rightarrow> byte list \<Rightarrow> (dirent list \<times> byte list) option" where
  "read_entries 0 block base bs = Some ([], bs)"
| "read_entries (Suc n) block base bs = do {
     (ent, bs) \<leftarrow> decode_dir_entry bs;
     let len = unat (dir_entry_size ent) + 1;
     if length bs < len then None
     else do {
       (es, rest) \<leftarrow> read_entries n block base (drop len bs);
       Some ((take len bs, block, dir_entry_offset ent, base + scast (dir_entry_inode_number ent),
         dir_entry_type ent) # es, rest) } }"

text \<open>A listing of at most \<open>n\<close> runs.\<close>

fun read_listing :: "nat \<Rightarrow> byte list \<Rightarrow> dirent list option" where
  "read_listing n [] = Some []"
| "read_listing 0 bs = None"
| "read_listing (Suc n) bs = do {
     (hdr, bs) \<leftarrow> decode_dir_header bs;
     (es, bs) \<leftarrow> read_entries (unat (dir_header_count hdr) + 1) (dir_header_start_block hdr)
       (dir_header_inode_number hdr) bs;
     es' \<leftarrow> read_listing n bs;
     Some (es @ es') }"

section \<open>Runs\<close>

text \<open>
  The part of an entry that encoding does not change, and the bytes of a run of entries behind a
  header with count \<open>c\<close>, entry by entry.
\<close>

abbreviation static :: "libsqfs_directory_entry \<Rightarrow> cstring \<times> nat" where
  "static e \<equiv> (de_name e, de_inode e)"

abbreviation (input) dir_header_of :: "libsqfs_inode list \<Rightarrow> u32 \<Rightarrow> nat \<Rightarrow> byte list" where
  "dir_header_of inos c r \<equiv> encode_dir_header ((entry_header (inos ! r))\<lparr>dir_header_count := c\<rparr>)"

definition ent_bytes :: "libsqfs_inode list \<Rightarrow> nat \<Rightarrow> cstring \<times> nat \<Rightarrow> byte list" where
  "ent_bytes inos r e = encode_dir_entry (entry_record (inos ! snd e) (inos ! r) (length (fst e))) @ fst e"

fun run_bytes :: "libsqfs_inode list \<Rightarrow> u32 \<Rightarrow> (cstring \<times> nat) list \<Rightarrow> byte list list" where
  "run_bytes inos c [] = []"
| "run_bytes inos c (e # es) =
     (dir_header_of inos c (snd e) @ ent_bytes inos (snd e) e) # map (ent_bytes inos (snd e)) es"

text \<open>What the reader relies on: one block, inode numbers close to the first, at most 256 entries.\<close>

definition near :: "libsqfs_inode list \<Rightarrow> nat \<Rightarrow> nat \<Rightarrow> bool" where
  "near inos r i \<longleftrightarrow> me_block (inode_table_entry (inos ! i)) = me_block (inode_table_entry (inos ! r)) \<and>
     - 32768 \<le> int (unat (in_inode_number (inos ! i))) - int (unat (in_inode_number (inos ! r))) \<and>
     int (unat (in_inode_number (inos ! i))) - int (unat (in_inode_number (inos ! r))) \<le> 32767"

definition run_ok :: "libsqfs_inode list \<Rightarrow> (cstring \<times> nat) list \<Rightarrow> bool" where
  "run_ok inos run \<longleftrightarrow> run \<noteq> [] \<and> length run \<le> 256 \<and> (\<forall>e \<in> set run. near inos (snd (hd run)) (snd e)) \<and>
     length (concat (run_bytes inos 0 run)) \<le> max 8192 (20 + length (fst (hd run)))"

abbreviation closed_bytes :: "libsqfs_inode list \<Rightarrow> (cstring \<times> nat) list \<Rightarrow> byte list list" where
  "closed_bytes inos run \<equiv> run_bytes inos (of_nat (length run) - 1) run"

lemma near_self [simp]: "near inos r r"
  by (simp add: near_def)

lemma scast_diff:
  fixes a b :: u32
  assumes "- 32768 \<le> int (unat a) - int (unat b)" "int (unat a) - int (unat b) \<le> 32767"
  shows "b + scast (ucast (a - b) :: u16) = a"
proof -
  let ?d = "int (unat a) - int (unat b)"
  have cut: "(ucast (word_of_int k :: u32) :: u16) = word_of_int k" for k
    by transfer (simp add: take_bit_take_bit)
  have ext: "(scast (word_of_int k :: u16) :: u32) = word_of_int (signed_take_bit 15 k)" for k
    by (transfer, simp)
  have "a - b = word_of_int ?d" by (simp add: word_of_int_minus)
  then have "scast (ucast (a - b) :: u16) = (word_of_int (signed_take_bit 15 ?d) :: u32)"
    by (simp only: cut ext)
  also have "signed_take_bit 15 ?d = ?d" using assms by (intro signed_take_bit_int_eq_self) simp_all
  finally show ?thesis by (simp only:) (simp add: word_of_int_minus)
qed

section \<open>Reading what has been encoded\<close>

definition dirent_view :: "libsqfs_inode list \<Rightarrow> cstring \<times> nat \<Rightarrow> dirent" where
  "dirent_view inos e = (let i = inos ! snd e in
     (fst e, me_block (inode_table_entry i), ucast (me_offset (inode_table_entry i)), in_inode_number i,
      encoded_base_type i))"

abbreviation name_ok :: "cstring \<Rightarrow> bool" where
  "name_ok name \<equiv> name \<noteq> [] \<and> length name \<le> 65536"

lemma name_size: "name_ok name \<Longrightarrow> unat (of_nat (length name) - 1 :: u16) + 1 = length name"
proof -
  assume ok: "name_ok name"
  then obtain x xs where name: "name = x # xs" by (cases name) auto
  have "length xs < 65536" using ok by (simp add: name)
  then have "unat (of_nat (length xs) :: u16) = length xs" by (simp add: unat_of_nat)
  then show ?thesis by (simp add: name)
qed

lemma read_entries_entries:
  assumes "\<forall>e \<in> set es. near inos r (snd e) \<and> name_ok (fst e)"
  shows "read_entries (length es) (me_block (inode_table_entry (inos ! r))) (in_inode_number (inos ! r))
    (concat (map (ent_bytes inos r) es) @ bs) = Some (map (dirent_view inos) es, bs)"
  using assms
proof (induction es)
  case (Cons e es)
  let ?i = "inos ! snd e" and ?r = "inos ! r"
  have n: "near inos r (snd e)" "name_ok (fst e)" using Cons.prems by simp_all
  let ?ent = "entry_record ?i ?r (length (fst e))"
  have size: "unat (dir_entry_size ?ent) + 1 = length (fst e)"
    using name_size [OF n(2)] by (simp add: entry_record_def)
  have ino: "in_inode_number ?r + scast (dir_entry_inode_number ?ent) = in_inode_number ?i"
    using n(1) scast_diff [of "in_inode_number ?i" "in_inode_number ?r"] by (simp add: entry_record_def near_def)
  have IH: "read_entries (length es) (me_block (inode_table_entry ?r)) (in_inode_number ?r)
      (concat (map (ent_bytes inos r) es) @ bs) = Some (map (dirent_view inos) es, bs)"
    using Cons by simp
  have "read_entries (Suc (length es)) (me_block (inode_table_entry ?r)) (in_inode_number ?r)
      (encode_dir_entry ?ent @ fst e @ concat (map (ent_bytes inos r) es) @ bs) =
      Some ((fst e, me_block (inode_table_entry ?r), dir_entry_offset ?ent, in_inode_number ?i, dir_entry_type ?ent) #
        map (dirent_view inos) es, bs)"
    unfolding read_entries.simps dir_entry_codec.dec_enc bind.bind_lunit prod.case Let_def size
    by (simp add: IH ino)
  moreover have "concat (map (ent_bytes inos r) (e # es)) @ bs =
      encode_dir_entry ?ent @ fst e @ concat (map (ent_bytes inos r) es) @ bs"
    by (simp add: ent_bytes_def [of inos r e])
  moreover have "dirent_view inos e =
      (fst e, me_block (inode_table_entry ?r), dir_entry_offset ?ent, in_inode_number ?i, dir_entry_type ?ent)"
    using n(1) by (simp add: dirent_view_def entry_record_def near_def Let_def)
  ultimately show ?case by (simp only: list.map length_Cons)
qed simp

lemma run_bytes_concat:
  "concat (run_bytes inos c (e # es)) =
     dir_header_of inos c (snd e) @ concat (map (ent_bytes inos (snd e)) (e # es))"
  by simp

lemma read_listing_runs:
  assumes "\<forall>run \<in> set runs. run_ok inos run" "\<forall>run \<in> set runs. \<forall>e \<in> set run. name_ok (fst e)" "length runs \<le> n"
  shows "read_listing n (concat (concat (map (closed_bytes inos) runs))) = Some (map (dirent_view inos) (concat runs))"
  using assms
proof (induction runs arbitrary: n)
  case Nil
  then show ?case by (cases n) simp_all
next
  case (Cons run runs)
  obtain m where n: "n = Suc m" "length runs \<le> m" using Cons.prems(3) by (cases n) auto
  obtain e es where run: "run = e # es" using Cons.prems(1) by (cases run) (auto simp: run_ok_def)
  let ?r = "inos ! snd e" and ?rest = "concat (concat (map (closed_bytes inos) runs))"
  let ?hdr = "(entry_header ?r)\<lparr>dir_header_count := of_nat (length run) - 1\<rparr>"
  have near: "\<forall>x \<in> set (e # es). near inos (snd e) (snd x) \<and> name_ok (fst x)"
    using Cons.prems(1,2) run by (auto simp: run_ok_def)
  have "(of_nat (length run) - 1 :: u32) = of_nat (length es)" using run by simp
  moreover have "length es < 256" using Cons.prems(1) run by (simp add: run_ok_def)
  ultimately have count: "unat (dir_header_count ?hdr) + 1 = length (e # es)" by (simp add: unat_of_nat)
  have bytes: "concat (concat (map (closed_bytes inos) (run # runs))) =
      encode_dir_header ?hdr @ concat (map (ent_bytes inos (snd e)) (e # es)) @ ?rest"
    unfolding run by (simp add: run_bytes_concat)
  have ne: "encode_dir_header ?hdr @ bs \<noteq> []" for bs by (simp add: encode_dir_header_def)
  have unfold: "bs \<noteq> [] \<Longrightarrow> read_listing (Suc m) bs = do {
     (hdr, bs) \<leftarrow> decode_dir_header bs;
     (es, bs) \<leftarrow> read_entries (unat (dir_header_count hdr) + 1) (dir_header_start_block hdr)
       (dir_header_inode_number hdr) bs;
     es' \<leftarrow> read_listing m bs;
     Some (es @ es') }" for bs by (cases bs) simp_all
  have step: "read_listing (Suc m) (encode_dir_header ?hdr @ bs) = do {
     (es, bs) \<leftarrow> read_entries (unat (dir_header_count ?hdr) + 1) (dir_header_start_block ?hdr) (dir_header_inode_number ?hdr) bs;
     es' \<leftarrow> read_listing m bs;
     Some (es @ es') }" for bs
    unfolding unfold [OF ne] dir_header_codec.dec_enc bind.bind_lunit prod.case ..
  have fields: "dir_header_start_block ?hdr = me_block (inode_table_entry ?r)" "dir_header_inode_number ?hdr = in_inode_number ?r"
    by (simp_all add: entry_header_def)
  have IH: "read_listing m ?rest = Some (map (dirent_view inos) (concat runs))"
    using Cons.IH [OF _ _ n(2)] Cons.prems(1,2) by simp
  show ?case unfolding n(1) bytes step fields count read_entries_entries [OF near, of ?rest] using IH run by simp
qed

section \<open>The loop over the entries\<close>

text \<open>The bytes of the closed runs and of the run that is still open, entry by entry.\<close>

abbreviation runs_bytes :: "libsqfs_inode list \<Rightarrow> (cstring \<times> nat) list list \<Rightarrow> (cstring \<times> nat) list \<Rightarrow> byte list list" where
  "runs_bytes inos closed opn \<equiv> concat (map (closed_bytes inos) closed) @ run_bytes inos 0 opn"

fun run_starts :: "nat \<Rightarrow> 'a list list \<Rightarrow> nat list" where
  "run_starts k [] = []"
| "run_starts k (run # runs) = k # run_starts (k + length run) runs"

definition numbered :: "libsqfs_directory_entry list \<Rightarrow> byte list list \<Rightarrow> bool" where
  "numbered es ds \<longleftrightarrow> length es = length ds \<and> (\<forall>j < length es. de_serialno (es ! j) = j \<and>
     de_offset (es ! j) = length (concat (take j ds)))"

definition enc_inv ::
    "libsqfs_inode list \<Rightarrow> (cstring \<times> nat) list list \<Rightarrow> (cstring \<times> nat) list \<Rightarrow> libsqfs_directory_entry list \<Rightarrow>
     libsqfs_directory_entry list \<Rightarrow> libsqfs_directory_entry list \<Rightarrow> libsqfs_directory \<Rightarrow> nat option \<Rightarrow> u32 \<Rightarrow> nat \<Rightarrow> bool" where
  "enc_inv inos closed opn A B rest dir reference count offset \<longleftrightarrow>
     dd_entries dir = A @ B @ rest \<and> map static A = concat closed \<and> map static B = opn \<and>
     map de_encoded_data A = map Some (concat (map (closed_bytes inos) closed)) \<and>
     map de_encoded_data B = map Some (run_bytes inos 0 opn) \<and>
     reference = Some (length A) \<and> count = of_nat (length opn) \<and>
     offset = length (concat (runs_bytes inos closed opn)) \<and>
     numbered (A @ B) (runs_bytes inos closed opn) \<and>
     (\<forall>run \<in> set closed. run_ok inos run) \<and> run_ok inos opn \<and>
     first_indexed dir = run_starts 0 (closed @ [opn]) \<and> indexed_count dir = length (first_indexed dir)"

lemma length_run_bytes [simp]: "length (run_bytes inos c run) = length run"
  by (cases run) simp_all

lemma map_length_run_bytes: "map length (run_bytes inos c run) = map length (run_bytes inos d run)"
  by (cases run) simp_all

lemma run_bytes_snoc:
  "run \<noteq> [] \<Longrightarrow> run_bytes inos c (run @ [x]) = run_bytes inos c run @ [ent_bytes inos (snd (hd run)) x]"
  by (cases run) simp_all

lemma run_starts_snoc: "run_starts k (runs @ [run]) = run_starts k runs @ [k + length (concat runs)]"
  by (induction runs arbitrary: k) simp_all

lemma run_starts_snoc2:
  "run_starts k (runs @ [a, b]) = run_starts k runs @ [k + length (concat runs), k + length (concat runs) + length a]"
  by (induction runs arbitrary: k) simp_all

lemma run_starts_extend: "run_starts k (runs @ [run]) = run_starts k (runs @ [run'])"
  by (simp add: run_starts_snoc)

lemma length_ent_bytes: "length (ent_bytes inos r e) = 8 + length (fst e)"
  by (simp add: ent_bytes_def)

lemma numbered_snoc:
  assumes "numbered es ds" "de_serialno e = length es" "de_offset e = length (concat ds)"
  shows "numbered (es @ [e]) (ds @ [d])"
  using assms by (auto simp: numbered_def nth_append less_Suc_eq)

lemma concat_take_lengths: "map length xs = map length ys \<Longrightarrow> length (concat (take j xs)) = length (concat (take j ys))"
proof (induction xs arbitrary: ys j)
  case (Cons x xs)
  then obtain y ys' where "ys = y # ys'" by (cases ys) auto
  with Cons show ?case by (cases j) auto
qed simp

text \<open>Another header count changes neither the numbers nor the offsets.\<close>

lemma numbered_cong:
  "numbered es ds \<Longrightarrow> map de_serialno es' = map de_serialno es \<Longrightarrow> map de_offset es' = map de_offset es \<Longrightarrow>
   map length ds' = map length ds \<Longrightarrow> numbered es' ds'"
proof -
  assume n: "numbered es ds" and e: "map de_serialno es' = map de_serialno es" "map de_offset es' = map de_offset es"
    and d: "map length ds' = map length ds"
  have l: "length es' = length es" "length ds' = length ds" using map_eq_imp_length_eq e d by blast+
  have "de_serialno (es' ! j) = de_serialno (es ! j)" "de_offset (es' ! j) = de_offset (es ! j)" if "j < length es" for j
    using arg_cong [OF e(1), of "\<lambda>xs. xs ! j"] arg_cong [OF e(2), of "\<lambda>xs. xs ! j"] that l by simp_all
  then show ?thesis using n l concat_take_lengths [OF d] by (simp add: numbered_def)
qed

lemma encode_dir_header_count:
  "memcpy (encode_dir_header h @ bs) 0 (le32 c) = encode_dir_header (h\<lparr>dir_header_count := c\<rparr>) @ bs"
  by (simp add: memcpy_def encode_dir_header_def)

lemma set_header_count_data:
  "de_encoded_data e = Some (dir_header_of inos c r @ bs) \<Longrightarrow>
   de_encoded_data (set_header_count c' e) = Some (dir_header_of inos c' r @ bs)"
  by (simp add: set_header_count_def encode_dir_header_count)

lemma set_header_count_frame [simp]:
  "de_name (set_header_count c e) = de_name e" "de_inode (set_header_count c e) = de_inode e"
  "de_serialno (set_header_count c e) = de_serialno e" "de_offset (set_header_count c e) = de_offset e"
  by (simp_all add: set_header_count_def)

text \<open>Closing the open run: its header gets the count.\<close>

lemma close_run:
  assumes "enc_inv inos closed opn A B rest dir reference count offset"
  shows "\<exists>B'. (dd_entries dir)[length A := set_header_count (count - 1) (dd_entries dir ! length A)] = A @ B' @ rest \<and>
    map static B' = opn \<and> map de_encoded_data B' = map Some (closed_bytes inos opn) \<and>
    numbered (A @ B') (concat (map (closed_bytes inos) (closed @ [opn]))) \<and> length B' = length B"
proof -
  note i = assms [unfolded enc_inv_def]
  have "opn \<noteq> []" using i by (simp add: run_ok_def)
  then obtain b bs where B: "B = b # bs" using i by (cases B) auto
  then obtain o1 os where opn: "opn = o1 # os" "o1 = static b" using i by auto
  let ?B' = "set_header_count (count - 1) b # bs"
  have upd: "(dd_entries dir)[length A := set_header_count (count - 1) (dd_entries dir ! length A)] = A @ ?B' @ rest"
    using i B by (simp add: nth_append list_update_append)
  have data: "de_encoded_data b = Some (dir_header_of inos 0 (snd o1) @ ent_bytes inos (snd o1) o1)"
    and tail: "map de_encoded_data bs = map Some (map (ent_bytes inos (snd o1)) os)"
    using i B opn by auto
  have "map de_encoded_data ?B' = map Some (closed_bytes inos opn)"
    using set_header_count_data [OF data, of "count - 1"] tail i opn by simp
  moreover have "numbered (A @ ?B') (concat (map (closed_bytes inos) (closed @ [opn])))"
  proof (rule numbered_cong)
    show "numbered (A @ B) (runs_bytes inos closed opn)" using i by blast
    show "map length (concat (map (closed_bytes inos) (closed @ [opn]))) = map length (runs_bytes inos closed opn)"
      using map_length_run_bytes [of inos _ opn 0] by simp
  qed (simp_all add: B)
  ultimately show ?thesis using upd i B by (intro exI [of _ ?B']) simp
qed

text \<open>One round of the loop: the entry opens a run of its own, or joins the open run.\<close>

lemma open_run:
  assumes inv: "enc_inv inos closed opn A B (e # rest) dir reference count offset" and p: "p = length (A @ B)"
    and need: "need_new_dir_header inos (e\<lparr>de_serialno := p, de_offset := offset,
      de_encoded_size := 8 + length (de_name e)\<rparr>) (map_option ((!) (dd_entries dir)) reference)"
    and mem: "malloc h = (True, h1)"
  shows "\<exists>B' e' dir' count' offset'.
    encode_entries inos (p # ps) h dir reference count offset =
      encode_entries inos ps h1 dir' (Some (p)) count' offset' \<and>
    enc_inv inos (closed @ [opn]) [static e] (A @ B') [e'] rest dir' (Some (p)) count' offset' \<and>
    length B' = length B \<and> dd_parent dir' = dd_parent dir"
proof -
  note i = inv [unfolded enc_inv_def]
  from close_run [OF inv] obtain B' where B':
    "(dd_entries dir)[length A := set_header_count (count - 1) (dd_entries dir ! length A)] = A @ B' @ e # rest"
    "map static B' = opn" "map de_encoded_data B' = map Some (closed_bytes inos opn)"
    "numbered (A @ B') (concat (map (closed_bytes inos) (closed @ [opn])))" "length B' = length B" by blast
  have entry: "dd_entries dir ! p = e" using i p by (simp add: nth_append)
  let ?data = "dir_header_of inos 0 (de_inode e) @ ent_bytes inos (de_inode e) (static e)"
  let ?e = "e\<lparr>de_serialno := p, de_offset := offset, de_encoded_size := 8 + length (de_name e) + 12,
    de_encoded_data := Some ?data\<rparr>"
  let ?dir = "dir\<lparr>first_indexed := first_indexed dir @ [p], indexed_count := indexed_count dir + 1,
    dd_entries := A @ B' @ ?e # rest\<rparr>"
  let ?off = "offset + (8 + length (de_name e) + 12)"
  have header: "(entry_header i)\<lparr>dir_header_count := 0\<rparr> = entry_header i" for i by (simp add: entry_header_def)
  have "encode_entries inos (p # ps) h dir reference count offset =
      encode_entries inos ps h1 ?dir (Some p) (0 + 1) ?off"
  proof -
    have ref: "reference = Some (length A)" using i by blast
    note need' = need [unfolded ref]
    have len: "p = length (A @ B')" using B'(5) p by simp
    have upd: "(A @ B' @ e # rest)[p := x] = A @ B' @ x # rest" for x
      unfolding len by (simp add: list_update_append)
    show ?thesis
      by (simp only: encode_entries.simps(2) Let_def entry ref need' mem prod.case if_True not_True_eq_False if_False
          option.case B'(1))
        (simp add: upd ent_bytes_def header)
  qed
  moreover have "enc_inv inos (closed @ [opn]) [static e] (A @ B') [?e] rest ?dir (Some p) (0 + 1) ?off"
  proof -
    have A: "map static (A @ B') = concat (closed @ [opn])" using i B'(2) by simp
    have dA: "map de_encoded_data (A @ B') = map Some (concat (map (closed_bytes inos) (closed @ [opn])))"
      using i B'(3) by simp
    have off: "offset = length (concat (concat (map (closed_bytes inos) (closed @ [opn]))))"
    proof -
      have "map length (concat (map (closed_bytes inos) (closed @ [opn]))) = map length (runs_bytes inos closed opn)"
        using map_length_run_bytes [of inos _ opn 0] by simp
      then have "map length (concat (map (closed_bytes inos) (closed @ [opn]))) = map length (runs_bytes inos closed opn)" .
      from arg_cong [OF this, of sum_list] show ?thesis using i by (simp add: length_concat)
    qed
    have num: "numbered ((A @ B') @ [?e]) (runs_bytes inos (closed @ [opn]) [static e])"
      using numbered_snoc [OF B'(4), of ?e] off B'(5) p by simp
    have "p = length (concat (closed @ [opn]))" using arg_cong [OF A, of length] B'(5) p by simp
    then have idx: "first_indexed dir @ [p] = run_starts 0 ((closed @ [opn]) @ [[static e]])"
      using i by (simp add: run_starts_snoc run_starts_snoc2)
    have size: "?off = length (concat (runs_bytes inos (closed @ [opn]) [static e]))"
      using off by (simp add: length_ent_bytes)
    have "run_ok inos [static e]" by (simp add: run_ok_def length_ent_bytes)
    then show ?thesis unfolding enc_inv_def using i A dA num idx size B'(5) p
      by (simp add: run_starts_snoc run_starts_snoc2)
  qed
  ultimately show ?thesis using B'(5)
    by (intro exI [of _ B'] exI [of _ ?e] exI [of _ ?dir] exI [of _ "0 + 1"] exI [of _ ?off]) simp
qed

lemma join_run:
  assumes inv: "enc_inv inos closed opn A B (e # rest) dir reference count offset" and p: "p = length (A @ B)"
    and need: "\<not> need_new_dir_header inos (e\<lparr>de_serialno := p, de_offset := offset,
      de_encoded_size := 8 + length (de_name e)\<rparr>) (map_option ((!) (dd_entries dir)) reference)"
    and mem: "malloc h = (True, h1)"
  shows "\<exists>e' dir' count' offset'.
    encode_entries inos (p # ps) h dir reference count offset =
      encode_entries inos ps h1 dir' reference count' offset' \<and>
    enc_inv inos closed (opn @ [static e]) A (B @ [e']) rest dir' reference count' offset' \<and>
    dd_parent dir' = dd_parent dir"
proof -
  note i = inv [unfolded enc_inv_def]
  have "opn \<noteq> []" using i by (simp add: run_ok_def)
  then obtain b bs where B: "B = b # bs" using i by (cases B) auto
  then obtain os where opn: "opn = static b # os" using i by auto
  have ref: "reference = Some (length A)" using i by blast
  have entry: "dd_entries dir ! p = e" and first: "dd_entries dir ! length A = b"
    using i B p by (simp_all add: nth_append)
  let ?r = "de_inode b"
  let ?data = "ent_bytes inos ?r (static e)"
  let ?e = "e\<lparr>de_serialno := p, de_offset := offset, de_encoded_size := 8 + length (de_name e), de_encoded_data := Some ?data\<rparr>"
  let ?dir = "dir\<lparr>dd_entries := A @ B @ ?e # rest\<rparr>"
  let ?off = "offset + (8 + length (de_name e))"
  have numb: "de_serialno b = length A" "de_offset b = length (concat (concat (map (closed_bytes inos) closed)))"
  proof -
    have n: "numbered (A @ B) (runs_bytes inos closed opn)" using i by blast
    have "map de_encoded_data A = map Some (concat (map (closed_bytes inos) closed))" using i by blast
    from arg_cong [OF this, of length]
    have len: "length A = length (concat (map (closed_bytes inos) closed))" unfolding length_map .
    have tk: "take (length A) (runs_bytes inos closed opn) = concat (map (closed_bytes inos) closed)"
      unfolding len take_append diff_self_eq_0 take_0 append_Nil2 by (rule take_all) (rule order_refl)
    have "length A < length (A @ B)" by (simp add: B)
    then have "de_serialno ((A @ B) ! length A) = length A \<and>
        de_offset ((A @ B) ! length A) = length (concat (take (length A) (runs_bytes inos closed opn)))"
      using n unfolding numbered_def by blast
    moreover have "(A @ B) ! length A = b" by (simp add: B)
    ultimately show "de_serialno b = length A" "de_offset b = length (concat (concat (map (closed_bytes inos) closed)))"
      unfolding tk by simp_all
  qed
  have dontneed: "near inos ?r (de_inode e)" "p - length A \<le> 255"
    "8 + length (de_name e) + offset - de_offset b \<le> 8192"
    using need numb by (auto simp: need_new_dir_header_def ref first near_def Let_def)
  have pl: "p \<noteq> length A" using p B by simp
  have "encode_entries inos (p # ps) h dir reference count offset =
      encode_entries inos ps h1 ?dir reference (count + 1) ?off"
  proof -
    have upd: "(A @ B @ e # rest)[p := x] = A @ B @ x # rest" for x
      unfolding p by (simp add: list_update_append)
    have dd: "dd_entries dir = A @ B @ e # rest" using i by blast
    note need' = need [unfolded ref]
    show ?thesis
      by (simp only: encode_entries.simps(2) Let_def entry ref need' mem prod.case if_True not_True_eq_False if_False
          option.case first)
        (use pl in \<open>simp add: upd dd ent_bytes_def\<close>)
  qed
  moreover have "enc_inv inos closed (opn @ [static e]) A (B @ [?e]) rest ?dir reference (count + 1) ?off"
  proof -
    have bytes: "run_bytes inos 0 (opn @ [static e]) = run_bytes inos 0 opn @ [?data]"
      using opn by (simp add: run_bytes_snoc)
    have num: "numbered ((A @ B) @ [?e]) (runs_bytes inos closed opn @ [?data])"
      using i p by (intro numbered_snoc) simp_all
    have ok: "run_ok inos (opn @ [static e])"
    proof -
      have "length opn \<le> 255" using dontneed(2) p i by auto
      moreover have "length (concat (run_bytes inos 0 opn)) + (8 + length (de_name e)) \<le> 8192"
        using dontneed(3) i unfolding numb by simp
      ultimately show ?thesis using i dontneed(1) opn unfolding run_ok_def bytes
        by (simp add: length_ent_bytes)
    qed
    show ?thesis unfolding enc_inv_def using i num ok bytes
      by (simp add: length_ent_bytes run_starts_extend [of 0 closed "opn @ [static e]" opn])
  qed
  ultimately show ?thesis
    by (intro exI [of _ ?e] exI [of _ ?dir] exI [of _ "count + 1"] exI [of _ ?off]) simp
qed


text \<open>The first entry of a directory that has not been encoded before.\<close>

lemma first_run:
  assumes dir: "dd_entries dir = e # rest" "first_indexed dir = []" "indexed_count dir = 0"
    and mem: "malloc h = (True, h1)"
  shows "\<exists>e' dir' offset'.
    encode_entries inos (0 # ps) h dir None 0 0 = encode_entries inos ps h1 dir' (Some 0) 1 offset' \<and>
    enc_inv inos [] [static e] [] [e'] rest dir' (Some 0) 1 offset' \<and> dd_parent dir' = dd_parent dir"
proof -
  let ?data = "dir_header_of inos 0 (de_inode e) @ ent_bytes inos (de_inode e) (static e)"
  let ?e = "e\<lparr>de_serialno := 0, de_offset := 0, de_encoded_size := 8 + length (de_name e) + 12,
    de_encoded_data := Some ?data\<rparr>"
  let ?dir = "dir\<lparr>first_indexed := [0], indexed_count := 1, dd_entries := ?e # rest\<rparr>"
  have header: "(entry_header i)\<lparr>dir_header_count := 0\<rparr> = entry_header i" for i by (simp add: entry_header_def)
  have "encode_entries inos (0 # ps) h dir None 0 0 = encode_entries inos ps h1 ?dir (Some 0) 1 (20 + length (de_name e))"
    by (simp only: encode_entries.simps(2) Let_def mem prod.case if_True not_True_eq_False if_False option.case)
      (simp add: dir need_new_dir_header_def ent_bytes_def header)
  moreover have "enc_inv inos [] [static e] [] [?e] rest ?dir (Some 0) 1 (20 + length (de_name e))"
    by (simp add: enc_inv_def numbered_def run_ok_def length_ent_bytes dir)
  ultimately show ?thesis
    by (intro exI [of _ ?e] exI [of _ ?dir] exI [of _ "20 + length (de_name e)"]) simp
qed

lemma encode_loop:
  assumes "enc_inv inos closed opn A B rest dir reference count offset" "p = length (A @ B)"
    "encode_entries inos [p..<p + length rest] h dir reference count offset = (True, dir', reference', count', offset', h')"
  shows "\<exists>closed' opn' A' B'. enc_inv inos closed' opn' A' B' [] dir' reference' count' offset' \<and>
    concat closed' @ opn' = concat closed @ opn @ map static rest \<and> dd_parent dir' = dd_parent dir"
  using assms
proof (induction rest arbitrary: p closed opn A B dir reference count offset h)
  case Nil
  then show ?case by (intro exI [of _ closed] exI [of _ opn] exI [of _ A] exI [of _ B]) simp
next
  case (Cons e rest)
  have upt: "[p..<p + length (e # rest)] = p # [Suc p..<Suc p + length rest]" by (simp add: upt_rec)
  note enc = Cons.prems(3) [unfolded upt]
  obtain ok h1 where mem: "malloc h = (ok, h1)" by (cases "malloc h")
  have ok: "ok" using enc mem by (cases ok) (simp_all add: Let_def)
  let ?need = "need_new_dir_header inos (e\<lparr>de_serialno := p, de_offset := offset,
      de_encoded_size := 8 + length (de_name e)\<rparr>) (map_option ((!) (dd_entries dir)) reference)"
  show ?case
  proof (cases ?need)
    case True
    from open_run [OF Cons.prems(1,2) this mem [unfolded eqTrueI [OF ok]], of "[Suc p..<Suc p + length rest]"]
    obtain B' e' dir1 count1 offset1 where r:
      "encode_entries inos (p # [Suc p..<Suc p + length rest]) h dir reference count offset =
         encode_entries inos [Suc p..<Suc p + length rest] h1 dir1 (Some p) count1 offset1"
      "enc_inv inos (closed @ [opn]) [static e] (A @ B') [e'] rest dir1 (Some p) count1 offset1"
      "length B' = length B" "dd_parent dir1 = dd_parent dir" by blast
    show ?thesis
      using Cons.IH [OF r(2) _ enc [unfolded r(1)]] r(3,4) Cons.prems(2) by simp
  next
    case False
    from join_run [OF Cons.prems(1,2) this mem [unfolded eqTrueI [OF ok]], of "[Suc p..<Suc p + length rest]"]
    obtain e' dir1 count1 offset1 where r:
      "encode_entries inos (p # [Suc p..<Suc p + length rest]) h dir reference count offset =
         encode_entries inos [Suc p..<Suc p + length rest] h1 dir1 reference count1 offset1"
      "enc_inv inos closed (opn @ [static e]) A (B @ [e']) rest dir1 reference count1 offset1"
      "dd_parent dir1 = dd_parent dir" by blast
    show ?thesis
      using Cons.IH [OF r(2) _ enc [unfolded r(1)]] r(3) Cons.prems(2) by simp
  qed
qed

text \<open>All entries, with the count of the last header filled in.\<close>

definition count_last :: "nat option \<Rightarrow> u32 \<Rightarrow> libsqfs_directory \<Rightarrow> libsqfs_directory" where
  "count_last reference count dir = (case reference of None \<Rightarrow> dir
     | Some r \<Rightarrow> dir\<lparr>dd_entries := (dd_entries dir)[r := set_header_count (count - 1) (dd_entries dir ! r)]\<rparr>)"

lemma encode_all:
  assumes dir: "first_indexed dir = []" "indexed_count dir = 0"
    and enc: "encode_entries inos [0..<length (dd_entries dir)] h dir None 0 0 = (True, dir', reference, count, offset, h')"
  shows "\<exists>runs. concat runs = map static (dd_entries dir) \<and> (\<forall>run \<in> set runs. run_ok inos run) \<and>
    map static (dd_entries (count_last reference count dir')) = map static (dd_entries dir) \<and>
    map de_encoded_data (dd_entries (count_last reference count dir')) =
      map Some (concat (map (closed_bytes inos) runs)) \<and>
    numbered (dd_entries (count_last reference count dir')) (concat (map (closed_bytes inos) runs)) \<and>
    offset = length (concat (concat (map (closed_bytes inos) runs))) \<and>
    first_indexed dir' = run_starts 0 runs \<and> indexed_count dir' = length runs \<and> dd_parent dir' = dd_parent dir"
proof (cases "dd_entries dir")
  case Nil
  then show ?thesis using enc dir by (intro exI [of _ "[]"]) (simp add: count_last_def numbered_def)
next
  case (Cons e rest)
  have upt: "[0..<length (dd_entries dir)] = 0 # [1..<1 + length rest]" by (simp add: Cons upt_rec)
  obtain ok h1 where mem: "malloc h = (ok, h1)" by (cases "malloc h")
  have ok: "ok" using enc [unfolded upt] mem by (cases ok) (simp_all add: Let_def)
  from first_run [OF Cons dir mem [unfolded eqTrueI [OF ok]], of inos "[1..<1 + length rest]"]
  obtain e' dir1 offset1 where f:
    "encode_entries inos (0 # [1..<1 + length rest]) h dir None 0 0 =
       encode_entries inos [1..<1 + length rest] h1 dir1 (Some 0) 1 offset1"
    "enc_inv inos [] [static e] [] [e'] rest dir1 (Some 0) 1 offset1" "dd_parent dir1 = dd_parent dir" by blast
  from encode_loop [OF f(2) _ enc [unfolded upt f(1)]]
  obtain closed opn A B where l: "enc_inv inos closed opn A B [] dir' reference count offset"
    "concat closed @ opn = map static (dd_entries dir)" "dd_parent dir' = dd_parent dir"
    using f(3) by (auto simp: Cons)
  note i = l(1) [unfolded enc_inv_def]
  from close_run [OF l(1)] obtain B' where c:
    "dd_entries (count_last reference count dir') = A @ B'" "map static B' = opn"
    "map de_encoded_data B' = map Some (closed_bytes inos opn)"
    "numbered (A @ B') (concat (map (closed_bytes inos) (closed @ [opn])))"
    using i by (auto simp: count_last_def)
  have size: "offset = length (concat (concat (map (closed_bytes inos) (closed @ [opn]))))"
  proof -
    have "map length (concat (map (closed_bytes inos) (closed @ [opn]))) = map length (runs_bytes inos closed opn)"
      using map_length_run_bytes [of inos _ opn 0] by simp
    from arg_cong [OF this, of sum_list] show ?thesis using i by (simp add: length_concat)
  qed
  have starts: "length (run_starts k xs) = length xs" for k and xs :: "(cstring \<times> nat) list list"
    by (induction xs arbitrary: k) simp_all
  show ?thesis
  proof (intro exI [of _ "closed @ [opn]"] conjI)
    show "numbered (dd_entries (count_last reference count dir')) (concat (map (closed_bytes inos) (closed @ [opn])))"
      unfolding c(1) by (rule c(4))
    show "indexed_count dir' = length (closed @ [opn])" using i by (simp add: starts)
    show "map static (dd_entries (count_last reference count dir')) = map static (dd_entries dir)"
      unfolding c(1) l(2) [symmetric] using i c(2) by simp
    show "map de_encoded_data (dd_entries (count_last reference count dir')) =
        map Some (concat (map (closed_bytes inos) (closed @ [opn])))"
      unfolding c(1) using i c(3) by simp
    show "\<forall>run \<in> set (closed @ [opn]). run_ok inos run" using i by auto
    show "first_indexed dir' = run_starts 0 (closed @ [opn])" using i by blast
  qed (use l size in simp_all)
qed

section \<open>Into the table\<close>

abbreviation written :: "libsqfs_directory_entry \<Rightarrow> libsqfs_metatable_entry \<Rightarrow> libsqfs_directory_entry" where
  "written e at \<equiv> e\<lparr>directory_table_entry := at, de_encoded_data := None\<rparr>"


lemma upd_directory_comp [simp]:
  "n < length (inodes img) \<Longrightarrow> upd_directory n f (upd_directory n g img) = upd_directory n (\<lambda>d. f (g d)) img"
  by (simp add: upd_directory_def upd_inode_def)

lemma directory_at_upd [simp]:
  "n < length (inodes img) \<Longrightarrow> directory_at (upd_directory n f img) n = f (directory_at img n)"
  by (simp add: upd_directory_def upd_inode_def)

lemma upd_directory_frame [simp]:
  "mem (upd_directory n f img) = mem img" "dir_table (upd_directory n f img) = dir_table img"
  "inode_table (upd_directory n f img) = inode_table img"
  "length (inodes (upd_directory n f img)) = length (inodes img)"
  "upd_directory n f img\<lparr>mem := h\<rparr> = upd_directory n f (img\<lparr>mem := h\<rparr>)"
  "upd_directory n f img\<lparr>dir_table := t\<rparr> = upd_directory n f (img\<lparr>dir_table := t\<rparr>)"
  by (simp_all add: upd_directory_def upd_inode_def)

lemma upd_directory_idem:
  assumes "n < length (inodes img)" "in_body (inode_at img n) = Directory_Inode d" "f d = d"
  shows "upd_directory n f img = img"
proof -
  have same: "(inode_at img n)\<lparr>in_body := Directory_Inode d\<rparr> = inode_at img n" using assms(2) by simp
  show ?thesis unfolding upd_directory_def upd_inode_def assms(2) libsqfs_inode_body.sel assms(3) same by simp
qed

lemma upd_directory_body [simp]:
  "n < length (inodes img) \<Longrightarrow> in_body (inode_at (upd_directory n f img) n) = Directory_Inode (f (directory_at img n))"
  by (simp add: upd_directory_def upd_inode_def)

text \<open>One round: what is left to do is the same for the entries behind.\<close>

lemma write_entries_step:
  fixes first :: bool
  assumes dir: "n < length (inodes img)" "in_body (inode_at img n) = Directory_Inode d" "dd_entries d = A @ b # B"
    and data: "de_encoded_data b = Some x"
    and app: "libsqfs_metatable_append (mem img) (dir_table img) x = Some (ok, at, tab, h)"
  defines "img1 \<equiv> upd_directory n (\<lambda>d. d\<lparr>dir_table_entry := (if first then at else dir_table_entry d),
      dd_entries := A @ written b at # B\<rparr>) (img\<lparr>mem := h, dir_table := tab\<rparr>)"
  shows "write_entries n [length A..<length A + length (b # B)] first img =
    (if ok then write_entries n [length (A @ [written b at])..<length (A @ [written b at]) + length B] False img1
     else Some (False, upd_directory n (\<lambda>d. d\<lparr>dd_entries := A @ b\<lparr>directory_table_entry := at\<rparr> # B\<rparr>)
       (img\<lparr>mem := h, dir_table := tab\<rparr>)))"
proof -
  have upt: "[length A..<length A + length (b # B)] = length A # [length (A @ [b])..<length (A @ [b]) + length B]"
    by (simp add: upt_rec)
  have d: "directory_at img n = d" using dir by simp
  have entry: "dd_entries d ! length A = b" using dir by simp
  have same: "f d = g d \<Longrightarrow> upd_directory n f (img\<lparr>mem := h, dir_table := tab\<rparr>) =
      upd_directory n g (img\<lparr>mem := h, dir_table := tab\<rparr>)" for f g
    using d by (simp add: upd_directory_def upd_inode_def)
  let ?f = "\<lambda>d. d\<lparr>dd_entries := (dd_entries d)[length A := (dd_entries d ! length A)\<lparr>directory_table_entry := at\<rparr>]\<rparr>"
  let ?g = "\<lambda>d. d\<lparr>dir_table_entry := (if first then at else dir_table_entry d),
    dd_entries := (dd_entries d)[length A := (((dd_entries d)[length A := (dd_entries d ! length A)\<lparr>directory_table_entry := at\<rparr>]) !
      length A)\<lparr>de_encoded_data := None\<rparr>]\<rparr>"
  have "write_entries n [length A..<length A + length (b # B)] first img =
      (if ok then write_entries n [length (A @ [b])..<length (A @ [b]) + length B] False
         (upd_directory n ?g (img\<lparr>mem := h, dir_table := tab\<rparr>))
       else Some (False, upd_directory n ?f (img\<lparr>mem := h, dir_table := tab\<rparr>)))"
    unfolding upt using app dir(1)
    by (cases first; cases ok) (simp_all add: append_dir_table_def Let_def d entry data del: upt_Suc)
  also have "upd_directory n ?g (img\<lparr>mem := h, dir_table := tab\<rparr>) = img1"
    unfolding img1_def by (rule same) (simp add: dir(3) list_update_append)
  also have "upd_directory n ?f (img\<lparr>mem := h, dir_table := tab\<rparr>) =
      upd_directory n (\<lambda>d. d\<lparr>dd_entries := A @ b\<lparr>directory_table_entry := at\<rparr> # B\<rparr>) (img\<lparr>mem := h, dir_table := tab\<rparr>)"
    by (rule same) (simp add: dir(3) list_update_append)
  finally show ?thesis by simp
qed

lemma write_entries_all:
  assumes "write_entries n [length A..<length A + length B] first img = Some (True, img')" "n < length (inodes img)"
    "in_body (inode_at img n) = Directory_Inode d" "dd_entries d = A @ B" "map de_encoded_data B = map Some ds"
  shows "\<exists>ats tab h. append_all libsqfs_metatable_append (mem img) (dir_table img) ds = Some (True, ats, tab, h) \<and>
    length ats = length B \<and>
    img' = upd_directory n (\<lambda>d. d\<lparr>dir_table_entry := (if first \<and> B \<noteq> [] then hd ats else dir_table_entry d),
      dd_entries := A @ map2 written B ats\<rparr>) (img\<lparr>mem := h, dir_table := tab\<rparr>)"
  using assms
proof (induction B arbitrary: A first img ds d)
  case Nil
  then show ?case by (intro exI [of _ "[]"]) (simp add: upd_directory_idem)
next
  case (Cons b B)
  obtain x xs where ds: "ds = x # xs" "de_encoded_data b = Some x" "map de_encoded_data B = map Some xs"
    using Cons.prems(5) by (cases ds) auto
  have "libsqfs_metatable_append (mem img) (dir_table img) x \<noteq> None"
    using Cons.prems ds(2) by (cases "libsqfs_metatable_append (mem img) (dir_table img) x")
      (auto simp: upt_rec append_dir_table_def)
  then obtain ok at tab h where app: "libsqfs_metatable_append (mem img) (dir_table img) x = Some (ok, at, tab, h)" by auto
  note step = write_entries_step [OF Cons.prems(2-4) ds(2) app, of first]
  have ok: ok using Cons.prems(1) unfolding step by (cases ok) simp_all
  let ?img = "upd_directory n (\<lambda>d. d\<lparr>dir_table_entry := (if first then at else dir_table_entry d),
      dd_entries := A @ written b at # B\<rparr>) (img\<lparr>mem := h, dir_table := tab\<rparr>)"
  from Cons.IH [OF Cons.prems(1) [unfolded step if_P [OF ok]], of "directory_at ?img n" xs] Cons.prems(2-4) ds(3)
  obtain ats tab' h' where IH: "append_all libsqfs_metatable_append h tab xs = Some (True, ats, tab', h')"
    "length ats = length B"
    "img' = upd_directory n (\<lambda>d. d\<lparr>dd_entries := (A @ [written b at]) @ map2 written B ats\<rparr>) (?img\<lparr>mem := h', dir_table := tab'\<rparr>)"
    by auto
  show ?case
    using IH app ok Cons.prems(2)
    by (intro exI [of _ "at # ats"] exI [of _ tab'] exI [of _ h']) (cases first, simp_all add: ds(1))
qed

lemma write_entries_total:
  assumes "n < length (inodes img)" "in_body (inode_at img n) = Directory_Inode d" "dd_entries d = A @ B"
    "map de_encoded_data B = map Some ds" "table_inv decomp (dir_table img)"
  shows "\<exists>ok img'. write_entries n [length A..<length A + length B] first img = Some (ok, img') \<and>
    table_inv decomp (dir_table img') \<and> (mem img = [] \<longrightarrow> ok \<and> mem img' = [])"
  using assms
proof (induction B arbitrary: A first img ds d)
  case (Cons b B)
  obtain x xs where ds: "de_encoded_data b = Some x" "map de_encoded_data B = map Some xs"
    using Cons.prems(4) by (cases ds) auto
  obtain ok at tab h where app: "libsqfs_metatable_append (mem img) (dir_table img) x = Some (ok, at, tab, h)"
    using meta_log.add_total [OF Cons.prems(5)] by blast
  have inv: "table_inv decomp tab" by (rule meta_log.add_inv [OF Cons.prems(5) app])
  have memory: "mem img = [] \<Longrightarrow> ok \<and> h = []" using meta_log.add_memory [OF Cons.prems(5), of x ok at tab h] app by simp
  let ?img = "upd_directory n (\<lambda>d. d\<lparr>dir_table_entry := (if first then at else dir_table_entry d),
      dd_entries := A @ written b at # B\<rparr>) (img\<lparr>mem := h, dir_table := tab\<rparr>)"
  have "\<exists>ok img'. write_entries n [length (A @ [written b at])..<length (A @ [written b at]) + length B] False ?img =
      Some (ok, img') \<and> table_inv decomp (dir_table img') \<and> (mem ?img = [] \<longrightarrow> ok \<and> mem img' = [])"
    using Cons.prems(1,2) inv ds(2) by (intro Cons.IH [of _ "directory_at ?img n"]) simp_all
  then show ?case unfolding write_entries_step [OF Cons.prems(1-3) ds(1) app]
    using memory inv by (cases ok) auto
qed (auto intro: exI [of _ True])

lemma directory_encode_writes:
  assumes n: "n < length (inodes img)" "in_body (inode_at img n) = Directory_Inode d"
    and e: "encode_entries (inodes img) [0..<length (dd_entries d)] (mem img) d None 0 0 =
      (True, d1, reference, count, offset, h)"
  shows "libsqfs_directory_encode n img = write_entries n [0..<length (dd_entries d)] True
    (upd_directory n (\<lambda>_. (count_last reference count d1)\<lparr>encoded_entries_size := offset,
      dir_table_entry := \<lparr>me_block = 0, me_offset = 0\<rparr>\<rparr>) (img\<lparr>mem := h\<rparr>))"
  using n e by (simp add: libsqfs_directory_encode_def Let_def count_last_def del: upt_Suc cong: option.case_cong)

text \<open>
  The whole of \<open>libsqfs_directory_encode\<close>, when it succeeds for a directory that has not been
  encoded before: the pieces of the runs are appended to the table, one per entry.
\<close>

lemma directory_encode_runs:
  assumes n: "n < length (inodes img)" "in_body (inode_at img n) = Directory_Inode d"
    and fresh: "first_indexed d = []" "indexed_count d = 0"
    and enc: "libsqfs_directory_encode n img = Some (True, img')"
  shows "\<exists>runs h ats tab h'. concat runs = map static (dd_entries d) \<and>
    (\<forall>run \<in> set runs. run_ok (inodes img) run) \<and> length ats = length (dd_entries d) \<and>
    append_all libsqfs_metatable_append h (dir_table img) (concat (map (closed_bytes (inodes img)) runs)) =
      Some (True, ats, tab, h') \<and>
    dir_table img' = tab \<and> mem img' = h' \<and>
    encoded_entries_size (directory_at img' n) = length (concat (concat (map (closed_bytes (inodes img)) runs))) \<and>
    dir_table_entry (directory_at img' n) = hd (ats @ [\<lparr>me_block = 0, me_offset = 0\<rparr>]) \<and>
    map static (dd_entries (directory_at img' n)) = map static (dd_entries d) \<and>
    map directory_table_entry (dd_entries (directory_at img' n)) = ats \<and>
    numbered (dd_entries (directory_at img' n)) (concat (map (closed_bytes (inodes img)) runs)) \<and>
    first_indexed (directory_at img' n) = run_starts 0 runs \<and> indexed_count (directory_at img' n) = length runs \<and>
    dd_parent (directory_at img' n) = dd_parent d \<and>
    img' = upd_directory n (\<lambda>_. directory_at img' n) (img\<lparr>mem := mem img', dir_table := dir_table img'\<rparr>)"
proof -
  have dir: "directory_at img n = d" using n by simp
  obtain ok d1 reference count offset h where e: "encode_entries (inodes img) [0..<length (dd_entries d)] (mem img) d None 0 0 =
      (ok, d1, reference, count, offset, h)"
    by (cases "encode_entries (inodes img) [0..<length (dd_entries d)] (mem img) d None 0 0") blast
  have ok: ok using enc e by (cases ok) (simp_all add: libsqfs_directory_encode_def dir Let_def)
  let ?d2 = "(count_last reference count d1)\<lparr>encoded_entries_size := offset, dir_table_entry := \<lparr>me_block = 0, me_offset = 0\<rparr>\<rparr>"
  let ?img = "upd_directory n (\<lambda>_. ?d2) (img\<lparr>mem := h\<rparr>)"
  have w: "write_entries n [0..<length (dd_entries d)] True ?img = Some (True, img')"
    using enc unfolding directory_encode_writes [OF n e [unfolded eqTrueI [OF ok]]] .
  from encode_all [OF fresh e [unfolded eqTrueI [OF ok]]] obtain runs where runs:
    "concat runs = map static (dd_entries d)" "\<forall>run \<in> set runs. run_ok (inodes img) run"
    "map static (dd_entries (count_last reference count d1)) = map static (dd_entries d)"
    "map de_encoded_data (dd_entries (count_last reference count d1)) = map Some (concat (map (closed_bytes (inodes img)) runs))"
    "numbered (dd_entries (count_last reference count d1)) (concat (map (closed_bytes (inodes img)) runs))"
    "offset = length (concat (concat (map (closed_bytes (inodes img)) runs)))"
    "first_indexed d1 = run_starts 0 runs" "indexed_count d1 = length runs" "dd_parent d1 = dd_parent d" by blast
  have len: "length (dd_entries (count_last reference count d1)) = length (dd_entries d)"
    using arg_cong [OF runs(3), of length] by simp
  have frame: "first_indexed (count_last reference count d1) = first_indexed d1"
    "indexed_count (count_last reference count d1) = indexed_count d1"
    "dd_parent (count_last reference count d1) = dd_parent d1"
    by (simp_all add: count_last_def split: option.split)
  have "write_entries n [length []..<length [] + length (dd_entries (count_last reference count d1))] True ?img =
      Some (True, img')" using w len by simp
  from write_entries_all [OF this, of ?d2 "concat (map (closed_bytes (inodes img)) runs)"] n runs(4)
  obtain ats tab h' where wr: "append_all libsqfs_metatable_append h (dir_table img)
      (concat (map (closed_bytes (inodes img)) runs)) = Some (True, ats, tab, h')" "length ats = length (dd_entries d)"
    "img' = upd_directory n (\<lambda>d. d\<lparr>dir_table_entry := (if dd_entries (count_last reference count d1) \<noteq> [] then hd ats
       else dir_table_entry d), dd_entries := map2 written (dd_entries (count_last reference count d1)) ats\<rparr>)
      (?img\<lparr>mem := h', dir_table := tab\<rparr>)"
    by (auto simp: len)
  let ?es = "dd_entries (count_last reference count d1)"
  have d': "directory_at img' n = ?d2\<lparr>dir_table_entry := hd (ats @ [\<lparr>me_block = 0, me_offset = 0\<rparr>]), dd_entries := map2 written ?es ats\<rparr>"
    using wr(2,3) n len by (cases ats) auto
  have m2: "map f (map2 written ?es ats) = map f ?es" if "\<And>e at. f (written e at) = f e" for f :: "libsqfs_directory_entry \<Rightarrow> 'x"
    using that wr(2) len by (intro nth_equalityI) simp_all
  show ?thesis
  proof (intro exI conjI)
    show "append_all libsqfs_metatable_append h (dir_table img) (concat (map (closed_bytes (inodes img)) runs)) =
      Some (True, ats, tab, h')" by (rule wr(1))
    show "map static (dd_entries (directory_at img' n)) = map static (dd_entries d)"
      unfolding d' using m2 [of static] runs(3) by simp
    show "map directory_table_entry (dd_entries (directory_at img' n)) = ats"
      unfolding d' using wr(2) len by (intro nth_equalityI) simp_all
    show "numbered (dd_entries (directory_at img' n)) (concat (map (closed_bytes (inodes img)) runs))"
      by (rule numbered_cong [OF runs(5)]) (use m2 [of de_serialno] m2 [of de_offset] in \<open>simp_all add: d'\<close>)
    have "upd_directory n f (upd_directory n g i) = upd_directory n (\<lambda>_. directory_at (upd_directory n f (upd_directory n g i)) n)
        (i\<lparr>mem := mem (upd_directory n f (upd_directory n g i)), dir_table := dir_table (upd_directory n f (upd_directory n g i))\<rparr>)"
      if "n < length (inodes i)" for f g i
      using that by (simp add: upd_directory_def upd_inode_def)
    note this [of "img\<lparr>mem := h', dir_table := tab\<rparr>"]
    then show "img' = upd_directory n (\<lambda>_. directory_at img' n) (img\<lparr>mem := mem img', dir_table := dir_table img'\<rparr>)"
      using wr(3) n(1) by simp
  qed (use runs wr d' n frame in simp_all)
qed


text \<open>Encoding always returns: every entry has been encoded before any of them is written.\<close>

lemma encode_entries_memory:
  assumes "encode_entries inos ps [] dir reference count offset = (ok, dir', reference', count', offset', h')"
  shows "ok \<and> h' = []"
proof -
  have "fst (encode_entries inos ps [] dir reference count offset) \<and>
      snd (snd (snd (snd (snd (encode_entries inos ps [] dir reference count offset))))) = []"
    by (induction ps arbitrary: dir reference count offset) (simp_all add: Let_def)
  then show ?thesis using assms by simp
qed

lemma directory_encode_total:
  assumes n: "n < length (inodes img)" "in_body (inode_at img n) = Directory_Inode d"
    and fresh: "first_indexed d = []" "indexed_count d = 0" and inv: "table_inv decomp (dir_table img)"
  shows "\<exists>ok img'. libsqfs_directory_encode n img = Some (ok, img') \<and> (mem img = [] \<longrightarrow> ok \<and> mem img' = [])"
proof -
  have dir: "directory_at img n = d" using n by simp
  obtain ok d1 reference count offset h where e: "encode_entries (inodes img) [0..<length (dd_entries d)] (mem img) d None 0 0 =
      (ok, d1, reference, count, offset, h)"
    by (cases "encode_entries (inodes img) [0..<length (dd_entries d)] (mem img) d None 0 0") blast
  have memory: "ok" if "mem img = []"
    using encode_entries_memory [of "inodes img" "[0..<length (dd_entries d)]" d None 0 0] e that by simp
  show ?thesis
  proof (cases ok)
    case False
    then show ?thesis using e memory n
      by (intro exI [of _ False] exI [of _ "upd_directory n (\<lambda>_. d1) (img\<lparr>mem := h\<rparr>)"])
        (auto simp: libsqfs_directory_encode_def Let_def)
  next
    case True
    note e = e [unfolded eqTrueI [OF True]]
    let ?d2 = "(count_last reference count d1)\<lparr>encoded_entries_size := offset, dir_table_entry := \<lparr>me_block = 0, me_offset = 0\<rparr>\<rparr>"
    let ?img = "upd_directory n (\<lambda>_. ?d2) (img\<lparr>mem := h\<rparr>)"
    from encode_all [OF fresh e] obtain runs where runs:
      "map static (dd_entries (count_last reference count d1)) = map static (dd_entries d)"
      "map de_encoded_data (dd_entries (count_last reference count d1)) =
        map Some (concat (map (closed_bytes (inodes img)) runs))" by blast
    let ?es = "dd_entries (count_last reference count d1)"
    have len: "[length ([] :: libsqfs_directory_entry list)..<length ([] :: libsqfs_directory_entry list) + length ?es] = [0..<length (dd_entries d)]"
      using arg_cong [OF runs(1), of length] by simp
    have "mem img = [] \<Longrightarrow> h = []"
      using encode_entries_memory [of "inodes img" "[0..<length (dd_entries d)]" d None 0 0] e by simp
    moreover have "\<exists>ok img'. write_entries n [length ([] :: libsqfs_directory_entry list)..<length ([] :: libsqfs_directory_entry list) + length ?es] True ?img = Some (ok, img') \<and>
        table_inv decomp (dir_table img') \<and> (mem ?img = [] \<longrightarrow> ok \<and> mem img' = [])"
      by (rule write_entries_total [of _ _ ?d2]) (use n inv runs(2) in simp_all)
    note this [unfolded len]
    ultimately show ?thesis unfolding directory_encode_writes [OF n e] by auto
  qed
qed


section \<open>Properties\<close>

lemma run_starts_iff: "p \<in> set (run_starts k runs) \<longleftrightarrow> (\<exists>i < length runs. p = k + length (concat (take i runs)))"
  by (induction runs arbitrary: k) (auto simp: less_Suc_eq_0_disj add.assoc)

lemma length_runs_le: "\<forall>run \<in> set runs. run \<noteq> [] \<Longrightarrow> length runs \<le> length (concat runs)"
proof (induction runs)
  case (Cons run runs)
  then show ?case by (cases run) auto
qed simp

lemma take_runs:
  "take (length (concat (take i runs))) (concat (map (closed_bytes inos) runs)) =
   concat (map (closed_bytes inos) (take i runs))"
proof -
  have len: "length (concat (map (closed_bytes inos) rs)) = length (concat rs)" for rs
    by (induction rs) simp_all
  have "concat (map (closed_bytes inos) runs) =
      concat (map (closed_bytes inos) (take i runs)) @ concat (map (closed_bytes inos) (drop i runs))"
    by (metis append_take_drop_id concat_append map_append)
  then show ?thesis by (simp add: len)
qed

lemma listing_of_runs:
  assumes "concat runs = map static es" "\<forall>run \<in> set runs. run_ok inos run" "\<forall>e \<in> set es. name_ok (de_name e)"
  shows "read_listing (length es) (concat (concat (map (closed_bytes inos) runs))) =
    Some (map (\<lambda>e. dirent_view inos (static e)) es)"
proof -
  have "\<forall>e \<in> set (concat runs). name_ok (fst e)" unfolding assms(1) using assms(3) by auto
  then have "\<forall>run \<in> set runs. \<forall>e \<in> set run. name_ok (fst e)" by auto
  moreover have "length runs \<le> length es"
    using length_runs_le [of runs] assms(1,2) by (auto simp: run_ok_def dest: arg_cong [of _ _ length])
  ultimately show ?thesis using read_listing_runs [OF assms(2)] assms(1) by (simp add: comp_def)
qed

text \<open>A directory with two files, for the examples.\<close>

definition demo_entry :: "cstring \<Rightarrow> nat \<Rightarrow> libsqfs_directory_entry" where
  "demo_entry name i = \<lparr>de_name = name, de_inode = i, de_serialno = 0, de_offset = 0,
     directory_table_entry = no_entry, de_encoded_data = None, de_encoded_size = 0\<rparr>"

definition demo_inode :: "libsqfs_inode_body \<Rightarrow> u32 \<Rightarrow> libsqfs_inode" where
  "demo_inode body i = \<lparr>in_body = body, in_attr = demo_attr, in_nlink = 1,
     inode_table_entry = \<lparr>me_block = 0, me_offset = 0\<rparr>, in_inode_number = i, encoded_type = 6, encoded_base_type = 6\<rparr>"

definition demo_dir :: libsqfs_directory where
  "demo_dir = empty_directory\<lparr>dd_entries := [demo_entry (cstr ''a'') 1, demo_entry (cstr ''b'') 2]\<rparr>"

definition demo_tree :: libsqfs_image where
  "demo_tree = demo_image\<lparr>inodes :=
     [demo_inode (Directory_Inode demo_dir) 1,
      demo_inode Fifo_Inode 2, demo_inode Fifo_Inode 3]\<rparr>"

lemma demo_tree_facts:
  "0 < length (inodes demo_tree)" "in_body (inode_at demo_tree 0) = Directory_Inode demo_dir"
  "first_indexed demo_dir = []" "indexed_count demo_dir = 0" "dd_entries demo_dir \<noteq> []" "length (dd_entries demo_dir) = 2"
  "table_inv (\<lambda>bs. bs) (dir_table demo_tree)" "table_bytes (\<lambda>bs. bs) (dir_table demo_tree) = []"
  "\<forall>e \<in> set (dd_entries demo_dir). name_ok (de_name e)" "map de_name (dd_entries demo_dir) = [cstr ''a'', cstr ''b'']"
  "mem demo_tree = []"
  by (simp_all add: demo_tree_def demo_dir_def demo_inode_def demo_image_def demo_entry_def init_inv)

lemma demo_tree_encodes: "\<exists>img'. libsqfs_directory_encode 0 demo_tree = Some (True, img')"
  using directory_encode_total [OF demo_tree_facts(1-4,7)] demo_tree_facts(11) by auto

text \<open>C11: a directory whose entries have been encoded. The bytes that were appended to the directory table
  are as many as the directory records, and the reader of the format takes them for exactly the
  entries of the directory, in their order, each with the name and the position, the number and the
  type of its inode, whatever runs the entries were split into.\<close>

theorem directory_listing_roundtrip:
  assumes "n < length (inodes img)" "in_body (inode_at img n) = Directory_Inode d"
    and "first_indexed d = []" "indexed_count d = 0"
    and "table_inv decomp (dir_table img)" "\<forall>e \<in> set (dd_entries d). name_ok (de_name e)"
    and "libsqfs_directory_encode n img = Some (True, img')"
  shows "\<exists>bytes. table_bytes decomp (dir_table img') = table_bytes decomp (dir_table img) @ bytes \<and>
    encoded_entries_size (directory_at img' n) = length bytes \<and>
    read_listing (length (dd_entries d)) bytes = Some (map (\<lambda>e. dirent_view (inodes img) (static e)) (dd_entries d))"
proof -
  from directory_encode_runs [OF assms(1-4,7)] obtain runs h ats h' where r:
    "concat runs = map static (dd_entries d)" "\<forall>run \<in> set runs. run_ok (inodes img) run"
    "append_all libsqfs_metatable_append h (dir_table img) (concat (map (closed_bytes (inodes img)) runs)) =
      Some (True, ats, dir_table img', h')"
    "encoded_entries_size (directory_at img' n) = length (concat (concat (map (closed_bytes (inodes img)) runs)))"
    by blast
  from listing_of_runs [OF r(1,2) assms(6)]
  show ?thesis using meta_log.all_content [OF assms(5) r(3)] r(4)
    by (intro exI [of _ "concat (concat (map (closed_bytes (inodes img)) runs))"]) simp
qed

theorem directory_listing_roundtrip_witness:
  "\<exists>img' bytes. libsqfs_directory_encode 0 demo_tree = Some (True, img') \<and>
    table_bytes (\<lambda>bs. bs) (dir_table img') = bytes \<and>
    map_option (map fst) (read_listing 2 bytes) = Some [cstr ''a'', cstr ''b'']"
proof -
  obtain img' where e: "libsqfs_directory_encode 0 demo_tree = Some (True, img')" using demo_tree_encodes by blast
  have "\<exists>bytes. table_bytes (\<lambda>bs. bs) (dir_table img') = table_bytes (\<lambda>bs. bs) (dir_table demo_tree) @ bytes \<and>
      encoded_entries_size (directory_at img' 0) = length bytes \<and>
      read_listing (length (dd_entries demo_dir)) bytes =
        Some (map (\<lambda>e. dirent_view (inodes demo_tree) (static e)) (dd_entries demo_dir))"
    by (rule directory_listing_roundtrip [OF demo_tree_facts(1-4,7,9) e])
  then obtain bytes where "table_bytes (\<lambda>bs. bs) (dir_table img') = bytes"
    "read_listing 2 bytes = Some (map (\<lambda>e. dirent_view (inodes demo_tree) (static e)) (dd_entries demo_dir))"
    by (auto simp: demo_tree_facts(6,8))
  moreover have "map fst (map (\<lambda>e. dirent_view (inodes demo_tree) (static e)) (dd_entries demo_dir)) = [cstr ''a'', cstr ''b'']"
    using demo_tree_facts(10) by (simp add: dirent_view_def Let_def comp_def)
  ultimately show ?thesis using e by (intro exI [of _ img'] exI [of _ bytes]) simp
qed

lemma first_always_indexed:
  assumes "n < length (inodes img)" "in_body (inode_at img n) = Directory_Inode d"
    "first_indexed d = []" "indexed_count d = 0" "dd_entries d \<noteq> []" "libsqfs_directory_encode n img = Some (True, img')"
  shows "0 \<in> set (first_indexed (directory_at img' n))"
proof -
  from directory_encode_runs [OF assms(1-4,6)] obtain runs where
    "concat runs = map static (dd_entries d)" "first_indexed (directory_at img' n) = run_starts 0 runs" by blast
  with assms(5) show ?thesis by (cases runs) auto
qed

text \<open>C29: the index of a directory. Every indexed entry starts a run of the listing: reading the table from
  the offset that the index records yields exactly the entries from that entry on. So a lookup may
  start at any entry of the index, and thinning it out loses nothing.\<close>

theorem directory_index_starts_runs:
  assumes "n < length (inodes img)" "in_body (inode_at img n) = Directory_Inode d"
    and "first_indexed d = []" "indexed_count d = 0"
    and "table_inv decomp (dir_table img)" "\<forall>e \<in> set (dd_entries d). name_ok (de_name e)"
    and "libsqfs_directory_encode n img = Some (True, img')" "pos \<in> set (first_indexed (directory_at img' n))"
    and entry_def: "entry = dd_entries (directory_at img' n) ! pos"
  shows "pos < length (dd_entries d) \<and>
    position_of decomp (dir_table img') (directory_table_entry entry)
      (length (table_bytes decomp (dir_table img)) + de_offset entry) \<and>
    read_listing (length (dd_entries d))
        (drop (length (table_bytes decomp (dir_table img)) + de_offset entry) (table_bytes decomp (dir_table img'))) =
      Some (map (\<lambda>e. dirent_view (inodes img) (static e)) (drop pos (dd_entries d)))"
proof -
  from directory_encode_runs [OF assms(1-4,7)] obtain runs h ats h' where r:
    "concat runs = map static (dd_entries d)" "\<forall>run \<in> set runs. run_ok (inodes img) run"
    "length ats = length (dd_entries d)"
    "append_all libsqfs_metatable_append h (dir_table img) (concat (map (closed_bytes (inodes img)) runs)) =
      Some (True, ats, dir_table img', h')"
    "map static (dd_entries (directory_at img' n)) = map static (dd_entries d)"
    "map directory_table_entry (dd_entries (directory_at img' n)) = ats"
    "numbered (dd_entries (directory_at img' n)) (concat (map (closed_bytes (inodes img)) runs))"
    "first_indexed (directory_at img' n) = run_starts 0 runs" by blast
  let ?bytes = "concat (map (closed_bytes (inodes img)) runs)"
  obtain i where i: "i < length runs" "pos = length (concat (take i runs))"
    using assms(8) unfolding r(8) run_starts_iff by auto
  have "concat runs = concat (take i runs) @ concat (drop i runs)" by (metis append_take_drop_id concat_append)
  then have drop_pos: "concat (drop i runs) = map static (drop pos (dd_entries d))"
    unfolding i(2) r(1) drop_map [symmetric] by (simp only:) simp
  have "drop i runs = runs ! i # drop (Suc i) runs" "runs ! i \<noteq> []"
    using i(1) r(2) by (auto simp: Cons_nth_drop_Suc run_ok_def)
  then have "concat (drop i runs) \<noteq> []" by simp
  then have pos: "pos < length (dd_entries d)" unfolding drop_pos by simp
  have len: "length (dd_entries (directory_at img' n)) = length (dd_entries d)"
    using arg_cong [OF r(5), of length] by simp
  have offset: "de_offset entry = length (concat (take pos ?bytes))"
    using r(7) pos len unfolding numbered_def entry_def by simp
  have at: "directory_table_entry entry = ats ! pos"
    using arg_cong [OF r(6), of "\<lambda>xs. xs ! pos"] pos len by (simp add: entry_def)
  note content = meta_log.all_content [OF assms(5) r(4)]
  have "pos < length ?bytes" using content r(3) pos by simp
  then have position: "position_of decomp (dir_table img') (directory_table_entry entry)
      (length (table_bytes decomp (dir_table img)) + de_offset entry)"
    using content unfolding offset at by blast
  have "concat ?bytes = concat (take pos ?bytes) @ concat (concat (map (closed_bytes (inodes img)) (drop i runs)))"
    unfolding i(2) take_runs by (metis append_take_drop_id concat_append map_append)
  then have rest: "drop (length (table_bytes decomp (dir_table img)) + de_offset entry) (table_bytes decomp (dir_table img')) =
      concat (concat (map (closed_bytes (inodes img)) (drop i runs)))"
    using content unfolding offset by simp
  have "\<forall>e \<in> set (concat (drop i runs)). name_ok (fst e)" unfolding drop_pos using assms(6) by (auto dest: in_set_dropD)
  moreover have "\<forall>run \<in> set (drop i runs). run_ok (inodes img) run" using r(2) by (auto dest: in_set_dropD)
  moreover have "length (drop i runs) \<le> length (dd_entries d)"
    using length_runs_le [of runs] r(1,2) by (auto simp: run_ok_def dest: arg_cong [of _ _ length])
  ultimately have "read_listing (length (dd_entries d)) (concat (concat (map (closed_bytes (inodes img)) (drop i runs)))) =
      Some (map (dirent_view (inodes img)) (concat (drop i runs)))"
    by (intro read_listing_runs) auto
  then show ?thesis using pos position unfolding rest drop_pos by (simp add: comp_def)
qed

theorem directory_index_starts_runs_witness:
  "\<exists>img'. libsqfs_directory_encode 0 demo_tree = Some (True, img') \<and>
    read_listing 2 (drop (de_offset (dd_entries (directory_at img' 0) ! 0)) (table_bytes (\<lambda>bs. bs) (dir_table img'))) \<noteq> None"
proof -
  obtain img' where e: "libsqfs_directory_encode 0 demo_tree = Some (True, img')" using demo_tree_encodes by blast
  have "0 \<in> set (first_indexed (directory_at img' 0))"
    by (rule first_always_indexed [OF demo_tree_facts(1-5) e])
  from directory_index_starts_runs [OF demo_tree_facts(1-4,7,9) e this refl] e show ?thesis
    by (intro exI [of _ img']) (simp only: demo_tree_facts(6,8), simp)
qed

end
