(* ===== verification/Entries.thy ===== *)
theory Entries
  imports Directory "HOL-Library.Sublist"
begin

text \<open>
  What a directory promises while it is built: its entries stay sorted, as the format asks for, and
  looking a name up finds the entry that was added last under it. And what thinning out the index
  keeps.
\<close>

section \<open>The contract of a dictionary\<close>

text \<open>An insertion is found under its key and hides nothing else.\<close>

locale dictionary =
  fixes insert :: "'k \<Rightarrow> 'v \<Rightarrow> 'm \<Rightarrow> 'm"
    and lookup :: "'m \<Rightarrow> 'k \<Rightarrow> 'v option"
    and ok :: "'m \<Rightarrow> bool"
    and key :: "'k \<Rightarrow> bool"
  assumes insert_ok: "ok m \<Longrightarrow> key k \<Longrightarrow> ok (insert k v m)"
    and lookup_insert: "ok m \<Longrightarrow> key k \<Longrightarrow> key k' \<Longrightarrow> lookup (insert k v m) k' = (if k' = k then Some v else lookup m k')"
begin

lemma insert_all_ok: "ok m \<Longrightarrow> \<forall>(k, v) \<in> set kvs. key k \<Longrightarrow> ok (fold (\<lambda>(k, v). insert k v) kvs m)"
  by (induction kvs arbitrary: m) (auto intro: insert_ok)

lemma lookup_insert_all:
  "ok m \<Longrightarrow> \<forall>(k, v) \<in> set kvs. key k \<Longrightarrow> key k' \<Longrightarrow>
   lookup (fold (\<lambda>(k, v). insert k v) kvs m) k' = (case map_of (rev kvs) k' of Some v \<Rightarrow> Some v | None \<Rightarrow> lookup m k')"
proof (induction kvs arbitrary: m)
  case (Cons kv kvs)
  obtain k v where kv: "kv = (k, v)" by (cases kv)
  have "lookup (fold (\<lambda>(k, v). insert k v) kvs (insert k v m)) k' =
      (case map_of (rev kvs) k' of Some v \<Rightarrow> Some v | None \<Rightarrow> lookup (insert k v m) k')"
    using Cons.prems kv by (intro Cons.IH) (auto intro: insert_ok)
  then show ?case using Cons.prems kv lookup_insert [of m k k' v] by (auto simp: map_add_def split: option.splits)
qed simp

end

section \<open>Sorted entries\<close>

definition entries_ok :: "libsqfs_directory \<Rightarrow> bool" where
  "entries_ok d \<longleftrightarrow> (\<forall>e \<in> set (dd_entries d). is_cstring (de_name e)) \<and>
     sorted_wrt (\<lambda>e f. strcmp (de_name e) (de_name f) \<le> 0) (dd_entries d)"

text \<open>The entry that is added, and the directory with it.\<close>

definition fresh_entry :: "cstring \<Rightarrow> nat \<Rightarrow> libsqfs_directory_entry" where
  "fresh_entry name inode = \<lparr>de_name = name, de_inode = inode, de_serialno = 0, de_offset = 0,
     directory_table_entry = no_entry, de_encoded_data = None, de_encoded_size = 0\<rparr>"

definition with_entry :: "cstring \<Rightarrow> nat \<Rightarrow> libsqfs_directory \<Rightarrow> libsqfs_directory" where
  "with_entry name inode d = d\<lparr>dd_entries := insert_entry (fresh_entry name inode) (dd_entries d)\<rparr>"

lemma set_insert_entry [simp]: "set (insert_entry e es) = insert e (set es)"
  by (induction es) auto

lemma insert_entry_sorted:
  assumes "is_cstring (de_name e)" "\<forall>f \<in> set es. is_cstring (de_name f)"
    "sorted_wrt (\<lambda>e f. strcmp (de_name e) (de_name f) \<le> 0) es"
  shows "sorted_wrt (\<lambda>e f. strcmp (de_name e) (de_name f) \<le> 0) (insert_entry e es)"
  using assms
proof (induction es)
  case (Cons f es)
  show ?case
  proof (cases "strcmp (de_name e) (de_name f) > 0")
    case True
    then have "strcmp (de_name f) (de_name e) \<le> 0" using strcmp_antisym [of "de_name f" "de_name e"] by simp
    with True Cons show ?thesis by simp
  next
    case False
    then have "\<forall>g \<in> set es. strcmp (de_name e) (de_name g) \<le> 0"
      using Cons.prems by (auto intro: strcmp_trans [of "de_name e" "de_name f"])
    with False Cons.prems show ?thesis by simp
  qed
qed simp

text \<open>A name that is found is not in front of a smaller one, so the search finds the new entry first.\<close>

lemma find_insert_entry:
  assumes "is_cstring (de_name e)" "\<forall>f \<in> set es. is_cstring (de_name f)" "is_cstring name"
  shows "find (\<lambda>f. strcmp (de_name f) name = 0) (insert_entry e es) =
    (if name = de_name e then Some e else find (\<lambda>f. strcmp (de_name f) name = 0) es)"
  using assms
proof (induction es)
  case (Cons f es)
  have "strcmp (de_name e) (de_name f) > 0 \<Longrightarrow> de_name f \<noteq> de_name e" by auto
  with Cons show ?case by (auto simp: strcmp_eq_0)
qed (auto simp: strcmp_eq_0)

interpretation names: dictionary with_entry libsqfs_directory_inode_lookup entries_ok is_cstring
proof (unfold_locales, goal_cases)
  case (1 d name inode)
  then show ?case using insert_entry_sorted [of "fresh_entry name inode" "dd_entries d"]
    by (auto simp: entries_ok_def with_entry_def fresh_entry_def)
next
  case (2 d name name' inode)
  then show ?case using find_insert_entry [of "fresh_entry name inode" "dd_entries d" name']
    by (auto simp: entries_ok_def with_entry_def libsqfs_directory_inode_lookup_def fresh_entry_def)
qed

section \<open>Adding an entry\<close>

lemma inode_at_upd:
  "n < length (inodes img) \<Longrightarrow> inode_at (upd_inode n f img) m = (if m = n then f (inode_at img n) else inode_at img m)"
  by (simp add: upd_inode_def)

lemma length_upd_directory [simp]: "length (inodes (upd_directory n f img)) = length (inodes img)"
  by (simp add: upd_directory_def)

lemma flag_error_inodes [simp]:
  "inodes (libsqfs_image_flag_error img s f) = inodes img" "inodes (libsqfs_image_out_of_memory img f) = inodes img"
  by (simp_all add: libsqfs_image_flag_error_def libsqfs_image_out_of_memory_def libsqfs_image_cancel_pending_operations_def Let_def
      split: prod.splits)

text \<open>The image in which memory for the entry is allocated.\<close>

definition adopted :: "nat \<Rightarrow> nat \<Rightarrow> libsqfs_image \<Rightarrow> libsqfs_image" where
  "adopted parent inode img =
     (if libsqfs_inode_get_class (inode_at img inode) = libsqfs_directory_inode_vmt
      then upd_inode parent (\<lambda>i. i\<lparr>in_nlink := in_nlink i + 1\<rparr>)
        (upd_directory inode (\<lambda>d. d\<lparr>dd_parent := Some parent\<rparr>) img)
      else img)"

lemma inode_at_upd_directory:
  "n < length (inodes img) \<Longrightarrow> inode_at (upd_directory n f img) m =
     (if m = n then (inode_at img n)\<lparr>in_body := Directory_Inode (f (directory_at img n))\<rparr> else inode_at img m)"
  by (simp add: upd_directory_def inode_at_upd)

lemma adopted_frame [simp]: "length (inodes (adopted parent inode img)) = length (inodes img)"
    "mem (adopted parent inode img) = mem img"
  by (simp_all add: adopted_def upd_directory_def upd_inode_def)

lemma adopted_entries:
  assumes "parent < length (inodes img)" "inode < length (inodes img)"
  shows "dd_entries (directory_at (adopted parent inode img) n) = dd_entries (directory_at img n)"
  using assms by (simp add: adopted_def inode_at_upd inode_at_upd_directory)

lemma add_entry_parent:
  "libsqfs_directory_add_entry parent name inode img = Some r \<Longrightarrow> \<exists>p. in_body (inode_at img parent) = Directory_Inode p"
  by (simp add: libsqfs_directory_add_entry_def split: libsqfs_inode_body.splits)

lemma add_entry_cases:
  assumes "libsqfs_directory_add_entry parent name inode img = Some (ok, img')"
  obtains (refused) msg where "\<not> ok" "img' = libsqfs_image_flag_error img msg False"
      "dd_parent (directory_at img inode) \<noteq> None"
  | (memory) h where "\<not> ok" "img' = libsqfs_image_out_of_memory (adopted parent inode img\<lparr>mem := h\<rparr>) False"
      "\<And>d. in_body (inode_at img inode) = Directory_Inode d \<Longrightarrow> dd_parent d = None"
  | (added) h where ok "img' = upd_directory parent (with_entry name inode)
      (upd_inode inode (\<lambda>i. i\<lparr>in_nlink := in_nlink i + 1\<rparr>) (adopted parent inode img\<lparr>mem := h\<rparr>))"
      "\<And>d. in_body (inode_at img inode) = Directory_Inode d \<Longrightarrow> dd_parent d = None"
proof -
  show thesis
  proof (cases "libsqfs_inode_get_class (inode_at img inode) = libsqfs_directory_inode_vmt \<and>
      dd_parent (directory_at img inode) \<noteq> None")
    case True
    then show ?thesis using assms refused by (auto simp: libsqfs_directory_add_entry_def split: libsqfs_inode_body.splits)
  next
    case False
    obtain ok1 h1 where m1: "malloc (mem img) = (ok1, h1)" by fastforce
    obtain ok2 h2 where m2: "malloc h1 = (ok2, h2)" by fastforce
    note unfold = libsqfs_directory_add_entry_def Let_def adopted_def [symmetric] if_not_P [OF False]
    have w: "with_entry name inode = (\<lambda>d. d\<lparr>dd_entries := insert_entry (fresh_entry name inode) (dd_entries d)\<rparr>)"
      by (rule ext) (simp add: with_entry_def)
    have orphan: "dd_parent d = None" if "in_body (inode_at img inode) = Directory_Inode d" for d
      using False that by (simp add: libsqfs_inode_get_class_def)
    show ?thesis using assms m1 m2 memory [OF _ _ orphan] added [of h2, unfolded w fresh_entry_def, OF _ _ orphan]
      unfolding unfold by (auto split: libsqfs_inode_body.splits if_splits)
  qed
qed


section \<open>Properties\<close>

text \<open>C13: adding an entry. The directory stays sorted, and looking up a name in it afterwards yields the
  new inode for the new name and what it was before for every other; when the call fails nothing is
  found that was not there before.\<close>

theorem add_entry_lookup:
  assumes "parent < length (inodes img)" "inode < length (inodes img)" "entries_ok (directory_at img parent)"
    and "is_cstring name" "is_cstring name'"
    and "libsqfs_directory_add_entry parent name inode img = Some (ok, img')"
  shows "entries_ok (directory_at img' parent) \<and>
    libsqfs_directory_inode_lookup (directory_at img' parent) name' =
      (if ok \<and> name' = name then Some inode else libsqfs_directory_inode_lookup (directory_at img parent) name')"
proof -
  have same: "entries_ok d' = entries_ok d" "libsqfs_directory_inode_lookup d' name' = libsqfs_directory_inode_lookup d name'"
    "entries_ok (with_entry name inode d') = entries_ok (with_entry name inode d)"
    "libsqfs_directory_inode_lookup (with_entry name inode d') name' = libsqfs_directory_inode_lookup (with_entry name inode d) name'"
    if "dd_entries d' = dd_entries d" for d d'
    using that by (simp_all add: entries_ok_def libsqfs_directory_inode_lookup_def with_entry_def)
  note adopted = same [OF adopted_entries [OF assms(1,2)]]
  show ?thesis using assms(6)
  proof (cases rule: add_entry_cases)
    case (refused msg)
    then show ?thesis using assms(3) by simp
  next
    case (memory h)
    then show ?thesis using assms(3) by (simp add: adopted)
  next
    case (added h)
    have "directory_at img' parent = with_entry name inode (directory_at (adopted parent inode img) parent)"
      using added(2) assms(1,2) by (simp add: inode_at_upd_directory inode_at_upd)
    then show ?thesis using added(1) names.insert_ok [OF assms(3,4), of inode]
        names.lookup_insert [OF assms(3-5), of inode] by (simp add: adopted)
  qed
qed



text \<open>Two directories and a file, for the examples.\<close>

definition demo_dirs :: libsqfs_image where
  "demo_dirs = snd (libsqfs_directory_inode_create demo_attr (snd (libsqfs_directory_inode_create demo_attr demo_image)))"

lemma demo_dirs_facts:
  "length (inodes demo_dirs) = 2" "in_body (inode_at demo_dirs 0) = Directory_Inode empty_directory"
  "in_body (inode_at demo_dirs (Suc 0)) = Directory_Inode empty_directory" "entries_ok empty_directory"
  by (simp_all add: demo_dirs_def libsqfs_directory_inode_create_def libsqfs_inode_init_def demo_image_def entries_ok_def)

theorem add_entry_lookup_witness:
  "\<exists>img'. libsqfs_directory_add_entry 0 (cstr ''bin'') 1 demo_dirs = Some (True, img') \<and>
    libsqfs_directory_inode_lookup (directory_at img' 0) (cstr ''bin'') = Some 1"
proof -
  have "\<exists>img'. libsqfs_directory_add_entry 0 (cstr ''bin'') 1 demo_dirs = Some (True, img')"
    by (simp add: libsqfs_directory_add_entry_def demo_dirs_def libsqfs_directory_inode_create_def libsqfs_inode_init_def
        demo_image_def Let_def libsqfs_inode_get_class_def upd_inode_def upd_directory_def)
  then obtain img' where add: "libsqfs_directory_add_entry 0 (cstr ''bin'') 1 demo_dirs = Some (True, img')" by blast
  with add_entry_lookup [OF _ _ _ _ _ add, of "cstr ''bin''"] show ?thesis
    by (auto simp: demo_dirs_facts is_cstring_def)
qed


section \<open>Thinning out the index\<close>

lemma prune_loop_spec:
  assumes "\<forall>p \<in> set (current # rest). de_serialno (entries ! p) = p" "sorted_wrt (<) (current # rest)"
    "length rest < count" "prune_loop entries current rest count = (kept, count')"
  shows "(\<exists>ks. kept = current # ks) \<and> subseq kept (current # rest) \<and> successively (\<lambda>a b. a + 128 < b) kept \<and>
    count' + length rest + 1 = count + length kept \<and> (\<forall>p \<in> set rest. \<exists>q \<in> set kept. q \<le> p \<and> p \<le> q + 128)"
  using assms
proof (induction rest arbitrary: current count kept count')
  case (Cons p rest)
  show ?case
  proof (cases "p - current > 128")
    case True
    obtain ks c where r: "prune_loop entries p rest count = (ks, c)" by fastforce
    have k: "kept = current # ks" "count' = c" using Cons.prems True r by simp_all
    from Cons.IH [OF _ _ _ r] Cons.prems obtain ks' where IH: "ks = p # ks'" "subseq ks (p # rest)"
      "successively (\<lambda>a b. a + 128 < b) ks" "c + length rest + 1 = count + length ks"
      "\<forall>x \<in> set rest. \<exists>q \<in> set ks. q \<le> x \<and> x \<le> q + 128" by auto
    have "\<forall>x \<in> set (p # rest). \<exists>q \<in> set kept. q \<le> x \<and> x \<le> q + 128"
    proof
      fix x assume x: "x \<in> set (p # rest)"
      have "\<exists>q \<in> set ks. q \<le> x \<and> x \<le> q + 128" using x IH(1,5) by (cases "x = p") auto
      then show "\<exists>q \<in> set kept. q \<le> x \<and> x \<le> q + 128" unfolding k(1) by auto
    qed
    then show ?thesis using IH(1-4) k True by auto
  next
    case False
    have r: "prune_loop entries current rest (count - 1) = (kept, count')" using Cons.prems False by simp
    have c: "length rest < count - 1" using Cons.prems(3) by simp
    from Cons.IH [OF _ _ c r] Cons.prems obtain ks where IH: "kept = current # ks" "subseq kept (current # rest)"
      "successively (\<lambda>a b. a + 128 < b) kept" "count' + length rest + 1 = count - 1 + length kept"
      "\<forall>x \<in> set rest. \<exists>q \<in> set kept. q \<le> x \<and> x \<le> q + 128" by auto
    have "subseq kept (current # p # rest)" using IH(1,2) by auto
    moreover have "\<exists>q \<in> set kept. q \<le> p \<and> p \<le> q + 128" using IH(1) False Cons.prems by auto
    ultimately show ?thesis using IH Cons.prems(3) by auto
  qed
qed auto

text \<open>C30: thinning out the index of a directory. The entries that stay indexed are some of those that were,
  in their order; they, and the first entry before them, which is never indexed, are more than 128
  entries apart, every entry that was indexed is at most 128 entries behind one of them, and the
  number that the inode records is their number.\<close>

theorem prune_index_spec:
  assumes "first_indexed d = first # rest" "sorted_wrt (<) (first_indexed d)" "indexed_count d = length (first_indexed d)"
    and "\<forall>p \<in> set (first_indexed d). de_serialno (dd_entries d ! p) = p"
    and "kept = first_indexed (libsqfs_directory_inode_prune_index d)"
  shows "subseq (first # kept) (first_indexed d) \<and> successively (\<lambda>a b. a + 128 < b) (first # kept) \<and>
    indexed_count (libsqfs_directory_inode_prune_index d) = length kept \<and>
    (\<forall>p \<in> set (first_indexed d). \<exists>q \<in> set (first # kept). q \<le> p \<and> p \<le> q + 128)"
proof -
  obtain ks count where r: "prune_loop (dd_entries d) first rest (indexed_count d) = (ks, count)" by fastforce
  from prune_loop_spec [OF _ _ _ r] assms(1-4) obtain ks' where s: "ks = first # ks'" "subseq ks (first # rest)"
    "successively (\<lambda>a b. a + 128 < b) ks" "count + length rest + 1 = indexed_count d + length ks"
    "\<forall>p \<in> set rest. \<exists>q \<in> set ks. q \<le> p \<and> p \<le> q + 128" by auto
  have k: "kept = ks'" using assms(1,5) r s(1) by (simp add: libsqfs_directory_inode_prune_index_def)
  have "indexed_count (libsqfs_directory_inode_prune_index d) = length kept"
    using assms(1,3) r s(1,4) k by (simp add: libsqfs_directory_inode_prune_index_def)
  then show ?thesis using s assms(1) k by auto
qed

theorem prune_index_spec_witness:
  "first_indexed (libsqfs_directory_inode_prune_index (empty_directory\<lparr>
     dd_entries := map (\<lambda>n. (fresh_entry [1] 0)\<lparr>de_serialno := n\<rparr>) [0..<400],
     first_indexed := [0, 100, 150, 278, 300], indexed_count := 5\<rparr>)) = [150, 300]"
proof -
  let ?d = "empty_directory\<lparr>dd_entries := map (\<lambda>n. (fresh_entry [1] 0)\<lparr>de_serialno := n\<rparr>) [0..<400],
     first_indexed := [0, 100, 150, 278, 300], indexed_count := 5\<rparr>"
  have "successively (\<lambda>a b. a + 128 < b) (0 # first_indexed (libsqfs_directory_inode_prune_index ?d))"
    using prune_index_spec [of ?d 0 "[100, 150, 278, 300]", OF _ _ _ _ refl] by simp
  then show ?thesis by (simp add: libsqfs_directory_inode_prune_index_def fresh_entry_def)
qed

end
