(* ===== verification/Stored.thy ===== *)
theory Stored
  imports Serialize Listing
begin

text \<open>
  What serialising one inode leaves in the tables: a record that the reader of the format takes for
  that inode, at the position the inode remembers, and for a directory the listing of its entries.
\<close>

section \<open>The reader\<close>

text \<open>What a driver learns from the record of an inode, whichever of its two forms it has.\<close>

datatype inode_data =
    Link_Data cstring
  | Device_Data u32
  | Pipe_Data
  | File_Data u64 u64 u64 u32 u32
  | Directory_Data u32 u16 u32 u32

record inode_view =
  iv_type :: u16
  iv_mode :: u16
  iv_uid :: u16
  iv_gid :: u16
  iv_mtime :: u32
  iv_number :: u32
  iv_nlink :: u32
  iv_xattr :: u32
  iv_data :: inode_data

definition view_of_header :: "'a squashfs_base_inode_header_scheme \<Rightarrow> u16 \<Rightarrow> u32 \<Rightarrow> u32 \<Rightarrow> inode_data \<Rightarrow> inode_view" where
  "view_of_header h type nlink xattr data =
     \<lparr>iv_type = type, iv_mode = hdr_mode h, iv_uid = hdr_uid h, iv_gid = hdr_guid h, iv_mtime = hdr_mtime h,
      iv_number = hdr_inode_number h, iv_nlink = nlink, iv_xattr = xattr, iv_data = data\<rparr>"

definition read_symlink :: "byte list \<Rightarrow> (inode_view \<times> byte list) option" where
  "read_symlink bs = do {
     (h, bs) \<leftarrow> decode_symlink_inode_header bs;
     let len = unat (symlink_symlink_size h);
     if length bs < len then None
     else Some (view_of_header h 3 (symlink_nlink h) (-1) (Link_Data (take len bs)), drop len bs) }"

definition read_device :: "u16 \<Rightarrow> byte list \<Rightarrow> (inode_view \<times> byte list) option" where
  "read_device type bs = do {
     (h, bs) \<leftarrow> decode_dev_inode_header bs;
     Some (view_of_header h type (dev_nlink h) (-1) (Device_Data (dev_rdev h)), bs) }"

definition read_ldevice :: "u16 \<Rightarrow> byte list \<Rightarrow> (inode_view \<times> byte list) option" where
  "read_ldevice type bs = do {
     (h, bs) \<leftarrow> decode_ldev_inode_header bs;
     Some (view_of_header h type (ldev_nlink h) (ldev_xattr h) (Device_Data (ldev_rdev h)), bs) }"

definition read_fifo :: "byte list \<Rightarrow> (inode_view \<times> byte list) option" where
  "read_fifo bs = do {
     (h, bs) \<leftarrow> decode_ipc_inode_header bs;
     Some (view_of_header h 6 (ipc_nlink h) (-1) Pipe_Data, bs) }"

definition read_lfifo :: "byte list \<Rightarrow> (inode_view \<times> byte list) option" where
  "read_lfifo bs = do {
     (h, bs) \<leftarrow> decode_lipc_inode_header bs;
     Some (view_of_header h 6 (lipc_nlink h) (lipc_xattr h) Pipe_Data, bs) }"

definition read_file :: "byte list \<Rightarrow> (inode_view \<times> byte list) option" where
  "read_file bs = do {
     (h, bs) \<leftarrow> decode_reg_inode_header bs;
     Some (view_of_header h 2 1 (-1) (File_Data (ucast (reg_start_block h)) (ucast (reg_file_size h)) 0
       (reg_fragment h) (reg_offset h)), bs) }"

definition read_lfile :: "byte list \<Rightarrow> (inode_view \<times> byte list) option" where
  "read_lfile bs = do {
     (h, bs) \<leftarrow> decode_lreg_inode_header bs;
     Some (view_of_header h 2 (lreg_nlink h) (lreg_xattr h) (File_Data (lreg_start_block h) (lreg_file_size h)
       (lreg_sparse h) (lreg_fragment h) (lreg_offset h)), bs) }"

definition read_directory :: "byte list \<Rightarrow> (inode_view \<times> byte list) option" where
  "read_directory bs = do {
     (h, bs) \<leftarrow> decode_dir_inode_header bs;
     Some (view_of_header h 1 (dir_nlink h) (-1) (Directory_Data (dir_start_block h) (dir_offset h)
       (ucast (dir_file_size h)) (dir_parent_inode h)), bs) }"

definition read_ldirectory :: "byte list \<Rightarrow> (inode_view \<times> byte list) option" where
  "read_ldirectory bs = do {
     (h, bs) \<leftarrow> decode_ldir_inode_header bs;
     Some (view_of_header h 1 (ldir_nlink h) (ldir_xattr h) (Directory_Data (ldir_start_block h) (ldir_offset h)
       (ldir_file_size h) (ldir_parent_inode h)), bs) }"

text \<open>The type in the first two bytes tells the records apart.\<close>

definition read_inode :: "byte list \<Rightarrow> (inode_view \<times> byte list) option" where
  "read_inode bs = do {
     (type, rest) \<leftarrow> get_le 2 bs;
     (if type = (SQUASHFS_DIR_TYPE) then read_directory bs
      else if type = SQUASHFS_FILE_TYPE then read_file bs
      else if type = SQUASHFS_SYMLINK_TYPE then read_symlink bs
      else if type = SQUASHFS_BLKDEV_TYPE then read_device SQUASHFS_BLKDEV_TYPE bs
      else if type = SQUASHFS_CHRDEV_TYPE then read_device SQUASHFS_CHRDEV_TYPE bs
      else if type = SQUASHFS_FIFO_TYPE then read_fifo bs
      else if type = SQUASHFS_LDIR_TYPE then read_ldirectory bs
      else if type = SQUASHFS_LREG_TYPE then read_lfile bs
      else if type = SQUASHFS_LBLKDEV_TYPE then read_ldevice SQUASHFS_BLKDEV_TYPE bs
      else if type = SQUASHFS_LCHRDEV_TYPE then read_ldevice SQUASHFS_CHRDEV_TYPE bs
      else if type = SQUASHFS_LFIFO_TYPE then read_lfifo bs
      else None) }"

lemma type_in_front [simp]:
  "get_le 2 (encode_symlink_inode_header s @ bs) = Some (hdr_inode_type s, drop 2 (encode_symlink_inode_header s @ bs))"
  "get_le 2 (encode_dev_inode_header d @ bs) = Some (hdr_inode_type d, drop 2 (encode_dev_inode_header d @ bs))"
  "get_le 2 (encode_ldev_inode_header ld @ bs) = Some (hdr_inode_type ld, drop 2 (encode_ldev_inode_header ld @ bs))"
  "get_le 2 (encode_ipc_inode_header f @ bs) = Some (hdr_inode_type f, drop 2 (encode_ipc_inode_header f @ bs))"
  "get_le 2 (encode_lipc_inode_header lf @ bs) = Some (hdr_inode_type lf, drop 2 (encode_lipc_inode_header lf @ bs))"
  "get_le 2 (encode_reg_inode_header r @ bs) = Some (hdr_inode_type r, drop 2 (encode_reg_inode_header r @ bs))"
  "get_le 2 (encode_lreg_inode_header lr @ bs) = Some (hdr_inode_type lr, drop 2 (encode_lreg_inode_header lr @ bs))"
  "get_le 2 (encode_dir_inode_header di @ bs) = Some (hdr_inode_type di, drop 2 (encode_dir_inode_header di @ bs))"
  "get_le 2 (encode_ldir_inode_header ldi @ bs) = Some (hdr_inode_type ldi, drop 2 (encode_ldir_inode_header ldi @ bs))"
  by (simp_all add: encode_base_inode_header_def encode_symlink_inode_header_def encode_dev_inode_header_def encode_ldev_inode_header_def
      encode_ipc_inode_header_def encode_lipc_inode_header_def encode_reg_inode_header_def encode_lreg_inode_header_def
      encode_dir_inode_header_def encode_ldir_inode_header_def)


section \<open>What the record of an inode should say\<close>

fun body_type :: "libsqfs_inode_body \<Rightarrow> u16" where
  "body_type (Symlink_Inode _) = SQUASHFS_SYMLINK_TYPE"
| "body_type (Device_Inode t _ _) = (if t = chr_c then SQUASHFS_CHRDEV_TYPE else SQUASHFS_BLKDEV_TYPE)"
| "body_type Fifo_Inode = SQUASHFS_FIFO_TYPE"
| "body_type (Regular_Inode _) = SQUASHFS_FILE_TYPE"
| "body_type (Directory_Inode _) = SQUASHFS_DIR_TYPE"

fun body_data :: "libsqfs_image \<Rightarrow> libsqfs_inode_body \<Rightarrow> inode_data" where
  "body_data img (Symlink_Inode name) = Link_Data name"
| "body_data img (Device_Inode t major minor) = Device_Data (encode_rdev major minor)"
| "body_data img Fifo_Inode = Pipe_Data"
| "body_data img (Regular_Inode reg) = File_Data (the (start_block_of reg img)) (file_size reg) (sparse_size reg)
     (fst (the (fragment_of reg img))) (snd (the (fragment_of reg img)))"
| "body_data img (Directory_Inode d) = Directory_Data (me_block (dir_table_entry d)) (ucast (me_offset (dir_table_entry d)))
     (of_nat (encoded_entries_size d + 3)) (parent_inode_number d img)"

text \<open>The format has no symbolic links with extended attributes.\<close>

definition inode_view_of :: "libsqfs_image \<Rightarrow> nat \<Rightarrow> inode_view" where
  "inode_view_of img n = (let i = inode_at img n; a = in_attr i in
     \<lparr>iv_type = body_type (in_body i), iv_mode = ucast (ia_mode a), iv_uid = mapped_uid a, iv_gid = mapped_gid a,
      iv_mtime = ucast (ia_ctime a), iv_number = in_inode_number i, iv_nlink = of_nat (in_nlink i),
      iv_xattr = (if body_type (in_body i) = SQUASHFS_SYMLINK_TYPE then -1
        else case ia_xattrset a of None \<Rightarrow> -1 | Some x \<Rightarrow> x),
      iv_data = body_data img (in_body i)\<rparr>)"

text \<open>What follows the header: the sizes of the blocks of a file, the index of a directory.\<close>

definition block_list :: "libsqfs_regular \<Rightarrow> libsqfs_image \<Rightarrow> u32 list option" where
  "block_list reg img = block_infos (map (\<lambda>n. block_dst reg n img) [0..<length (reg_blocks reg)])"

definition index_record :: "libsqfs_directory \<Rightarrow> nat \<Rightarrow> byte list list" where
  "index_record d pos = (let entry = dd_entries d ! pos in
     [encode_dir_index \<lparr>dir_index_index = of_nat (de_offset entry), dir_index_start_block = me_block (directory_table_entry entry),
        dir_index_size = of_nat (length (de_name entry)) - 1\<rparr>, de_name entry])"

fun body_rest :: "libsqfs_image \<Rightarrow> libsqfs_inode_body \<Rightarrow> byte list" where
  "body_rest img (Regular_Inode reg) = encode_array le32 (the (block_list reg img))"
| "body_rest img (Directory_Inode d) = concat (concat (map (index_record d) (first_indexed d)))"
| "body_rest img _ = []"

text \<open>The chunks of a file have been written.\<close>

definition file_ready :: "libsqfs_image \<Rightarrow> libsqfs_regular \<Rightarrow> bool" where
  "file_ready img reg \<longleftrightarrow> start_block_of reg img \<noteq> None \<and> fragment_of reg img \<noteq> None \<and> block_list reg img \<noteq> None \<and>
     0 \<le> sint (the (start_block_of reg img)) \<and> 0 \<le> sint (file_size reg)"

section \<open>Writing a record\<close>

text \<open>A header, whose position the inode remembers, and what follows it.\<close>

fun append_inode_all :: "byte list list \<Rightarrow> libsqfs_image \<Rightarrow> (bool \<times> libsqfs_image) option" where
  "append_inode_all [] img = Some (True, img)"
| "append_inode_all (d # ds) img = do {
     (ok, pos, img) \<leftarrow> append_inode_table d img;
     if \<not> ok then Some (False, img) else append_inode_all ds img }"

definition write_record :: "nat \<Rightarrow> byte list \<Rightarrow> byte list list \<Rightarrow> libsqfs_image \<Rightarrow> (bool \<times> libsqfs_image) option" where
  "write_record n hdr ds img = do {
     (ok, img) \<leftarrow> append_inode_header n hdr img;
     if \<not> ok then Some (False, img) else append_inode_all ds img }"

text \<open>Bytes within a table, and a table that only grows.\<close>

definition segment :: "byte list \<Rightarrow> nat \<Rightarrow> byte list \<Rightarrow> bool" where
  "segment bs k xs \<longleftrightarrow> (\<exists>a b. bs = a @ xs @ b \<and> length a = k)"

definition grows :: "(byte list \<Rightarrow> byte list) \<Rightarrow> libsqfs_metatable \<Rightarrow> libsqfs_metatable \<Rightarrow> bool" where
  "grows decomp t t' \<longleftrightarrow> table_inv decomp t' \<and> (\<exists>bs. table_bytes decomp t' = table_bytes decomp t @ bs) \<and>
     (\<forall>q k. position_of decomp t q k \<longrightarrow> position_of decomp t' q k)"

lemma segment_append: "segment bs k xs \<Longrightarrow> segment (bs @ cs) k xs"
  unfolding segment_def by (elim exE conjE, rule_tac x = a in exI, rule_tac x = "b @ cs" in exI) simp

lemma segment_last [simp]: "segment (bs @ xs) (length bs) xs"
  unfolding segment_def by (intro exI [of _ bs] exI [of _ "[]"]) simp

lemma grows_refl: "table_inv decomp t \<Longrightarrow> grows decomp t t"
  by (simp add: grows_def)

lemma grows_trans: "grows decomp t t' \<Longrightarrow> grows decomp t' t'' \<Longrightarrow> grows decomp t t''"
  by (auto simp: grows_def)

lemma grows_append_all:
  assumes "table_inv decomp t" "append_all libsqfs_metatable_append h t ds = Some (ok, ps, t', h')"
  shows "table_inv decomp t' \<and> (ok \<longrightarrow> grows decomp t t')"
proof -
  have inv: "table_inv decomp t'" using meta_log.all_total [OF assms(1), of h ds] assms(2) by auto
  have "grows decomp t t'" if ok
    using meta_log.all_content [OF assms(1)] meta_log.all_stable [OF assms] assms(2) that inv by (auto simp: grows_def)
  with inv show ?thesis by blast
qed

lemma append_inode_all_eq:
  "append_inode_all ds img = do {
     (ok, ps, tab, h) \<leftarrow> append_all libsqfs_metatable_append (mem img) (inode_table img) ds;
     Some (ok, img\<lparr>mem := h, inode_table := tab\<rparr>) }"
proof (induction ds arbitrary: img)
  case (Cons d ds)
  show ?case
  proof (cases "libsqfs_metatable_append (mem img) (inode_table img) d")
    case (Some r)
    obtain ok p tab h where r: "r = (ok, p, tab, h)" by (metis prod.exhaust)
    show ?thesis using Some Cons.IH [of "img\<lparr>mem := h, inode_table := tab\<rparr>"]
      by (cases ok) (auto simp: r append_inode_table_def split: bind_splits)
  qed (simp add: append_inode_table_def)
qed simp

lemma upd_inode_frame [simp]:
  "mem (upd_inode n f img) = mem img" "inode_table (upd_inode n f img) = inode_table img"
  "dir_table (upd_inode n f img) = dir_table img"
  "upd_inode n f img\<lparr>mem := h\<rparr> = upd_inode n f (img\<lparr>mem := h\<rparr>)"
  "upd_inode n f img\<lparr>inode_table := t\<rparr> = upd_inode n f (img\<lparr>inode_table := t\<rparr>)"
  by (simp_all add: upd_inode_def)

text \<open>It always returns; on success the record is in the table, where the inode says it is.\<close>

lemma write_record_spec:
  assumes "n < length (inodes img)" "table_inv decomp (inode_table img)"
  shows "\<exists>ok pos tab h. write_record n hdr ds img =
      Some (ok, upd_inode n (\<lambda>i. i\<lparr>inode_table_entry := pos\<rparr>) (img\<lparr>mem := h, inode_table := tab\<rparr>)) \<and>
    (mem img = [] \<longrightarrow> ok \<and> h = []) \<and>
    (ok \<longrightarrow> grows decomp (inode_table img) tab \<and>
      (\<exists>k. position_of decomp tab pos k \<and> segment (table_bytes decomp tab) k (hdr @ concat ds)))"
proof -
  obtain ok pos tab h where one: "libsqfs_metatable_append (mem img) (inode_table img) hdr = Some (ok, pos, tab, h)"
    using meta_log.add_total [OF assms(2)] by blast
  note inv = meta_log.add_inv [OF assms(2) one]
  obtain ok' ps tab' h' where rest: "append_all libsqfs_metatable_append h tab ds = Some (ok', ps, tab', h')"
    using meta_log.all_total [OF inv] by blast
  have all: "append_all libsqfs_metatable_append (mem img) (inode_table img) (hdr # ds) =
      (if ok then Some (ok', pos # ps, tab', h') else Some (False, [pos], tab, h))"
    using one rest by simp
  have eq: "write_record n hdr ds img = (if ok
      then Some (ok', upd_inode n (\<lambda>i. i\<lparr>inode_table_entry := pos\<rparr>) (img\<lparr>mem := h', inode_table := tab'\<rparr>))
      else Some (False, upd_inode n (\<lambda>i. i\<lparr>inode_table_entry := pos\<rparr>) (img\<lparr>mem := h, inode_table := tab\<rparr>)))"
    using one rest by (cases ok) (simp_all add: write_record_def append_inode_header_def append_inode_table_def append_inode_all_eq)
  have memory: "mem img = [] \<Longrightarrow> ok \<and> ok' \<and> h' = []"
    using meta_log.add_memory [OF assms(2), of hdr] one meta_log.all_memory [OF inv, of ds] rest by auto
  show ?thesis
  proof (cases "ok \<and> ok'")
    case True
    then have all': "append_all libsqfs_metatable_append (mem img) (inode_table img) (hdr # ds) = Some (True, pos # ps, tab', h')"
      using all by simp
    note c = meta_log.all_content [OF assms(2) all']
    have "position_of decomp tab' pos (length (table_bytes decomp (inode_table img)))"
      using c by (elim conjE allE [of _ 0]) simp
    moreover have "segment (table_bytes decomp tab') (length (table_bytes decomp (inode_table img))) (hdr @ concat ds)"
      using c by simp
    ultimately show ?thesis using eq True memory grows_append_all [OF assms(2) all']
      by (intro exI [of _ ok'] exI [of _ pos] exI [of _ tab'] exI [of _ h']) auto
  next
    case False
    then show ?thesis using eq memory by (cases ok) auto
  qed
qed


section \<open>One inode\<close>

abbreviation retyped :: "u16 \<Rightarrow> u16 \<Rightarrow> libsqfs_inode \<Rightarrow> libsqfs_inode" where
  "retyped t b i \<equiv> i\<lparr>encoded_type := t, encoded_base_type := b\<rparr>"

text \<open>Serialising is retyping the inode and writing a record that says what it should.\<close>

definition records :: "nat \<Rightarrow> libsqfs_image \<Rightarrow> (bool \<times> libsqfs_image) option \<Rightarrow> bool" where
  "records n img result \<longleftrightarrow> (\<exists>t hdr ds. t \<noteq> 0 \<and>
     result = write_record n hdr ds (upd_inode n (retyped t (body_type (in_body (inode_at img n)))) img) \<and>
     (\<forall>rest. read_inode (hdr @ concat ds @ rest) = Some (inode_view_of img n, body_rest img (in_body (inode_at img n)) @ rest)))"

lemma upd_inode_same:
  "n < length (inodes img) \<Longrightarrow> f (inode_at img n) = g (inode_at img n) \<Longrightarrow> upd_inode n f img = upd_inode n g img"
  by (simp add: upd_inode_def)

lemma one_more: "(do { (ok, pos, img) \<leftarrow> append_inode_table d img; Some (ok, img) }) = append_inode_all [d] img"
  by (simp add: Let_def split: bind_splits prod.splits)

lemmas read_records =
  read_inode_def read_symlink_def read_device_def read_ldevice_def read_fifo_def read_lfifo_def read_file_def
  read_lfile_def read_directory_def read_ldirectory_def view_of_header_def inode_view_of_def Let_def
  symlink_inode_header_codec.dec_enc dev_inode_header_codec.dec_enc ldev_inode_header_codec.dec_enc
  ipc_inode_header_codec.dec_enc lipc_inode_header_codec.dec_enc reg_inode_header_codec.dec_enc
  lreg_inode_header_codec.dec_enc dir_inode_header_codec.dec_enc ldir_inode_header_codec.dec_enc

lemma symlink_records:
  assumes n: "n < length (inodes img)" "in_body (inode_at img n) = Symlink_Inode name" "length name < 2 ^ 32"
  shows "records n img (libsqfs_symlink_inode_serialize n img)"
proof -
  let ?img = "upd_inode n (retyped 3 3) img"
  let ?i = "inode_at ?img n"
  let ?hdr = "\<lparr>hdr_inode_type = encoded_type ?i, hdr_mode = ucast (ia_mode (in_attr ?i)),
      hdr_uid = mapped_uid (in_attr ?i), hdr_guid = mapped_gid (in_attr ?i),
      hdr_mtime = ucast (ia_ctime (in_attr ?i)), hdr_inode_number = in_inode_number ?i,
      symlink_nlink = of_nat (in_nlink ?i), symlink_symlink_size = of_nat (length name)\<rparr> :: squashfs_symlink_inode_header"
  have "libsqfs_symlink_inode_serialize n img = write_record n (encode_symlink_inode_header ?hdr) [name] ?img"
    unfolding libsqfs_symlink_inode_serialize_def Let_def one_more write_record_def using n by simp
  moreover have "read_inode (encode_symlink_inode_header ?hdr @ name @ rest) = Some (inode_view_of img n, rest)" for rest
    using n by (simp add: read_records unat_of_nat)
  ultimately show ?thesis unfolding records_def using n
    by (intro exI [of _ 3] exI [of _ "encode_symlink_inode_header ?hdr"] exI [of _ "[name]"]) simp
qed


text \<open>A header alone.\<close>

lemma header_record: "append_inode_header n hdr img = write_record n hdr [] img"
  by (simp add: write_record_def split: bind_splits prod.splits)

lemma device_records:
  assumes n: "n < length (inodes img)" "in_body (inode_at img n) = Device_Inode type major minor"
  shows "records n img (libsqfs_device_inode_serialize n img)"
proof (cases "ia_xattrset (in_attr (inode_at img n))")
  case None
  let ?b = "body_type (Device_Inode type major minor)"
  let ?i = "retyped ?b ?b (inode_at img n)"
  let ?hdr = "\<lparr>hdr_inode_type = encoded_type ?i, hdr_mode = ucast (ia_mode (in_attr ?i)),
      hdr_uid = mapped_uid (in_attr ?i), hdr_guid = mapped_gid (in_attr ?i),
      hdr_mtime = ucast (ia_ctime (in_attr ?i)), hdr_inode_number = in_inode_number ?i,
      dev_nlink = of_nat (in_nlink ?i), dev_rdev = encode_rdev major minor\<rparr> :: squashfs_dev_inode_header"
  have "libsqfs_device_inode_serialize n img = write_record n (encode_dev_inode_header ?hdr) [] (upd_inode n (retyped ?b ?b) img)"
    unfolding libsqfs_device_inode_serialize_def header_record using n None by (simp add: Let_def)
  moreover have "read_inode (encode_dev_inode_header ?hdr @ rest) = Some (inode_view_of img n, rest)" for rest
    using n None by (simp add: read_records)
  ultimately show ?thesis unfolding records_def using n
    by (intro exI [of _ ?b] exI [of _ "encode_dev_inode_header ?hdr"] exI [of _ "[]"]) simp
next
  case (Some xattr)
  let ?b = "body_type (Device_Inode type major minor)"
  let ?t = "if type = chr_c then SQUASHFS_LCHRDEV_TYPE else SQUASHFS_LBLKDEV_TYPE"
  let ?i = "retyped ?t ?b (inode_at img n)"
  let ?hdr = "\<lparr>hdr_inode_type = encoded_type ?i, hdr_mode = ucast (ia_mode (in_attr ?i)),
      hdr_uid = mapped_uid (in_attr ?i), hdr_guid = mapped_gid (in_attr ?i),
      hdr_mtime = ucast (ia_ctime (in_attr ?i)), hdr_inode_number = in_inode_number ?i,
      ldev_nlink = of_nat (in_nlink ?i), ldev_rdev = encode_rdev major minor, ldev_xattr = xattr\<rparr> :: squashfs_ldev_inode_header"
  have "libsqfs_device_inode_serialize n img = write_record n (encode_ldev_inode_header ?hdr) [] (upd_inode n (retyped ?t ?b) img)"
    unfolding libsqfs_device_inode_serialize_def header_record using n Some by (simp add: Let_def)
  moreover have "read_inode (encode_ldev_inode_header ?hdr @ rest) = Some (inode_view_of img n, rest)" for rest
    using n Some by (simp add: read_records)
  ultimately show ?thesis unfolding records_def using n
    by (intro exI [of _ ?t] exI [of _ "encode_ldev_inode_header ?hdr"] exI [of _ "[]"]) simp
qed

lemma fifo_retyped:
  "n < length (inodes img) \<Longrightarrow> t = (if ia_xattrset (in_attr (inode_at img n)) \<noteq> None then SQUASHFS_LFIFO_TYPE else SQUASHFS_FIFO_TYPE) \<Longrightarrow>
   upd_inode n (\<lambda>i. i\<lparr>encoded_base_type := SQUASHFS_FIFO_TYPE,
     encoded_type := (if ia_xattrset (in_attr i) \<noteq> None then SQUASHFS_LFIFO_TYPE else SQUASHFS_FIFO_TYPE)\<rparr>) img =
   upd_inode n (retyped t SQUASHFS_FIFO_TYPE) img"
  by (rule upd_inode_same) simp_all

lemma fifo_records:
  assumes n: "n < length (inodes img)" "in_body (inode_at img n) = Fifo_Inode"
  shows "records n img (libsqfs_fifo_inode_serialize n img)"
proof (cases "ia_xattrset (in_attr (inode_at img n))")
  case None
  let ?i = "retyped SQUASHFS_FIFO_TYPE SQUASHFS_FIFO_TYPE (inode_at img n)"
  let ?hdr = "\<lparr>hdr_inode_type = encoded_type ?i, hdr_mode = ucast (ia_mode (in_attr ?i)),
      hdr_uid = mapped_uid (in_attr ?i), hdr_guid = mapped_gid (in_attr ?i),
      hdr_mtime = ucast (ia_ctime (in_attr ?i)), hdr_inode_number = in_inode_number ?i,
      ipc_nlink = of_nat (in_nlink ?i)\<rparr> :: squashfs_ipc_inode_header"
  have t: "SQUASHFS_FIFO_TYPE = (if ia_xattrset (in_attr (inode_at img n)) \<noteq> None then SQUASHFS_LFIFO_TYPE else SQUASHFS_FIFO_TYPE)"
    using None by simp
  have "libsqfs_fifo_inode_serialize n img = write_record n (encode_ipc_inode_header ?hdr) []
      (upd_inode n (retyped SQUASHFS_FIFO_TYPE SQUASHFS_FIFO_TYPE) img)"
    unfolding libsqfs_fifo_inode_serialize_def header_record Let_def fifo_retyped [OF n(1) t]
    using n None by simp
  moreover have "read_inode (encode_ipc_inode_header ?hdr @ rest) = Some (inode_view_of img n, rest)" for rest
    using n None by (simp add: read_records)
  ultimately show ?thesis unfolding records_def using n
    by (intro exI [of _ SQUASHFS_FIFO_TYPE] exI [of _ "encode_ipc_inode_header ?hdr"] exI [of _ "[]"]) simp
next
  case (Some xattr)
  let ?i = "retyped SQUASHFS_LFIFO_TYPE SQUASHFS_FIFO_TYPE (inode_at img n)"
  let ?hdr = "\<lparr>hdr_inode_type = encoded_type ?i, hdr_mode = ucast (ia_mode (in_attr ?i)),
      hdr_uid = mapped_uid (in_attr ?i), hdr_guid = mapped_gid (in_attr ?i),
      hdr_mtime = ucast (ia_ctime (in_attr ?i)), hdr_inode_number = in_inode_number ?i,
      lipc_nlink = of_nat (in_nlink ?i), lipc_xattr = xattr\<rparr> :: squashfs_lipc_inode_header"
  have t: "SQUASHFS_LFIFO_TYPE = (if ia_xattrset (in_attr (inode_at img n)) \<noteq> None then SQUASHFS_LFIFO_TYPE else SQUASHFS_FIFO_TYPE)"
    using Some by simp
  have "libsqfs_fifo_inode_serialize n img = write_record n (encode_lipc_inode_header ?hdr) []
      (upd_inode n (retyped SQUASHFS_LFIFO_TYPE SQUASHFS_FIFO_TYPE) img)"
    unfolding libsqfs_fifo_inode_serialize_def header_record Let_def fifo_retyped [OF n(1) t]
    using n Some by simp
  moreover have "read_inode (encode_lipc_inode_header ?hdr @ rest) = Some (inode_view_of img n, rest)" for rest
    using n Some by (simp add: read_records)
  ultimately show ?thesis unfolding records_def using n
    by (intro exI [of _ SQUASHFS_LFIFO_TYPE] exI [of _ "encode_lipc_inode_header ?hdr"] exI [of _ "[]"]) simp
qed


lemma ucast_small:
  fixes x :: u64
  assumes "0 \<le> sint x" "sint x \<le> UINT_MAX"
  shows "ucast (ucast x :: u32) = x"
proof -
  have "uint x = uint (word_of_int (sint x) :: u64)" by simp
  also have "\<dots> = sint x" using assms unfolding uint_word_of_int_eq by (intro take_bit_int_eq_self) simp_all
  finally have "uint x = sint x" .
  then have "uint x < 2 ^ 32" using assms(2) by simp
  then show ?thesis by (simp add: word_uint_eq_iff unsigned_ucast_eq unsigned_take_bit_eq take_bit_int_eq_self)
qed

lemma file_upd [simp]:
  "start_block_of reg (upd_inode n f img) = start_block_of reg img" "fragment_of reg (upd_inode n f img) = fragment_of reg img"
  "block_dst reg k (upd_inode n f img) = block_dst reg k img"
  by (simp_all add: start_block_of_def fragment_of_def block_dst_def upd_inode_def cong: option.case_cong)

lemma regular_records:
  assumes n: "n < length (inodes img)" "in_body (inode_at img n) = Regular_Inode reg" "file_ready img reg"
  shows "records n img (libsqfs_regular_inode_serialize n img)"
proof -
  obtain start fragment offset infos where f: "start_block_of reg img = Some start" "fragment_of reg img = Some (fragment, offset)"
    "block_list reg img = Some infos" "0 \<le> sint start" "0 \<le> sint (file_size reg)"
    using n(3) by (auto simp: file_ready_def)
  obtain type where t: "regular_type (inode_at img n) reg img = Some type" using f(1) by (simp add: regular_type_def)
  let ?i = "retyped type SQUASHFS_FILE_TYPE (inode_at img n)"
  let ?attr = "in_attr ?i"
  let ?img = "upd_inode n (retyped type SQUASHFS_FILE_TYPE) img"
  let ?hdr = "if type = SQUASHFS_FILE_TYPE then encode_reg_inode_header
      \<lparr>hdr_inode_type = encoded_type ?i, hdr_mode = ucast (ia_mode ?attr), hdr_uid = mapped_uid ?attr,
       hdr_guid = mapped_gid ?attr, hdr_mtime = ucast (ia_ctime ?attr), hdr_inode_number = in_inode_number ?i,
       reg_start_block = ucast start, reg_fragment = fragment, reg_offset = offset,
       reg_file_size = ucast (file_size reg)\<rparr>
    else encode_lreg_inode_header
      \<lparr>hdr_inode_type = encoded_type ?i, hdr_mode = ucast (ia_mode ?attr), hdr_uid = mapped_uid ?attr,
       hdr_guid = mapped_gid ?attr, hdr_mtime = ucast (ia_ctime ?attr), hdr_inode_number = in_inode_number ?i,
       lreg_start_block = start, lreg_file_size = file_size reg, lreg_sparse = sparse_size reg,
       lreg_nlink = of_nat (in_nlink ?i), lreg_fragment = fragment, lreg_offset = offset,
       lreg_xattr = (case ia_xattrset ?attr of Some xattr \<Rightarrow> xattr | None \<Rightarrow> -1)\<rparr>"
  let ?ds = "if reg_blocks reg = [] then [] else [encode_array le32 infos]"
  have blocks: "block_infos (map (\<lambda>k. block_dst reg k i) [0..<length (reg_blocks reg)]) = Some infos"
    if "bulkdata i = bulkdata img" for i :: libsqfs_image
    using f(3) that by (simp add: block_list_def block_dst_def)
  have bulk: "append_inode_header n h i = Some (ok, i') \<Longrightarrow> bulkdata i' = bulkdata i" for h i ok i'
    by (auto simp: append_inode_header_def append_inode_table_def split: bind_splits)
  have rest: "(\<lambda>(ok, i). if \<not> ok then Some (False, i) else if reg_blocks reg = [] then Some (True, i)
       else do { infos \<leftarrow> block_infos (map (\<lambda>k. block_dst reg k i) [0..<length (reg_blocks reg)]);
         append_inode_all [encode_array le32 infos] i }) r =
      (\<lambda>(ok, i). if \<not> ok then Some (False, i) else append_inode_all ?ds i) r"
    if "append_inode_header n ?hdr ?img = Some r" for r
    using that bulk blocks by (cases r) (auto simp del: append_inode_all.simps(2))
  have "libsqfs_regular_inode_serialize n img = append_inode_header n ?hdr ?img \<bind>
      (\<lambda>(ok, i). if \<not> ok then Some (False, i) else if reg_blocks reg = [] then Some (True, i)
       else do { infos \<leftarrow> block_infos (map (\<lambda>k. block_dst reg k i) [0..<length (reg_blocks reg)]);
         append_inode_all [encode_array le32 infos] i })"
    unfolding libsqfs_regular_inode_serialize_def Let_def one_more using n t f by simp
  also have "\<dots> = write_record n ?hdr ?ds ?img"
    unfolding write_record_def using rest by (cases "append_inode_header n ?hdr ?img") (simp_all only: bind.simps)
  finally have eq: "libsqfs_regular_inode_serialize n img = write_record n ?hdr ?ds ?img" .
  have type: "type = (if sparse_size reg \<noteq> 0 \<or> in_nlink (inode_at img n) \<noteq> 1 \<or> sint (file_size reg) > UINT_MAX \<or>
        ia_xattrset (in_attr (inode_at img n)) \<noteq> None \<or> (reg_blocks reg \<noteq> [] \<and> sint start > UINT_MAX)
      then SQUASHFS_LREG_TYPE else SQUASHFS_FILE_TYPE)"
    using t unfolding regular_type_def f(1) bind.bind_lunit by (simp only: option.inject)
  then have types: "type = SQUASHFS_FILE_TYPE \<or> type = SQUASHFS_LREG_TYPE" by presburger
  have small: "sparse_size reg = 0" "in_nlink (inode_at img n) = 1" "ucast (ucast (file_size reg) :: u32) = file_size reg"
    "ia_xattrset (in_attr (inode_at img n)) = None" "ucast (ucast start :: u32) = start"
    if "type = SQUASHFS_FILE_TYPE"
  proof -
    have c: "\<not> (sparse_size reg \<noteq> 0 \<or> in_nlink (inode_at img n) \<noteq> 1 \<or> sint (file_size reg) > UINT_MAX \<or>
        ia_xattrset (in_attr (inode_at img n)) \<noteq> None \<or> (reg_blocks reg \<noteq> [] \<and> sint start > UINT_MAX))"
      using type that by (auto split: if_splits)
    have "sint start \<le> UINT_MAX" using c f(1) by (cases "reg_blocks reg = []") (auto simp: start_block_of_def)
    with c f(4,5) show "sparse_size reg = 0" "in_nlink (inode_at img n) = 1"
      "ucast (ucast (file_size reg) :: u32) = file_size reg"
      "ia_xattrset (in_attr (inode_at img n)) = None" "ucast (ucast start :: u32) = start"
      by (simp_all only: ucast_small) (auto intro!: ucast_small)
  qed
  have infos: "reg_blocks reg = [] \<Longrightarrow> infos = []" using f(3) by (simp add: block_list_def)
  have "read_inode (?hdr @ concat ?ds @ rest) = Some (inode_view_of img n, body_rest img (in_body (inode_at img n)) @ rest)" for rest
  proof (cases "type = SQUASHFS_FILE_TYPE")
    case True
    then show ?thesis using n f small infos by (simp add: read_records)
  next
    case False
    then show ?thesis using n f types infos by (simp add: read_records)
  qed
  then show ?thesis unfolding records_def eq using n types
    by (intro exI [of _ type] exI [of _ ?hdr] exI [of _ ?ds]) auto
qed


section \<open>Directories\<close>

lemma write_index_all: "write_index d ps img = append_inode_all (concat (map (index_record d) ps)) img"
proof (induction ps arbitrary: img)
  case (Cons p ps)
  show ?case by (simp add: index_record_def Let_def Cons.IH cong: if_cong)
qed simp

lemma ucast_of_nat_16: "m < 65536 \<Longrightarrow> ucast (of_nat m :: u16) = (of_nat m :: u32)"
  by (simp add: word_unat_eq_iff unsigned_ucast_eq unsigned_of_nat take_bit_nat_eq_self)

lemma directory_inode_records:
  assumes n: "n < length (inodes img)" "in_body (inode_at img n) = Directory_Inode d"
    and type: "encoded_type (inode_at img n) = SQUASHFS_DIR_TYPE \<and> first_indexed d = [] \<and>
        encoded_entries_size d + 3 \<le> USHRT_MAX \<and> ia_xattrset (in_attr (inode_at img n)) = None \<or>
      encoded_type (inode_at img n) = SQUASHFS_LDIR_TYPE"
  shows "\<exists>hdr ds. libsqfs_directory_inode_encode n img = write_record n hdr ds img \<and>
    (\<forall>rest. read_inode (hdr @ concat ds @ rest) = Some (inode_view_of img n, body_rest img (in_body (inode_at img n)) @ rest))"
proof -
  let ?i = "inode_at img n"
  let ?attr = "in_attr ?i"
  show ?thesis
  proof (cases "encoded_type ?i = SQUASHFS_DIR_TYPE")
    case True
    let ?hdr = "encode_dir_inode_header
        \<lparr>hdr_inode_type = encoded_type ?i, hdr_mode = ucast (ia_mode ?attr), hdr_uid = mapped_uid ?attr,
         hdr_guid = mapped_gid ?attr, hdr_mtime = ucast (ia_ctime ?attr), hdr_inode_number = in_inode_number ?i,
         dir_start_block = me_block (dir_table_entry d), dir_nlink = of_nat (in_nlink ?i),
         dir_file_size = of_nat (encoded_entries_size d + 3),
         dir_offset = ucast (me_offset (dir_table_entry d)), dir_parent_inode = parent_inode_number d img\<rparr>"
    have "libsqfs_directory_inode_encode n img = write_record n ?hdr [] img"
      unfolding libsqfs_directory_inode_encode_def header_record using True n by (simp add: Let_def)
    moreover have "ucast (of_nat (encoded_entries_size d + 3) :: u16) = (of_nat (encoded_entries_size d + 3) :: u32)"
      by (rule ucast_of_nat_16) (use True type in simp)
    then have "read_inode (?hdr @ rest) = Some (inode_view_of img n, body_rest img (in_body ?i) @ rest)" for rest
      using True type n by (simp add: read_records)
    ultimately show ?thesis by (intro exI [of _ ?hdr] exI [of _ "[]"]) simp
  next
    case False
    let ?hdr = "encode_ldir_inode_header
          \<lparr>hdr_inode_type = encoded_type ?i, hdr_mode = ucast (ia_mode ?attr), hdr_uid = mapped_uid ?attr,
           hdr_guid = mapped_gid ?attr, hdr_mtime = ucast (ia_ctime ?attr), hdr_inode_number = in_inode_number ?i,
           ldir_nlink = of_nat (in_nlink ?i), ldir_file_size = of_nat (encoded_entries_size d + 3),
           ldir_start_block = me_block (dir_table_entry d), ldir_parent_inode = parent_inode_number d img,
           ldir_i_count = of_nat (indexed_count d), ldir_offset = ucast (me_offset (dir_table_entry d)),
           ldir_xattr = (case ia_xattrset ?attr of Some xattr \<Rightarrow> xattr | None \<Rightarrow> -1)\<rparr>"
    let ?ds = "concat (map (index_record d) (first_indexed d))"
    have "libsqfs_directory_inode_encode n img = write_record n ?hdr ?ds img"
      unfolding libsqfs_directory_inode_encode_def write_record_def write_index_all using False n by (simp add: Let_def)
    moreover have "read_inode (?hdr @ concat ?ds @ rest) = Some (inode_view_of img n, body_rest img (in_body ?i) @ rest)" for rest
      using False type n by (auto simp: read_records)
    ultimately show ?thesis by blast
  qed
qed

section \<open>What is stored of an inode\<close>

definition stored_record :: "(byte list \<Rightarrow> byte list) \<Rightarrow> libsqfs_image \<Rightarrow> nat \<Rightarrow> bool" where
  "stored_record decomp img n \<longleftrightarrow>
     (\<exists>k bytes. position_of decomp (inode_table img) (inode_table_entry (inode_at img n)) k \<and>
        segment (table_bytes decomp (inode_table img)) k bytes \<and>
        (\<forall>rest. read_inode (bytes @ rest) = Some (inode_view_of img n, body_rest img (in_body (inode_at img n)) @ rest)))"

definition stored_listing :: "(byte list \<Rightarrow> byte list) \<Rightarrow> libsqfs_image \<Rightarrow> libsqfs_directory \<Rightarrow> bool" where
  "stored_listing decomp img d \<longleftrightarrow>
     (\<exists>k bytes. (dd_entries d \<noteq> [] \<longrightarrow> position_of decomp (dir_table img) (dir_table_entry d) k) \<and>
        segment (table_bytes decomp (dir_table img)) k bytes \<and> length bytes = encoded_entries_size d \<and>
        read_listing (length (dd_entries d)) bytes = Some (map (\<lambda>e. dirent_view (inodes img) (static e)) (dd_entries d))) \<and>
     (\<forall>e \<in> set (dd_entries d). encoded_type (inode_at img (de_inode e)) \<noteq> 0)"

definition stored :: "(byte list \<Rightarrow> byte list) \<Rightarrow> libsqfs_image \<Rightarrow> nat \<Rightarrow> bool" where
  "stored decomp img n \<longleftrightarrow> encoded_type (inode_at img n) \<noteq> 0 \<and>
     encoded_base_type (inode_at img n) = body_type (in_body (inode_at img n)) \<and> stored_record decomp img n \<and>
     (\<forall>d. in_body (inode_at img n) = Directory_Inode d \<longrightarrow> stored_listing decomp img d)"

end
