(* ===== verification/Filetree.thy ===== *)
theory Filetree
  imports Stored Entries
begin

text \<open>
  Serialising the tree of inodes: the recursion over the directories ends, and what it leaves in the
  tables is the tree.
\<close>

section \<open>How an image may change\<close>

text \<open>
  The part of an inode that serialising does not change: of a directory, its parent and the names and
  inodes of its entries.
\<close>

fun body_shape :: "libsqfs_inode_body \<Rightarrow> libsqfs_inode_body + (nat option \<times> (cstring \<times> nat) list)" where
  "body_shape (Directory_Inode d) = Inr (dd_parent d, map static (dd_entries d))"
| "body_shape b = Inl b"

definition same_shape :: "libsqfs_inode \<Rightarrow> libsqfs_inode \<Rightarrow> bool" where
  "same_shape i j \<longleftrightarrow> body_shape (in_body j) = body_shape (in_body i) \<and> in_attr j = in_attr i \<and> in_nlink j = in_nlink i \<and>
     in_inode_number j = in_inode_number i"

text \<open>The tables grow, and what has been serialised is left alone.\<close>

definition evolves :: "(byte list \<Rightarrow> byte list) \<Rightarrow> libsqfs_image \<Rightarrow> libsqfs_image \<Rightarrow> bool" where
  "evolves decomp img img' \<longleftrightarrow> length (inodes img') = length (inodes img) \<and> bulkdata img' = bulkdata img \<and>
     (\<forall>m. same_shape (inode_at img m) (inode_at img' m)) \<and>
     (\<forall>m < length (inodes img). inode_at img' m = inode_at img m \<or>
       encoded_type (inode_at img m) = 0 \<and> encoded_type (inode_at img' m) \<noteq> 0) \<and>
     grows decomp (inode_table img) (inode_table img') \<and> grows decomp (dir_table img) (dir_table img')"

lemma same_shape_refl [simp]: "same_shape i i"
  by (simp add: same_shape_def)

lemma evolves_refl: "table_inv decomp (inode_table img) \<Longrightarrow> table_inv decomp (dir_table img) \<Longrightarrow> evolves decomp img img"
  by (simp add: evolves_def grows_refl)

lemma evolves_trans:
  assumes "evolves decomp img img'" "evolves decomp img' img''"
  shows "evolves decomp img img''"
proof -
  note a = assms(1) [unfolded evolves_def] and b = assms(2) [unfolded evolves_def]
  have "inode_at img'' m = inode_at img m \<or> encoded_type (inode_at img m) = 0 \<and> encoded_type (inode_at img'' m) \<noteq> 0"
    if m: "m < length (inodes img)" for m
  proof -
    have "inode_at img' m = inode_at img m \<or> encoded_type (inode_at img m) = 0 \<and> encoded_type (inode_at img' m) \<noteq> 0"
      using a m by blast
    moreover have "inode_at img'' m = inode_at img' m \<or> encoded_type (inode_at img' m) = 0 \<and> encoded_type (inode_at img'' m) \<noteq> 0"
      using a b m by simp
    ultimately show ?thesis by auto
  qed
  moreover have "same_shape (inode_at img m) (inode_at img'' m)" for m
    using a b by (simp add: same_shape_def)
  moreover have "grows decomp (inode_table img) (inode_table img'')" "grows decomp (dir_table img) (dir_table img'')"
    using a b grows_trans by blast+
  ultimately show ?thesis using a b by (simp add: evolves_def)
qed

lemma evolves_upd:
  assumes "n < length (inodes img)" "encoded_type (inode_at img n) = 0" "same_shape (inode_at img n) (f (inode_at img n))"
    and "encoded_type (f (inode_at img n)) \<noteq> 0" "grows decomp (inode_table img) it" "grows decomp (dir_table img) dt"
  shows "evolves decomp img (upd_inode n f (img\<lparr>mem := h, inode_table := it, dir_table := dt\<rparr>))"
proof -
  have nth: "(inodes img)[n := x] ! m = (if m = n then x else inode_at img m)" for x m
    using assms(1) by (cases "m = n") simp_all
  show ?thesis using assms by (simp add: evolves_def upd_inode_def nth)
qed

text \<open>What has been stored stays stored.\<close>

lemma view_stable:
  assumes "same_shape (inode_at img n) (inode_at img' n)" "in_body (inode_at img' n) = in_body (inode_at img n)"
    "bulkdata img' = bulkdata img" "length (inodes img') = length (inodes img)"
    "\<And>m. in_inode_number (inode_at img' m) = in_inode_number (inode_at img m)"
  shows "inode_view_of img' n = inode_view_of img n"
    "body_rest img' (in_body (inode_at img' n)) = body_rest img (in_body (inode_at img n))"
proof -
  have bulk: "start_block_of reg img' = start_block_of reg img" "fragment_of reg img' = fragment_of reg img"
    "block_list reg img' = block_list reg img" for reg
    using assms(3) by (simp_all add: start_block_of_def fragment_of_def block_list_def block_dst_def cong: option.case_cong)
  have parent: "parent_inode_number d img' = parent_inode_number d img" for d
    using assms(4,5) by (simp add: parent_inode_number_def split: option.splits)
  have "body_data img' b = body_data img b" "body_rest img' b = body_rest img b" for b
    by (cases b; simp add: bulk parent)+
  then show "inode_view_of img' n = inode_view_of img n"
    "body_rest img' (in_body (inode_at img' n)) = body_rest img (in_body (inode_at img n))"
    using assms(1,2) by (simp_all add: inode_view_of_def same_shape_def Let_def)
qed

lemma segment_grows: "segment (table_bytes decomp t) k xs \<Longrightarrow> grows decomp t t' \<Longrightarrow> segment (table_bytes decomp t') k xs"
  by (auto simp: grows_def segment_append)

lemma stored_evolves:
  assumes "stored decomp img n" "evolves decomp img img'" "n < length (inodes img)"
    and kids: "\<And>d e. in_body (inode_at img n) = Directory_Inode d \<Longrightarrow> e \<in> set (dd_entries d) \<Longrightarrow> de_inode e < length (inodes img)"
  shows "stored decomp img' n"
proof -
  note e = assms(2) [unfolded evolves_def]
  have same: "inode_at img' n = inode_at img n" using assms(1,3) e by (auto simp: stored_def)
  have num: "in_inode_number (inode_at img' m) = in_inode_number (inode_at img m)" for m
    using e by (simp add: same_shape_def)
  have views: "inode_view_of img' n = inode_view_of img n"
    "body_rest img' (in_body (inode_at img' n)) = body_rest img (in_body (inode_at img n))"
    using view_stable [of img n img'] same e num by simp_all
  obtain k bytes where rec: "position_of decomp (inode_table img) (inode_table_entry (inode_at img n)) k"
    "segment (table_bytes decomp (inode_table img)) k bytes"
    "\<forall>rest. read_inode (bytes @ rest) = Some (inode_view_of img n, body_rest img (in_body (inode_at img n)) @ rest)"
    using assms(1) by (auto simp: stored_def stored_record_def)
  have "stored_record decomp img' n" unfolding stored_record_def views unfolding same
    using rec e segment_grows [OF rec(2)] by (intro exI [of _ k] exI [of _ bytes]) (simp add: grows_def)
  moreover have "stored_listing decomp img' d" if d: "in_body (inode_at img n) = Directory_Inode d" for d
  proof -
    have l: "stored_listing decomp img d" using assms(1) d by (simp add: stored_def)
    have kid: "inode_at img' (de_inode x) = inode_at img (de_inode x)" if "x \<in> set (dd_entries d)" for x
      using kids [OF d that] l e that by (auto simp: stored_listing_def)
    then have "map (\<lambda>e. dirent_view (inodes img') (static e)) (dd_entries d) =
        map (\<lambda>e. dirent_view (inodes img) (static e)) (dd_entries d)"
      by (simp add: dirent_view_def Let_def)
    then show ?thesis using l e kid segment_grows unfolding stored_listing_def
      by (elim conjE exE, intro conjI, rule_tac x = k in exI, rule_tac x = bytes in exI) (auto simp: grows_def)
  qed
  ultimately show ?thesis using assms(1) same by (simp add: stored_def)
qed


section \<open>One step\<close>

text \<open>What a call that serialises inode \<open>n\<close>, and maybe others, but none of \<open>keep\<close>, may do.\<close>

definition serialized :: "(byte list \<Rightarrow> byte list) \<Rightarrow> libsqfs_image \<Rightarrow> nat \<Rightarrow> nat set \<Rightarrow> (bool \<times> libsqfs_image) option \<Rightarrow> bool" where
  "serialized decomp img n keep result \<longleftrightarrow>
     (\<exists>ok img'. result = Some (ok, img') \<and> (mem img = [] \<longrightarrow> ok \<and> mem img' = []) \<and>
       (ok \<longrightarrow> evolves decomp img img' \<and> stored decomp img' n \<and> (\<forall>m \<in> keep. inode_at img' m = inode_at img m) \<and>
         (\<forall>m < length (inodes img). encoded_type (inode_at img' m) \<noteq> 0 \<longrightarrow>
           encoded_type (inode_at img m) \<noteq> 0 \<or> stored decomp img' m)))"

lemma record_stored:
  assumes img': "img' = upd_inode n (\<lambda>i. i\<lparr>inode_table_entry := pos\<rparr>) (img\<lparr>mem := h, inode_table := tab\<rparr>)"
    and n: "n < length (inodes img)"
    and pos: "position_of decomp tab pos k" "segment (table_bytes decomp tab) k bytes"
    and read: "\<forall>rest. read_inode (bytes @ rest) = Some (inode_view_of img n, body_rest img (in_body (inode_at img n)) @ rest)"
  shows "stored_record decomp img' n"
proof -
  have at: "inode_at img' m = (if m = n then (inode_at img n)\<lparr>inode_table_entry := pos\<rparr> else inode_at img m)" for m
    using n by (cases "m = n") (simp_all add: img' upd_inode_def)
  have frame: "bulkdata img' = bulkdata img" "length (inodes img') = length (inodes img)"
    by (simp_all add: img' upd_inode_def)
  have view: "inode_view_of img' n = inode_view_of img n"
    "body_rest img' (in_body (inode_at img' n)) = body_rest img (in_body (inode_at img n))"
    by - (rule view_stable; simp add: at frame same_shape_def)+
  show ?thesis unfolding stored_record_def view using pos read at [of n]
    by (intro exI [of _ k] exI [of _ bytes]) (simp add: img')
qed

lemma upd_bulkdata: "bulkdata (upd_inode n f img) = bulkdata img"
  by simp

lemma leaf_serialized:
  assumes n: "n < length (inodes img)" "encoded_type (inode_at img n) = 0" "\<And>d. in_body (inode_at img n) \<noteq> Directory_Inode d"
    and inv: "table_inv decomp (inode_table img)" "table_inv decomp (dir_table img)"
    and rec: "records n img result" and "n \<notin> keep"
  shows "serialized decomp img n keep result"
proof -
  let ?b = "body_type (in_body (inode_at img n))"
  obtain t hdr ds where r: "t \<noteq> 0" "result = write_record n hdr ds (upd_inode n (retyped t ?b) img)"
    "\<forall>rest. read_inode (hdr @ concat ds @ rest) = Some (inode_view_of img n, body_rest img (in_body (inode_at img n)) @ rest)"
    using rec unfolding records_def by blast
  let ?img = "upd_inode n (retyped t ?b) img"
  have n': "n < length (inodes ?img)" using n by simp
  have at: "inode_at ?img m = (if m = n then retyped t ?b (inode_at img n) else inode_at img m)" for m
    using n by (cases "m = n") (simp_all add: upd_inode_def)
  have view: "inode_view_of ?img n = inode_view_of img n"
    "body_rest ?img (in_body (inode_at ?img n)) = body_rest img (in_body (inode_at img n))"
    by - (rule view_stable; simp add: at same_shape_def upd_bulkdata)+
  obtain ok pos tab h where w: "result = Some (ok, upd_inode n (\<lambda>i. i\<lparr>inode_table_entry := pos\<rparr>) (?img\<lparr>mem := h, inode_table := tab\<rparr>))"
    "mem ?img = [] \<longrightarrow> ok \<and> h = []" "ok \<Longrightarrow> grows decomp (inode_table ?img) tab \<and>
      (\<exists>k. position_of decomp tab pos k \<and> segment (table_bytes decomp tab) k (hdr @ concat ds))"
    using write_record_spec [OF n', of decomp hdr ds, folded r(2)] inv(1) unfolding upd_inode_frame by blast
  let ?img' = "upd_inode n (\<lambda>i. i\<lparr>inode_table_entry := pos\<rparr>) (?img\<lparr>mem := h, inode_table := tab\<rparr>)"
  have eq: "?img' = upd_inode n (\<lambda>i. (retyped t ?b i)\<lparr>inode_table_entry := pos\<rparr>) (img\<lparr>mem := h, inode_table := tab, dir_table := dir_table img\<rparr>)"
    using n by (simp add: upd_inode_def)
  have at': "inode_at ?img' m = (if m = n then (retyped t ?b (inode_at img n))\<lparr>inode_table_entry := pos\<rparr> else inode_at img m)" for m
    unfolding eq using n by (cases "m = n") (simp_all add: upd_inode_def)
  have "evolves decomp img ?img' \<and> stored decomp ?img' n" if o: ok
  proof -
    obtain k where k: "position_of decomp tab pos k" "segment (table_bytes decomp tab) k (hdr @ concat ds)"
      and g: "grows decomp (inode_table img) tab" using w(3) [OF o] by auto
    have "stored_record decomp ?img' n"
      using r(3) by (intro record_stored [OF refl n' k]) (simp add: view)
    then have "stored decomp ?img' n" using n(3) r(1) unfolding stored_def at' by simp
    moreover have "evolves decomp img ?img'"
      unfolding eq using n g inv by (intro evolves_upd) (simp_all add: same_shape_def grows_refl r(1))
    ultimately show ?thesis by blast
  qed
  moreover have "encoded_type (inode_at ?img' m) \<noteq> 0 \<longrightarrow> encoded_type (inode_at img m) \<noteq> 0 \<or> m = n" for m
    unfolding at' by simp
  moreover have "inode_at ?img' m = inode_at img m" if "m \<in> keep" for m
    using assms(7) that unfolding at' by auto
  ultimately show ?thesis unfolding serialized_def w(1) using w(2)
    by (intro exI [of _ ok] exI [of _ ?img']) auto
qed


section \<open>A directory whose entries have been serialised\<close>

lemma run_starts_sorted:
  "\<forall>run \<in> set runs. run \<noteq> [] \<Longrightarrow> sorted_wrt (<) (run_starts k runs) \<and> (\<forall>p \<in> set (run_starts k runs). k \<le> p)"
proof (induction runs arbitrary: k)
  case (Cons run runs)
  have "0 < length run" using Cons.prems by simp
  moreover have IH: "sorted_wrt (<) (run_starts (k + length run) runs)" "\<forall>p \<in> set (run_starts (k + length run) runs). k + length run \<le> p"
    using Cons.IH Cons.prems by simp_all
  ultimately have "\<forall>p \<in> set (run_starts (k + length run) runs). k < p" by (meson less_add_same_cancel1 less_le_trans)
  then show ?case using IH(1) by (simp add: less_imp_le)
qed simp

lemma length_run_starts [simp]: "length (run_starts k runs) = length runs"
  by (induction runs arbitrary: k) simp_all

lemma prune_frame [simp]:
  "dd_entries (libsqfs_directory_inode_prune_index d) = dd_entries d" "dd_parent (libsqfs_directory_inode_prune_index d) = dd_parent d"
  "encoded_entries_size (libsqfs_directory_inode_prune_index d) = encoded_entries_size d"
  "dir_table_entry (libsqfs_directory_inode_prune_index d) = dir_table_entry d"
  by (simp_all add: libsqfs_directory_inode_prune_index_def split: list.split prod.split)

lemma prune_count:
  assumes "sorted_wrt (<) (first_indexed d)" "indexed_count d = length (first_indexed d)"
    and "\<forall>p \<in> set (first_indexed d). de_serialno (dd_entries d ! p) = p"
  shows "indexed_count (libsqfs_directory_inode_prune_index d) = length (first_indexed (libsqfs_directory_inode_prune_index d))"
proof (cases "first_indexed d")
  case Nil
  then show ?thesis using assms(2) by (simp add: libsqfs_directory_inode_prune_index_def)
next
  case (Cons first rest)
  obtain ks count where r: "prune_loop (dd_entries d) first rest (indexed_count d) = (ks, count)" by fastforce
  with prune_loop_spec [OF _ _ _ r] assms Cons have "count + length rest + 1 = indexed_count d + length ks" by simp
  then show ?thesis using assms(2) Cons r by (simp add: libsqfs_directory_inode_prune_index_def)
qed

lemma encoded_listing:
  assumes n: "n < length (inodes img)" "in_body (inode_at img n) = Directory_Inode d"
    and fresh: "first_indexed d = []" "indexed_count d = 0"
    and inv: "table_inv decomp (dir_table img)" and names: "\<forall>e \<in> set (dd_entries d). name_ok (de_name e)"
    and enc: "libsqfs_directory_encode n img = Some (True, img')"
  shows "\<exists>d'. img' = upd_directory n (\<lambda>_. d') (img\<lparr>mem := mem img', dir_table := dir_table img'\<rparr>) \<and>
    dd_parent d' = dd_parent d \<and> map static (dd_entries d') = map static (dd_entries d) \<and>
    grows decomp (dir_table img) (dir_table img') \<and>
    indexed_count (libsqfs_directory_inode_prune_index d') = length (first_indexed (libsqfs_directory_inode_prune_index d')) \<and>
    (\<exists>k bytes. (dd_entries d' \<noteq> [] \<longrightarrow> position_of decomp (dir_table img') (dir_table_entry d') k) \<and>
      segment (table_bytes decomp (dir_table img')) k bytes \<and> length bytes = encoded_entries_size d' \<and>
      read_listing (length (dd_entries d)) bytes = Some (map (\<lambda>e. dirent_view (inodes img) (static e)) (dd_entries d)))"
proof -
  let ?d = "directory_at img' n"
  from directory_encode_runs [OF n fresh enc] obtain runs h ats h' where r:
    "concat runs = map static (dd_entries d)" "\<forall>run \<in> set runs. run_ok (inodes img) run" "length ats = length (dd_entries d)"
    "append_all libsqfs_metatable_append h (dir_table img) (concat (map (closed_bytes (inodes img)) runs)) =
      Some (True, ats, dir_table img', h')"
    "encoded_entries_size ?d = length (concat (concat (map (closed_bytes (inodes img)) runs)))"
    "dir_table_entry ?d = hd (ats @ [\<lparr>me_block = 0, me_offset = 0\<rparr>])"
    "map static (dd_entries ?d) = map static (dd_entries d)"
    "numbered (dd_entries ?d) (concat (map (closed_bytes (inodes img)) runs))"
    "first_indexed ?d = run_starts 0 runs" "indexed_count ?d = length runs" "dd_parent ?d = dd_parent d"
    "img' = upd_directory n (\<lambda>_. ?d) (img\<lparr>mem := mem img', dir_table := dir_table img'\<rparr>)" by blast
  let ?bytes = "concat (concat (map (closed_bytes (inodes img)) runs))"
  have ne: "\<forall>run \<in> set runs. run \<noteq> []" using r(2) by (auto simp: run_ok_def)
  have len: "length (dd_entries ?d) = length (dd_entries d)" using arg_cong [OF r(7), of length] by simp
  have listing: "read_listing (length (dd_entries d)) ?bytes =
      Some (map (\<lambda>e. dirent_view (inodes img) (static e)) (dd_entries d))"
    by (rule listing_of_runs [OF r(1,2) names])
  have "p < length (dd_entries ?d)" if p: "p \<in> set (first_indexed ?d)" for p
  proof -
    obtain i where "i < length runs" "p = length (concat (take i runs))" using p unfolding r(9) run_starts_iff by auto
    moreover have "concat runs = concat (take i runs) @ concat (drop i runs)" by (metis append_take_drop_id concat_append)
    moreover have "drop i runs = runs ! i # drop (Suc i) runs" "runs ! i \<noteq> []"
      using \<open>i < length runs\<close> ne by (auto simp: Cons_nth_drop_Suc)
    ultimately have "p < length (concat runs)" by simp
    then show ?thesis unfolding r(1) len by simp
  qed
  then have serial: "\<forall>p \<in> set (first_indexed ?d). de_serialno (dd_entries ?d ! p) = p"
    using r(8) by (simp add: numbered_def)
  have count: "indexed_count (libsqfs_directory_inode_prune_index ?d) = length (first_indexed (libsqfs_directory_inode_prune_index ?d))"
    by (rule prune_count [OF _ _ serial]) (use run_starts_sorted [OF ne, of 0] r(9,10) in simp_all)
  note content = meta_log.all_content [OF inv r(4)]
  have "dd_entries ?d \<noteq> [] \<Longrightarrow> position_of decomp (dir_table img') (dir_table_entry ?d) (length (table_bytes decomp (dir_table img)))"
  proof -
    assume "dd_entries ?d \<noteq> []"
    then obtain a as where ats: "ats = a # as" using r(3) len by (cases ats) auto
    then have "0 < length (concat (map (closed_bytes (inodes img)) runs))" using content by (metis length_greater_0_conv list.discI list.size(3))
    then have "position_of decomp (dir_table img') (ats ! 0) (length (table_bytes decomp (dir_table img)) +
        length (concat (take 0 (concat (map (closed_bytes (inodes img)) runs)))))" using content by blast
    then show ?thesis using ats r(6) by simp
  qed
  moreover have "segment (table_bytes decomp (dir_table img')) (length (table_bytes decomp (dir_table img))) ?bytes"
    using content by simp
  ultimately show ?thesis
    using r(5,7,11,12) count listing grows_append_all [OF inv r(4)]
    by (intro exI [of _ ?d] conjI exI [of _ "length (table_bytes decomp (dir_table img))"] exI [of _ ?bytes]) simp_all
qed


text \<open>The type that is chosen for a directory, and the image in which its inode is written.\<close>

definition dir_type :: "libsqfs_directory \<Rightarrow> libsqfs_inodeattr \<Rightarrow> u16" where
  "dir_type d attr = (if indexed_count d \<noteq> 0 \<or> encoded_entries_size d > USHRT_MAX - 3 \<or> ia_xattrset attr \<noteq> None
     then SQUASHFS_LDIR_TYPE else SQUASHFS_DIR_TYPE)"

abbreviation finished_dir :: "libsqfs_directory \<Rightarrow> libsqfs_inode \<Rightarrow> libsqfs_inode" where
  "finished_dir d i \<equiv> i\<lparr>in_body := Directory_Inode d, encoded_type := dir_type d (in_attr i), encoded_base_type := SQUASHFS_DIR_TYPE\<rparr>"

lemma directory_write_encoded:
  assumes n: "n < length (inodes img)"
    and enc: "libsqfs_directory_encode n img = Some (True, img1)"
    and img1: "img1 = upd_directory n (\<lambda>_. d) (img\<lparr>mem := mem img1, dir_table := dir_table img1\<rparr>)"
  shows "directory_write n img = libsqfs_directory_inode_encode n
    (upd_inode n (finished_dir (libsqfs_directory_inode_prune_index d)) (img\<lparr>mem := mem img1, dir_table := dir_table img1\<rparr>))"
proof -
  let ?d = "libsqfs_directory_inode_prune_index d" and ?img = "img\<lparr>mem := mem img1, dir_table := dir_table img1\<rparr>"
  have pruned: "upd_directory n libsqfs_directory_inode_prune_index img1 = upd_directory n (\<lambda>_. ?d) ?img"
    by (subst img1) (use n in simp)
  have attr: "in_attr (inode_at (upd_directory n (\<lambda>_. ?d) ?img) n) = in_attr (inode_at img n)"
    using n by (simp add: upd_directory_def upd_inode_def)
  have retype: "upd_inode n (retyped (dir_type ?d (in_attr (inode_at img n))) SQUASHFS_DIR_TYPE) (upd_directory n (\<lambda>_. ?d) ?img) =
      upd_inode n (finished_dir ?d) ?img"
    using n by (simp add: upd_directory_def upd_inode_def)
  show ?thesis
    unfolding directory_write_def enc bind.bind_lunit prod.case if_not_P [OF not_not [THEN iffD2, OF TrueI]] Let_def pruned attr
    using retype n by (simp add: dir_type_def)
qed

lemma directory_write_serialized:
  assumes n: "n < length (inodes img)" "in_body (inode_at img n) = Directory_Inode d" "encoded_type (inode_at img n) = 0"
    and fresh: "first_indexed d = []" "indexed_count d = 0"
    and inv: "table_inv decomp (inode_table img)" "table_inv decomp (dir_table img)"
    and names: "\<forall>e \<in> set (dd_entries d). name_ok (de_name e)"
    and kids: "\<forall>e \<in> set (dd_entries d). encoded_type (inode_at img (de_inode e)) \<noteq> 0"
    and keep: "n \<notin> keep"
  shows "serialized decomp img n keep (directory_write n img)"
proof -
  obtain ok1 img1 where enc: "libsqfs_directory_encode n img = Some (ok1, img1)" "mem img = [] \<longrightarrow> ok1 \<and> mem img1 = []"
    using directory_encode_total [OF n(1,2) fresh inv(2)] by blast
  show ?thesis
  proof (cases ok1)
    case False
    then show ?thesis using enc by (auto simp: serialized_def directory_write_def)
  next
    case True
    note enc1 = enc(1) [unfolded eqTrueI [OF True]]
    from encoded_listing [OF n(1,2) fresh inv(2) names enc1] obtain d1 k bytes where d1:
      "img1 = upd_directory n (\<lambda>_. d1) (img\<lparr>mem := mem img1, dir_table := dir_table img1\<rparr>)"
      "dd_parent d1 = dd_parent d" "map static (dd_entries d1) = map static (dd_entries d)"
      "grows decomp (dir_table img) (dir_table img1)"
      "indexed_count (libsqfs_directory_inode_prune_index d1) = length (first_indexed (libsqfs_directory_inode_prune_index d1))"
      "dd_entries d1 \<noteq> [] \<longrightarrow> position_of decomp (dir_table img1) (dir_table_entry d1) k"
      "segment (table_bytes decomp (dir_table img1)) k bytes" "length bytes = encoded_entries_size d1"
      "read_listing (length (dd_entries d)) bytes = Some (map (\<lambda>e. dirent_view (inodes img) (static e)) (dd_entries d))"
      by blast
    let ?d = "libsqfs_directory_inode_prune_index d1" and ?img0 = "img\<lparr>mem := mem img1, dir_table := dir_table img1\<rparr>"
    let ?img = "upd_inode n (finished_dir ?d) ?img0"
    have n': "n < length (inodes ?img)" using n by simp
    have at: "inode_at ?img m = (if m = n then finished_dir ?d (inode_at img n) else inode_at img m)" for m
      using n by (cases "m = n") (simp_all add: upd_inode_def)
    have body: "in_body (inode_at ?img n) = Directory_Inode ?d" by (simp add: at)
    have type: "encoded_type (inode_at ?img n) = SQUASHFS_DIR_TYPE \<and> first_indexed ?d = [] \<and>
        encoded_entries_size ?d + 3 \<le> USHRT_MAX \<and> ia_xattrset (in_attr (inode_at ?img n)) = None \<or>
      encoded_type (inode_at ?img n) = SQUASHFS_LDIR_TYPE"
      using d1(5) unfolding at by (auto simp: dir_type_def)
    from directory_inode_records [OF n' body type] obtain hdr ds where r:
      "libsqfs_directory_inode_encode n ?img = write_record n hdr ds ?img"
      "\<forall>rest. read_inode (hdr @ concat ds @ rest) = Some (inode_view_of ?img n, body_rest ?img (in_body (inode_at ?img n)) @ rest)"
      by blast
    have dw: "directory_write n img = write_record n hdr ds ?img"
      unfolding directory_write_encoded [OF n(1) enc1 d1(1)] by (rule r(1))
    have tables: "table_inv decomp (inode_table ?img)" "inode_table ?img = inode_table img" using inv(1) by simp_all
    obtain ok pos tab h where w: "directory_write n img =
        Some (ok, upd_inode n (\<lambda>i. i\<lparr>inode_table_entry := pos\<rparr>) (?img\<lparr>mem := h, inode_table := tab\<rparr>))"
      "mem ?img = [] \<longrightarrow> ok \<and> h = []" "ok \<Longrightarrow> grows decomp (inode_table img) tab \<and>
        (\<exists>k. position_of decomp tab pos k \<and> segment (table_bytes decomp tab) k (hdr @ concat ds))"
      using write_record_spec [OF n' tables(1), of hdr ds, folded dw] unfolding tables(2) by blast
    let ?img' = "upd_inode n (\<lambda>i. i\<lparr>inode_table_entry := pos\<rparr>) (?img\<lparr>mem := h, inode_table := tab\<rparr>)"
    let ?i = "(finished_dir ?d (inode_at img n))\<lparr>inode_table_entry := pos\<rparr>"
    have eq: "?img' = upd_inode n (\<lambda>_. ?i) (img\<lparr>mem := h, inode_table := tab, dir_table := dir_table img1\<rparr>)"
      using n by (simp add: upd_inode_def)
    have at': "inode_at ?img' m = (if m = n then ?i else inode_at img m)" for m
      unfolding eq using n by (cases "m = n") (simp_all add: upd_inode_def)
    have "evolves decomp img ?img' \<and> stored decomp ?img' n" if o: ok
    proof
      obtain k' where k': "position_of decomp tab pos k'" "segment (table_bytes decomp tab) k' (hdr @ concat ds)"
        and g: "grows decomp (inode_table img) tab" using w(3) [OF o] by auto
      show "evolves decomp img ?img'"
        unfolding eq using n g d1(2-4) by (intro evolves_upd) (simp_all add: same_shape_def dir_type_def)
      have "stored_record decomp ?img' n"
        using r(2) by (intro record_stored [OF refl n' k']) simp
      moreover have "stored_listing decomp ?img' ?d"
      proof -
        have kid: "inode_at ?img' (de_inode e) = inode_at img (de_inode e)" if "e \<in> set (dd_entries d)" for e
          using kids n(3) that unfolding at' by auto
        have in_names: "\<forall>e \<in> set (dd_entries d1). static e \<in> static ` set (dd_entries d)"
          using arg_cong [OF d1(3), of set] by auto
        then have "\<forall>e \<in> set (dd_entries d1). encoded_type (inode_at ?img' (de_inode e)) \<noteq> 0"
          using kid kids by fastforce
        moreover have "map (\<lambda>e. dirent_view (inodes img) (static e)) (dd_entries d) =
            map (\<lambda>e. dirent_view (inodes ?img') (static e)) (dd_entries d)"
          using kid by (simp add: dirent_view_def Let_def)
        moreover have "\<dots> = map (\<lambda>e. dirent_view (inodes ?img') (static e)) (dd_entries d1)"
          using arg_cong [OF d1(3), of "map (dirent_view (inodes ?img'))"] by (simp add: comp_def)
        moreover have "length (dd_entries d) = length (dd_entries d1)" using arg_cong [OF d1(3), of length] by simp
        ultimately show ?thesis unfolding stored_listing_def eq using d1(6-9)
          by (intro conjI exI [of _ k] exI [of _ bytes]) simp_all
      qed
      ultimately show "stored decomp ?img' n" unfolding stored_def at' by (simp add: dir_type_def)
    qed
    moreover have "encoded_type (inode_at ?img' m) \<noteq> 0 \<longrightarrow> encoded_type (inode_at img m) \<noteq> 0 \<or> m = n" for m
      unfolding at' by simp
    moreover have "inode_at ?img' m = inode_at img m" if "m \<in> keep" for m
      using keep that unfolding at' by auto
    ultimately show ?thesis unfolding serialized_def w(1) using w(2) enc(2)
      by (intro exI [of _ ok] exI [of _ ?img']) auto
  qed
qed


section \<open>The tree\<close>

text \<open>The links between directories: a directory that is an entry has the directory it is in as its parent.\<close>

definition links_ok :: "libsqfs_image \<Rightarrow> bool" where
  "links_ok img \<longleftrightarrow> (\<forall>n < length (inodes img). \<forall>d. in_body (inode_at img n) = Directory_Inode d \<longrightarrow>
     (\<forall>e \<in> set (dd_entries d). de_inode e < length (inodes img) \<and>
       (\<forall>c. in_body (inode_at img (de_inode e)) = Directory_Inode c \<longrightarrow> dd_parent c = Some n)))"

fun body_ok :: "libsqfs_image \<Rightarrow> u16 \<Rightarrow> libsqfs_inode_body \<Rightarrow> bool" where
  "body_ok img type (Symlink_Inode name) \<longleftrightarrow> length name < 2 ^ 32"
| "body_ok img type (Regular_Inode reg) \<longleftrightarrow> file_ready img reg"
| "body_ok img type (Directory_Inode d) \<longleftrightarrow> (\<forall>e \<in> set (dd_entries d). name_ok (de_name e)) \<and>
     (type = 0 \<longrightarrow> first_indexed d = [] \<and> indexed_count d = 0)"
| "body_ok img type _ \<longleftrightarrow> True"

text \<open>An image that is ready to be serialised, or part of which has been.\<close>

definition image_ok :: "(byte list \<Rightarrow> byte list) \<Rightarrow> libsqfs_image \<Rightarrow> bool" where
  "image_ok decomp img \<longleftrightarrow> table_inv decomp (inode_table img) \<and> table_inv decomp (dir_table img) \<and> links_ok img \<and>
     (\<forall>n < length (inodes img). body_ok img (encoded_type (inode_at img n)) (in_body (inode_at img n)) \<and>
       (encoded_type (inode_at img n) \<noteq> 0 \<longrightarrow> stored decomp img n))"

lemma shape_directory:
  assumes "same_shape i j"
  shows "in_body i = Directory_Inode d \<Longrightarrow> \<exists>d'. in_body j = Directory_Inode d' \<and> dd_parent d' = dd_parent d \<and>
      map static (dd_entries d') = map static (dd_entries d)"
    "\<not> (\<exists>d. in_body i = Directory_Inode d) \<Longrightarrow> in_body j = in_body i"
  using assms by (cases "in_body i"; cases "in_body j"; simp add: same_shape_def)+

lemma same_shape_sym: "same_shape i j \<Longrightarrow> same_shape j i"
  by (simp add: same_shape_def)

lemma same_statics: "map static es = map static fs \<Longrightarrow> e \<in> set es \<Longrightarrow> \<exists>f \<in> set fs. static f = static e"
  by (metis (mono_tags, lifting) image_iff list.set_map)

lemma links_okD:
  assumes "links_ok img" "n < length (inodes img)" "in_body (inode_at img n) = Directory_Inode d" "e \<in> set (dd_entries d)"
  shows "de_inode e < length (inodes img)" "in_body (inode_at img (de_inode e)) = Directory_Inode c \<Longrightarrow> dd_parent c = Some n"
  using assms unfolding links_ok_def by blast+

lemma links_stable:
  assumes "links_ok img" "length (inodes img') = length (inodes img)" "\<And>m. same_shape (inode_at img m) (inode_at img' m)"
  shows "links_ok img'"
  unfolding links_ok_def
proof (intro allI impI ballI conjI)
  fix n d e assume n: "n < length (inodes img')" "in_body (inode_at img' n) = Directory_Inode d" "e \<in> set (dd_entries d)"
  obtain d0 where d0: "in_body (inode_at img n) = Directory_Inode d0" "map static (dd_entries d0) = map static (dd_entries d)"
    using shape_directory(1) [OF same_shape_sym [OF assms(3)] n(2)] by blast
  obtain f where f: "f \<in> set (dd_entries d0)" "static f = static e" using same_statics [OF d0(2) [symmetric] n(3)] by blast
  have fe: "de_inode f = de_inode e" using f(2) by simp
  note l = links_okD [OF assms(1) n(1) [unfolded assms(2)] d0(1) f(1), unfolded fe]
  show "de_inode e < length (inodes img')" using l(1) assms(2) by simp
  fix c assume "in_body (inode_at img' (de_inode e)) = Directory_Inode c"
  from shape_directory(1) [OF same_shape_sym [OF assms(3)] this] l(2) show "dd_parent c = Some n" by auto
qed

lemma image_ok_step:
  assumes ok: "image_ok decomp img" and ev: "evolves decomp img img'"
    and typed: "\<forall>m < length (inodes img). encoded_type (inode_at img' m) \<noteq> 0 \<longrightarrow>
      encoded_type (inode_at img m) \<noteq> 0 \<or> stored decomp img' m"
  shows "image_ok decomp img'"
proof -
  note o = ok [unfolded image_ok_def] and e = ev [unfolded evolves_def]
  have shape: "same_shape (inode_at img m) (inode_at img' m)" for m using e by blast
  have links: "links_ok img'" using links_stable [of img img'] o e by blast
  have "body_ok img' (encoded_type (inode_at img' n)) (in_body (inode_at img' n)) \<and>
      (encoded_type (inode_at img' n) \<noteq> 0 \<longrightarrow> stored decomp img' n)" if n: "n < length (inodes img)" for n
  proof
    have b: "body_ok img (encoded_type (inode_at img n)) (in_body (inode_at img n))" using o n by blast
    show "body_ok img' (encoded_type (inode_at img' n)) (in_body (inode_at img' n))"
    proof (cases "\<exists>d. in_body (inode_at img n) = Directory_Inode d")
      case True
      then obtain d where d: "in_body (inode_at img n) = Directory_Inode d" by blast
      from shape_directory(1) [OF shape d] obtain d' where d': "in_body (inode_at img' n) = Directory_Inode d'"
        "map static (dd_entries d') = map static (dd_entries d)" by blast
      have "\<forall>x \<in> set (dd_entries d'). name_ok (de_name x)"
        using b d same_statics [OF d'(2)] by fastforce
      moreover have "encoded_type (inode_at img' n) = 0 \<Longrightarrow> inode_at img' n = inode_at img n" using e n by blast
      ultimately show ?thesis using b d d'(1) by auto
    next
      case False
      then have same: "in_body (inode_at img' n) = in_body (inode_at img n)" using shape_directory(2) [OF shape] by blast
      have "file_ready img' reg = file_ready img reg" for reg
        using e by (simp add: file_ready_def start_block_of_def fragment_of_def block_list_def block_dst_def cong: option.case_cong)
      then show ?thesis using b False unfolding same by (cases "in_body (inode_at img n)") simp_all
    qed
    show "encoded_type (inode_at img' n) \<noteq> 0 \<longrightarrow> stored decomp img' n"
    proof
      assume t: "encoded_type (inode_at img' n) \<noteq> 0"
      show "stored decomp img' n"
      proof (cases "encoded_type (inode_at img n) = 0")
        case False
        have "de_inode x < length (inodes img)" if "in_body (inode_at img n) = Directory_Inode d" "x \<in> set (dd_entries d)" for d x
          using o n that unfolding links_ok_def by blast
        then show ?thesis using o n False by (intro stored_evolves [OF _ ev n]) auto
      qed (use typed n t in auto)
    qed
  qed
  then show ?thesis using e links by (simp add: image_ok_def grows_def)
qed


section \<open>The stack of directories\<close>

text \<open>
  The directories that are being serialised, innermost first: each is the parent of the one before,
  and the last has none. So none is there twice, and the stack is never deeper than there are inodes.
\<close>

fun dir_stack :: "libsqfs_image \<Rightarrow> nat list \<Rightarrow> bool" where
  "dir_stack img [] \<longleftrightarrow> True"
| "dir_stack img (n # ns) \<longleftrightarrow> n < length (inodes img) \<and>
     (\<exists>d. in_body (inode_at img n) = Directory_Inode d \<and> dd_parent d = (case ns of [] \<Rightarrow> None | m # _ \<Rightarrow> Some m)) \<and>
     dir_stack img ns"

lemma stack_suffix: "dir_stack img (xs @ ys) \<Longrightarrow> dir_stack img ys"
  by (induction xs) auto

lemma stack_unique: "dir_stack img (n # xs) \<Longrightarrow> dir_stack img (n # ys) \<Longrightarrow> xs = ys"
proof (induction xs arbitrary: n ys)
  case Nil
  then show ?case by (cases ys) auto
next
  case (Cons x xs)
  then obtain zs where ys: "ys = x # zs" by (cases ys) auto
  with Cons.prems have "dir_stack img (x # xs)" "dir_stack img (x # zs)" by (simp_all del: dir_stack.simps(2)) (simp_all)
  from Cons.IH [OF this] show ?case by (simp add: ys)
qed

lemma stack_distinct: "dir_stack img xs \<Longrightarrow> distinct xs"
proof (induction xs)
  case (Cons n xs)
  have "n \<notin> set xs"
  proof
    assume "n \<in> set xs"
    then obtain as bs where xs: "xs = as @ n # bs" by (meson split_list)
    have "dir_stack img (n # bs)" using stack_suffix [of img "n # as" "n # bs"] Cons.prems xs by simp
    from stack_unique [OF Cons.prems this] xs show False by simp
  qed
  with Cons show ?case by simp
qed simp

lemma stack_bound: "dir_stack img xs \<Longrightarrow> length xs \<le> length (inodes img)"
proof -
  assume s: "dir_stack img xs"
  have "set xs \<subseteq> {..<length (inodes img)}" using s by (induction xs) auto
  then have "card (set xs) \<le> length (inodes img)" using card_mono [of "{..<length (inodes img)}" "set xs"] by simp
  then show ?thesis using stack_distinct [OF s] by (simp add: distinct_card)
qed

lemma stack_stable:
  assumes "dir_stack img xs" "length (inodes img') = length (inodes img)" "\<And>m. same_shape (inode_at img m) (inode_at img' m)"
  shows "dir_stack img' xs"
  using assms(1)
proof (induction xs)
  case (Cons n xs)
  then obtain d where d: "in_body (inode_at img n) = Directory_Inode d" "dd_parent d = (case xs of [] \<Rightarrow> None | m # _ \<Rightarrow> Some m)"
    by auto
  from shape_directory(1) [OF assms(3) d(1)] d(2) Cons assms(2) show ?case by auto
qed simp

section \<open>The recursion\<close>

definition done_with :: "(byte list \<Rightarrow> byte list) \<Rightarrow> libsqfs_image \<Rightarrow> nat set \<Rightarrow> nat set \<Rightarrow> (bool \<times> libsqfs_image) option \<Rightarrow> bool" where
  "done_with decomp img ns keep result \<longleftrightarrow>
     (\<exists>ok img'. result = Some (ok, img') \<and> (mem img = [] \<longrightarrow> ok \<and> mem img' = []) \<and>
       (ok \<longrightarrow> evolves decomp img img' \<and> image_ok decomp img' \<and> (\<forall>m \<in> keep. inode_at img' m = inode_at img m) \<and>
         (\<forall>n \<in> ns. encoded_type (inode_at img' n) \<noteq> 0)))"

lemma serialized_done:
  "image_ok decomp img \<Longrightarrow> serialized decomp img n keep result \<Longrightarrow> done_with decomp img {n} keep result"
  unfolding serialized_def done_with_def using image_ok_step by (fastforce simp: stored_def)

lemma already_done:
  "image_ok decomp img \<Longrightarrow> \<forall>n \<in> ns. encoded_type (inode_at img n) \<noteq> 0 \<Longrightarrow> done_with decomp img ns keep (Some (True, img))"
  unfolding done_with_def by (intro exI [of _ True] exI [of _ img]) (auto simp: image_ok_def intro: evolves_refl)

lemma entries_done:
  assumes step: "\<And>img c. c \<in> set cs \<Longrightarrow> image_ok decomp img \<Longrightarrow> evolves decomp img0 img \<Longrightarrow>
      done_with decomp img {c} keep (f c img)"
    and "image_ok decomp img" "evolves decomp img0 img" "\<forall>c \<in> set cs. c < length (inodes img0)"
  shows "done_with decomp img (set cs) keep (serialize_entries f cs img)"
  using assms
proof (induction cs arbitrary: img)
  case Nil
  then show ?case using already_done [of decomp img "{}"] by simp
next
  case (Cons c cs)
  from Cons.prems(1) [OF _ Cons.prems(2,3), of c] obtain ok img1 where s: "f c img = Some (ok, img1)"
    "mem img = [] \<longrightarrow> ok \<and> mem img1 = []" "ok \<Longrightarrow> evolves decomp img img1" "ok \<Longrightarrow> image_ok decomp img1"
    "ok \<Longrightarrow> \<forall>m \<in> keep. inode_at img1 m = inode_at img m" "ok \<Longrightarrow> encoded_type (inode_at img1 c) \<noteq> 0"
    unfolding done_with_def by auto
  show ?case
  proof (cases ok)
    case False
    then show ?thesis using s(1,2) by (auto simp: done_with_def)
  next
    case True
    note ev = evolves_trans [OF Cons.prems(3) s(3) [OF True]]
    have "done_with decomp img1 (set cs) keep (serialize_entries f cs img1)"
      using Cons.prems(1,4) by (intro Cons.IH s(4) [OF True] ev) simp_all
    then obtain ok' img' where r: "serialize_entries f cs img1 = Some (ok', img')"
      "mem img1 = [] \<longrightarrow> ok' \<and> mem img' = []" "ok' \<Longrightarrow> evolves decomp img1 img'" "ok' \<Longrightarrow> image_ok decomp img'"
      "ok' \<Longrightarrow> \<forall>m \<in> keep. inode_at img' m = inode_at img1 m" "ok' \<Longrightarrow> \<forall>n \<in> set cs. encoded_type (inode_at img' n) \<noteq> 0"
      unfolding done_with_def by auto
    have "encoded_type (inode_at img' c) \<noteq> 0" if o: ok'
    proof -
      have "c < length (inodes img1)" using Cons.prems(3,4) s(3) [OF True] by (simp add: evolves_def)
      then show ?thesis using r(3) [OF o] s(6) [OF True] by (auto simp: evolves_def)
    qed
    then show ?thesis unfolding done_with_def
      using s r True evolves_trans [OF s(3) [OF True]] by (intro exI [of _ ok'] exI [of _ img']) auto
  qed
qed


lemma leaf_done:
  assumes ok: "image_ok decomp img" and n: "n < length (inodes img)" "\<And>d. in_body (inode_at img n) \<noteq> Directory_Inode d"
    and "n \<notin> keep"
  shows "done_with decomp img {n} keep (serialize_upto (Suc depth) n img)"
proof (cases "encoded_type (inode_at img n) = 0")
  case False
  then show ?thesis using already_done [OF ok, of "{n}"] by simp
next
  case True
  have b: "body_ok img (encoded_type (inode_at img n)) (in_body (inode_at img n))"
    and inv: "table_inv decomp (inode_table img)" "table_inv decomp (dir_table img)"
    using ok n(1) by (simp_all add: image_ok_def)
  have "records n img (serialize_upto (Suc depth) n img)"
  proof (cases "in_body (inode_at img n)")
    case (Symlink_Inode name)
    then show ?thesis using True b symlink_records [OF n(1) Symlink_Inode] by simp
  next
    case (Device_Inode type major minor)
    then show ?thesis using True device_records [OF n(1) Device_Inode] by simp
  next
    case Fifo_Inode
    then show ?thesis using True fifo_records [OF n(1) Fifo_Inode] by simp
  next
    case (Regular_Inode reg)
    then show ?thesis using True b regular_records [OF n(1) Regular_Inode] by simp
  qed (use n(2) in blast)
  from serialized_done [OF ok leaf_serialized [OF n(1) True n(2) inv this assms(4)]] show ?thesis .
qed

lemma directory_done:
  assumes "image_ok decomp img" "dir_stack img (n # anc)" "length (inodes img) + 1 \<le> depth + length anc"
  shows "done_with decomp img {n} (set anc) (serialize_upto depth n img)"
  using assms
proof (induction depth arbitrary: img n anc)
  case 0
  then show ?case using stack_bound [OF 0(2)] by simp
next
  case (Suc depth)
  note ok = Suc.prems(1) and stack = Suc.prems(2)
  have n: "n < length (inodes img)" using stack by simp
  obtain d where d: "in_body (inode_at img n) = Directory_Inode d" using stack by auto
  show ?case
  proof (cases "encoded_type (inode_at img n) = 0")
    case False
    then show ?thesis using already_done [OF ok, of "{n}"] by simp
  next
    case type: True
    let ?cs = "map de_inode (dd_entries d)"
    have names: "\<forall>e \<in> set (dd_entries d). name_ok (de_name e)" and fresh: "first_indexed d = []" "indexed_count d = 0"
      and links: "links_ok img"
      using ok n d type by (auto simp: image_ok_def)
    have eq: "serialize_upto (Suc depth) n img = do {
        (ok, img) \<leftarrow> serialize_entries (serialize_upto depth) ?cs img;
        if \<not> ok then Some (False, img) else directory_write n img }"
      using type d by (simp add: libsqfs_directory_serialize_def)
    have kids: "\<forall>c \<in> set ?cs. c < length (inodes img)" using links_okD(1) [OF links n d] by auto
    have "done_with decomp img (set ?cs) (set (n # anc)) (serialize_entries (serialize_upto depth) ?cs img)"
    proof (rule entries_done [where img0 = img])
      fix img1 c assume c: "c \<in> set ?cs" and ok1: "image_ok decomp img1" and ev: "evolves decomp img img1"
      note e = ev [unfolded evolves_def]
      have stack1: "dir_stack img1 (n # anc)" by (rule stack_stable [OF stack]) (use e in blast)+
      have len: "length (inodes img1) = length (inodes img)" and clen: "c < length (inodes img1)" using e c kids by auto
      show "done_with decomp img1 {c} (set (n # anc)) (serialize_upto depth c img1)"
      proof (cases "\<exists>k. in_body (inode_at img1 c) = Directory_Inode k")
        case True
        then obtain k1 where k1: "in_body (inode_at img1 c) = Directory_Inode k1" by blast
        obtain k where k: "in_body (inode_at img c) = Directory_Inode k" "dd_parent k = dd_parent k1"
          using shape_directory(1) [OF same_shape_sym k1] e by blast
        have "dd_parent k = Some n" using c links_okD(2) [OF links n d _ ] k(1) by auto
        then have "dir_stack img1 (c # n # anc)" using stack1 k1 k(2) clen by simp
        from Suc.IH [OF ok1 this] Suc.prems(3) len show ?thesis by simp
      next
        case False
        have "length (n # anc) \<le> length (inodes img)" by (rule stack_bound [OF stack])
        then obtain depth' where depth: "depth = Suc depth'" using Suc.prems(3) by (cases depth) auto
        have dirs: "\<exists>k. in_body (inode_at img1 m) = Directory_Inode k" if "m \<in> set ms" "dir_stack img1 ms" for m ms
          using that by (induction ms) auto
        have "c \<notin> set (n # anc)" using dirs [OF _ stack1] False by blast
        then show ?thesis unfolding depth using False by (intro leaf_done [OF ok1 clen]) auto
      qed
    qed (use ok kids in \<open>auto simp: image_ok_def intro: evolves_refl\<close>)
    then obtain ok1 img1 where s: "serialize_entries (serialize_upto depth) ?cs img = Some (ok1, img1)"
      "mem img = [] \<longrightarrow> ok1 \<and> mem img1 = []" "ok1 \<Longrightarrow> evolves decomp img img1" "ok1 \<Longrightarrow> image_ok decomp img1"
      "ok1 \<Longrightarrow> \<forall>m \<in> set (n # anc). inode_at img1 m = inode_at img m" "ok1 \<Longrightarrow> \<forall>c \<in> set ?cs. encoded_type (inode_at img1 c) \<noteq> 0"
      unfolding done_with_def by auto
    show ?thesis
    proof (cases ok1)
      case False
      then show ?thesis unfolding eq using s(1,2) by (auto simp: done_with_def)
    next
      case True
      have same: "inode_at img1 n = inode_at img n" and len: "length (inodes img1) = length (inodes img)"
        using s(3,5) True by (simp_all add: evolves_def)
      have "n \<notin> set anc" using stack_distinct [OF stack] by simp
      moreover have "table_inv decomp (inode_table img1)" "table_inv decomp (dir_table img1)"
        using s(4) True by (simp_all add: image_ok_def)
      ultimately have "serialized decomp img1 n (set anc) (directory_write n img1)"
        using n d type fresh names s(6) True same len by (intro directory_write_serialized [where d = d]) simp_all
      then have "done_with decomp img1 {n} (set anc) (directory_write n img1)"
        by (rule serialized_done [OF s(4) [OF True]])
      then show ?thesis unfolding eq done_with_def
        using s True evolves_trans [OF s(3) [OF True]] by auto
    qed
  qed
qed


section \<open>Adding entries keeps the links\<close>

lemma adopted_body:
  assumes "parent < length (inodes img)" "inode < length (inodes img)"
  shows "in_body (inode_at (adopted parent inode img) m) =
    (case in_body (inode_at img m) of
       Directory_Inode d \<Rightarrow> Directory_Inode (if m = inode then d\<lparr>dd_parent := Some parent\<rparr> else d)
     | b \<Rightarrow> b)"
  using assms by (auto simp: adopted_def inode_at_upd inode_at_upd_directory libsqfs_inode_get_class_def
      split: libsqfs_inode_body.splits)

lemma adopted_links:
  assumes "links_ok img" "parent < length (inodes img)" "inode < length (inodes img)"
    and orphan: "\<And>d. in_body (inode_at img inode) = Directory_Inode d \<Longrightarrow> dd_parent d = None"
  shows "links_ok (adopted parent inode img)"
  unfolding links_ok_def
proof (intro allI impI ballI conjI)
  fix n d e assume n: "n < length (inodes (adopted parent inode img))"
    "in_body (inode_at (adopted parent inode img) n) = Directory_Inode d" "e \<in> set (dd_entries d)"
  obtain d0 where d0: "in_body (inode_at img n) = Directory_Inode d0" "dd_entries d0 = dd_entries d"
    using n(2) unfolding adopted_body [OF assms(2,3)] by (auto split: libsqfs_inode_body.splits if_splits)
  note l = links_okD [OF assms(1) _ d0(1), unfolded d0(2), OF _ n(3)]
  show "de_inode e < length (inodes (adopted parent inode img))" using l(1) n(1) by simp
  fix c assume c: "in_body (inode_at (adopted parent inode img) (de_inode e)) = Directory_Inode c"
  then obtain c0 where c0: "in_body (inode_at img (de_inode e)) = Directory_Inode c0"
    "c = (if de_inode e = inode then c0\<lparr>dd_parent := Some parent\<rparr> else c0)"
    unfolding adopted_body [OF assms(2,3)] by (auto split: libsqfs_inode_body.splits)
  then have "dd_parent c0 = Some n" using l(2) n(1) by simp
  then show "dd_parent c = Some n" using orphan c0 by auto
qed

lemma links_ok_frame: "inodes img' = inodes img \<Longrightarrow> links_ok img' = links_ok img"
  by (simp add: links_ok_def)

lemma links_with_entry:
  assumes "links_ok img" "parent < length (inodes img)" "inode < length (inodes img)"
    and "in_body (inode_at img parent) = Directory_Inode p"
    and kid: "\<And>c. in_body (inode_at img inode) = Directory_Inode c \<Longrightarrow> dd_parent c = Some parent"
  shows "links_ok (upd_directory parent (with_entry name inode) img)"
  unfolding links_ok_def
proof (intro allI impI ballI conjI)
  let ?img = "upd_directory parent (with_entry name inode) img"
  have body: "in_body (inode_at ?img m) = (if m = parent then Directory_Inode (with_entry name inode p) else in_body (inode_at img m))" for m
    using assms(2,4) by (simp add: inode_at_upd_directory)
  have kids: "in_body (inode_at ?img m) = Directory_Inode c \<Longrightarrow>
      \<exists>c0. in_body (inode_at img m) = Directory_Inode c0 \<and> dd_parent c0 = dd_parent c" for m c
    unfolding body using assms(4) by (auto simp: with_entry_def split: if_splits)
  fix n d e assume n0: "n < length (inodes ?img)" "in_body (inode_at ?img n) = Directory_Inode d" "e \<in> set (dd_entries d)"
  have n: "n < length (inodes img)" "in_body (inode_at ?img n) = Directory_Inode d" "e \<in> set (dd_entries d)"
    using n0 by simp_all
  have "de_inode e < length (inodes img) \<and> (\<forall>c. in_body (inode_at img (de_inode e)) = Directory_Inode c \<longrightarrow> dd_parent c = Some n)"
  proof (cases "n = parent \<and> e = fresh_entry name inode")
    case True
    then show ?thesis using assms(3) kid by (simp add: fresh_entry_def)
  next
    case False
    obtain d0 where "in_body (inode_at img n) = Directory_Inode d0" "e \<in> set (dd_entries d0)"
      using n(2,3) assms(4) False unfolding body by (auto simp: with_entry_def split: if_splits)
    then show ?thesis using links_okD [OF assms(1) n(1)] by blast
  qed
  note this = this
  then show "de_inode e < length (inodes ?img)" by simp
  fix c assume "in_body (inode_at ?img (de_inode e)) = Directory_Inode c"
  from kids [OF this] \<open>de_inode e < length (inodes img) \<and> _\<close> show "dd_parent c = Some n" by auto
qed

section \<open>Properties\<close>

inductive reaches :: "libsqfs_image \<Rightarrow> nat \<Rightarrow> nat \<Rightarrow> bool" for img :: libsqfs_image and r :: nat where
  itself: "reaches img r r"
| entry: "reaches img r n \<Longrightarrow> in_body (inode_at img n) = Directory_Inode d \<Longrightarrow> e \<in> set (dd_entries d) \<Longrightarrow> reaches img r (de_inode e)"

lemma links_after_add:
  assumes "links_ok img" "parent < length (inodes img)" "inode < length (inodes img)"
    and "libsqfs_directory_add_entry parent name inode img = Some (ok, img')"
  shows "links_ok img'"
  using assms(4)
proof (cases rule: add_entry_cases)
  case (refused msg)
  then have "inodes img' = inodes img" by simp
  from links_ok_frame [OF this] assms(1) show ?thesis by blast
next
  case (memory h)
  have "inodes img' = inodes (adopted parent inode img)" using memory(2) by simp
  from links_ok_frame [OF this] adopted_links [OF assms(1-3) memory(3)] show ?thesis by blast
next
  case (added h)
  let ?img = "upd_inode inode (\<lambda>i. i\<lparr>in_nlink := in_nlink i + 1\<rparr>) (adopted parent inode img\<lparr>mem := h\<rparr>)"
  have body: "in_body (inode_at ?img m) = in_body (inode_at (adopted parent inode img) m)" for m
    using assms(3) by (simp add: upd_inode_def nth_list_update)
  obtain p where p: "in_body (inode_at img parent) = Directory_Inode p" using add_entry_parent [OF assms(4)] by blast
  show ?thesis unfolding added(2)
  proof (rule links_with_entry)
    have len: "length (inodes ?img) = length (inodes (adopted parent inode img))" by simp
    show "links_ok ?img" using adopted_links [OF assms(1-3) added(3)] unfolding links_ok_def body len .
    show "in_body (inode_at ?img parent) = Directory_Inode (if parent = inode then p\<lparr>dd_parent := Some parent\<rparr> else p)"
      unfolding body adopted_body [OF assms(2,3)] using p by simp
    show "dd_parent c = Some parent" if "in_body (inode_at ?img inode) = Directory_Inode c" for c
      using that unfolding body adopted_body [OF assms(2,3)] by (auto split: libsqfs_inode_body.splits)
  qed (use assms(2,3) in simp_all)
qed

text \<open>C25: adding entries, the order and the outcome of the calls notwithstanding, keeps the directories
  linked as a tree would have them: a directory that is an entry has the directory it is in as its
  parent, and so it is an entry of no other.\<close>

theorem add_entry_links:
  assumes "links_ok img" "parent < length (inodes img)" "inode < length (inodes img)"
    and "libsqfs_directory_add_entry parent name inode img = Some (ok, img')"
  shows "links_ok img'"
  using assms by (rule links_after_add)

theorem add_entry_links_witness:
  "\<exists>img'. libsqfs_directory_add_entry 0 (cstr ''bin'') 1 demo_dirs = Some (True, img') \<and> links_ok img'"
proof -
  have "\<exists>img'. libsqfs_directory_add_entry 0 (cstr ''bin'') 1 demo_dirs = Some (True, img')"
    by (simp add: libsqfs_directory_add_entry_def demo_dirs_def libsqfs_directory_inode_create_def libsqfs_inode_init_def
        demo_image_def Let_def libsqfs_inode_get_class_def upd_inode_def upd_directory_def)
  moreover have "links_ok demo_dirs" using demo_dirs_facts by (auto simp: links_ok_def less_2_cases_iff)
  ultimately show ?thesis using add_entry_links [of demo_dirs 0 1 "cstr ''bin''"] demo_dirs_facts(1) by force
qed

lemma serialized_from:
  assumes "image_ok decomp img" "r < length (inodes img)" "in_body (inode_at img r) = Directory_Inode d" "dd_parent d = None"
  shows "\<exists>ok img'. libsqfs_inode_serialize r img = Some (ok, img') \<and> (mem img = [] \<longrightarrow> ok) \<and>
    (ok \<longrightarrow> (\<forall>n. reaches img r n \<longrightarrow> stored decomp img' n))"
proof -
  have "dir_stack img [r]" using assms(2-4) by simp
  from directory_done [OF assms(1) this, of "length (inodes img) + 1"]
  obtain ok img' where r: "libsqfs_inode_serialize r img = Some (ok, img')" "mem img = [] \<longrightarrow> ok"
    "ok \<Longrightarrow> image_ok decomp img'" "ok \<Longrightarrow> encoded_type (inode_at img' r) \<noteq> 0" "ok \<Longrightarrow> length (inodes img') = length (inodes img)"
    "\<And>m. ok \<Longrightarrow> same_shape (inode_at img m) (inode_at img' m)"
    by (auto simp: libsqfs_inode_serialize_def done_with_def evolves_def)
  have "stored decomp img' n" if o: ok and n: "reaches img r n" for n
  proof -
    note ok = r(3-6) [OF o]
    have "n < length (inodes img') \<and> encoded_type (inode_at img' n) \<noteq> 0" using n
    proof induction
      case itself
      then show ?case using ok assms(2) by simp
    next
      case (entry n d e)
      obtain d' where d': "in_body (inode_at img' n) = Directory_Inode d'" "map static (dd_entries d') = map static (dd_entries d)"
        using shape_directory(1) [OF ok(4) entry(2)] by blast
      obtain f where f: "f \<in> set (dd_entries d')" "de_inode f = de_inode e"
        using same_statics [OF d'(2) [symmetric] entry(3)] by auto
      have "links_ok img'" "stored decomp img' n" using ok(1) entry by (simp_all add: image_ok_def)
      then show ?case using links_okD(1) [OF _ _ d'(1) f(1)] entry d'(1) f by (auto simp: stored_def stored_listing_def)
    qed
    then show ?thesis using ok(1) by (simp add: image_ok_def)
  qed
  with r(1,2) show ?thesis by blast
qed

text \<open>C19: serialising the inodes of an image from a root directory, one without a parent, always returns,
  with the stack that is modelled; with enough memory it succeeds. It needs the links of a tree,
  names of a length the format has, and files whose chunks have been written.\<close>

theorem serialize_terminates:
  assumes "image_ok decomp img" "r < length (inodes img)" "in_body (inode_at img r) = Directory_Inode d" "dd_parent d = None"
  shows "\<exists>ok img'. libsqfs_inode_serialize r img = Some (ok, img') \<and> (mem img = [] \<longrightarrow> ok)"
  using serialized_from [OF assms] by blast

text \<open>C1: what serialising leaves behind when it succeeds. For every inode that can be reached from the root
  the tables hold a record, at the position the inode remembers, that the reader of the format takes
  for that inode, its type, attributes, number, links and contents, and for a directory a listing
  that it takes for the directory's entries, each with the final position and number of its inode.\<close>

theorem serialize_stores_tree:
  assumes "image_ok decomp img" "r < length (inodes img)" "in_body (inode_at img r) = Directory_Inode d" "dd_parent d = None"
    and "libsqfs_inode_serialize r img = Some (True, img')" "reaches img r n"
  shows "stored decomp img' n"
  using serialized_from [OF assms(1-4)] assms(5,6) by auto

text \<open>C33: directories that contain each other. Nothing keeps a client from building them, and serialising
  one never returns, however deep the stack: it needs only that each of them is not serialised yet
  and has one of them as its first entry.\<close>

theorem serialize_cycle_overflows:
  assumes "\<forall>n \<in> dirs. encoded_type (inode_at img n) = 0 \<and>
      (\<exists>d e es. in_body (inode_at img n) = Directory_Inode d \<and> dd_entries d = e # es \<and> de_inode e \<in> dirs)"
    and "n \<in> dirs"
  shows "serialize_upto depth n img = None"
  using assms(2)
proof (induction depth arbitrary: n)
  case (Suc depth)
  obtain d e es where d: "encoded_type (inode_at img n) = 0" "in_body (inode_at img n) = Directory_Inode d"
    "dd_entries d = e # es" "de_inode e \<in> dirs" using assms(1) Suc.prems by blast
  then show ?case using Suc.IH [OF d(4)] by (simp add: libsqfs_directory_serialize_def)
qed simp


text \<open>A root directory with a pipe and a symbolic link, for the examples.\<close>

definition demo_fs :: libsqfs_image where
  "demo_fs = demo_image\<lparr>inodes := map (retyped 0 0)
     [demo_inode (Directory_Inode demo_dir) 1, demo_inode Fifo_Inode 2, demo_inode (Symlink_Inode (cstr ''a'')) 3]\<rparr>"

lemma demo_fs_facts:
  "image_ok (\<lambda>bs. bs) demo_fs" "0 < length (inodes demo_fs)" "in_body (inode_at demo_fs 0) = Directory_Inode demo_dir"
  "dd_parent demo_dir = None" "mem demo_fs = []" "reaches demo_fs 0 2"
proof -
  show "image_ok (\<lambda>bs. bs) demo_fs"
    by (auto simp: image_ok_def links_ok_def demo_fs_def demo_image_def demo_inode_def demo_dir_def demo_entry_def init_inv
        less_Suc_eq nth_Cons')
  have "reaches demo_fs 0 (de_inode (demo_entry (cstr ''b'') 2))"
    by (rule reaches.entry [OF reaches.itself, where d = demo_dir]) (simp_all add: demo_fs_def demo_inode_def demo_dir_def)
  then show "reaches demo_fs 0 2" by (simp add: demo_entry_def)
qed (simp_all add: demo_fs_def demo_image_def demo_inode_def demo_dir_def)

theorem serialize_terminates_witness: "\<exists>img'. libsqfs_inode_serialize 0 demo_fs = Some (True, img')"
  using serialize_terminates [OF demo_fs_facts(1-4)] demo_fs_facts(5) by auto

lemma demo_fs_serialized: "\<exists>img'. libsqfs_inode_serialize 0 demo_fs = Some (True, img')"
  using serialized_from [OF demo_fs_facts(1-4)] demo_fs_facts(5) by auto

theorem serialize_stores_tree_witness:
  "\<exists>img'. libsqfs_inode_serialize 0 demo_fs = Some (True, img') \<and> stored (\<lambda>bs. bs) img' 2"
  using demo_fs_serialized serialize_stores_tree [OF demo_fs_facts(1-4) _ demo_fs_facts(6)] by blast

text \<open>Two directories, each an entry of the other.\<close>

theorem serialize_cycle_overflows_witness:
  "\<exists>img. libsqfs_directory_add_entry 0 (cstr ''x'') 1 demo_dirs \<bind> (\<lambda>(ok, img). libsqfs_directory_add_entry 1 (cstr ''y'') 0 img) =
      Some (True, img) \<and> libsqfs_inode_serialize 0 img = None"
proof -
  let ?d0 = "empty_directory\<lparr>dd_parent := Some 1, dd_entries := [fresh_entry (cstr ''x'') 1]\<rparr>"
  let ?d1 = "empty_directory\<lparr>dd_parent := Some 0, dd_entries := [fresh_entry (cstr ''y'') 0]\<rparr>"
  have "\<exists>img. libsqfs_directory_add_entry 0 (cstr ''x'') 1 demo_dirs \<bind> (\<lambda>(ok, img). libsqfs_directory_add_entry 1 (cstr ''y'') 0 img) =
      Some (True, img) \<and> in_body (inode_at img 0) = Directory_Inode ?d0 \<and> in_body (inode_at img 1) = Directory_Inode ?d1 \<and>
      encoded_type (inode_at img 0) = 0 \<and> encoded_type (inode_at img 1) = 0"
    by (simp add: libsqfs_directory_add_entry_def demo_dirs_def libsqfs_directory_inode_create_def libsqfs_inode_init_def
        demo_image_def Let_def libsqfs_inode_get_class_def upd_inode_def upd_directory_def fresh_entry_def)
  then obtain img where img: "libsqfs_directory_add_entry 0 (cstr ''x'') 1 demo_dirs \<bind>
      (\<lambda>(ok, img). libsqfs_directory_add_entry 1 (cstr ''y'') 0 img) = Some (True, img)"
    "in_body (inode_at img 0) = Directory_Inode ?d0" "in_body (inode_at img 1) = Directory_Inode ?d1"
    "encoded_type (inode_at img 0) = 0" "encoded_type (inode_at img 1) = 0" by blast
  have "libsqfs_inode_serialize 0 img = None" unfolding libsqfs_inode_serialize_def
    by (rule serialize_cycle_overflows [of "{0, 1}"]) (use img(2-5) in \<open>auto simp: fresh_entry_def\<close>)
  with img(1) show ?thesis by blast
qed

end
