(* ===== verification/Client.thy ===== *)
theory Client
  imports Filetree Image
begin

text \<open>
  What a client can do with an image before it is finalized, as steps in any order: creating
  attributes, extended attributes, data handles and inodes, adding entries to directories, choosing the
  root; the client may also take memory for itself. Whatever the steps and their outcomes, the image is
  one whose tree can be serialised.
\<close>

section \<open>The steps\<close>

text \<open>
  The client keeps to what C demands: pointers are to objects of the image, strings end, names of
  entries have a length that the format has.
\<close>

inductive client_step :: "libsqfs_image \<Rightarrow> libsqfs_image \<Rightarrow> bool" where
  attr: "client_step img (snd (libsqfs_inodeattr_create_simple uid gid mode ctime img))"
| extended_attr: "client_step img (snd (libsqfs_inodeattr_create_extended uid gid mode ctime xattrset img))"
| file_data: "client_step img (snd (libsqfs_data_create_from_file f img))"
| buffer_data: "client_step img (snd (libsqfs_data_create_for_buffer buffer img))"
| compound_data: "client_step img (snd (libsqfs_data_create_compound pieces img))"
| symlink: "length name < 2 ^ 32 \<Longrightarrow> client_step img (snd (libsqfs_symlink_inode_create a name img))"
| device: "client_step img (snd (libsqfs_device_inode_create a type major minor img))"
| fifo: "client_step img (snd (libsqfs_fifo_inode_create a img))"
| directory: "client_step img (snd (libsqfs_directory_inode_create a img))"
| regular: "client_step img (snd (libsqfs_regular_inode_create a data img))"
| entry: "parent < length (inodes img) \<Longrightarrow> inode < length (inodes img) \<Longrightarrow> is_cstring name \<Longrightarrow> name_ok name \<Longrightarrow>
    libsqfs_directory_add_entry parent name inode img = Some (ok, img') \<Longrightarrow> client_step img img'"
| set_root: "r < length (inodes img) \<Longrightarrow> client_step img (snd (libsqfs_image_set_root r img))"
| xattr: "libsqfs_xattr_create (mem img) (xattr_table img) name val = (x, tab, h) \<Longrightarrow>
    client_step img (img\<lparr>xattr_table := tab, mem := h\<rparr>)"
| xattrset: "libsqfs_xattrset_create ord (mem img) (xattr_table img) attrs = Some (xs, tab, h) \<Longrightarrow>
    client_step img (img\<lparr>xattr_table := tab, mem := h\<rparr>)"
| own_memory: "client_step img (img\<lparr>mem := snd (malloc (mem img))\<rparr>)"
| abort: "client_step img (libsqfs_image_abort img)"
| error_clear: "client_step img (libsqfs_image_error_clear img)"

section \<open>The invariant\<close>

fun fresh_body :: "libsqfs_inode_body \<Rightarrow> bool" where
  "fresh_body (Symlink_Inode name) \<longleftrightarrow> length name < 2 ^ 32"
| "fresh_body (Directory_Inode d) \<longleftrightarrow> entries_ok d \<and> (\<forall>e \<in> set (dd_entries d). name_ok (de_name e)) \<and>
     first_indexed d = [] \<and> indexed_count d = 0"
| "fresh_body _ \<longleftrightarrow> True"

text \<open>Inode \<open>n\<close> of an image has number \<open>n + 1\<close> and has not been serialised.\<close>

definition fresh_inode :: "nat \<Rightarrow> libsqfs_inode \<Rightarrow> bool" where
  "fresh_inode n i \<longleftrightarrow> fresh_body (in_body i) \<and> encoded_type i = 0 \<and> in_inode_number i = of_nat (n + 1)"

definition built :: "(byte list \<Rightarrow> byte list) \<Rightarrow> libsqfs_image \<Rightarrow> bool" where
  "built decomp img \<longleftrightarrow> table_inv decomp (inode_table img) \<and> table_inv decomp (dir_table img) \<and> links_ok img \<and>
     (\<forall>n < length (inodes img). fresh_inode n (inode_at img n))"

lemma built_frame:
  "built decomp img \<Longrightarrow> inodes img' = inodes img \<Longrightarrow> inode_table img' = inode_table img \<Longrightarrow> dir_table img' = dir_table img \<Longrightarrow>
   built decomp img'"
  unfolding built_def links_ok_def by (elim conjE, intro conjI) (simp_all only:)

lemma built_same:
  assumes "built decomp img" "length (inodes img') = length (inodes img)" "inode_table img' = inode_table img" "dir_table img' = dir_table img"
    and "\<And>m. in_body (inode_at img' m) = in_body (inode_at img m)" "\<And>m. encoded_type (inode_at img' m) = encoded_type (inode_at img m)"
    "\<And>m. in_inode_number (inode_at img' m) = in_inode_number (inode_at img m)"
  shows "built decomp img'"
  using assms(1) unfolding built_def links_ok_def fresh_inode_def assms(2-7) .

lemma built_new:
  assumes "built decomp img" "inodes img' = inodes img @ [i]" "inode_table img' = inode_table img" "dir_table img' = dir_table img"
    and "fresh_inode (length (inodes img)) i" "\<And>d. in_body i = Directory_Inode d \<Longrightarrow> dd_entries d = []"
  shows "built decomp img'"
proof -
  have "links_ok img'"
    unfolding links_ok_def
  proof (intro allI impI ballI)
    fix n d e assume n: "n < length (inodes img')" "in_body (inode_at img' n) = Directory_Inode d" "e \<in> set (dd_entries d)"
    then have "n < length (inodes img)" using assms(2,6) by (cases "n = length (inodes img)") auto
    then have "n < length (inodes img)" "in_body (inode_at img n) = Directory_Inode d" using n(2) assms(2) by (simp_all add: nth_append)
    with links_okD [of img n d e] n(3) assms(1)
    show "de_inode e < length (inodes img') \<and> (\<forall>c. in_body (inode_at img' (de_inode e)) = Directory_Inode c \<longrightarrow> dd_parent c = Some n)"
      using assms(2) by (auto simp: built_def nth_append)
  qed
  moreover have "fresh_inode n (inode_at img' n)" if "n < length (inodes img')" for n
    using that assms(1,2,5) by (cases "n = length (inodes img)") (auto simp: built_def nth_append)
  ultimately show ?thesis using assms(1,3,4) by (simp add: built_def)
qed

lemma fresh_init:
  "fresh_body body \<Longrightarrow> fresh_inode (length (inodes img)) (last (inodes (snd (libsqfs_inode_init body a img))))"
  by (simp add: libsqfs_inode_init_def fresh_inode_def)

lemma init_new:
  "inodes (snd (libsqfs_inode_init body a img)) = inodes img @ [last (inodes (snd (libsqfs_inode_init body a img)))]"
  "in_body (last (inodes (snd (libsqfs_inode_init body a img)))) = body"
  by (simp_all add: libsqfs_inode_init_def)

lemma built_init:
  assumes "built decomp img" "inodes img0 = inodes img" "inode_table img0 = inode_table img" "dir_table img0 = dir_table img"
    "fresh_body body" "\<And>d. body = Directory_Inode d \<Longrightarrow> dd_entries d = []"
  shows "built decomp (snd (libsqfs_inode_init body a img0))"
  using init_new [of body a img0] fresh_init [OF assms(5), of img0 a] assms
  by (intro built_new [OF assms(1)]) (auto simp: libsqfs_inode_init_def)

lemma error_tables [simp]:
  "inode_table (libsqfs_image_flag_error img s f) = inode_table img" "dir_table (libsqfs_image_flag_error img s f) = dir_table img"
  "inode_table (libsqfs_image_out_of_memory img f) = inode_table img" "dir_table (libsqfs_image_out_of_memory img f) = dir_table img"
  by (simp_all add: libsqfs_image_flag_error_def libsqfs_image_out_of_memory_def libsqfs_image_cancel_pending_operations_def
      Let_def split: prod.splits)


section \<open>The steps keep it\<close>

lemma attr_frame:
  "inodes (snd (libsqfs_inodeattr_create_simple uid gid mode ctime img)) = inodes img"
  "inode_table (snd (libsqfs_inodeattr_create_simple uid gid mode ctime img)) = inode_table img"
  "dir_table (snd (libsqfs_inodeattr_create_simple uid gid mode ctime img)) = dir_table img"
  by (simp_all add: libsqfs_inodeattr_create_simple_def Let_def split: prod.splits)

lemma extended_attr_frame:
  "inodes (snd (libsqfs_inodeattr_create_extended uid gid mode ctime x img)) = inodes img"
  "inode_table (snd (libsqfs_inodeattr_create_extended uid gid mode ctime x img)) = inode_table img"
  "dir_table (snd (libsqfs_inodeattr_create_extended uid gid mode ctime x img)) = dir_table img"
  using attr_frame [of uid gid mode ctime img]
  by (cases "libsqfs_inodeattr_create_simple uid gid mode ctime img"; cases "fst (libsqfs_inodeattr_create_simple uid gid mode ctime img)";
      simp add: libsqfs_inodeattr_create_extended_def Let_def)+

lemma data_frame:
  "inodes (snd (libsqfs_data_create_from_file f img)) = inodes img"
  "inode_table (snd (libsqfs_data_create_from_file f img)) = inode_table img"
  "dir_table (snd (libsqfs_data_create_from_file f img)) = dir_table img"
  "inodes (snd (libsqfs_data_create_for_buffer buffer img)) = inodes img"
  "inode_table (snd (libsqfs_data_create_for_buffer buffer img)) = inode_table img"
  "dir_table (snd (libsqfs_data_create_for_buffer buffer img)) = dir_table img"
  "inodes (snd (libsqfs_data_create_compound pieces img)) = inodes img"
  "inode_table (snd (libsqfs_data_create_compound pieces img)) = inode_table img"
  "dir_table (snd (libsqfs_data_create_compound pieces img)) = dir_table img"
  by (simp_all add: libsqfs_data_create_from_file_def libsqfs_data_create_for_buffer_def libsqfs_data_create_compound_def
      libsqfs_data_init_def Let_def split: prod.splits)

lemma special_built:
  assumes "built decomp img"
  shows "length name < 2 ^ 32 \<Longrightarrow> built decomp (snd (libsqfs_symlink_inode_create a name img))"
    "built decomp (snd (libsqfs_device_inode_create a type major minor img))"
    "built decomp (snd (libsqfs_fifo_inode_create a img))"
    "built decomp (snd (libsqfs_directory_inode_create a img))"
proof -
  note frame = built_frame [OF assms] and init = built_init [OF assms]
  show "built decomp (snd (libsqfs_symlink_inode_create a name img))" if "length name < 2 ^ 32"
    using that by (auto simp: libsqfs_symlink_inode_create_def Let_def intro!: init intro: frame split: prod.splits)
  show "built decomp (snd (libsqfs_device_inode_create a type major minor img))"
    by (auto simp: libsqfs_device_inode_create_def Let_def intro!: init intro: frame split: prod.splits)
  show "built decomp (snd (libsqfs_fifo_inode_create a img))"
    by (auto simp: libsqfs_fifo_inode_create_def Let_def intro!: init intro: frame split: prod.splits)
  show "built decomp (snd (libsqfs_directory_inode_create a img))"
    by (auto simp: libsqfs_directory_inode_create_def Let_def entries_ok_def intro!: init intro: frame split: prod.splits)
qed


lemma submit_frame [simp]:
  "inodes (snd (libsqfs_bulkdata_sumbit d img)) = inodes img" "inode_table (snd (libsqfs_bulkdata_sumbit d img)) = inode_table img"
  "dir_table (snd (libsqfs_bulkdata_sumbit d img)) = dir_table img"
  "inodes (snd (libsqfs_bulkdata_submit_fragment d img)) = inodes img"
  "inode_table (snd (libsqfs_bulkdata_submit_fragment d img)) = inode_table img"
  "dir_table (snd (libsqfs_bulkdata_submit_fragment d img)) = dir_table img"
  by (simp_all add: libsqfs_bulkdata_sumbit_def libsqfs_bulkdata_submit_fragment_def Let_def split: prod.splits)

text \<open>A regular file under construction is the last inode.\<close>

definition building_file :: "libsqfs_image \<Rightarrow> libsqfs_image \<Rightarrow> bool" where
  "building_file img img' \<longleftrightarrow> inode_table img' = inode_table img \<and> dir_table img' = dir_table img \<and>
     (\<exists>i reg. inodes img' = inodes img @ [i] \<and> in_body i = Regular_Inode reg \<and> encoded_type i = 0 \<and>
       in_inode_number i = of_nat (length (inodes img) + 1))"

lemma building_file_frame:
  "building_file img img' \<Longrightarrow> inodes img'' = inodes img' \<Longrightarrow> inode_table img'' = inode_table img' \<Longrightarrow>
   dir_table img'' = dir_table img' \<Longrightarrow> building_file img img''"
  by (simp add: building_file_def)

lemma building_file_upd: "building_file img img' \<Longrightarrow> building_file img (upd_regular (length (inodes img)) f img')"
  by (auto simp: building_file_def upd_regular_def upd_inode_def)

lemma building_file_built:
  assumes "built decomp img" "building_file img img'"
  shows "built decomp img'"
proof -
  obtain i reg where i: "inodes img' = inodes img @ [i]" "in_body i = Regular_Inode reg" "encoded_type i = 0"
    "in_inode_number i = of_nat (length (inodes img) + 1)" and tabs: "inode_table img' = inode_table img" "dir_table img' = dir_table img"
    using assms(2) unfolding building_file_def by blast
  show ?thesis by (rule built_new [OF assms(1) i(1) tabs]) (simp_all add: fresh_inode_def i)
qed

lemma submit_blocks_building:
  "building_file img img1 \<Longrightarrow> building_file img (snd (submit_blocks (length (inodes img)) data fsize ns img1))"
proof (induction ns arbitrary: img1)
  case (Cons n ns)
  obtain r img2 where s: "libsqfs_bulkdata_sumbit (block_piece (block_size (img_options img1)) data fsize n) img1 = (r, img2)"
    by fastforce
  have b: "building_file img img2"
    using submit_frame [of "block_piece (block_size (img_options img1)) data fsize n" img1] unfolding s
    by (intro building_file_frame [OF Cons.prems]) simp_all
  show ?case
  proof (cases r)
    case None
    have "building_file img (libsqfs_image_out_of_memory img2 False)" by (rule building_file_frame [OF b]) simp_all
    then show ?thesis using s None by simp
  next
    case (Some k)
    then show ?thesis using Cons.IH [OF building_file_upd [OF b]] s by simp
  qed
qed simp

lemma regular_building:
  assumes "libsqfs_regular_inode_create a data img = (r, img')"
  shows "r = None \<and> inodes img' = inodes img \<and> inode_table img' = inode_table img \<and> dir_table img' = dir_table img \<or>
    building_file img img' \<and> (\<forall>i. r = Some i \<longrightarrow> i = length (inodes img))"
proof -
  obtain fsize msg where size: "libsqfs_data_get_size data = (fsize, msg)" by fastforce
  define img0 where "img0 = (case msg of None \<Rightarrow> img | Some m \<Rightarrow> libsqfs_image_flag_error img m False)"
  have img: "inodes img0 = inodes img" "inode_table img0 = inode_table img" "dir_table img0 = dir_table img"
    by (simp_all add: img0_def split: option.split)
  obtain nblocks tail_size where layout: "regular_layout (img_options img0) (nat fsize) = (nblocks, tail_size)" by fastforce
  obtain ok1 h1 where m1: "malloc (mem img0) = (ok1, h1)" by fastforce
  obtain ok2 h2 where m2: "malloc h1 = (ok2, h2)" by fastforce
  let ?reg = "\<lparr>file_size = of_int fsize, sparse_size = 0, reg_blocks = replicate nblocks None, tail_piece = None\<rparr>"
  let ?n = "length (inodes img)"
  obtain img1 where i: "libsqfs_inode_init (Regular_Inode ?reg) a (img0\<lparr>mem := h2\<rparr>) = (?n, img1)"
    and start: "building_file img img1"
    using img by (simp add: libsqfs_inode_init_def building_file_def Let_def)
  obtain ok img2 where s: "submit_blocks ?n data (nat fsize) [0..<nblocks] img1 = (ok, img2)" by fastforce
  have blocks: "building_file img img2"
    using submit_blocks_building [OF start, of data "nat fsize" "[0..<nblocks]"] unfolding s by simp
  obtain piece img3 where f: "libsqfs_bulkdata_submit_fragment (Piece data tail_size (nat fsize - tail_size)) img2 = (piece, img3)"
    by fastforce
  have tail: "building_file img img3"
    using submit_frame(4-6) [of "Piece data tail_size (nat fsize - tail_size)" img2] unfolding f
    by (intro building_file_frame [OF blocks]) simp_all
  have eq: "libsqfs_regular_inode_create a data img =
      (if fsize = -1 then (None, img0) else if \<not> ok1 then (None, img0\<lparr>mem := h1\<rparr>)
       else if \<not> ok2 then (None, libsqfs_image_out_of_memory (img0\<lparr>mem := h2\<rparr>) False)
       else if \<not> ok then (None, img2)
       else if tail_size \<noteq> 0 then (case piece of None \<Rightarrow> (None, libsqfs_image_out_of_memory img3 False)
         | Some piece \<Rightarrow> (Some ?n, upd_regular ?n (\<lambda>reg. reg\<lparr>tail_piece := Some piece\<rparr>) img3))
       else (Some ?n, img2))"
    by (simp add: libsqfs_regular_inode_create_def size Let_def img0_def [symmetric] layout m1 m2 i s f split: option.split)
  have oom: "building_file img (libsqfs_image_out_of_memory img3 False)" by (rule building_file_frame [OF tail]) simp_all
  show ?thesis using assms blocks oom building_file_upd [OF tail] img unfolding eq
    by (cases piece) (auto split: if_splits)
qed

lemma regular_built:
  assumes "built decomp img"
  shows "built decomp (snd (libsqfs_regular_inode_create a data img))"
  using regular_building [of a data img "fst (libsqfs_regular_inode_create a data img)" "snd (libsqfs_regular_inode_create a data img)"]
    building_file_built [OF assms] built_frame [OF assms] by auto

lemma adopted_inode:
  assumes "parent < length (inodes img)" "inode < length (inodes img)"
  shows "encoded_type (inode_at (adopted parent inode img) m) = encoded_type (inode_at img m)"
    "in_inode_number (inode_at (adopted parent inode img) m) = in_inode_number (inode_at img m)"
    "inode_table (adopted parent inode img) = inode_table img" "dir_table (adopted parent inode img) = dir_table img"
  using assms by (simp_all add: adopted_def inode_at_upd inode_at_upd_directory)

lemma adopted_built:
  assumes "built decomp img" "parent < length (inodes img)" "inode < length (inodes img)"
    "\<And>d. in_body (inode_at img inode) = Directory_Inode d \<Longrightarrow> dd_parent d = None"
  shows "built decomp (adopted parent inode img)"
proof -
  have "fresh_inode n (inode_at (adopted parent inode img) n)" if "n < length (inodes img)" for n
  proof -
    have f: "fresh_inode n (inode_at img n)" using assms(1) that by (simp add: built_def)
    have "fresh_body (in_body (inode_at (adopted parent inode img) n))"
      unfolding adopted_body [OF assms(2,3)] using f
      by (cases "in_body (inode_at img n)") (auto simp: fresh_inode_def entries_ok_def)
    with f show ?thesis by (simp add: fresh_inode_def adopted_inode [OF assms(2,3)])
  qed
  moreover have "links_ok (adopted parent inode img)" using assms by (intro adopted_links) (simp_all add: built_def)
  ultimately show ?thesis using assms(1) by (simp add: built_def adopted_inode [OF assms(2,3)])
qed

lemma entry_built:
  assumes b: "built decomp img" and n: "parent < length (inodes img)" "inode < length (inodes img)"
    and name: "is_cstring name" "name_ok name"
    and add: "libsqfs_directory_add_entry parent name inode img = Some (ok, img')"
  shows "built decomp img'"
  using add
proof (cases rule: add_entry_cases)
  case (refused msg)
  show ?thesis unfolding refused(2) by (rule built_frame [OF b]) simp_all
next
  case (memory h)
  show ?thesis unfolding memory(2) by (rule built_frame [OF adopted_built [OF b n memory(3)]]) simp_all
next
  case (added h)
  let ?img = "upd_inode inode (\<lambda>i. i\<lparr>in_nlink := in_nlink i + 1\<rparr>) (adopted parent inode img\<lparr>mem := h\<rparr>)"
  have at: "in_body (inode_at ?img m) = in_body (inode_at (adopted parent inode img) m)" for m
    using n(2) by (simp add: inode_at_upd)
  have a: "built decomp ?img"
    by (rule built_same [OF adopted_built [OF b n added(3)]]) (use n(2) in \<open>simp_all add: inode_at_upd\<close>)
  obtain p where "in_body (inode_at img parent) = Directory_Inode p" using add_entry_parent [OF add] by blast
  then obtain q where q: "in_body (inode_at ?img parent) = Directory_Inode q"
    unfolding at adopted_body [OF n] by simp
  have fresh: "fresh_inode m (inode_at ?img m)" if "m < length (inodes img)" for m
    using a that unfolding built_def by simp
  have links: "links_ok img'" by (rule links_after_add [OF _ n add]) (use b in \<open>simp add: built_def\<close>)
  have "fresh_inode m (inode_at img' m)" if "m < length (inodes img)" for m
  proof (cases "m = parent")
    case True
    have "entries_ok q" "\<forall>e \<in> set (dd_entries q). name_ok (de_name e)" "first_indexed q = []" "indexed_count q = 0"
      using fresh [OF n(1)] q by (simp_all add: fresh_inode_def)
    then have "fresh_body (Directory_Inode (with_entry name inode q))"
      using names.insert_ok [OF _ name(1), of q inode] name(2) by (auto simp: with_entry_def fresh_entry_def)
    then show ?thesis using fresh [OF n(1)] q n True unfolding added(2)
      by (simp add: inode_at_upd_directory fresh_inode_def)
  next
    case False
    then show ?thesis using fresh [OF that] n unfolding added(2) by (simp add: inode_at_upd_directory)
  qed
  moreover have "inode_table img' = inode_table img" "dir_table img' = dir_table img" "length (inodes img') = length (inodes img)"
    unfolding added(2) using adopted_inode [OF n] by simp_all
  ultimately show ?thesis using links b by (simp add: built_def)
qed

lemma client_step_built: "client_step img img' \<Longrightarrow> built decomp img \<Longrightarrow> built decomp img'"
proof (induction rule: client_step.induct)
  case (set_root r img)
  let ?img = "upd_inode r (\<lambda>i. i\<lparr>in_nlink := in_nlink i + 1\<rparr>) (img\<lparr>root := Some r\<rparr>)"
  have "built decomp ?img" by (rule built_same [OF set_root(2)]) (use set_root(1) in \<open>simp_all add: inode_at_upd\<close>)
  then show ?case using set_root(2) by (simp add: libsqfs_image_set_root_def)
next
  case (entry parent img inode name ok img')
  show ?case by (rule entry_built [OF entry(6) entry(1-5)])
next
  case (xattr img name val x tab h)
  show ?case by (rule built_frame [OF xattr(2)]) simp_all
next
  case (xattrset ord img attrs xs tab h)
  show ?case by (rule built_frame [OF xattrset(2)]) simp_all
next
  case (own_memory img)
  show ?case by (rule built_frame [OF own_memory]) simp_all
next
  case (abort img)
  show ?case by (rule built_frame [OF abort]) (simp_all add: libsqfs_image_abort_def)
next
  case (error_clear img)
  show ?case by (rule built_frame [OF error_clear]) (simp_all add: libsqfs_image_error_clear_def)
next
  case (attr img uid gid mode ctime)
  show ?case by (rule built_frame [OF attr attr_frame])
next
  case (extended_attr img uid gid mode ctime xattrset)
  show ?case by (rule built_frame [OF extended_attr extended_attr_frame])
next
  case (file_data img f)
  show ?case by (rule built_frame [OF file_data data_frame(1-3)])
next
  case (buffer_data img buffer)
  show ?case by (rule built_frame [OF buffer_data data_frame(4-6)])
next
  case (compound_data img pieces)
  show ?case by (rule built_frame [OF compound_data data_frame(7-9)])
next
  case (symlink name img a)
  show ?case by (rule special_built(1) [OF symlink(2,1)])
next
  case (device img a type major minor)
  show ?case by (rule special_built(2) [OF device])
next
  case (fifo img a)
  show ?case by (rule special_built(3) [OF fifo])
next
  case (directory img a)
  show ?case by (rule special_built(4) [OF directory])
next
  case (regular img a data)
  show ?case by (rule regular_built [OF regular])
qed

section \<open>Properties\<close>

lemma created_built:
  assumes "libsqfs_image_create ext have_zlib now h destination options = Some (Some img0, h')"
    and "inode_compression (img_options img0) \<Longrightarrow> codec_ok decomp (Some (compressor img0))"
  shows "built decomp img0"
proof -
  have "inodes img0 = [] \<and> (let c = if inode_compression (img_options img0) then Some (compressor img0) else None in
      inode_table img0 = libsqfs_metatable_init c \<and> dir_table img0 = libsqfs_metatable_init c)"
    using assms(1) by (auto simp: libsqfs_image_create_def Let_def split_beta libsqfs_reserve_superblock_def libsqfs_image_reserve_def
        split: if_split_asm option.split_asm)
  then show ?thesis using assms(2) by (auto simp: built_def links_ok_def Let_def init_inv split: if_splits)
qed

lemma client_steps_built: "client_step\<^sup>*\<^sup>* img img' \<Longrightarrow> built decomp img \<Longrightarrow> built decomp img'"
  by (induction rule: rtranclp_induct) (auto intro: client_step_built)

lemma built_ready:
  assumes "built decomp img" "\<And>n reg. n < length (inodes img) \<Longrightarrow> in_body (inode_at img n) = Regular_Inode reg \<Longrightarrow> file_ready img reg"
  shows "image_ok decomp img"
proof -
  have "body_ok img (encoded_type (inode_at img n)) (in_body (inode_at img n)) \<and> encoded_type (inode_at img n) = 0"
    if "n < length (inodes img)" for n
  proof -
    have "fresh_inode n (inode_at img n)" using assms(1) that by (simp add: built_def)
    then show ?thesis using assms(2) [OF that] by (cases "in_body (inode_at img n)") (simp_all add: fresh_inode_def)
  qed
  then have "\<forall>n < length (inodes img). body_ok img (encoded_type (inode_at img n)) (in_body (inode_at img n)) \<and>
      (encoded_type (inode_at img n) \<noteq> 0 \<longrightarrow> stored decomp img n)" by blast
  then show ?thesis using assms(1) unfolding image_ok_def built_def by blast
qed

text \<open>A library whose compression copies, and an image made with it: a directory with a pipe.\<close>

definition demo_codecs :: external_codecs where
  "demo_codecs = \<lparr>ext_deflateInit = True,
     ext_deflate = (\<lambda>n src. if src \<noteq> [] \<and> length src \<le> n then (Z_STREAM_END, src) else (0, [])),
     ext_lzma_alone_encoder = (\<lambda>n. 1), ext_lzma_code = (\<lambda>n m src. (0, [])),
     ext_lzma_stream_buffer_encode = (\<lambda>flags k n src. (1, [])), ext_ZSTD_compress = (\<lambda>n src level. (0, [])),
     ext_ZSTD_isError = (\<lambda>r. True)\<rparr>"

lemma demo_codec_ok: "codec_ok (\<lambda>bs. bs) (Some (compressor_vmt demo_codecs Compressor_Zlib))"
proof -
  have "lossless_codec (libsqfs_compressor_instance_zlib_compress demo_codecs) (\<lambda>bs. bs)"
    by (rule zlib_lossless) (auto simp: demo_codecs_def split: if_splits)
  then show ?thesis by (simp add: codec_ok_def)
qed

definition demo_created :: libsqfs_image where
  "demo_created = demo_image\<lparr>dst := Dest_Null, compressor := compressor_vmt demo_codecs Compressor_Zlib,
     inode_table := libsqfs_metatable_init (Some (compressor_vmt demo_codecs Compressor_Zlib)),
     dir_table := libsqfs_metatable_init (Some (compressor_vmt demo_codecs Compressor_Zlib)),
     xattr_table := libsqfs_xattr_table_init (Some (compressor_vmt demo_codecs Compressor_Zlib))\<rparr>"

lemma demo_created: "libsqfs_image_create demo_codecs True 0 [] Dest_Null None = Some (Some demo_created, [])"
  by (simp add: libsqfs_image_create_def libsqfs_image_options_create_def libsqfs_image_options_defaults_def libsqfs_compressor_copy_def
      libsqfs_compressor_open_def demo_codecs_def libsqfs_reserve_superblock_def libsqfs_image_reserve_def Let_def
      demo_created_def demo_image_def libsqfs_threadpool_init_def)

lemma demo_client:
  "\<exists>img. client_step\<^sup>*\<^sup>* demo_created img \<and> length (inodes img) = 2 \<and> (\<exists>d. in_body (inode_at img 0) = Directory_Inode d \<and>
     dd_parent d = None \<and> map de_inode (dd_entries d) = [1]) \<and> in_body (inode_at img 1) = Fifo_Inode \<and> mem img = []"
proof -
  let ?img1 = "snd (libsqfs_directory_inode_create demo_attr demo_created)"
  let ?img2 = "snd (libsqfs_fifo_inode_create demo_attr ?img1)"
  have two: "length (inodes ?img2) = 2"
    by (simp add: libsqfs_directory_inode_create_def libsqfs_fifo_inode_create_def libsqfs_inode_init_def demo_created_def
        demo_image_def Let_def)
  obtain img where img: "libsqfs_directory_add_entry 0 (cstr ''p'') 1 ?img2 = Some (True, img)" "length (inodes img) = 2"
    "in_body (inode_at img 0) = Directory_Inode (empty_directory\<lparr>dd_entries := [fresh_entry (cstr ''p'') 1]\<rparr>)"
    "in_body (inode_at img 1) = Fifo_Inode" "mem img = []"
    by (simp add: libsqfs_directory_inode_create_def libsqfs_fifo_inode_create_def libsqfs_inode_init_def demo_created_def
        demo_image_def Let_def libsqfs_directory_add_entry_def libsqfs_inode_get_class_def upd_inode_def upd_directory_def fresh_entry_def)
  have "client_step ?img2 img" using two by (intro client_step.entry [OF _ _ _ _ img(1)]) (simp_all add: is_cstring_def)
  moreover have "client_step demo_created ?img1" "client_step ?img1 ?img2" by (rule client_step.directory client_step.fifo)+
  ultimately have "client_step\<^sup>*\<^sup>* demo_created img" by (meson converse_rtranclp_into_rtranclp rtranclp.rtrancl_refl)
  with img show ?thesis by (auto simp: fresh_entry_def)
qed



text \<open>C5: a tree that a client built can be stored. Once the chunks of its files have been written and
  nothing else has changed, serialising it from a root directory without a parent returns; it fails
  only for want of memory; when it succeeds, every inode that the root leads to is stored, record and
  listing, as the format reads them.\<close>

theorem client_serializes:
  assumes "libsqfs_image_create ext have_zlib now h destination options = Some (Some img0, h')"
    and "inode_compression (img_options img0) \<Longrightarrow> codec_ok decomp (Some (compressor img0))" "client_step\<^sup>*\<^sup>* img0 img"
    and "inodes img' = inodes img" "inode_table img' = inode_table img" "dir_table img' = dir_table img"
    and "\<And>n reg. n < length (inodes img') \<Longrightarrow> in_body (inode_at img' n) = Regular_Inode reg \<Longrightarrow> file_ready img' reg"
    and "r < length (inodes img')" "in_body (inode_at img' r) = Directory_Inode d" "dd_parent d = None"
  shows "\<exists>ok img''. libsqfs_inode_serialize r img' = Some (ok, img'') \<and> (mem img' = [] \<longrightarrow> ok) \<and>
    (ok \<longrightarrow> (\<forall>n. reaches img' r n \<longrightarrow> stored decomp img'' n))"
proof -
  have "built decomp img" by (rule client_steps_built [OF assms(3) created_built [OF assms(1,2)]])
  then have "built decomp img'" by (rule built_frame) (rule assms(4-6))+
  then have "image_ok decomp img'" using assms(7) by (rule built_ready)
  then show ?thesis using assms(8-10) by (rule serialized_from)
qed

theorem client_serializes_witness:
  "\<exists>img img''. client_step\<^sup>*\<^sup>* demo_created img \<and> libsqfs_inode_serialize 0 img = Some (True, img'') \<and> stored (\<lambda>bs. bs) img'' 1"
proof -
  obtain img d where img: "client_step\<^sup>*\<^sup>* demo_created img" "length (inodes img) = 2" "in_body (inode_at img 0) = Directory_Inode d"
    "dd_parent d = None" "map de_inode (dd_entries d) = [1]" "in_body (inode_at img 1) = Fifo_Inode" "mem img = []"
    using demo_client by (elim exE conjE) (rule that)
  have "compressor demo_created = compressor_vmt demo_codecs Compressor_Zlib" by (simp add: demo_created_def)
  then have codec: "inode_compression (img_options demo_created) \<Longrightarrow> codec_ok (\<lambda>bs. bs) (Some (compressor demo_created))"
    using demo_codec_ok by simp
  have files: "file_ready img reg" if "n < length (inodes img)" "in_body (inode_at img n) = Regular_Inode reg" for n reg
  proof -
    have "n = 0 \<or> n = 1" using that(1) img(2) by auto
    then show ?thesis using that(2) img(3,6) by (elim disjE) simp_all
  qed
  obtain e where e: "e \<in> set (dd_entries d)" "de_inode e = 1" using img(5) by (cases "dd_entries d") auto
  have "reaches img 0 1" using reaches.entry [OF reaches.itself img(3) e(1)] unfolding e(2) .
  moreover have "\<exists>ok img''. libsqfs_inode_serialize 0 img = Some (ok, img'') \<and> (mem img = [] \<longrightarrow> ok) \<and>
      (ok \<longrightarrow> (\<forall>n. reaches img 0 n \<longrightarrow> stored (\<lambda>bs. bs) img'' n))"
    by (rule client_serializes [OF demo_created _ img(1) refl refl refl _ _ img(3,4)])
      (use codec files img(2) in simp_all)
  then obtain ok img'' where "libsqfs_inode_serialize 0 img = Some (ok, img'')" "mem img = [] \<longrightarrow> ok"
    "ok \<Longrightarrow> reaches img 0 1 \<Longrightarrow> stored (\<lambda>bs. bs) img'' 1" by blast
  ultimately show ?thesis using img(1,7) by (intro exI [of _ img] exI [of _ img'']) simp
qed

end
