(* ===== verification/Bulkinv.thy ===== *)
theory Bulkinv
  imports Plan
begin

text \<open>
  bulkdata.c keeps to the discipline of Pipeline and produces what Plan says, however the threads
  are interleaved: the invariant of a run, and one lemma for every atomic part of an operation.
\<close>

section \<open>The invariant\<close>

abbreviation st :: "'a sqfs_bulk_scheme \<Rightarrow> nat \<Rightarrow> libsqfs_chunk_state" where
  "st img i \<equiv> ck_state (chunk_at img i)"

text \<open>The data of piece \<open>i\<close> has gone into its block: the chunk that flushes the block has compressed it.\<close>

definition consumed :: "nat \<Rightarrow> submission list \<Rightarrow> 'a sqfs_bulk_scheme \<Rightarrow> nat \<Rightarrow> bool" where
  "consumed bs xs img i \<longleftrightarrow> (\<exists>n < length xs. is_piece xs n \<and> plan_flush bs xs n \<and> libsqfs_chunk_writable \<le> st img n \<and>
     i \<in> set (fst (last (plan_upto bs xs n))))"

text \<open>The image block written by chunk \<open>i\<close>, in the state \<open>s\<close> of the chunk.\<close>

definition block_inv :: "bulk_job \<Rightarrow> submission list \<Rightarrow> nat \<Rightarrow> libsqfs_chunk_state \<Rightarrow> libsqfs_image_block \<Rightarrow> bool" where
  "block_inv J xs i s block \<longleftrightarrow>
     (case chunk_output J xs i of
        None \<Rightarrow> True
      | Some (b, z) \<Rightarrow>
          (s < libsqfs_chunk_writable \<longrightarrow> block = libsqfs_image_block_init) \<and>
          (libsqfs_chunk_writable \<le> s \<longrightarrow> ib_size block = length b \<and> ib_compressed block = z) \<and>
          (s = libsqfs_chunk_writable \<longrightarrow> ib_data block = Some b))"

text \<open>One chunk; \<open>used\<close> tells whether its data has gone into a fragment block.\<close>

definition chunk_inv :: "bulk_job \<Rightarrow> submission list \<Rightarrow> bool \<Rightarrow> nat \<Rightarrow> libsqfs_chunk \<Rightarrow> bool" where
  "chunk_inv J xs used i c \<longleftrightarrow>
     ck_vmt c = fst (xs ! i) \<and> ck_data c = snd (xs ! i) \<and> prev_piece c = piece_before xs i \<and>
     (\<forall>k. next_piece c = Some k \<longleftrightarrow> k < length xs \<and> piece_before xs k = Some i) \<and>
     (flush_previous_block c \<longleftrightarrow> placed (ck_state c) \<and> plan_flush (job_block_size J) xs i) \<and>
     (fst (xs ! i) = libsqfs_fragment_piece_vmt \<longrightarrow> placed (ck_state c) \<longrightarrow>
        ck_fragment_block c = Some (length (plan_upto (job_block_size J) xs (Suc i)) - 1) \<and>
        ck_offset c = of_nat (plan_offset (job_block_size J) xs i)) \<and>
     (is_piece xs i \<longrightarrow> ck_state c = libsqfs_chunk_assigned \<longrightarrow> plan_flush (job_block_size J) xs i) \<and>
     (fst (xs ! i) \<noteq> libsqfs_closing_piece_vmt \<longrightarrow> ck_state c \<noteq> libsqfs_chunk_none \<longrightarrow>
        length (src_bytes (xs ! i)) = piece_size (snd (xs ! i))) \<and>
     (fst (xs ! i) = libsqfs_full_block_vmt \<longrightarrow> ck_state c \<noteq> libsqfs_chunk_none \<longrightarrow> ck_state c < libsqfs_chunk_writable \<longrightarrow>
        cached_data c = Some (src_bytes (xs ! i))) \<and>
     (fst (xs ! i) = libsqfs_fragment_piece_vmt \<longrightarrow> ck_state c \<noteq> libsqfs_chunk_none \<longrightarrow> \<not> used \<longrightarrow>
        cached_data c = Some (src_bytes (xs ! i))) \<and>
     (\<not> is_piece xs i \<longrightarrow> block_inv J xs i (ck_state c) (ck_dst c))"

definition submissions_ok :: "nat \<Rightarrow> submission list \<Rightarrow> bool" where
  "submissions_ok bs xs \<longleftrightarrow> (\<forall>i < length xs.
     (fst (xs ! i) \<noteq> libsqfs_closing_piece_vmt \<longrightarrow> 0 < piece_size (snd (xs ! i))) \<and>
     (fst (xs ! i) = libsqfs_fragment_piece_vmt \<longrightarrow> piece_size (snd (xs ! i)) \<le> bs) \<and>
     (fst (xs ! i) = libsqfs_closing_piece_vmt \<longrightarrow> Suc i = length xs))"

definition chunks_inv :: "bulk_job \<Rightarrow> submission list \<Rightarrow> 'a sqfs_bulk_scheme \<Rightarrow> bool" where
  "chunks_inv J xs img \<longleftrightarrow> bd_count (bulkdata img) = length xs \<and>
     fragment_pieces (bulkdata img) = pieces_below xs (length xs) \<and>
     (\<forall>i < length xs. chunk_inv J xs (consumed (job_block_size J) xs img i) i (chunk_at img i))"

text \<open>The fragment blocks are those of the plan, up to the first piece that has not been placed.\<close>

definition blocks_inv :: "bulk_job \<Rightarrow> submission list \<Rightarrow> 'a sqfs_bulk_scheme \<Rightarrow> bool" where
  "blocks_inv J xs img \<longleftrightarrow>
     (\<exists>a \<le> length xs. (\<forall>i < length xs. is_piece xs i \<longrightarrow> (placed (st img i) \<longleftrightarrow> i < a)) \<and>
        map (\<lambda>b. (fb_pieces b, fb_size b)) (fragment_blocks (bulkdata img)) = plan_upto (job_block_size J) xs a) \<and>
     (\<forall>i < length xs. is_piece xs i \<longrightarrow> plan_flush (job_block_size J) xs i \<longrightarrow>
        length (plan_upto (job_block_size J) xs i) \<le> length (fragment_blocks (bulkdata img)) \<longrightarrow>
        block_inv J xs i (st img i)
          (fb_dst (fragment_blocks (bulkdata img) ! (length (plan_upto (job_block_size J) xs i) - 1)))) \<and>
     (\<forall>j < length (fragment_blocks (bulkdata img)).
        (\<forall>i < length xs. plan_flush (job_block_size J) xs i \<longrightarrow> length (plan_upto (job_block_size J) xs i) - 1 \<noteq> j) \<longrightarrow>
        fb_dst (fragment_blocks (bulkdata img) ! j) = libsqfs_image_block_init)"

text \<open>The queues, with the tasks that threads have taken from them.\<close>

fun readers :: "bulk_task list \<Rightarrow> nat list" where
  "readers [] = []"
| "readers (t # ts) = (case t of Reading n \<Rightarrow> [n] | _ \<Rightarrow> []) @ readers ts"

fun compressors :: "bulk_task list \<Rightarrow> nat list" where
  "compressors [] = []"
| "compressors (t # ts) = (case t of Compressing n \<Rightarrow> [n] | _ \<Rightarrow> []) @ compressors ts"

fun writers :: "bulk_task list \<Rightarrow> nat list" where
  "writers [] = []"
| "writers (t # ts) = (case t of Writing n \<Rightarrow> [n] | _ \<Rightarrow> []) @ writers ts"

definition queues_inv :: "submission list \<Rightarrow> 'a sqfs_bulk_scheme \<Rightarrow> bulk_task list \<Rightarrow> bool" where
  "queues_inv xs img ts \<longleftrightarrow>
     distinct (readq (bulkdata img) @ readers ts) \<and> distinct (dedupq (bulkdata img)) \<and>
     distinct (assignq (bulkdata img)) \<and> distinct (compressq (bulkdata img) @ compressors ts) \<and>
     distinct (writeq (bulkdata img) @ writers ts) \<and>
     (\<forall>n \<in> set (readers ts). fst (xs ! n) \<noteq> libsqfs_closing_piece_vmt) \<and>
     pipe_ok (length xs) (st img) (piece_before xs) (bd_finished (bulkdata img)) (aborted (bulkdata img))
       (set (readq (bulkdata img) @ readers ts)) (set (dedupq (bulkdata img))) (set (assignq (bulkdata img)))
       (set (compressq (bulkdata img) @ compressors ts)) (set (writeq (bulkdata img) @ writers ts))"

text \<open>The output, unless the run was aborted: written in the order of the chunks, back to back.\<close>

definition written_block :: "bulk_job \<Rightarrow> submission list \<Rightarrow> 'a sqfs_bulk_scheme \<Rightarrow> nat \<Rightarrow> libsqfs_image_block" where
  "written_block J xs img i =
     (if is_piece xs i then fb_dst (fragment_blocks (bulkdata img) ! (length (plan_upto (job_block_size J) xs i) - 1))
      else ck_dst (chunk_at img i))"

definition disk_inv :: "bulk_job \<Rightarrow> submission list \<Rightarrow> 'a sqfs_bulk_scheme \<Rightarrow> bulk_task list \<Rightarrow> bool" where
  "disk_inv J xs img ts \<longleftrightarrow>
     (\<not> aborted (bulkdata img) \<longrightarrow>
        img_size img = output_offset J xs (bd_finished (bulkdata img) + length (writers ts)) \<and>
        dst img = output_disk J xs (bd_finished (bulkdata img)) \<and>
        (\<forall>i < bd_finished (bulkdata img). write_complete J xs i) \<and>
        (\<forall>i < length xs. chunk_output J xs i \<noteq> None \<longrightarrow> i < bd_finished (bulkdata img) + length (writers ts) \<longrightarrow>
           ib_offset (written_block J xs img i) = output_offset J xs i))"

definition run_inv :: "bulk_job \<Rightarrow> submission list \<Rightarrow> 'a sqfs_bulk_scheme \<Rightarrow> bulk_task list \<Rightarrow> bool" where
  "run_inv J xs img ts \<longleftrightarrow>
     submissions_ok (job_block_size J) xs \<and> vmt_compress (job_ci J) \<noteq> None \<and> mem img = [] \<and>
     compress_blocks (bulkdata img) = job_compress_blocks J \<and>
     compress_fragments (bulkdata img) = job_compress_fragments J \<and>
     block_size (img_options img) = job_block_size J \<and>
     (may_add_chunks (bulkdata img) \<longrightarrow> (\<forall>i < length xs. fst (xs ! i) \<noteq> libsqfs_closing_piece_vmt)) \<and>
     chunks_inv J xs img \<and> blocks_inv J xs img \<and> queues_inv xs img ts \<and> disk_inv J xs img ts"

section \<open>Frame lemmas\<close>

lemma chunk_at_upd [simp]:
  "n < bd_count (bulkdata img) \<Longrightarrow> chunk_at (upd_chunk n f img) i = (if i = n then f (chunk_at img n) else chunk_at img i)"
  by (auto simp: upd_chunk_def)

lemma upd_chunk_fields [simp]:
  "bd_count (bulkdata (upd_chunk n f img)) = bd_count (bulkdata img)"
  "bd_finished (bulkdata (upd_chunk n f img)) = bd_finished (bulkdata img)"
  "fragment_blocks (bulkdata (upd_chunk n f img)) = fragment_blocks (bulkdata img)"
  "fragment_pieces (bulkdata (upd_chunk n f img)) = fragment_pieces (bulkdata img)"
  "readq (bulkdata (upd_chunk n f img)) = readq (bulkdata img)"
  "dedupq (bulkdata (upd_chunk n f img)) = dedupq (bulkdata img)"
  "assignq (bulkdata (upd_chunk n f img)) = assignq (bulkdata img)"
  "compressq (bulkdata (upd_chunk n f img)) = compressq (bulkdata img)"
  "writeq (bulkdata (upd_chunk n f img)) = writeq (bulkdata img)"
  "may_add_chunks (bulkdata (upd_chunk n f img)) = may_add_chunks (bulkdata img)"
  "aborted (bulkdata (upd_chunk n f img)) = aborted (bulkdata img)"
  "compress_blocks (bulkdata (upd_chunk n f img)) = compress_blocks (bulkdata img)"
  "compress_fragments (bulkdata (upd_chunk n f img)) = compress_fragments (bulkdata img)"
  "mem (upd_chunk n f img) = mem img" "dst (upd_chunk n f img) = dst img"
  "img_size (upd_chunk n f img) = img_size img" "img_options (upd_chunk n f img) = img_options img"
  by (simp_all add: upd_chunk_def)

lemma upd_fragment_block_fields [simp]:
  "bd_chunks (bulkdata (upd_fragment_block n f img)) = bd_chunks (bulkdata img)"
  "bd_finished (bulkdata (upd_fragment_block n f img)) = bd_finished (bulkdata img)"
  "fragment_blocks (bulkdata (upd_fragment_block n f img)) =
     (fragment_blocks (bulkdata img))[n := f (fragment_blocks (bulkdata img) ! n)]"
  "fragment_pieces (bulkdata (upd_fragment_block n f img)) = fragment_pieces (bulkdata img)"
  "readq (bulkdata (upd_fragment_block n f img)) = readq (bulkdata img)"
  "dedupq (bulkdata (upd_fragment_block n f img)) = dedupq (bulkdata img)"
  "assignq (bulkdata (upd_fragment_block n f img)) = assignq (bulkdata img)"
  "compressq (bulkdata (upd_fragment_block n f img)) = compressq (bulkdata img)"
  "writeq (bulkdata (upd_fragment_block n f img)) = writeq (bulkdata img)"
  "may_add_chunks (bulkdata (upd_fragment_block n f img)) = may_add_chunks (bulkdata img)"
  "aborted (bulkdata (upd_fragment_block n f img)) = aborted (bulkdata img)"
  "compress_blocks (bulkdata (upd_fragment_block n f img)) = compress_blocks (bulkdata img)"
  "compress_fragments (bulkdata (upd_fragment_block n f img)) = compress_fragments (bulkdata img)"
  "mem (upd_fragment_block n f img) = mem img" "dst (upd_fragment_block n f img) = dst img"
  "img_size (upd_fragment_block n f img) = img_size img"
  "img_options (upd_fragment_block n f img) = img_options img"
  by (simp_all add: upd_fragment_block_def)

lemma st_upd: "n < bd_count (bulkdata img) \<Longrightarrow> st (upd_chunk n f img) = (st img)(n := ck_state (f (chunk_at img n)))"
  by (intro ext) simp

text \<open>What the invariant of the chunks depends on.\<close>

lemma consumed_cong: "bd_chunks (bulkdata img') = bd_chunks (bulkdata img) \<Longrightarrow> consumed bs xs img' = consumed bs xs img"
  by (intro ext) (simp add: consumed_def)

lemma chunks_inv_cong:
  "bd_chunks (bulkdata img') = bd_chunks (bulkdata img) \<Longrightarrow>
   fragment_pieces (bulkdata img') = fragment_pieces (bulkdata img) \<Longrightarrow> chunks_inv J xs img' = chunks_inv J xs img"
  by (simp add: chunks_inv_def consumed_cong [of img' img])

lemma blocks_inv_cong:
  "bd_chunks (bulkdata img') = bd_chunks (bulkdata img) \<Longrightarrow>
   fragment_blocks (bulkdata img') = fragment_blocks (bulkdata img) \<Longrightarrow> blocks_inv J xs img' = blocks_inv J xs img"
  by (simp add: blocks_inv_def)

lemma disk_inv_cong:
  "bd_chunks (bulkdata img') = bd_chunks (bulkdata img) \<Longrightarrow>
   fragment_blocks (bulkdata img') = fragment_blocks (bulkdata img) \<Longrightarrow>
   bd_finished (bulkdata img') = bd_finished (bulkdata img) \<Longrightarrow>
   (\<not> aborted (bulkdata img') \<Longrightarrow> \<not> aborted (bulkdata img)) \<Longrightarrow> img_size img' = img_size img \<Longrightarrow> dst img' = dst img \<Longrightarrow>
   (\<not> aborted (bulkdata img') \<Longrightarrow> length (writers ts') = length (writers ts)) \<Longrightarrow>
   disk_inv J xs img ts \<Longrightarrow> disk_inv J xs img' ts'"
  by (auto simp: disk_inv_def written_block_def)

lemma consumed_upd:
  assumes "n < bd_count (bulkdata img)"
    and "is_piece xs n \<Longrightarrow> plan_flush bs xs n \<Longrightarrow>
      libsqfs_chunk_writable \<le> ck_state (f (chunk_at img n)) \<longleftrightarrow> libsqfs_chunk_writable \<le> st img n"
  shows "consumed bs xs (upd_chunk n f img) = consumed bs xs img"
proof -
  have "libsqfs_chunk_writable \<le> st (upd_chunk n f img) m \<longleftrightarrow> libsqfs_chunk_writable \<le> st img m"
    if "is_piece xs m" "plan_flush bs xs m" for m
    using assms that by (cases "m = n") auto
  then show ?thesis unfolding consumed_def by (intro ext) blast
qed

lemma chunks_inv_upd:
  assumes inv: "chunks_inv J xs img" and n: "n < length xs"
    and c: "chunk_inv J xs (consumed (job_block_size J) xs img n) n (chunk_at img n) \<Longrightarrow>
      chunk_inv J xs (consumed (job_block_size J) xs img n) n (f (chunk_at img n))"
    and same: "is_piece xs n \<Longrightarrow> plan_flush (job_block_size J) xs n \<Longrightarrow>
      libsqfs_chunk_writable \<le> ck_state (f (chunk_at img n)) \<longleftrightarrow> libsqfs_chunk_writable \<le> st img n"
  shows "chunks_inv J xs (upd_chunk n f img)"
proof -
  have len: "n < bd_count (bulkdata img)" using inv n by (simp add: chunks_inv_def)
  have cons: "consumed (job_block_size J) xs (upd_chunk n f img) = consumed (job_block_size J) xs img"
    using consumed_upd [of n img xs "job_block_size J" f] len same by blast
  show ?thesis using inv c n len unfolding chunks_inv_def cons by simp
qed

lemma blocks_inv_upd:
  assumes inv: "blocks_inv J xs img" and n: "n < length xs" "n < bd_count (bulkdata img)"
    and placed: "is_piece xs n \<Longrightarrow> placed (ck_state (f (chunk_at img n))) \<longleftrightarrow> placed (st img n)"
    and block: "\<And>b. is_piece xs n \<Longrightarrow> plan_flush (job_block_size J) xs n \<Longrightarrow> block_inv J xs n (st img n) b \<Longrightarrow>
      block_inv J xs n (ck_state (f (chunk_at img n))) b"
  shows "blocks_inv J xs (upd_chunk n f img)"
proof -
  obtain a where a: "a \<le> length xs" "\<forall>i < length xs. is_piece xs i \<longrightarrow> (placed (st img i) \<longleftrightarrow> i < a)"
      "map (\<lambda>b. (fb_pieces b, fb_size b)) (fragment_blocks (bulkdata img)) = plan_upto (job_block_size J) xs a"
    using inv by (auto simp: blocks_inv_def)
  have "\<forall>i < length xs. is_piece xs i \<longrightarrow> (placed (st (upd_chunk n f img) i) \<longleftrightarrow> i < a)"
    using a(2) placed n by auto
  with a have "\<exists>a \<le> length xs. (\<forall>i < length xs. is_piece xs i \<longrightarrow> (placed (st (upd_chunk n f img) i) \<longleftrightarrow> i < a)) \<and>
      map (\<lambda>b. (fb_pieces b, fb_size b)) (fragment_blocks (bulkdata (upd_chunk n f img))) = plan_upto (job_block_size J) xs a"
    by auto
  then show ?thesis using inv block n unfolding blocks_inv_def by auto
qed

text \<open>Stages before a block is compressed leave its image block alone.\<close>

lemma block_inv_early:
  "s < libsqfs_chunk_writable \<Longrightarrow> s' < libsqfs_chunk_writable \<Longrightarrow> block_inv J xs i s b = block_inv J xs i s' b"
  by (auto simp: block_inv_def chunk_state_less split: option.splits)

lemma early_simps [simp]:
  "libsqfs_chunk_none < libsqfs_chunk_writable" "libsqfs_chunk_read < libsqfs_chunk_writable"
  "libsqfs_chunk_deduplicated < libsqfs_chunk_writable" "libsqfs_chunk_assigned < libsqfs_chunk_writable"
  "\<not> libsqfs_chunk_finished < libsqfs_chunk_writable"
  "\<not> libsqfs_chunk_writable \<le> libsqfs_chunk_none" "\<not> libsqfs_chunk_writable \<le> libsqfs_chunk_read"
  "\<not> libsqfs_chunk_writable \<le> libsqfs_chunk_deduplicated" "\<not> libsqfs_chunk_writable \<le> libsqfs_chunk_assigned"
  "libsqfs_chunk_writable \<le> libsqfs_chunk_finished"
  by (simp_all add: chunk_state_less)

section \<open>Tasks\<close>

lemma readers_remove1:
  "readers (remove1 t ts) = (case t of Reading n \<Rightarrow> remove1 n (readers ts) | _ \<Rightarrow> readers ts)"
  "compressors (remove1 t ts) = (case t of Compressing n \<Rightarrow> remove1 n (compressors ts) | _ \<Rightarrow> compressors ts)"
  "writers (remove1 t ts) = (case t of Writing n \<Rightarrow> remove1 n (writers ts) | _ \<Rightarrow> writers ts)"
proof -
  show "readers (remove1 t ts) = (case t of Reading n \<Rightarrow> remove1 n (readers ts) | _ \<Rightarrow> readers ts)"
    by (induction ts) (auto split: bulk_task.splits)
  show "compressors (remove1 t ts) = (case t of Compressing n \<Rightarrow> remove1 n (compressors ts) | _ \<Rightarrow> compressors ts)"
    by (induction ts) (auto split: bulk_task.splits)
  show "writers (remove1 t ts) = (case t of Writing n \<Rightarrow> remove1 n (writers ts) | _ \<Rightarrow> writers ts)"
    by (induction ts) (auto split: bulk_task.splits)
qed

lemma in_readers:
  "n \<in> set (readers ts) \<longleftrightarrow> Reading n \<in> set ts" "n \<in> set (compressors ts) \<longleftrightarrow> Compressing n \<in> set ts"
  "n \<in> set (writers ts) \<longleftrightarrow> Writing n \<in> set ts"
  by (induction ts) (auto split: bulk_task.splits)

lemma distinct_remove_tail: "distinct (q @ r) \<Longrightarrow> n \<in> set r \<Longrightarrow>
  distinct (q @ remove1 n r) \<and> set (q @ remove1 n r) = set (q @ r) - {n}"
  by (auto dest: in_set_remove1 [THEN iffD1, rotated] notin_set_remove1)

lemma fewer_tasks:
  "distinct (readers ts) \<Longrightarrow> distinct (readers (remove1 t ts))"
  "distinct (compressors ts) \<Longrightarrow> distinct (compressors (remove1 t ts))"
  "distinct (writers ts) \<Longrightarrow> distinct (writers (remove1 t ts))"
  "set (readers (remove1 t ts)) \<subseteq> set (readers ts)"
  "set (compressors (remove1 t ts)) \<subseteq> set (compressors ts)"
  "set (writers (remove1 t ts)) \<subseteq> set (writers ts)"
  using set_remove1_subset [of _ "readers ts"] set_remove1_subset [of _ "compressors ts"] set_remove1_subset [of _ "writers ts"]
  by (auto simp: readers_remove1 split: bulk_task.splits)

section \<open>Errors\<close>

text \<open>What is left after a fatal error: the chunks as they are, and no work but what threads have in hand.\<close>

lemma abort_inv:
  assumes inv: "run_inv J xs img ts" and chunks: "chunks_inv J xs img'" and blocks: "blocks_inv J xs img'"
    and same: "st img' = st img" "bd_finished (bulkdata img') = bd_finished (bulkdata img)"
      "mem img' = []" "img_options img' = img_options img"
      "compress_blocks (bulkdata img') = compress_blocks (bulkdata img)"
      "compress_fragments (bulkdata img') = compress_fragments (bulkdata img)"
  shows "run_inv J xs (libsqfs_image_flag_error img' m True) (remove1 t ts)"
proof -
  let ?img = "libsqfs_image_flag_error img' m True" and ?ts = "remove1 t ts"
  have fe: "bulkdata ?img = libsqfs_bulkdata_abort (bulkdata img')" "mem ?img = []" "img_options ?img = img_options img'"
    using same(3) by (auto simp: libsqfs_image_flag_error_def libsqfs_image_cancel_pending_operations_def Let_def)
  have q: "queues_inv xs img ts" using inv by (simp add: run_inv_def)
  have "pipe_ok (length xs) (st img) (piece_before xs) (bd_finished (bulkdata img)) True
      (set (readers ?ts)) {} {} (set (compressors ?ts)) (set (writers ?ts))"
    using q fewer_tasks(4-6) [of t ts] unfolding queues_inv_def by (elim conjE, elim pipe_abort) auto
  moreover have "distinct (readers ?ts)" "distinct (compressors ?ts)" "distinct (writers ?ts)"
    using q fewer_tasks(1-3) [of ts t] by (auto simp: queues_inv_def)
  moreover have "\<forall>n \<in> set (readers ?ts). fst (xs ! n) \<noteq> libsqfs_closing_piece_vmt"
    using q fewer_tasks(4) [of t ts] by (auto simp: queues_inv_def)
  moreover have "st ?img = st img" using fe(1) same(1) by (simp add: libsqfs_bulkdata_abort_def)
  ultimately have "queues_inv xs ?img ?ts"
    using fe(1) same(2) by (simp add: queues_inv_def libsqfs_bulkdata_abort_def)
  moreover have "chunks_inv J xs ?img" using chunks fe(1)
    by (subst chunks_inv_cong [of _ img']) (simp_all add: libsqfs_bulkdata_abort_def)
  moreover have "blocks_inv J xs ?img" using blocks fe(1)
    by (subst blocks_inv_cong [of _ img']) (simp_all add: libsqfs_bulkdata_abort_def)
  ultimately show ?thesis using inv fe same
    by (simp add: run_inv_def disk_inv_def libsqfs_bulkdata_abort_def)
qed

section \<open>Parts of the invariant\<close>

lemma mem_same: "mem (img :: 'a sqfs_out_scheme) = h \<Longrightarrow> img\<lparr>mem := h\<rparr> = img"
  by (cases img) simp

lemma run_parts:
  assumes "run_inv J xs img ts"
  shows "submissions_ok (job_block_size J) xs" "mem img = []" "bd_count (bulkdata img) = length xs"
    "chunks_inv J xs img" "blocks_inv J xs img" "queues_inv xs img ts" "disk_inv J xs img ts"
    "\<And>i. i < length xs \<Longrightarrow> chunk_inv J xs (consumed (job_block_size J) xs img i) i (chunk_at img i)"
    "pipe_ok (length xs) (st img) (piece_before xs) (bd_finished (bulkdata img)) (aborted (bulkdata img))
       (set (readq (bulkdata img) @ readers ts)) (set (dedupq (bulkdata img))) (set (assignq (bulkdata img)))
       (set (compressq (bulkdata img) @ compressors ts)) (set (writeq (bulkdata img) @ writers ts))"
  using assms unfolding run_inv_def queues_inv_def chunks_inv_def by blast+

section \<open>The work that is left\<close>

text \<open>
  Every step of a thread makes this smaller: a chunk gets closer to being finished, or at least moves
  from a queue into the hands of a thread, or, after an error, is dropped.
\<close>

definition queued :: "'a sqfs_bulk_scheme \<Rightarrow> nat" where
  "queued img = length (readq (bulkdata img)) + length (dedupq (bulkdata img)) + length (assignq (bulkdata img)) +
     length (compressq (bulkdata img)) + length (writeq (bulkdata img))"

definition work :: "'a sqfs_bulk_scheme \<Rightarrow> bulk_task list \<Rightarrow> nat" where
  "work img ts = 3 * (\<Sum>i < bd_count (bulkdata img). 5 - chunk_state_rank (st img i)) + 2 * queued img + length ts"

lemma rank_bound: "chunk_state_rank s \<le> 5"
  by (cases s) simp_all

lemma work_advance:
  assumes n: "n < bd_count (bulkdata img)" and count: "bd_count (bulkdata img') = bd_count (bulkdata img)"
    and st': "st img' = (st img)(n := s)" and rank: "chunk_state_rank (st img n) < chunk_state_rank s"
    and rest: "2 * queued img' + length ts' < 2 * queued img + length ts + 3"
  shows "work img' ts' < work img ts"
proof -
  let ?f = "\<lambda>i. 5 - chunk_state_rank (st img i)" and ?N = "{..<bd_count (bulkdata img)}"
  have "st img' i = ((st img)(n := s)) i" for i using fun_cong [OF st'] .
  then have "(\<Sum>i \<in> ?N. 5 - chunk_state_rank (st img' i)) = (\<Sum>i \<in> ?N. if i = n then 5 - chunk_state_rank s else ?f i)"
    by (intro sum.cong) simp_all
  also have "\<dots> = 5 - chunk_state_rank s + (\<Sum>i \<in> ?N - {n}. ?f i)" using n by (simp add: sum.remove [of _ n])
  also have "\<dots> < ?f n + (\<Sum>i \<in> ?N - {n}. ?f i)" using rank rank_bound [of s] by simp
  also have "\<dots> = (\<Sum>i \<in> ?N. ?f i)" using n by (simp add: sum.remove [of _ n])
  finally show ?thesis using rest count by (simp add: work_def)
qed

lemma work_same:
  assumes "st img' = st img" "bd_count (bulkdata img') = bd_count (bulkdata img)"
    and "2 * queued img' + length ts' < 2 * queued img + length ts"
  shows "work img' ts' < work img ts"
proof -
  have "st img' i = st img i" for i using fun_cong [OF assms(1)] .
  then show ?thesis using assms(2,3) by (simp add: work_def)
qed

lemma abort_work:
  assumes "st img' = st img" "bd_count (bulkdata img') = bd_count (bulkdata img)" "t \<in> set ts"
  shows "work (libsqfs_image_flag_error img' m True) (remove1 t ts) < work img ts"
proof -
  have fe: "bulkdata (libsqfs_image_flag_error img' m True) = libsqfs_bulkdata_abort (bulkdata img')"
    by (simp add: libsqfs_image_flag_error_def libsqfs_image_cancel_pending_operations_def Let_def split: prod.split)
  have "length ts \<noteq> 0" using assms(3) by auto
  then have "length (remove1 t ts) < length ts" using assms(3) by (simp add: length_remove1)
  then show ?thesis using assms(1,2) unfolding fe
    by (intro work_same) (simp_all add: fe libsqfs_bulkdata_abort_def queued_def)
qed

lemma flag_error_aborts [simp]: "aborted (bulkdata (libsqfs_image_flag_error img m True))"
  by (simp add: libsqfs_image_flag_error_def libsqfs_image_cancel_pending_operations_def libsqfs_bulkdata_abort_def Let_def
      split: prod.split)

lemma task_done: "t \<in> set ts \<Longrightarrow> Suc (length (remove1 t ts)) = length ts"
  using length_pos_if_in_set by (fastforce simp: length_remove1)

text \<open>The tasks after a thread has taken a chunk.\<close>

definition tasks_after :: "bool + bulk_task \<Rightarrow> bulk_task list \<Rightarrow> bulk_task list" where
  "tasks_after outcome ts = (case outcome of Inl _ \<Rightarrow> ts | Inr t \<Rightarrow> t # ts)"

lemma tasks_after_simps [simp]: "tasks_after (Inl r) ts = ts" "tasks_after (Inr t) ts = t # ts"
  by (simp_all add: tasks_after_def)

lemma pop_inv:
  assumes inv: "run_inv J xs img ts"
    and same: "bd_chunks (bulkdata img') = bd_chunks (bulkdata img)"
      "fragment_pieces (bulkdata img') = fragment_pieces (bulkdata img)"
      "fragment_blocks (bulkdata img') = fragment_blocks (bulkdata img)"
  shows "chunks_inv J xs img'" "blocks_inv J xs img'"
  using run_parts(4,5) [OF inv] chunks_inv_cong [OF same(1,2)] blocks_inv_cong [OF same(1,3)] by simp_all

text \<open>At most one block is being written, that of the first unfinished chunk.\<close>

lemma writers_one:
  assumes "run_inv J xs img ts"
  shows "writers ts = [] \<or> writers ts = [bd_finished (bulkdata img)]"
proof -
  note p = run_parts [OF assms]
  have "n = bd_finished (bulkdata img)" if "n \<in> set (writers ts)" for n
    using pipe_in(5) [OF p(9), of n] that by auto
  moreover have "distinct (writers ts)" using p(6) by (simp add: queues_inv_def)
  ultimately show ?thesis by (cases "writers ts"; cases "tl (writers ts)") auto
qed

lemma written_writable:
  assumes inv: "run_inv J xs img ts" and i: "i < length xs" "i < bd_finished (bulkdata img) + length (writers ts)"
  shows "libsqfs_chunk_writable \<le> st img i"
proof -
  note p = run_parts [OF inv]
  show ?thesis
  proof (cases "i < bd_finished (bulkdata img)")
    case True
    then show ?thesis using pipe_parts(2) [OF p(9) i(1)] by simp
  next
    case False
    then have "i \<in> set (writers ts)" using i(2) writers_one [OF inv] by (auto simp: less_Suc_eq)
    then have "st img i = libsqfs_chunk_writable" using pipe_in(5) [OF p(9), of i] by auto
    then show ?thesis by simp
  qed
qed

text \<open>The fragment block that a placed flushing piece writes exists.\<close>

lemma flushed_exists:
  assumes inv: "blocks_inv J xs img" and i: "i < length xs" "placed (st img i)" and fl: "plan_flush (job_block_size J) xs i"
  shows "length (plan_upto (job_block_size J) xs i) - 1 < length (fragment_blocks (bulkdata img))"
proof -
  obtain a where a: "\<And>i. i < length xs \<Longrightarrow> is_piece xs i \<Longrightarrow> placed (st img i) \<longleftrightarrow> i < a"
      "map (\<lambda>b. (fb_pieces b, fb_size b)) (fragment_blocks (bulkdata img)) = plan_upto (job_block_size J) xs a"
    using inv by (auto simp: blocks_inv_def)
  have "i < a" using a(1) [OF i(1) plan_flush_full [OF fl]] i(2) by simp
  then have "length (plan_upto (job_block_size J) xs i) \<le> length (plan_upto (job_block_size J) xs a)"
    by (intro length_plan_mono) simp
  also have "\<dots> = length (fragment_blocks (bulkdata img))" by (metis length_map a(2))
  finally show ?thesis using plan_flush_nonempty [OF fl] by (cases "plan_upto (job_block_size J) xs i") auto
qed

lemma output_flush: "chunk_output J xs i \<noteq> None \<Longrightarrow> is_piece xs i \<Longrightarrow> plan_flush (job_block_size J) xs i"
  by (auto simp: chunk_output_def split: if_splits)

end
