(* ===== verification/Bulkread.thy ===== *)
theory Bulkread
  imports Bulkinv
begin

text \<open>
  Reading and deduplicating chunks keep the invariant of a run (Bulkinv), with or without errors.
\<close>

section \<open>Reading\<close>

lemma leave_read:
  assumes inv: "run_inv J xs img ts" and t: "Reading n \<in> set ts"
  shows "\<exists>r img'. libsqfs_chunk_do_read_leave n img = Some (r, img') \<and> run_inv J xs img' (remove1 (Reading n) ts) \<and>
    work img' (remove1 (Reading n) ts) < work img ts \<and> (\<not> r \<longrightarrow> aborted (bulkdata img'))"
proof -
  note p = run_parts [OF inv]
  have n_in: "n \<in> set (readers ts)" using t by (simp add: in_readers)
  have n: "n < length xs" "st img n = libsqfs_chunk_none"
    using pipe_in(1) [OF p(9), of n] n_in by auto
  have len: "n < bd_count (bulkdata img)" using n p(3) by simp
  have kind: "fst (xs ! n) \<noteq> libsqfs_closing_piece_vmt" using p(6) n_in by (simp add: queues_inv_def)
  have data: "ck_data (chunk_at img n) = snd (xs ! n)" using p(8) [OF n(1)] by (simp add: chunk_inv_def)
  have sz: "piece_size (snd (xs ! n)) \<noteq> 0" using p(1) n(1) kind by (simp add: submissions_ok_def)
  let ?piece = "snd (xs ! n)"
  let ?result = "libsqfs_data_pread (piece_data ?piece) (piece_size ?piece) (piece_offset ?piece)"
  let ?src = "case ?result of None \<Rightarrow> [] | Some bs \<Rightarrow> bs"
  have src: "?src = src_bytes (xs ! n)" by (simp add: src_bytes_def)
  let ?f = "cached_data_update (\<lambda>_. Some ?src)"
  have chunks1: "chunks_inv J xs (upd_chunk n ?f img)"
    using n by (intro chunks_inv_upd [OF p(4)]) (auto simp: chunk_inv_def)
  have blocks1: "blocks_inv J xs (upd_chunk n ?f img)"
    using n len by (intro blocks_inv_upd [OF p(5)]) auto
  show ?thesis
  proof (cases "case ?result of None \<Rightarrow> True | Some bs \<Rightarrow> length bs \<noteq> piece_size ?piece")
    case True
    let ?m = "''Read failed from '' @ libsqfs_data_describe (piece_data ?piece) @ '' ('' @
      (if ?result = None then ''short read'' else strerror) @ '')''"
    have "libsqfs_chunk_do_read_leave n img = Some (False, libsqfs_image_flag_error (upd_chunk n ?f img) ?m True)"
      using True data sz p(2) by (simp add: libsqfs_chunk_do_read_leave_def Let_def mem_same)
    moreover have "run_inv J xs (libsqfs_image_flag_error (upd_chunk n ?f img) ?m True) (remove1 (Reading n) ts)"
      by (rule abort_inv [OF inv chunks1 blocks1]) (use p(2) len in \<open>auto simp: st_upd\<close>)
    moreover have "work (libsqfs_image_flag_error (upd_chunk n ?f img) ?m True) (remove1 (Reading n) ts) < work img ts"
      by (rule abort_work [OF _ _ t]) (use len in \<open>auto simp: st_upd\<close>)
    ultimately show ?thesis using flag_error_aborts by blast
  next
    case False
    let ?g = "\<lambda>c. c\<lparr>cached_data := Some (src_bytes (xs ! n)), ck_state := libsqfs_chunk_read\<rparr>"
    let ?img = "push_front_dedupq n (upd_chunk n ?g img)" and ?ts = "remove1 (Reading n) ts"
    have full: "length (src_bytes (xs ! n)) = piece_size ?piece" using False src by (auto split: option.splits)
    have res: "libsqfs_chunk_do_read_leave n img = Some (True, ?img)"
      using False data sz p(2) src len
      by (simp add: libsqfs_chunk_do_read_leave_def Let_def mem_same) (simp add: upd_chunk_def)
    have "chunks_inv J xs (upd_chunk n ?g img)"
      using n full by (intro chunks_inv_upd [OF p(4)])
        (auto simp: chunk_inv_def block_inv_early [of libsqfs_chunk_read libsqfs_chunk_none])
    then have c: "chunks_inv J xs ?img" by (subst chunks_inv_cong [of _ "upd_chunk n ?g img"]) simp_all
    have "blocks_inv J xs (upd_chunk n ?g img)"
      using n len by (intro blocks_inv_upd [OF p(5)]) (auto simp: block_inv_early [of libsqfs_chunk_read libsqfs_chunk_none])
    then have b: "blocks_inv J xs ?img" by (subst blocks_inv_cong [of _ "upd_chunk n ?g img"]) simp_all
    have d: "disk_inv J xs ?img ?ts"
      using p(7) len by (auto simp: disk_inv_def written_block_def readers_remove1)
    have dist: "distinct (readq (bulkdata img) @ readers ts)" using p(6) by (simp add: queues_inv_def)
    have notin: "n \<notin> set (dedupq (bulkdata img))" using pipe_in(2) [OF p(9), of n] n by auto
    have "pipe_ok (length xs) (st ?img) (piece_before xs) (bd_finished (bulkdata ?img)) (aborted (bulkdata ?img))
       (set (readq (bulkdata ?img) @ readers ?ts)) (set (dedupq (bulkdata ?img))) (set (assignq (bulkdata ?img)))
       (set (compressq (bulkdata ?img) @ compressors ?ts)) (set (writeq (bulkdata ?img) @ writers ?ts))"
      using pipe_read [OF p(9), of n] n_in distinct_remove_tail [OF dist n_in] st_upd [OF len, of ?g]
      by (simp add: readers_remove1)
    then have "queues_inv xs ?img ?ts"
      using p(6) distinct_remove_tail [OF dist n_in] notin fewer_tasks(4) [of "Reading n" ts]
      by (auto simp: queues_inv_def readers_remove1)
    moreover have "work ?img ?ts < work img ts"
      by (rule work_advance [of n _ _ libsqfs_chunk_read]) (use n len task_done [OF t] in \<open>auto simp: queued_def st_upd\<close>)
    ultimately show ?thesis using res c b d inv by (auto simp: run_inv_def)
  qed
qed

lemma enter_read:
  assumes inv: "run_inv J xs img ts" and q: "readq (bulkdata img) = n # q"
  shows "\<exists>r img'. chunk_read_enter n (upd_bulk (readq_update (\<lambda>_. q)) img) = Some (r, img') \<and>
    run_inv J xs img' (tasks_after r ts) \<and> work img' (tasks_after r ts) < work img ts \<and> r \<noteq> Inl False"
proof -
  note p = run_parts [OF inv]
  let ?img = "upd_bulk (readq_update (\<lambda>_. q)) img"
  have n: "n < length xs" "st img n = libsqfs_chunk_none" using pipe_in(1) [OF p(9), of n] q by auto
  have len: "n < bd_count (bulkdata ?img)" using n p(3) by simp
  have vmt: "ck_vmt (chunk_at img n) = fst (xs ! n)" using p(8) [OF n(1)] by (simp add: chunk_inv_def)
  have c1: "chunks_inv J xs ?img" and b1: "blocks_inv J xs ?img" by (rule pop_inv [OF inv]; simp)+
  have dist: "distinct (n # q @ readers ts)" using p(6) q by (simp add: queues_inv_def)
  show ?thesis
  proof (cases "fst (xs ! n) = libsqfs_closing_piece_vmt")
    case False
    then have "chunk_read_enter n ?img = Some (Inr (Reading n), ?img)"
      using vmt n by (simp add: chunk_read_enter_def libsqfs_chunk_do_read_enter_def split: libsqfs_chunk_vmt.splits)
    moreover have "queues_inv xs ?img (Reading n # ts)"
      using p(6) q dist False by (simp add: queues_inv_def insert_commute)
    moreover have "disk_inv J xs ?img (Reading n # ts)" using p(7) by (auto simp: disk_inv_def written_block_def)
    moreover have "work ?img (Reading n # ts) < work img ts" by (rule work_same) (simp_all add: queued_def q)
    ultimately show ?thesis using c1 b1 inv by (auto simp: run_inv_def)
  next
    case True
    let ?g = "ck_state_update (\<lambda>_. libsqfs_chunk_read)"
    let ?img' = "push_front_dedupq n (upd_chunk n ?g ?img)"
    have res: "chunk_read_enter n ?img = Some (Inl True, ?img')"
      using vmt True by (simp add: chunk_read_enter_def libsqfs_closing_piece_read_def)
    have "chunks_inv J xs (upd_chunk n ?g ?img)"
      using n True by (intro chunks_inv_upd [OF c1]) (auto simp: chunk_inv_def)
    then have c: "chunks_inv J xs ?img'" by (subst chunks_inv_cong [of _ "upd_chunk n ?g ?img"]) simp_all
    have "blocks_inv J xs (upd_chunk n ?g ?img)"
      using n len by (intro blocks_inv_upd [OF b1]) (auto simp: block_inv_early [of libsqfs_chunk_read libsqfs_chunk_none])
    then have b: "blocks_inv J xs ?img'" by (subst blocks_inv_cong [of _ "upd_chunk n ?g ?img"]) simp_all
    have d: "disk_inv J xs ?img' ts" using p(7) len by (auto simp: disk_inv_def written_block_def)
    have notin: "n \<notin> set (dedupq (bulkdata img))" using pipe_in(2) [OF p(9), of n] n by auto
    have "set (q @ readers ts) = set (readq (bulkdata img) @ readers ts) - {n}" using q dist by auto
    then have "pipe_ok (length xs) (st ?img') (piece_before xs) (bd_finished (bulkdata ?img')) (aborted (bulkdata ?img'))
       (set (readq (bulkdata ?img') @ readers ts)) (set (dedupq (bulkdata ?img'))) (set (assignq (bulkdata ?img')))
       (set (compressq (bulkdata ?img') @ compressors ts)) (set (writeq (bulkdata ?img') @ writers ts))"
      using pipe_read [OF p(9), of n] q st_upd [OF len, of ?g] by simp
    then have "queues_inv xs ?img' ts" using p(6) q notin by (simp add: queues_inv_def)
    moreover have "work ?img' ts < work img ts"
      by (rule work_advance [of n _ _ libsqfs_chunk_read]) (use n len q in \<open>auto simp: queued_def st_upd\<close>)
    ultimately show ?thesis using res c b d inv by (auto simp: run_inv_def)
  qed
qed

section \<open>Deduplication\<close>

lemma enter_deduplicate:
  assumes inv: "run_inv J xs img ts" and q: "dedupq (bulkdata img) = n # q"
  shows "\<exists>img'. chunk_deduplicate n (upd_bulk (dedupq_update (\<lambda>_. q)) img) = Some (True, img') \<and>
    run_inv J xs img' ts \<and> work img' ts < work img ts"
proof -
  note p = run_parts [OF inv]
  let ?img = "upd_bulk (dedupq_update (\<lambda>_. q)) img" and ?g = "ck_state_update (\<lambda>_. libsqfs_chunk_deduplicated)"
  let ?rdy = "ready (st img) (piece_before xs) n"
  let ?img' = "if ?rdy then push_front_assignq n (upd_chunk n ?g ?img) else upd_chunk n ?g ?img"
  have n: "n < length xs" "st img n = libsqfs_chunk_read" using pipe_in(2) [OF p(9), of n] q by auto
  have len: "n < bd_count (bulkdata ?img)" using n p(3) by simp
  have cn: "ck_vmt (chunk_at img n) = fst (xs ! n)" "prev_piece (chunk_at img n) = piece_before xs n"
    using p(8) [OF n(1)] by (simp_all add: chunk_inv_def)
  have c1: "chunks_inv J xs ?img" and b1: "blocks_inv J xs ?img" by (rule pop_inv [OF inv]; simp)+
  have before: "p < n" if "piece_before xs n = Some p" for p using that by (simp add: piece_before_Some)
  have res: "chunk_deduplicate n ?img = Some (True, ?img')"
  proof (cases "fst (xs ! n) = libsqfs_full_block_vmt")
    case True
    then have ?rdy by (simp add: ready_def piece_before_def)
    then show ?thesis using True cn n by (simp add: chunk_deduplicate_def libsqfs_chunk_do_deduplicate_def)
  next
    case False
    have "(case prev_piece (chunk_at (upd_chunk n ?g ?img) n) of None \<Rightarrow> False
        | Some p \<Rightarrow> st (upd_chunk n ?g ?img) p < libsqfs_chunk_assigned) \<longleftrightarrow> \<not> ?rdy"
      using cn len before by (auto simp: ready_def not_le split: option.splits)
    with False cn n len show ?thesis
      by (auto simp: chunk_deduplicate_def libsqfs_fragment_piece_deduplicate_def libsqfs_closing_piece_deduplicate_def
          Let_def split: libsqfs_chunk_vmt.splits)
  qed
  have "chunks_inv J xs (upd_chunk n ?g ?img)"
    using n by (intro chunks_inv_upd [OF c1])
      (auto simp: chunk_inv_def block_inv_early [of libsqfs_chunk_deduplicated libsqfs_chunk_read])
  then have c: "chunks_inv J xs ?img'" by (subst chunks_inv_cong [of _ "upd_chunk n ?g ?img"]) simp_all
  have "blocks_inv J xs (upd_chunk n ?g ?img)"
    using n len by (intro blocks_inv_upd [OF b1]) (auto simp: block_inv_early [of libsqfs_chunk_deduplicated libsqfs_chunk_read])
  then have b: "blocks_inv J xs ?img'" by (subst blocks_inv_cong [of _ "upd_chunk n ?g ?img"]) simp_all
  have d: "disk_inv J xs ?img' ts" using p(7) len by (auto simp: disk_inv_def written_block_def)
  have notin: "n \<notin> set (assignq (bulkdata img))" using pipe_in(3) [OF p(9), of n] n by auto
  have dist: "distinct (n # q)" using p(6) q by (simp add: queues_inv_def)
  then have "set q = set (dedupq (bulkdata img)) - {n}" using q by auto
  then have "pipe_ok (length xs) (st ?img') (piece_before xs) (bd_finished (bulkdata ?img')) (aborted (bulkdata ?img'))
       (set (readq (bulkdata ?img') @ readers ts)) (set (dedupq (bulkdata ?img'))) (set (assignq (bulkdata ?img')))
       (set (compressq (bulkdata ?img') @ compressors ts)) (set (writeq (bulkdata ?img') @ writers ts))"
    using pipe_deduplicate [OF p(9), of n] q st_upd [OF len, of ?g] by (cases ?rdy) simp_all
  then have "queues_inv xs ?img' ts" using p(6) q notin by (auto simp: queues_inv_def)
  moreover have "work ?img' ts < work img ts"
    by (rule work_advance [of n _ _ libsqfs_chunk_deduplicated]) (use n len q in \<open>auto simp: queued_def st_upd\<close>)
  ultimately show ?thesis using res c b d inv by (auto simp: run_inv_def)
qed

end
