(* ===== verification/Bulkassign.thy ===== *)
theory Bulkassign
  imports Bulkinv
begin

text \<open>
  Placing chunks, and so packing pieces into fragment blocks, keeps the invariant of a run (Bulkinv).
\<close>

section \<open>Assignment\<close>

text \<open>The plan does not change between the last placed piece and the next one.\<close>

lemma blocks_boundary:
  assumes inv: "run_inv J xs img ts" and n: "n < length xs" "is_piece xs n" "\<not> placed (st img n)"
    and rdy: "ready (st img) (piece_before xs) n"
  shows "map (\<lambda>b. (fb_pieces b, fb_size b)) (fragment_blocks (bulkdata img)) = plan_upto (job_block_size J) xs n"
    and "\<And>i. i < length xs \<Longrightarrow> is_piece xs i \<Longrightarrow> placed (st img i) \<longleftrightarrow> i < n"
proof -
  note p = run_parts [OF inv]
  obtain a where a: "a \<le> length xs" "\<And>i. i < length xs \<Longrightarrow> is_piece xs i \<Longrightarrow> placed (st img i) \<longleftrightarrow> i < a"
      "map (\<lambda>b. (fb_pieces b, fb_size b)) (fragment_blocks (bulkdata img)) = plan_upto (job_block_size J) xs a"
    using p(5) by (auto simp: blocks_inv_def)
  have an: "a \<le> n" using a(2) [OF n(1,2)] n(3) by simp
  have gap: "\<not> is_piece xs j" if jn: "a \<le> j" "j < n" for j
  proof
    assume j: "is_piece xs j"
    have "piece_before xs n \<noteq> None" using j jn n(2) by (auto simp: piece_before_None)
    then obtain q where q: "piece_before xs n = Some q" by blast
    then have "q < n" "is_piece xs q" "j \<le> q" using j jn by (auto simp: piece_before_Some not_less [symmetric])
    moreover have "placed (st img q)" using rdy q by (simp add: ready_def)
    ultimately show False using a(2) [of q] n(1) jn by simp
  qed
  show "map (\<lambda>b. (fb_pieces b, fb_size b)) (fragment_blocks (bulkdata img)) = plan_upto (job_block_size J) xs n"
    using a(3) plan_gap [OF an gap] by simp
  show "placed (st img i) \<longleftrightarrow> i < n" if "i < length xs" "is_piece xs i" for i
    using a(2) [OF that] an gap [of i] that(2) by (meson less_le_trans not_le)
qed

text \<open>The effect of placing a chunk, whatever its class.\<close>

lemma place_inv:
  assumes inv: "run_inv J xs img ts" and q: "assignq (bulkdata img) = n # q"
    and chunks: "bd_chunks (bulkdata img') = (bd_chunks (bulkdata img))[n := c']"
    and keep: "ck_vmt c' = ck_vmt (chunk_at img n)" "ck_data c' = ck_data (chunk_at img n)"
      "prev_piece c' = prev_piece (chunk_at img n)" "next_piece c' = next_piece (chunk_at img n)"
      "cached_data c' = cached_data (chunk_at img n)" "ck_dst c' = ck_dst (chunk_at img n)"
    and state: "ck_state c' = (if is_piece xs n \<and> \<not> plan_flush (job_block_size J) xs n
      then libsqfs_chunk_writable else libsqfs_chunk_assigned)"
    and flush: "flush_previous_block c' = plan_flush (job_block_size J) xs n"
    and frag: "fst (xs ! n) = libsqfs_fragment_piece_vmt \<Longrightarrow>
      ck_fragment_block c' = Some (length (plan_upto (job_block_size J) xs (Suc n)) - 1) \<and>
      ck_offset c' = of_nat (plan_offset (job_block_size J) xs n)"
    and blocks: "is_piece xs n \<Longrightarrow>
        map (\<lambda>b. (fb_pieces b, fb_size b)) (fragment_blocks (bulkdata img')) = plan_upto (job_block_size J) xs (Suc n)"
      "\<not> is_piece xs n \<Longrightarrow> fragment_blocks (bulkdata img') = fragment_blocks (bulkdata img)"
    and dsts: "\<And>j. j < length (fragment_blocks (bulkdata img)) \<Longrightarrow>
        fb_dst (fragment_blocks (bulkdata img') ! j) = fb_dst (fragment_blocks (bulkdata img) ! j)"
      "\<And>j. length (fragment_blocks (bulkdata img)) \<le> j \<Longrightarrow> j < length (fragment_blocks (bulkdata img')) \<Longrightarrow>
        fb_dst (fragment_blocks (bulkdata img') ! j) = libsqfs_image_block_init"
    and same: "fragment_pieces (bulkdata img') = fragment_pieces (bulkdata img)"
      "bd_finished (bulkdata img') = bd_finished (bulkdata img)" "aborted (bulkdata img') = aborted (bulkdata img)"
      "readq (bulkdata img') = readq (bulkdata img)" "dedupq (bulkdata img') = dedupq (bulkdata img)"
      "may_add_chunks (bulkdata img') = may_add_chunks (bulkdata img)"
      "compress_blocks (bulkdata img') = compress_blocks (bulkdata img)"
      "compress_fragments (bulkdata img') = compress_fragments (bulkdata img)"
      "mem img' = mem img" "dst img' = dst img" "img_size img' = img_size img" "img_options img' = img_options img"
    and cq: "compressq (bulkdata img') = (if ck_state c' = libsqfs_chunk_assigned then n # compressq (bulkdata img)
      else compressq (bulkdata img))"
    and wq: "writeq (bulkdata img') = (if ck_state c' = libsqfs_chunk_writable \<and> n = bd_finished (bulkdata img)
      then n # writeq (bulkdata img) else writeq (bulkdata img))"
    and aq: "assignq (bulkdata img') =
      (case next_piece (chunk_at img n) of Some k \<Rightarrow> if st img k = libsqfs_chunk_deduplicated then k # q else q | None \<Rightarrow> q)"
  shows "run_inv J xs img' ts \<and> work img' ts < work img ts"
proof -
  note p = run_parts [OF inv]
  let ?bs = "job_block_size J"
  have n: "n < length xs" "st img n = libsqfs_chunk_deduplicated" "ready (st img) (piece_before xs) n"
    using pipe_in(3) [OF p(9), of n] q by auto
  have len: "n < bd_count (bulkdata img)" using n p(3) by simp
  have at: "chunk_at img' i = (if i = n then c' else chunk_at img i)" for i using chunks len by simp
  have st': "st img' = (st img)(n := ck_state c')" by (intro ext) (simp add: at)
  note cn = p(8) [OF n(1), unfolded chunk_inv_def]
  have cons: "consumed ?bs xs img' = consumed ?bs xs img"
  proof -
    have "libsqfs_chunk_writable \<le> st img' m \<longleftrightarrow> libsqfs_chunk_writable \<le> st img m"
      if "is_piece xs m" "plan_flush ?bs xs m" for m
      using that n(2) state by (auto simp: at)
    then show ?thesis unfolding consumed_def by (intro ext) blast
  qed
  have "chunk_inv J xs (consumed ?bs xs img n) n c'"
    unfolding chunk_inv_def using cn keep state flush frag n(2) plan_flush_full [of ?bs xs n]
    by (auto simp: block_inv_early [of libsqfs_chunk_assigned libsqfs_chunk_deduplicated])
  then have c: "chunks_inv J xs img'"
    using p(4) chunks same(1) unfolding chunks_inv_def cons at by simp
  have b: "blocks_inv J xs img'"
  proof (cases "is_piece xs n")
    case True
    have unp: "\<not> placed (st img n)" using n(2) by simp
    note old = blocks_boundary [OF inv n(1) True unp n(3)]
    have L: "length (fragment_blocks (bulkdata img)) = length (plan_upto ?bs xs n)" by (metis length_map old(1))
    have pl: "placed (st img' i) \<longleftrightarrow> i < Suc n" if "i < length xs" "is_piece xs i" for i
      using old(2) [OF that] state by (auto simp: at less_Suc_eq)
    have bl: "block_inv J xs i (st img' i) (fb_dst (fragment_blocks (bulkdata img') ! (length (plan_upto ?bs xs i) - 1)))"
      if i: "i < length xs" "is_piece xs i" "plan_flush ?bs xs i"
        "length (plan_upto ?bs xs i) \<le> length (fragment_blocks (bulkdata img'))" for i
    proof (cases "length (plan_upto ?bs xs i) \<le> length (fragment_blocks (bulkdata img))")
      case le: True
      then have "block_inv J xs i (st img i) (fb_dst (fragment_blocks (bulkdata img) ! (length (plan_upto ?bs xs i) - 1)))"
        using p(5) i by (auto simp: blocks_inv_def)
      moreover have "length (plan_upto ?bs xs i) - 1 < length (fragment_blocks (bulkdata img))"
        using le plan_flush_nonempty [OF i(3)] by (cases "plan_upto ?bs xs i") auto
      ultimately show ?thesis
        using dsts(1) state i(3) n(2) by (auto simp: at block_inv_early [of libsqfs_chunk_assigned libsqfs_chunk_deduplicated])
    next
      case gt: False
      then have "n < i" using length_plan_mono [of i n ?bs xs] L by (cases "n < i") auto
      then have "\<not> placed (st img' i)" using pl i by simp
      moreover have "fb_dst (fragment_blocks (bulkdata img') ! (length (plan_upto ?bs xs i) - 1)) = libsqfs_image_block_init"
        using dsts(2) gt i(4) by simp
      ultimately show ?thesis by (auto simp: block_inv_def chunk_state_less split: option.splits)
    qed
    have un: "fb_dst (fragment_blocks (bulkdata img') ! j) = libsqfs_image_block_init"
      if "j < length (fragment_blocks (bulkdata img'))"
        "\<forall>i < length xs. plan_flush ?bs xs i \<longrightarrow> length (plan_upto ?bs xs i) - 1 \<noteq> j" for j
    proof (cases "j < length (fragment_blocks (bulkdata img))")
      case True
      then show ?thesis using p(5) that(2) dsts(1) by (simp add: blocks_inv_def)
    qed (use dsts(2) that(1) in simp)
    show ?thesis unfolding blocks_inv_def using blocks(1) [OF True] pl bl un n(1) by (intro conjI exI [of _ "Suc n"]) auto
  next
    case False
    then have "plan_flush ?bs xs n \<Longrightarrow> False" using plan_flush_full by blast
    with False show ?thesis using p(5) blocks(2) at unfolding blocks_inv_def by auto
  qed
  have d: "disk_inv J xs img' ts"
  proof -
    have "written_block J xs img' i = written_block J xs img i"
      if i: "i < length xs" "chunk_output J xs i \<noteq> None" "i < bd_finished (bulkdata img) + length (writers ts)" for i
    proof (cases "is_piece xs i")
      case True
      have "placed (st img i)" using written_writable [OF inv i(1,3)] by (simp add: chunk_state_less)
      with flushed_exists [OF p(5) i(1) _ output_flush [OF i(2) True]] dsts(1) True show ?thesis
        by (simp add: written_block_def)
    qed (use keep(6) in \<open>auto simp: written_block_def at\<close>)
    with p(7) same show ?thesis by (auto simp: disk_inv_def)
  qed
  have woken: "set (assignq (bulkdata img')) = set (assignq (bulkdata img)) - {n} \<union> woken (length xs) (st img) (piece_before xs) n"
      "distinct (assignq (bulkdata img'))"
  proof -
    have dq: "distinct (n # q)" using p(6) q by (simp add: queues_inv_def)
    have nxt: "next_piece (chunk_at img n) = Some k \<longleftrightarrow> k < length xs \<and> piece_before xs k = Some n" for k
      using cn by blast
    have notin: "k \<notin> set (n # q)" if "piece_before xs k = Some n" for k
      using pipe_in(3) [OF p(9), of k] that n(2) q by (auto simp: ready_def)
    show "set (assignq (bulkdata img')) = set (assignq (bulkdata img)) - {n} \<union> woken (length xs) (st img) (piece_before xs) n"
    proof -
      have "woken (length xs) (st img) (piece_before xs) n = (case next_piece (chunk_at img n) of
          Some k \<Rightarrow> if st img k = libsqfs_chunk_deduplicated then {k} else {} | None \<Rightarrow> {})"
      proof (cases "next_piece (chunk_at img n)")
        case None
        then show ?thesis using nxt by (auto simp: woken_def)
      next
        case (Some k)
        then have k: "k < length xs" "piece_before xs k = Some n" using nxt by blast+
        have "piece_before xs j = Some n \<longleftrightarrow> j = k" for j using piece_before_inj k(2) by blast
        then have "woken (length xs) (st img) (piece_before xs) n = {j. j < length xs \<and> j = k \<and> st img j = libsqfs_chunk_deduplicated}"
          by (simp only: woken_def)
        also have "\<dots> = (if st img k = libsqfs_chunk_deduplicated then {k} else {})" using k(1) by auto
        finally have "woken (length xs) (st img) (piece_before xs) n = \<dots>" .
        with Some show ?thesis by simp
      qed
      moreover have "set q = set (assignq (bulkdata img)) - {n}" using dq q by auto
      ultimately show ?thesis unfolding aq by (cases "next_piece (chunk_at img n)") simp_all
    qed
    show "distinct (assignq (bulkdata img'))"
    proof (cases "next_piece (chunk_at img n)")
      case None
      then show ?thesis using dq unfolding aq by simp
    next
      case (Some k)
      then have "k \<notin> set q" using notin [of k] nxt by simp
      with Some dq show ?thesis unfolding aq by simp
    qed
  qed
  have pipe: "pipe_ok (length xs) (st img') (piece_before xs) (bd_finished (bulkdata img')) (aborted (bulkdata img'))
       (set (readq (bulkdata img') @ readers ts)) (set (dedupq (bulkdata img'))) (set (assignq (bulkdata img')))
       (set (compressq (bulkdata img') @ compressors ts)) (set (writeq (bulkdata img') @ writers ts))"
  proof (cases "ck_state c' = libsqfs_chunk_assigned")
    case True
    then show ?thesis using pipe_assign [OF p(9), of n] q same cq wq st' woken(1) by simp
  next
    case False
    then have w: "ck_state c' = libsqfs_chunk_writable" using state by (auto split: if_splits)
    then show ?thesis using pipe_assign_writable [OF p(9), of n] q same cq wq st' woken(1)
      by (cases "n = bd_finished (bulkdata img)") simp_all
  qed
  have "n \<notin> set (compressq (bulkdata img) @ compressors ts)" "n \<notin> set (writeq (bulkdata img) @ writers ts)"
    using pipe_in(4,5) [OF p(9), of n] n(2) by auto
  then have "queues_inv xs img' ts"
    using pipe p(6) same woken(2) cq wq unfolding queues_inv_def by (auto split: if_splits)
  with c b d inv same have "run_inv J xs img' ts" by (simp add: run_inv_def)
  moreover have "work img' ts < work img ts"
  proof (rule work_advance [OF len _ st'])
    show "bd_count (bulkdata img') = bd_count (bulkdata img)" using chunks by simp
    show "chunk_state_rank (st img n) < chunk_state_rank (ck_state c')" using n(2) state by simp
    have "length (assignq (bulkdata img')) \<le> length (assignq (bulkdata img))"
      unfolding aq q by (simp split: option.split)
    moreover have "length (compressq (bulkdata img')) + length (writeq (bulkdata img')) \<le>
        Suc (length (compressq (bulkdata img)) + length (writeq (bulkdata img)))"
      using cq wq by (cases "ck_state c' = libsqfs_chunk_assigned") simp_all
    ultimately show "2 * queued img' + length ts < 2 * queued img + length ts + 3"
      using same(4,5) by (simp add: queued_def)
  qed
  ultimately show ?thesis ..
qed

section \<open>The three classes of chunks\<close>

lemma upd_chunk_chunks [simp]:
  "bd_chunks (bulkdata (upd_chunk n f img)) = (bd_chunks (bulkdata img))[n := f (chunk_at img n)]"
  by (simp add: upd_chunk_def)

text \<open>A chunk that has become writable is written at once if it is the first that is unfinished.\<close>

lemma try_writeout:
  assumes inv: "run_inv J xs img ts" and n: "n < length xs" "st img n \<noteq> libsqfs_chunk_finished"
    and w: "st img' n = libsqfs_chunk_writable" "\<And>m. m \<noteq> n \<Longrightarrow> st img' m = st img m"
  shows "libsqfs_chunk_try_writeout n img' = (if n = bd_finished (bulkdata img) then push_front_writeq n img' else img')"
proof -
  note f = pipe_parts(2) [OF run_parts(9) [OF inv]]
  have "\<not> n < bd_finished (bulkdata img)" using f [OF n(1)] n(2) by simp
  moreover have "st img' (n - 1) = libsqfs_chunk_finished \<longleftrightarrow> n - 1 < bd_finished (bulkdata img)" if "n \<noteq> 0"
    using f [of "n - 1"] n(1) w(2) [of "n - 1"] that by simp
  ultimately show ?thesis using w(1) by (cases "n = 0") (auto simp: libsqfs_chunk_try_writeout_def)
qed

text \<open>What is known of a chunk that is to be placed.\<close>

lemma assign_facts:
  assumes inv: "run_inv J xs img ts" and q: "assignq (bulkdata img) = n # q"
  shows "n < length xs" "n < bd_count (bulkdata img)" "st img n = libsqfs_chunk_deduplicated" "ready (st img) (piece_before xs) n"
    "ck_vmt (chunk_at img n) = fst (xs ! n)" "ck_data (chunk_at img n) = snd (xs ! n)"
    "prev_piece (chunk_at img n) = piece_before xs n" "\<not> flush_previous_block (chunk_at img n)"
    "next_piece (chunk_at img n) = Some k \<longleftrightarrow> k < length xs \<and> piece_before xs k = Some n"
proof -
  note p = run_parts [OF inv]
  show n: "n < length xs" and s: "st img n = libsqfs_chunk_deduplicated" and "ready (st img) (piece_before xs) n"
    using pipe_in(3) [OF p(9), of n] q by auto
  show "n < bd_count (bulkdata img)" using n p(3) by simp
  show "ck_vmt (chunk_at img n) = fst (xs ! n)" "ck_data (chunk_at img n) = snd (xs ! n)"
    "prev_piece (chunk_at img n) = piece_before xs n" "\<not> flush_previous_block (chunk_at img n)"
    "next_piece (chunk_at img n) = Some k \<longleftrightarrow> k < length xs \<and> piece_before xs k = Some n"
    using p(8) [OF n] s by (simp_all add: chunk_inv_def)
qed

lemma assign_full_block:
  assumes inv: "run_inv J xs img ts" and q: "assignq (bulkdata img) = n # q" and full: "fst (xs ! n) = libsqfs_full_block_vmt"
  shows "\<exists>img'. libsqfs_chunk_do_assign n (upd_bulk (assignq_update (\<lambda>_. q)) img) = Some (True, img') \<and>
    run_inv J xs img' ts \<and> work img' ts < work img ts"
proof -
  note f = assign_facts [OF inv q]
  let ?g = "ck_state_update (\<lambda>_. libsqfs_chunk_assigned)"
  let ?img = "push_front_compressq n (upd_chunk n ?g (upd_bulk (assignq_update (\<lambda>_. q)) img))"
  have "\<not> plan_flush (job_block_size J) xs n" using plan_flush_full full by blast
  moreover have "next_piece (chunk_at img n) = None"
    using f(9) full by (cases "next_piece (chunk_at img n)") (auto simp: piece_before_Some)
  ultimately have "run_inv J xs ?img ts \<and> work ?img ts < work img ts"
    by (intro place_inv [OF inv q, of _ "?g (chunk_at img n)"]) (use f(2,8) full in simp_all)
  then show ?thesis using f(2,3) by (simp add: libsqfs_chunk_do_assign_def)
qed

lemma closing_last: "submissions_ok bs xs \<Longrightarrow> i < n \<Longrightarrow> n < length xs \<Longrightarrow> fst (xs ! i) \<noteq> libsqfs_closing_piece_vmt"
  by (auto simp: submissions_ok_def dest!: spec [of _ i])

text \<open>The piece before a piece is a fragment piece, so that there is a block to be flushed.\<close>

lemma before_fragment:
  assumes "submissions_ok bs xs" "n < length xs" "piece_before xs n = Some p"
  shows "p < n" "fst (xs ! p) = libsqfs_fragment_piece_vmt" "plan_upto bs' xs n = plan_upto bs' xs (Suc p)" "plan_upto bs' xs n \<noteq> []"
proof -
  have p: "p < n" "is_piece xs p" using assms(3) by (simp_all add: piece_before_Some)
  show "p < n" by (rule p(1))
  show frag: "fst (xs ! p) = libsqfs_fragment_piece_vmt"
    using p(2) closing_last [OF assms(1) p(1) assms(2)] by (cases "fst (xs ! p)") simp_all
  show eq: "plan_upto bs' xs n = plan_upto bs' xs (Suc p)" by (rule plan_before [OF assms(3)])
  show "plan_upto bs' xs n \<noteq> []" unfolding eq using frag plan_step_nonempty by simp
qed

lemma assign_closing_piece:
  assumes inv: "run_inv J xs img ts" and q: "assignq (bulkdata img) = n # q" and closing: "fst (xs ! n) = libsqfs_closing_piece_vmt"
  shows "\<exists>img'. libsqfs_closing_piece_assign n (upd_bulk (assignq_update (\<lambda>_. q)) img) = Some (True, img') \<and>
    run_inv J xs img' ts \<and> work img' ts < work img ts"
proof -
  note f = assign_facts [OF inv q] and p = run_parts [OF inv]
  let ?bs = "job_block_size J" and ?img = "upd_bulk (assignq_update (\<lambda>_. q)) img"
  have sub: "submissions_ok ?bs xs" by (rule p(1))
  have nxt: "next_piece (chunk_at img n) = None"
    using f(9) closing_last [OF sub, of n] closing by (cases "next_piece (chunk_at img n)") (auto simp: piece_before_Some)
  have flush: "plan_flush ?bs xs n \<longleftrightarrow> piece_before xs n \<noteq> None"
    using before_fragment(4) [OF sub f(1), of _ ?bs] plan_first [of xs n ?bs] closing
    by (cases "xs ! n"; cases "piece_before xs n") (auto simp: plan_flush.simps)
  have unp: "\<not> placed (st img n)" using f(3) by simp
  have "is_piece xs n" using closing by simp
  note old = blocks_boundary [OF inv f(1) this unp f(4)]
  have same: "plan_upto ?bs xs (Suc n) = plan_upto ?bs xs n" using closing by (simp add: plan_step_other)
  show ?thesis
  proof (cases "piece_before xs n")
    case None
    let ?g = "ck_state_update (\<lambda>_. libsqfs_chunk_writable)"
    let ?img' = "if n = bd_finished (bulkdata img) then push_front_writeq n (upd_chunk n ?g ?img) else upd_chunk n ?g ?img"
    have "libsqfs_chunk_try_writeout n (upd_chunk n ?g ?img) = ?img'"
      by (rule try_writeout [OF inv f(1)]) (use f(2,3) in simp_all)
    then have "libsqfs_closing_piece_assign n ?img = Some (True, ?img')"
      using f None by (simp add: libsqfs_closing_piece_assign_def Let_def)
    moreover have "run_inv J xs ?img' ts \<and> work ?img' ts < work img ts"
      by (rule place_inv [OF inv q, of _ "?g (chunk_at img n)"])
        (use f(2,8) nxt None flush old same closing in \<open>simp_all split: if_splits\<close>)
    ultimately show ?thesis by blast
  next
    case (Some b)
    let ?g = "\<lambda>c. c\<lparr>flush_previous_block := True, ck_state := libsqfs_chunk_assigned\<rparr>"
    let ?img' = "push_front_compressq n (upd_chunk n ?g ?img)"
    have "libsqfs_closing_piece_assign n ?img = Some (True, ?img')"
      using f(2,3,7) Some by (simp add: libsqfs_closing_piece_assign_def Let_def) (simp add: upd_chunk_def)
    moreover have "run_inv J xs ?img' ts \<and> work ?img' ts < work img ts"
      by (rule place_inv [OF inv q, of _ "?g (chunk_at img n)"])
        (use f(2,8) nxt Some flush old same closing in simp_all)
    ultimately show ?thesis by blast
  qed
qed

text \<open>The block that a piece goes into: the last one, or a new one.\<close>

lemma update_last: "xs \<noteq> [] \<Longrightarrow> xs[length xs - Suc 0 := y] = butlast xs @ [y]"
  by (cases xs rule: rev_cases) simp_all

abbreviation empty_block :: libsqfs_fragment_block where
  "empty_block \<equiv> \<lparr>fb_pieces = [], fb_size = 0, fb_dst = libsqfs_image_block_init\<rparr>"

definition new_block :: "bulk_job \<Rightarrow> submission list \<Rightarrow> nat \<Rightarrow> bool" where
  "new_block J xs n \<longleftrightarrow> plan_flush (job_block_size J) xs n \<or> plan_upto (job_block_size J) xs n = []"

definition block_chosen :: "bulk_job \<Rightarrow> submission list \<Rightarrow> nat \<Rightarrow> 'a sqfs_bulk_scheme \<Rightarrow> 'a sqfs_bulk_scheme" where
  "block_chosen J xs n img =
     (let img = (if plan_flush (job_block_size J) xs n then upd_chunk n (flush_previous_block_update (\<lambda>_. True)) img else img) in
      if new_block J xs n then upd_bulk (\<lambda>bd. bd\<lparr>fragment_blocks := fragment_blocks bd @ [empty_block]\<rparr>) img else img)"

lemma choose_block:
  assumes inv: "run_inv J xs img ts" and q: "assignq (bulkdata img) = n # q" and frag: "fst (xs ! n) = libsqfs_fragment_piece_vmt"
  defines "img0 \<equiv> upd_bulk (assignq_update (\<lambda>_. q)) img"
  shows "\<exists>b img1. fragment_piece_choose_block n img0 = Some (b, img1) \<and>
    (case b of None \<Rightarrow> libsqfs_fragment_block_create img1 | Some b \<Rightarrow> (Some b, img1)) =
      (Some (length (plan_upto (job_block_size J) xs (Suc n)) - 1), block_chosen J xs n img0)"
proof -
  note f = assign_facts [OF inv q] and p = run_parts [OF inv]
  let ?bs = "job_block_size J"
  obtain d where x: "xs ! n = (libsqfs_fragment_piece_vmt, d)" using frag by (cases "xs ! n") simp
  have piece: "is_piece xs n" using frag by simp
  have unp: "\<not> placed (st img n)" using f(3) by simp
  note old = blocks_boundary(1) [OF inv f(1) piece unp f(4)]
  have len: "length (fragment_blocks (bulkdata img)) = length (plan_upto ?bs xs n)" by (metis length_map old)
  have mem: "mem img0 = []" using p(2) by (simp add: img0_def)
  show ?thesis
  proof (cases "piece_before xs n")
    case None
    then have e: "plan_upto ?bs xs n = []" using plan_first piece by blast
    then have "\<not> plan_flush ?bs xs n" "new_block J xs n" using plan_flush_nonempty by (auto simp: new_block_def)
    then show ?thesis using f(7) None e x len mem
      by (simp add: fragment_piece_choose_block_def img0_def libsqfs_fragment_block_create_def block_chosen_def mem_same)
  next
    case (Some k)
    note b = before_fragment [OF p(1) f(1) Some]
    have k: "k < length xs" "placed (st img k)" using b(1) f(1,4) Some by (simp_all add: ready_def)
    have ck: "ck_fragment_block (chunk_at img k) = Some (length (plan_upto ?bs xs n) - 1)"
      using p(8) [OF k(1)] k(2) b(2,3) by (simp add: chunk_inv_def)
    have nonempty: "plan_upto ?bs xs n \<noteq> []" by (rule b(4))
    have sz: "fb_size (fragment_blocks (bulkdata img) ! (length (plan_upto ?bs xs n) - 1)) = snd (last (plan_upto ?bs xs n))"
      using nonempty len by (subst last_conv_nth) (simp_all add: old [symmetric])
    have bsz: "block_size (img_options img0) = ?bs" using inv by (simp add: img0_def run_inv_def)
    have flush: "plan_flush ?bs xs n \<longleftrightarrow> snd (last (plan_upto ?bs xs n)) + piece_size d > ?bs"
      using nonempty x by (simp add: plan_flush.simps)
    have choose: "fragment_piece_choose_block n img0 = (if plan_flush ?bs xs n
        then Some (None, upd_chunk n (flush_previous_block_update (\<lambda>_. True)) img0)
        else Some (Some (length (plan_upto ?bs xs n) - 1), img0))"
      using f(6,7) Some ck sz bsz flush x by (simp add: fragment_piece_choose_block_def img0_def)
    show ?thesis
    proof (cases "plan_flush ?bs xs n")
      case True
      then show ?thesis using choose flush x nonempty len mem
        by (simp add: libsqfs_fragment_block_create_def block_chosen_def new_block_def mem_same) (simp add: img0_def Let_def)
    next
      case False
      then show ?thesis using choose flush x nonempty by (simp add: block_chosen_def new_block_def)
    qed
  qed
qed

lemma chosen_fields:
  assumes "n < bd_count (bulkdata img)" "\<not> flush_previous_block (chunk_at img n)"
  shows "bd_chunks (bulkdata (block_chosen J xs n img)) =
      (bd_chunks (bulkdata img))[n := (chunk_at img n)\<lparr>flush_previous_block := plan_flush (job_block_size J) xs n\<rparr>]"
    "fragment_blocks (bulkdata (block_chosen J xs n img)) =
      (if new_block J xs n then fragment_blocks (bulkdata img) @ [empty_block] else fragment_blocks (bulkdata img))"
proof -
  have "(chunk_at img n)\<lparr>flush_previous_block := False\<rparr> = chunk_at img n" using assms(2) by (cases "chunk_at img n") simp
  then show "bd_chunks (bulkdata (block_chosen J xs n img)) =
      (bd_chunks (bulkdata img))[n := (chunk_at img n)\<lparr>flush_previous_block := plan_flush (job_block_size J) xs n\<rparr>]"
    by (simp add: block_chosen_def Let_def)
  show "fragment_blocks (bulkdata (block_chosen J xs n img)) =
      (if new_block J xs n then fragment_blocks (bulkdata img) @ [empty_block] else fragment_blocks (bulkdata img))"
    by (simp add: block_chosen_def Let_def)
qed

lemma chosen_rest [simp]:
  "bd_finished (bulkdata (block_chosen J xs n img)) = bd_finished (bulkdata img)"
  "fragment_pieces (bulkdata (block_chosen J xs n img)) = fragment_pieces (bulkdata img)"
  "readq (bulkdata (block_chosen J xs n img)) = readq (bulkdata img)"
  "dedupq (bulkdata (block_chosen J xs n img)) = dedupq (bulkdata img)"
  "assignq (bulkdata (block_chosen J xs n img)) = assignq (bulkdata img)"
  "compressq (bulkdata (block_chosen J xs n img)) = compressq (bulkdata img)"
  "writeq (bulkdata (block_chosen J xs n img)) = writeq (bulkdata img)"
  "may_add_chunks (bulkdata (block_chosen J xs n img)) = may_add_chunks (bulkdata img)"
  "aborted (bulkdata (block_chosen J xs n img)) = aborted (bulkdata img)"
  "compress_blocks (bulkdata (block_chosen J xs n img)) = compress_blocks (bulkdata img)"
  "compress_fragments (bulkdata (block_chosen J xs n img)) = compress_fragments (bulkdata img)"
  "mem (block_chosen J xs n img) = mem img" "dst (block_chosen J xs n img) = dst img"
  "img_size (block_chosen J xs n img) = img_size img" "img_options (block_chosen J xs n img) = img_options img"
  by (simp_all add: block_chosen_def Let_def)

text \<open>The blocks with the piece are those of the plan.\<close>

lemma plan_placed:
  fixes blocks :: "libsqfs_fragment_block list"
  assumes old: "map (\<lambda>b. (fb_pieces b, fb_size b)) blocks = plan_upto (job_block_size J) xs n"
    and x: "xs ! n = (libsqfs_fragment_piece_vmt, d)"
  defines "B \<equiv> length (plan_upto (job_block_size J) xs (Suc n)) - 1"
    and "blocks1 \<equiv> (if new_block J xs n then blocks @ [empty_block] else blocks)"
  shows "map (\<lambda>b. (fb_pieces b, fb_size b)) (blocks1[B := (blocks1 ! B)\<lparr>fb_pieces := fb_pieces (blocks1 ! B) @ [n],
      fb_size := fb_size (blocks1 ! B) + piece_size d\<rparr>]) = plan_upto (job_block_size J) xs (Suc n)"
    "fb_size (blocks1 ! B) = plan_offset (job_block_size J) xs n" "B < length blocks1"
proof -
  let ?plan = "plan_upto (job_block_size J) xs n"
  have len: "length blocks = length ?plan" by (metis length_map old)
  have flush: "?plan \<noteq> [] \<Longrightarrow> plan_flush (job_block_size J) xs n \<longleftrightarrow> snd (last ?plan) + piece_size d > job_block_size J"
    using x by (simp add: plan_flush.simps)
  have "map (\<lambda>b. (fb_pieces b, fb_size b)) (blocks1[B := (blocks1 ! B)\<lparr>fb_pieces := fb_pieces (blocks1 ! B) @ [n],
      fb_size := fb_size (blocks1 ! B) + piece_size d\<rparr>]) = plan_upto (job_block_size J) xs (Suc n) \<and>
    fb_size (blocks1 ! B) = plan_offset (job_block_size J) xs n \<and> B < length blocks1"
  proof (cases "new_block J xs n")
    case True
    then have "plan_upto (job_block_size J) xs (Suc n) = ?plan @ [([n], piece_size d)]"
      using x flush by (auto simp: new_block_def)
    with True len show ?thesis by (auto simp: B_def blocks1_def nth_append old plan_offset_def new_block_def map_update list_update_append)
  next
    case False
    then have e: "?plan \<noteq> []" "\<not> plan_flush (job_block_size J) xs n" by (simp_all add: new_block_def)
    then have s: "plan_upto (job_block_size J) xs (Suc n) = butlast ?plan @ [(fst (last ?plan) @ [n], snd (last ?plan) + piece_size d)]"
      using x flush by simp
    then have B: "B = length ?plan - 1" using e by (simp add: B_def)
    have "last ?plan = (fb_pieces (blocks ! B), fb_size (blocks ! B))"
      using e len by (subst last_conv_nth) (simp_all add: old [symmetric] B)
    with False s e len B show ?thesis
      by (simp add: blocks1_def map_update old update_last plan_offset_def)
  qed
  then show "map (\<lambda>b. (fb_pieces b, fb_size b)) (blocks1[B := (blocks1 ! B)\<lparr>fb_pieces := fb_pieces (blocks1 ! B) @ [n],
      fb_size := fb_size (blocks1 ! B) + piece_size d\<rparr>]) = plan_upto (job_block_size J) xs (Suc n)"
    "fb_size (blocks1 ! B) = plan_offset (job_block_size J) xs n" "B < length blocks1" by blast+
qed

lemma assign_fragment_piece:
  assumes inv: "run_inv J xs img ts" and q: "assignq (bulkdata img) = n # q" and frag: "fst (xs ! n) = libsqfs_fragment_piece_vmt"
  shows "\<exists>img'. libsqfs_fragment_piece_assign n (upd_bulk (assignq_update (\<lambda>_. q)) img) = Some (True, img') \<and>
    run_inv J xs img' ts \<and> work img' ts < work img ts"
proof -
  note f = assign_facts [OF inv q]
  let ?bs = "job_block_size J" and ?img0 = "upd_bulk (assignq_update (\<lambda>_. q)) img"
  define B where "B = length (plan_upto ?bs xs (Suc n)) - 1"
  define blocks1 where "blocks1 = (if new_block J xs n then fragment_blocks (bulkdata img) @ [empty_block] else fragment_blocks (bulkdata img))"
  let ?F = "plan_flush ?bs xs n" and ?fin = "bd_finished (bulkdata img)"
  let ?S = "if ?F then libsqfs_chunk_assigned else libsqfs_chunk_writable"
  obtain d where x: "xs ! n = (libsqfs_fragment_piece_vmt, d)" using frag by (cases "xs ! n") simp
  have piece: "is_piece xs n" using frag by simp
  have unp: "\<not> placed (st img n)" using f(3) by simp
  note old = blocks_boundary(1) [OF inv f(1) piece unp f(4)]
  obtain b img1 where choose: "fragment_piece_choose_block n ?img0 = Some (b, img1)"
    "(case b of None \<Rightarrow> libsqfs_fragment_block_create img1 | Some b \<Rightarrow> (Some b, img1)) = (Some B, block_chosen J xs n ?img0)"
    using choose_block [OF inv q frag] unfolding B_def by blast
  let ?img1 = "block_chosen J xs n ?img0"
  have chunks1: "bd_chunks (bulkdata ?img1) = (bd_chunks (bulkdata img))[n := (chunk_at img n)\<lparr>flush_previous_block := ?F\<rparr>]"
    "fragment_blocks (bulkdata ?img1) = blocks1"
    using chosen_fields [of n ?img0 J xs] f(2,8) by (simp_all add: blocks1_def)
  note placed = plan_placed [OF old x, folded B_def blocks1_def]
  define img2 where "img2 = libsqfs_fragment_block_add_piece B n ?img1"
  let ?c2 = "(chunk_at img n)\<lparr>flush_previous_block := ?F, ck_fragment_block := Some B, ck_offset := of_nat (plan_offset ?bs xs n)\<rparr>"
  have add: "libsqfs_fragment_piece_assign n ?img0 = (let img = img2;
        img = (if flush_previous_block (chunk_at img n)
               then push_front_compressq n (upd_chunk n (ck_state_update (\<lambda>_. libsqfs_chunk_assigned)) img)
               else libsqfs_chunk_try_writeout n (upd_chunk n (ck_state_update (\<lambda>_. libsqfs_chunk_writable)) img));
        img = (case next_piece (chunk_at img n) of
                 None \<Rightarrow> img
               | Some k \<Rightarrow> if ck_state (chunk_at img k) = libsqfs_chunk_deduplicated then push_front_assignq k img else img) in
      Some (True, img))"
    using f(3) choose by (simp add: libsqfs_fragment_piece_assign_def img2_def Let_def)
  have size: "piece_size (ck_data (chunk_at img n)) = piece_size d" using f(6) x by simp
  have img2: "bd_chunks (bulkdata img2) = (bd_chunks (bulkdata img))[n := ?c2]"
    "map (\<lambda>b. (fb_pieces b, fb_size b)) (fragment_blocks (bulkdata img2)) = plan_upto ?bs xs (Suc n)"
    using chunks1 placed size f(2) by (simp_all add: img2_def libsqfs_fragment_block_add_piece_def Let_def)
  have "fb_dst (fragment_blocks (bulkdata img2) ! j) = fb_dst (blocks1 ! j)"
      "length (fragment_blocks (bulkdata img2)) = length blocks1" for j
    using chunks1(2) placed(3) by (cases "j = B"; simp add: img2_def libsqfs_fragment_block_add_piece_def Let_def)+
  then have dsts: "j < length (fragment_blocks (bulkdata img)) \<Longrightarrow>
        fb_dst (fragment_blocks (bulkdata img2) ! j) = fb_dst (fragment_blocks (bulkdata img) ! j)"
      "length (fragment_blocks (bulkdata img)) \<le> j \<Longrightarrow> j < length (fragment_blocks (bulkdata img2)) \<Longrightarrow>
        fb_dst (fragment_blocks (bulkdata img2) ! j) = libsqfs_image_block_init" for j
    by (auto simp: blocks1_def nth_append split: if_splits)
  have rest: "fragment_pieces (bulkdata img2) = fragment_pieces (bulkdata img)"
      "bd_finished (bulkdata img2) = bd_finished (bulkdata img)" "aborted (bulkdata img2) = aborted (bulkdata img)"
      "readq (bulkdata img2) = readq (bulkdata img)" "dedupq (bulkdata img2) = dedupq (bulkdata img)"
      "may_add_chunks (bulkdata img2) = may_add_chunks (bulkdata img)"
      "compress_blocks (bulkdata img2) = compress_blocks (bulkdata img)"
      "compress_fragments (bulkdata img2) = compress_fragments (bulkdata img)"
      "mem img2 = mem img" "dst img2 = dst img" "img_size img2 = img_size img" "img_options img2 = img_options img"
      "assignq (bulkdata img2) = q" "compressq (bulkdata img2) = compressq (bulkdata img)" "writeq (bulkdata img2) = writeq (bulkdata img)"
    by (simp_all add: img2_def libsqfs_fragment_block_add_piece_def Let_def)
  define w where "w \<longleftrightarrow> n = ?fin"
  define img3 where "img3 = (if ?F then push_front_compressq n (upd_chunk n (ck_state_update (\<lambda>_. libsqfs_chunk_assigned)) img2)
     else if w then push_front_writeq n (upd_chunk n (ck_state_update (\<lambda>_. libsqfs_chunk_writable)) img2)
     else upd_chunk n (ck_state_update (\<lambda>_. libsqfs_chunk_writable)) img2)"
  define img4 where "img4 = (case next_piece (chunk_at img n) of None \<Rightarrow> img3
     | Some k \<Rightarrow> if st img k = libsqfs_chunk_deduplicated then push_front_assignq k img3 else img3)"
  have len2: "n < bd_count (bulkdata img2)" and at2: "chunk_at img2 m = (if m = n then ?c2 else chunk_at img m)" for m
    using img2(1) f(2) by simp_all
  have "libsqfs_chunk_try_writeout n (upd_chunk n (ck_state_update (\<lambda>_. libsqfs_chunk_writable)) img2) = (if w
      then push_front_writeq n (upd_chunk n (ck_state_update (\<lambda>_. libsqfs_chunk_writable)) img2)
      else upd_chunk n (ck_state_update (\<lambda>_. libsqfs_chunk_writable)) img2)"
    unfolding w_def by (rule try_writeout [OF inv f(1)]) (use f(3) len2 at2 in simp_all)
  then have three: "(if flush_previous_block (chunk_at img2 n)
      then push_front_compressq n (upd_chunk n (ck_state_update (\<lambda>_. libsqfs_chunk_assigned)) img2)
      else libsqfs_chunk_try_writeout n (upd_chunk n (ck_state_update (\<lambda>_. libsqfs_chunk_writable)) img2)) = img3"
    by (simp add: img3_def at2)
  have chunks3: "bd_chunks (bulkdata img3) = (bd_chunks (bulkdata img))[n := ?c2\<lparr>ck_state := ?S\<rparr>]"
    using img2(1) f(2) by (simp add: img3_def)
  have at3: "chunk_at img3 m = (if m = n then ?c2\<lparr>ck_state := ?S\<rparr> else chunk_at img m)" for m
    using chunks3 f(2) by simp
  have next3: "(case next_piece (chunk_at img3 n) of None \<Rightarrow> img3
      | Some k \<Rightarrow> if ck_state (chunk_at img3 k) = libsqfs_chunk_deduplicated then push_front_assignq k img3 else img3) = img4"
  proof (cases "next_piece (chunk_at img n)")
    case (Some k)
    then have "k \<noteq> n" using f(9) by (auto simp: piece_before_Some)
    with Some show ?thesis by (simp add: img4_def at3)
  qed (simp add: img4_def at3)
  have res: "libsqfs_fragment_piece_assign n ?img0 = Some (True, img4)"
    unfolding add Let_def three next3 ..
  have rest3: "fragment_blocks (bulkdata img4) = fragment_blocks (bulkdata img2)" "bd_chunks (bulkdata img4) = bd_chunks (bulkdata img3)"
      "fragment_pieces (bulkdata img4) = fragment_pieces (bulkdata img)"
      "bd_finished (bulkdata img4) = bd_finished (bulkdata img)" "aborted (bulkdata img4) = aborted (bulkdata img)"
      "readq (bulkdata img4) = readq (bulkdata img)" "dedupq (bulkdata img4) = dedupq (bulkdata img)"
      "may_add_chunks (bulkdata img4) = may_add_chunks (bulkdata img)"
      "compress_blocks (bulkdata img4) = compress_blocks (bulkdata img)"
      "compress_fragments (bulkdata img4) = compress_fragments (bulkdata img)"
      "mem img4 = mem img" "dst img4 = dst img" "img_size img4 = img_size img" "img_options img4 = img_options img"
    by (cases "next_piece (chunk_at img n)"; simp add: img4_def img3_def rest)+
  have "compressq (bulkdata img4) = compressq (bulkdata img3)" "writeq (bulkdata img4) = writeq (bulkdata img3)"
    by (cases "next_piece (chunk_at img n)"; simp add: img4_def)+
  moreover have "compressq (bulkdata img3) = (if ?F then n # compressq (bulkdata img) else compressq (bulkdata img))"
    "writeq (bulkdata img3) = (if \<not> ?F \<and> w then n # writeq (bulkdata img) else writeq (bulkdata img))"
    by (cases ?F; cases w; simp add: img3_def rest)+
  ultimately have qs: "compressq (bulkdata img4) = (if ?S = libsqfs_chunk_assigned then n # compressq (bulkdata img) else compressq (bulkdata img))"
      "writeq (bulkdata img4) = (if ?S = libsqfs_chunk_writable \<and> w then n # writeq (bulkdata img) else writeq (bulkdata img))"
    by (cases ?F; simp)+
  have aq: "assignq (bulkdata img4) = (case next_piece (chunk_at img n) of
      Some k \<Rightarrow> if st img k = libsqfs_chunk_deduplicated then k # q else q | None \<Rightarrow> q)"
    by (cases "next_piece (chunk_at img n)"; simp add: img4_def img3_def rest)
  let ?c = "?c2\<lparr>ck_state := ?S\<rparr>"
  have "run_inv J xs img4 ts \<and> work img4 ts < work img ts"
  proof (rule place_inv [OF inv q, of img4 ?c])
    show "bd_chunks (bulkdata img4) = (bd_chunks (bulkdata img))[n := ?c]" using chunks3 rest3(2) by (rule trans [rotated])
    show "ck_state ?c = (if is_piece xs n \<and> \<not> ?F then libsqfs_chunk_writable else libsqfs_chunk_assigned)"
      using piece by simp
    show "ck_fragment_block ?c = Some (length (plan_upto ?bs xs (Suc n)) - 1) \<and> ck_offset ?c = of_nat (plan_offset ?bs xs n)"
      unfolding B_def [symmetric] by simp
    show "map (\<lambda>b. (fb_pieces b, fb_size b)) (fragment_blocks (bulkdata img4)) = plan_upto ?bs xs (Suc n)"
      unfolding rest3(1) by (rule img2(2))
    show "fragment_blocks (bulkdata img4) = fragment_blocks (bulkdata img)" if "\<not> is_piece xs n" using piece that by blast
    show "compressq (bulkdata img4) = (if ck_state ?c = libsqfs_chunk_assigned then n # compressq (bulkdata img) else compressq (bulkdata img))"
      unfolding qs(1) by simp
    show "writeq (bulkdata img4) = (if ck_state ?c = libsqfs_chunk_writable \<and> n = ?fin then n # writeq (bulkdata img) else writeq (bulkdata img))"
      unfolding qs(2) w_def by simp
  qed (use dsts in \<open>simp_all add: rest3 aq\<close>)
  with res show ?thesis by blast
qed

lemma enter_assign:
  assumes inv: "run_inv J xs img ts" and q: "assignq (bulkdata img) = n # q"
  shows "\<exists>img'. chunk_assign n (upd_bulk (assignq_update (\<lambda>_. q)) img) = Some (True, img') \<and>
    run_inv J xs img' ts \<and> work img' ts < work img ts"
proof -
  have "ck_vmt (chunk_at img n) = fst (xs ! n)" by (rule assign_facts [OF inv q])
  then show ?thesis
    using assign_full_block [OF inv q] assign_fragment_piece [OF inv q] assign_closing_piece [OF inv q]
    by (cases "fst (xs ! n)") (simp_all add: chunk_assign_def)
qed

end
