(* ===== verification/Bulkcompress.thy ===== *)
theory Bulkcompress
  imports Bulkassign
begin

text \<open>
  Compressing a block, its own or the fragment block in front of it, keeps the invariant of a run
  (Bulkinv).
\<close>

section \<open>The queues\<close>

lemma compress_task:
  assumes "run_inv J xs img ts" "Compressing n \<in> set ts"
  shows "n < length xs" "n < bd_count (bulkdata img)" "st img n = libsqfs_chunk_assigned"
proof -
  note p = run_parts [OF assms(1)]
  have "n \<in> set (compressq (bulkdata img) @ compressors ts)" using assms(2) by (simp add: in_readers)
  from pipe_in(4) [OF p(9) this] show "n < length xs" "st img n = libsqfs_chunk_assigned" by simp_all
  with p(3) show "n < bd_count (bulkdata img)" by simp
qed

lemma compress_queues:
  assumes inv: "run_inv J xs img ts" and t: "Compressing n \<in> set ts"
    and st': "st img' = (st img)(n := libsqfs_chunk_writable)"
    and same: "bd_finished (bulkdata img') = bd_finished (bulkdata img)" "aborted (bulkdata img') = aborted (bulkdata img)"
      "readq (bulkdata img') = readq (bulkdata img)" "dedupq (bulkdata img') = dedupq (bulkdata img)"
      "assignq (bulkdata img') = assignq (bulkdata img)" "compressq (bulkdata img') = compressq (bulkdata img)"
    and wq: "writeq (bulkdata img') = (if n = bd_finished (bulkdata img) then n # writeq (bulkdata img) else writeq (bulkdata img))"
    and count: "bd_count (bulkdata img') = bd_count (bulkdata img)"
  shows "queues_inv xs img' (remove1 (Compressing n) ts)" "work img' (remove1 (Compressing n) ts) < work img ts"
proof -
  note p = run_parts [OF inv]
  let ?ts = "remove1 (Compressing n) ts"
  have n_in: "n \<in> set (compressors ts)" using t by (simp add: in_readers)
  have dist: "distinct (compressq (bulkdata img) @ compressors ts)" using p(6) by (simp add: queues_inv_def)
  note d = distinct_remove_tail [OF dist n_in]
  have notin: "n \<notin> set (writeq (bulkdata img) @ writers ts)" using pipe_in(5) [OF p(9), of n] compress_task(3) [OF inv t] by auto
  have "pipe_ok (length xs) (st img') (piece_before xs) (bd_finished (bulkdata img')) (aborted (bulkdata img'))
       (set (readq (bulkdata img') @ readers ?ts)) (set (dedupq (bulkdata img'))) (set (assignq (bulkdata img')))
       (set (compressq (bulkdata img') @ compressors ?ts)) (set (writeq (bulkdata img') @ writers ?ts))"
    using pipe_compress [OF p(9), of n] n_in d st' same wq
    by (cases "n = bd_finished (bulkdata img)") (simp_all add: readers_remove1)
  with p(6) d notin same wq show "queues_inv xs img' ?ts" by (auto simp: queues_inv_def readers_remove1)
  have "length (writeq (bulkdata img')) \<le> Suc (length (writeq (bulkdata img)))" using wq by simp
  then show "work img' ?ts < work img ts"
    by (intro work_advance [OF compress_task(2) [OF inv t] count st'])
      (use compress_task(3) [OF inv t] task_done [OF t] in \<open>simp_all add: queued_def same\<close>)
qed

lemma disk_inv_same:
  assumes "disk_inv J xs img ts"
    and "\<And>i. i < length xs \<Longrightarrow> i < bd_finished (bulkdata img) + length (writers ts) \<Longrightarrow> chunk_output J xs i \<noteq> None \<Longrightarrow>
      written_block J xs img' i = written_block J xs img i"
    and "bd_finished (bulkdata img') = bd_finished (bulkdata img)" "aborted (bulkdata img') = aborted (bulkdata img)"
      "img_size img' = img_size img" "dst img' = dst img" "length (writers ts') = length (writers ts)"
  shows "disk_inv J xs img' ts'"
  using assms(1,2) unfolding disk_inv_def assms(3-7) by metis

section \<open>Taking a block\<close>

text \<open>The fragment block that a flushing piece writes, once the piece has been placed.\<close>

lemma flushed:
  assumes inv: "run_inv J xs img ts" and n: "n < length xs" "placed (st img n)" and fl: "plan_flush (job_block_size J) xs n"
  shows "flushed_block n img = Some (length (plan_upto (job_block_size J) xs n) - 1)"
    "length (plan_upto (job_block_size J) xs n) - 1 < length (fragment_blocks (bulkdata img))"
    "flush_previous_block (chunk_at img n)"
proof -
  note p = run_parts [OF inv]
  have c: "prev_piece (chunk_at img n) = piece_before xs n" and "flush_previous_block (chunk_at img n)"
    using p(8) [OF n(1)] n(2) fl by (simp_all add: chunk_inv_def)
  then show "flush_previous_block (chunk_at img n)" by simp
  show "length (plan_upto (job_block_size J) xs n) - 1 < length (fragment_blocks (bulkdata img))"
    by (rule flushed_exists [OF run_parts(5) [OF inv] n fl])
  obtain k where k: "piece_before xs n = Some k"
    using plan_first [OF _ plan_flush_full [OF fl]] plan_flush_nonempty [OF fl] by (cases "piece_before xs n") auto
  note b = before_fragment [OF p(1) n(1) k]
  have "placed (st img k)" "k < length xs" using pipe_parts(4) [OF p(9) n(1) k n(2)] b(1) n(1) by simp_all
  then have "ck_fragment_block (chunk_at img k) = Some (length (plan_upto (job_block_size J) xs n) - 1)"
    using p(8) [of k] b(2,3) by (simp add: chunk_inv_def)
  then show "flushed_block n img = Some (length (plan_upto (job_block_size J) xs n) - 1)"
    using c k by (simp add: flushed_block_def)
qed

lemma enter_compress:
  assumes inv: "run_inv J xs img ts" and q: "compressq (bulkdata img) = n # q"
  shows "\<exists>img'. chunk_compress_enter n (upd_bulk (compressq_update (\<lambda>_. q)) img) = Some img' \<and>
    run_inv J xs img' (Compressing n # ts) \<and> work img' (Compressing n # ts) < work img ts"
proof -
  note p = run_parts [OF inv]
  let ?img = "upd_bulk (compressq_update (\<lambda>_. q)) img"
  have n: "n < length xs" "st img n = libsqfs_chunk_assigned" using pipe_in(4) [OF p(9), of n] q by auto
  have pl: "placed (st img n)" using n by simp
  have vmt: "ck_vmt (chunk_at img n) = fst (xs ! n)" using p(8) [OF n(1)] by (simp add: chunk_inv_def)
  have res: "chunk_compress_enter n ?img = Some ?img"
  proof (cases "is_piece xs n")
    case True
    then have "plan_flush (job_block_size J) xs n" using p(8) [OF n(1)] n(2) by (simp add: chunk_inv_def)
    from flushed [OF inv n(1) pl this] n(2) vmt True show ?thesis
      by (simp add: chunk_compress_enter_def libsqfs_fragment_piece_compress_enter_def flushed_block_def)
  qed (use n vmt in \<open>simp add: chunk_compress_enter_def libsqfs_full_block_compress_enter_def\<close>)
  have c: "chunks_inv J xs ?img" and b: "blocks_inv J xs ?img" by (rule pop_inv [OF inv]; simp)+
  have "queues_inv xs ?img (Compressing n # ts)" using p(6) q by (simp add: queues_inv_def insert_commute)
  moreover have "disk_inv J xs ?img (Compressing n # ts)" using p(7) by (auto simp: disk_inv_def written_block_def)
  moreover have "work ?img (Compressing n # ts) < work img ts" by (rule work_same) (simp_all add: queued_def q)
  ultimately show ?thesis using res c b inv by (auto simp: run_inv_def)
qed

section \<open>The stored form\<close>

lemma block_stored:
  assumes "mem img = []" "src \<noteq> []" "vmt_compress ci \<noteq> None"
  shows "(if z then libsqfs_image_block_compress ci (mem img) block src else libsqfs_image_block_uncompressed (mem img) block src) =
    Some (True, block\<lparr>ib_size := length (fst (stored_form ci z src)), ib_data := Some (fst (stored_form ci z src)),
      ib_compressed := snd (stored_form ci z src)\<rparr>, [])"
  using assms by (cases "vmt_compress ci"; cases "the (vmt_compress ci) (length src) src")
    (auto simp: libsqfs_image_block_compress_def libsqfs_image_block_uncompressed_def stored_form_def
      libsqfs_compressor_instance_compress_def)

section \<open>Full blocks\<close>

lemma source_nonempty:
  assumes "run_inv J xs img ts" "n < length xs" "fst (xs ! n) \<noteq> libsqfs_closing_piece_vmt" "st img n \<noteq> libsqfs_chunk_none"
  shows "length (src_bytes (xs ! n)) = piece_size (snd (xs ! n))" "src_bytes (xs ! n) \<noteq> []"
proof -
  note p = run_parts [OF assms(1)]
  show l: "length (src_bytes (xs ! n)) = piece_size (snd (xs ! n))"
    using p(8) [OF assms(2)] assms(3,4) by (simp add: chunk_inv_def)
  moreover have "0 < piece_size (snd (xs ! n))" using p(1) assms(2,3) by (simp add: submissions_ok_def)
  ultimately show "src_bytes (xs ! n) \<noteq> []" by auto
qed

lemma compress_full_block:
  assumes inv: "run_inv J xs img ts" and t: "Compressing n \<in> set ts" and full: "fst (xs ! n) = libsqfs_full_block_vmt"
  shows "\<exists>img'. libsqfs_full_block_compress_leave (job_ci J) n img = Some (True, img') \<and>
    run_inv J xs img' (remove1 (Compressing n) ts) \<and> work img' (remove1 (Compressing n) ts) < work img ts"
proof -
  note p = run_parts [OF inv] and n = compress_task [OF inv t]
  note cn = p(8) [OF n(1), unfolded chunk_inv_def]
  let ?src = "src_bytes (xs ! n)" and ?z = "job_compress_blocks J"
  let ?out = "stored_form (job_ci J) ?z ?src"
  have src: "length ?src = piece_size (snd (xs ! n))" "?src \<noteq> []"
    using source_nonempty [OF inv n(1)] full n(3) by simp_all
  have cached: "cached_data (chunk_at img n) = Some ?src" "ck_data (chunk_at img n) = snd (xs ! n)"
    using cn full n(3) by simp_all
  define block where "block = (ck_dst (chunk_at img n))\<lparr>ib_size := length (fst ?out), ib_data := Some (fst ?out), ib_compressed := snd ?out\<rparr>"
  let ?g = "\<lambda>c. c\<lparr>ck_dst := block, cached_data := None, ck_state := libsqfs_chunk_writable\<rparr>"
  define img' where "img' = (if n = bd_finished (bulkdata img) then push_front_writeq n (upd_chunk n ?g img) else upd_chunk n ?g img)"
  have z: "compress_blocks (bulkdata img) = ?z" and ci: "vmt_compress (job_ci J) \<noteq> None" using inv by (simp_all add: run_inv_def)
  have "libsqfs_chunk_try_writeout n (upd_chunk n ?g img) = img'"
    unfolding img'_def by (rule try_writeout [OF inv n(1)]) (use n in simp_all)
  moreover have "upd_chunk n (ck_state_update (\<lambda>_. libsqfs_chunk_writable))
      (upd_chunk n (cached_data_update (\<lambda>_. None)) (upd_chunk n (ck_dst_update (\<lambda>_. block)) img)) = upd_chunk n ?g img"
    using n(2) by (simp add: upd_chunk_def)
  ultimately have res: "libsqfs_full_block_compress_leave (job_ci J) n img = Some (True, img')"
    using cached src(1) z block_stored [OF p(2) src(2) ci, of ?z "ck_dst (chunk_at img n)"]
    by (simp add: libsqfs_full_block_compress_leave_def Let_def block_def [symmetric] mem_same p(2) split del: if_split cong: if_cong)
  have out: "chunk_output J xs n = Some ?out" using full by (simp add: chunk_output_def)
  have "block_inv J xs n libsqfs_chunk_writable block"
    using out by (simp add: block_inv_def block_def split: prod.splits)
  then have "chunks_inv J xs (upd_chunk n ?g img)"
    using n full by (intro chunks_inv_upd [OF p(4)]) (auto simp: chunk_inv_def)
  then have c: "chunks_inv J xs img'" by (subst chunks_inv_cong [of _ "upd_chunk n ?g img"]) (simp_all add: img'_def)
  have "blocks_inv J xs (upd_chunk n ?g img)" using n full by (intro blocks_inv_upd [OF p(5)]) simp_all
  then have b: "blocks_inv J xs img'" by (subst blocks_inv_cong [of _ "upd_chunk n ?g img"]) (simp_all add: img'_def)
  have "bd_chunks (bulkdata img') = (bd_chunks (bulkdata img))[n := ?g (chunk_at img n)]" by (simp add: img'_def)
  then have "st img' = (st img)(n := libsqfs_chunk_writable)" using n(2) by (intro ext) simp
  note queues = compress_queues [OF inv t this]
  have q: "queues_inv xs img' (remove1 (Compressing n) ts)" and wk: "work img' (remove1 (Compressing n) ts) < work img ts"
    by (rule queues; simp add: img'_def)+
  have d: "disk_inv J xs img' (remove1 (Compressing n) ts)"
  proof -
    have "written_block J xs img' i = written_block J xs img i"
      if "i < length xs" "i < bd_finished (bulkdata img) + length (writers ts)" for i
    proof -
      have "i \<noteq> n" using written_writable [OF inv that] n(3) by auto
      then show ?thesis using n(2) by (simp add: written_block_def img'_def)
    qed
    then show ?thesis by (intro disk_inv_same [OF p(7)]) (simp_all add: img'_def readers_remove1)
  qed
  have "run_inv J xs img' (remove1 (Compressing n) ts)" using c b d q inv by (simp add: run_inv_def img'_def)
  with res wk show ?thesis by blast
qed

section \<open>Fragment blocks\<close>

text \<open>A block that has been flushed stays as it is, so that flushing chunks have different blocks.\<close>

lemma plan_prefix:
  assumes "plan_flush bs xs n" "fst (xs ! n) = libsqfs_fragment_piece_vmt" "n < m"
  shows "\<exists>ys. ys \<noteq> [] \<and> plan_upto bs xs m = plan_upto bs xs n @ ys"
  using assms(3)
proof (induction m)
  case (Suc m)
  show ?case
  proof (cases "n = m")
    case True
    then show ?thesis using plan_flush_fragment [OF assms(1,2)] by auto
  next
    case False
    then obtain ys where "ys \<noteq> []" "plan_upto bs xs m = plan_upto bs xs n @ ys" using Suc by auto
    then show ?thesis
      by (cases "(bs, m, xs ! m, plan_upto bs xs m)" rule: plan_step.cases) (auto simp: butlast_append)
  qed
qed simp

lemma flushers_later:
  assumes "submissions_ok bs xs" "n < m" "m < length xs" "plan_flush bs' xs n" "plan_flush bs' xs m"
  shows "length (plan_upto bs' xs n) < length (plan_upto bs' xs m)"
    "set (fst (last (plan_upto bs' xs n))) \<inter> set (fst (last (plan_upto bs' xs m))) = {}"
proof -
  have "fst (xs ! n) = libsqfs_fragment_piece_vmt"
    using plan_flush_full [OF assms(4)] closing_last [OF assms(1-3)] by (cases "fst (xs ! n)") simp_all
  from plan_prefix [OF assms(4) this assms(2)] obtain ys where ys: "ys \<noteq> []" "plan_upto bs' xs m = plan_upto bs' xs n @ ys"
    by blast
  then show "length (plan_upto bs' xs n) < length (plan_upto bs' xs m)" by simp
  have "last (plan_upto bs' xs n) \<in> set (plan_upto bs' xs n)" "last (plan_upto bs' xs m) \<in> set ys"
    using ys plan_flush_nonempty [OF assms(4)] by simp_all
  moreover have "set (concat (map fst (plan_upto bs' xs n))) \<inter> set (concat (map fst ys)) = {}"
    using plan_distinct [of bs' xs m] unfolding ys(2) by simp
  ultimately show "set (fst (last (plan_upto bs' xs n))) \<inter> set (fst (last (plan_upto bs' xs m))) = {}"
    by (simp; blast)
qed

lemma flushers_differ:
  assumes "submissions_ok bs xs" "n \<noteq> m" "n < length xs" "m < length xs" "plan_flush bs' xs n" "plan_flush bs' xs m"
  shows "length (plan_upto bs' xs n) - 1 \<noteq> length (plan_upto bs' xs m) - 1"
    "set (fst (last (plan_upto bs' xs n))) \<inter> set (fst (last (plan_upto bs' xs m))) = {}"
proof -
  have e: "plan_upto bs' xs n \<noteq> []" "plan_upto bs' xs m \<noteq> []" using plan_flush_nonempty assms(5,6) by blast+
  consider "n < m" | "m < n" using assms(2) by linarith
  then have "length (plan_upto bs' xs n) - 1 \<noteq> length (plan_upto bs' xs m) - 1 \<and>
      set (fst (last (plan_upto bs' xs n))) \<inter> set (fst (last (plan_upto bs' xs m))) = {}"
  proof cases
    case 1
    from flushers_later [OF assms(1) 1 assms(4-6)] e show ?thesis by (cases "plan_upto bs' xs n") auto
  next
    case 2
    from flushers_later [OF assms(1) 2 assms(3) assms(6,5)] e show ?thesis by (cases "plan_upto bs' xs m") auto
  qed
  then show "length (plan_upto bs' xs n) - 1 \<noteq> length (plan_upto bs' xs m) - 1"
    "set (fst (last (plan_upto bs' xs n))) \<inter> set (fst (last (plan_upto bs' xs m))) = {}" by blast+
qed

text \<open>Collecting the pieces of a block.\<close>

definition release_pieces :: "nat list \<Rightarrow> 'a sqfs_bulk_scheme \<Rightarrow> 'a sqfs_bulk_scheme" where
  "release_pieces ps img = fold (\<lambda>p. upd_chunk p (cached_data_update (\<lambda>_. None))) ps img"

lemma release_simps [simp]:
  "release_pieces [] img = img"
  "release_pieces (p # ps) img = release_pieces ps (upd_chunk p (cached_data_update (\<lambda>_. None)) img)"
  by (simp_all add: release_pieces_def)

lemma released_fields [simp]:
  "bd_count (bulkdata (release_pieces ps img)) = bd_count (bulkdata img)"
  "bd_finished (bulkdata (release_pieces ps img)) = bd_finished (bulkdata img)"
  "fragment_blocks (bulkdata (release_pieces ps img)) = fragment_blocks (bulkdata img)"
  "fragment_pieces (bulkdata (release_pieces ps img)) = fragment_pieces (bulkdata img)"
  "readq (bulkdata (release_pieces ps img)) = readq (bulkdata img)"
  "dedupq (bulkdata (release_pieces ps img)) = dedupq (bulkdata img)"
  "assignq (bulkdata (release_pieces ps img)) = assignq (bulkdata img)"
  "compressq (bulkdata (release_pieces ps img)) = compressq (bulkdata img)"
  "writeq (bulkdata (release_pieces ps img)) = writeq (bulkdata img)"
  "may_add_chunks (bulkdata (release_pieces ps img)) = may_add_chunks (bulkdata img)"
  "aborted (bulkdata (release_pieces ps img)) = aborted (bulkdata img)"
  "compress_blocks (bulkdata (release_pieces ps img)) = compress_blocks (bulkdata img)"
  "compress_fragments (bulkdata (release_pieces ps img)) = compress_fragments (bulkdata img)"
  "mem (release_pieces ps img) = mem img" "dst (release_pieces ps img) = dst img"
  "img_size (release_pieces ps img) = img_size img" "img_options (release_pieces ps img) = img_options img"
  by (induction ps arbitrary: img; simp del: upd_chunk_chunks)+

lemma st_release [simp]: "st (release_pieces ps img) i = st img i"
proof (induction ps arbitrary: img)
  case (Cons p ps)
  have "st (upd_chunk p (cached_data_update (\<lambda>_. None)) img) i = st img i"
    by (cases "p < bd_count (bulkdata img)"; cases "i = p"; simp add: list_update_beyond)
  then show ?case using Cons.IH by simp
qed simp

lemma released [simp]:
  "i < bd_count (bulkdata img) \<Longrightarrow> chunk_at (release_pieces ps img) i =
     (if i \<in> set ps then (chunk_at img i)\<lparr>cached_data := None\<rparr> else chunk_at img i)"
proof (induction ps arbitrary: img)
  case (Cons p ps)
  then show ?case by (cases "i = p") simp_all
qed simp

lemma collect_pieces:
  assumes "distinct ps" "\<And>p. p \<in> set ps \<Longrightarrow> p < bd_count (bulkdata img) \<and> cached_data (chunk_at img p) = Some (f p) \<and>
      length (f p) = piece_size (ck_data (chunk_at img p))"
  shows "collect_pieces ps img = Some (concat (map f ps), release_pieces ps img)"
  using assms
proof (induction ps arbitrary: img)
  case (Cons p ps)
  let ?img = "upd_chunk p (cached_data_update (\<lambda>_. None)) img"
  have p: "p < bd_count (bulkdata img)" "cached_data (chunk_at img p) = Some (f p)"
    "length (f p) = piece_size (ck_data (chunk_at img p))" using Cons.prems(2) by auto
  have "collect_pieces ps ?img = Some (concat (map f ps), release_pieces ps ?img)"
  proof (rule Cons.IH)
    fix k assume k: "k \<in> set ps"
    then have "k \<noteq> p" using Cons.prems(1) by auto
    then show "k < bd_count (bulkdata ?img) \<and> cached_data (chunk_at ?img k) = Some (f k) \<and>
        length (f k) = piece_size (ck_data (chunk_at ?img k))" using Cons.prems(2) [of k] k by simp
  qed (use Cons.prems(1) in simp)
  with p Cons.prems(1) show ?case by simp
qed simp

text \<open>The content of the block in front of a placed piece.\<close>

lemma flushed_content:
  assumes inv: "run_inv J xs img ts" and n: "n < length xs" "placed (st img n)" and fl: "plan_flush (job_block_size J) xs n"
  defines "b \<equiv> fragment_blocks (bulkdata img) ! (length (plan_upto (job_block_size J) xs n) - 1)"
  shows "fb_pieces b = fst (last (plan_upto (job_block_size J) xs n))" "fb_size b = snd (last (plan_upto (job_block_size J) xs n))"
    "\<And>p. p \<in> set (fb_pieces b) \<Longrightarrow> p < n \<and> fst (xs ! p) = libsqfs_fragment_piece_vmt \<and> placed (st img p)"
    "distinct (fb_pieces b)"
proof -
  let ?bs = "job_block_size J"
  note p = run_parts [OF inv]
  obtain a where a: "a \<le> length xs" "\<And>i. i < length xs \<Longrightarrow> is_piece xs i \<Longrightarrow> placed (st img i) \<longleftrightarrow> i < a"
      "map (\<lambda>b. (fb_pieces b, fb_size b)) (fragment_blocks (bulkdata img)) = plan_upto ?bs xs a"
    using p(5) by (auto simp: blocks_inv_def)
  have na: "n < a" using a(2) [OF n(1) plan_flush_full [OF fl]] n(2) by simp
  have e: "plan_upto ?bs xs n \<noteq> []" by (rule plan_flush_nonempty [OF fl])
  have "plan_upto ?bs xs a ! (length (plan_upto ?bs xs n) - 1) = last (plan_upto ?bs xs n)"
  proof (cases "fst (xs ! n) = libsqfs_fragment_piece_vmt")
    case True
    from plan_prefix [OF fl True na] obtain ys where "plan_upto ?bs xs a = plan_upto ?bs xs n @ ys" by blast
    then show ?thesis using e by (simp add: nth_append last_conv_nth)
  next
    case False
    then have "Suc n = length xs" using p(1) n(1) plan_flush_full [OF fl] by (cases "fst (xs ! n)") (simp_all add: submissions_ok_def)
    then have "a = Suc n" using na a(1) by simp
    then show ?thesis using False e by (simp add: plan_step_other last_conv_nth)
  qed
  moreover have "length (plan_upto ?bs xs n) - 1 < length (fragment_blocks (bulkdata img))" by (rule flushed_exists [OF run_parts(5) [OF inv] n fl])
  ultimately have "(fb_pieces b, fb_size b) = last (plan_upto ?bs xs n)" unfolding b_def by (simp add: a(3) [symmetric])
  then show b: "fb_pieces b = fst (last (plan_upto ?bs xs n))" and "fb_size b = snd (last (plan_upto ?bs xs n))"
    by (metis fst_conv, metis snd_conv)
  have l: "last (plan_upto ?bs xs n) \<in> set (plan_upto ?bs xs n)" using e by simp
  have ps: "k < n \<and> fst (xs ! k) = libsqfs_fragment_piece_vmt" if "k \<in> set (fb_pieces b)" for k
    using plan_pieces [OF l] that unfolding b by blast
  show "k < n \<and> fst (xs ! k) = libsqfs_fragment_piece_vmt \<and> placed (st img k)" if "k \<in> set (fb_pieces b)" for k
    using ps [OF that] a(2) [of k] na n(1) by simp
  show "distinct (fb_pieces b)"
    using plan_distinct [of ?bs xs n] l unfolding b by (simp add: distinct_concat_iff)
qed

text \<open>Replacing the image block of the fragment block that chunk \<open>n\<close> flushes.\<close>

lemma blocks_inv_flusher:
  assumes sub: "submissions_ok (job_block_size J) xs" and bi: "blocks_inv J xs img" and n: "n < length xs"
    and fl: "plan_flush (job_block_size J) xs n"
    and B: "B = length (plan_upto (job_block_size J) xs n) - 1" "B < length (fragment_blocks (bulkdata img))"
    and blocks': "fragment_blocks (bulkdata img') =
      (fragment_blocks (bulkdata img))[B := (fragment_blocks (bulkdata img) ! B)\<lparr>fb_dst := block\<rparr>]"
    and st': "\<And>i. st img' i = (if i = n then s else st img i)" and s: "placed s \<longleftrightarrow> placed (st img n)" and block: "block_inv J xs n s block"
  shows "blocks_inv J xs img'"
proof -
  let ?bs = "job_block_size J"
  have other: "length (plan_upto ?bs xs i) - 1 \<noteq> B" if "i < length xs" "plan_flush ?bs xs i" "i \<noteq> n" for i
    using flushers_differ(1) [OF sub that(3,1) n that(2) fl] B(1) by simp
  obtain a where a: "a \<le> length xs" "\<forall>i < length xs. is_piece xs i \<longrightarrow> (placed (st img i) \<longleftrightarrow> i < a)"
      "map (\<lambda>b. (fb_pieces b, fb_size b)) (fragment_blocks (bulkdata img)) = plan_upto ?bs xs a"
    using bi by (auto simp: blocks_inv_def)
  have "placed (st img' i) = placed (st img i)" for i using st' s by simp
  moreover have "map (\<lambda>b. (fb_pieces b, fb_size b)) (fragment_blocks (bulkdata img')) =
      map (\<lambda>b. (fb_pieces b, fb_size b)) (fragment_blocks (bulkdata img))"
    using B(2) by (intro nth_equalityI) (simp_all add: blocks' nth_list_update)
  moreover have "block_inv J xs i (st img' i) (fb_dst (fragment_blocks (bulkdata img') ! (length (plan_upto ?bs xs i) - 1)))"
    if i: "i < length xs" "is_piece xs i" "plan_flush ?bs xs i" "length (plan_upto ?bs xs i) \<le> length (fragment_blocks (bulkdata img'))" for i
  proof (cases "i = n")
    case True
    then show ?thesis using block B st' by (simp add: blocks')
  next
    case False
    have "block_inv J xs i (st img i) (fb_dst (fragment_blocks (bulkdata img) ! (length (plan_upto ?bs xs i) - 1)))"
      using bi i by (auto simp: blocks_inv_def blocks')
    then show ?thesis using False other [OF i(1,3)] st' by (simp add: blocks')
  qed
  moreover have "fb_dst (fragment_blocks (bulkdata img') ! j) = libsqfs_image_block_init"
    if "j < length (fragment_blocks (bulkdata img'))" "\<forall>i < length xs. plan_flush ?bs xs i \<longrightarrow> length (plan_upto ?bs xs i) - 1 \<noteq> j" for j
  proof -
    have "j \<noteq> B" using that(2) n fl B(1) by blast
    then show ?thesis using bi that by (simp add: blocks_inv_def blocks')
  qed
  ultimately show ?thesis using a unfolding blocks_inv_def by auto
qed

lemma compress_fragment_block:
  assumes inv: "run_inv J xs img ts" and t: "Compressing n \<in> set ts" and piece: "is_piece xs n"
  shows "\<exists>img'. libsqfs_fragment_piece_compress_leave (job_ci J) n img = Some (True, img') \<and>
    run_inv J xs img' (remove1 (Compressing n) ts) \<and> work img' (remove1 (Compressing n) ts) < work img ts"
proof -
  note p = run_parts [OF inv] and n = compress_task [OF inv t]
  let ?bs = "job_block_size J" and ?z = "job_compress_fragments J"
  have pl: "placed (st img n)" using n(3) by simp
  have fl: "plan_flush ?bs xs n" using p(8) [OF n(1)] piece n(3) by (simp add: chunk_inv_def)
  note fb = flushed [OF inv n(1) pl fl] and content = flushed_content [OF inv n(1) pl fl]
  define B where "B = length (plan_upto ?bs xs n) - 1"
  define ps where "ps = fst (last (plan_upto ?bs xs n))"
  define old where "old = fragment_blocks (bulkdata img) ! B"
  note fb = fb [folded B_def] and content = content [folded B_def ps_def, folded old_def]
  have unused: "\<not> consumed ?bs xs img k" if k: "k \<in> set ps" for k
  proof
    assume "consumed ?bs xs img k"
    then obtain m where m: "m < length xs" "plan_flush ?bs xs m" "libsqfs_chunk_writable \<le> st img m"
      "k \<in> set (fst (last (plan_upto ?bs xs m)))" by (auto simp: consumed_def)
    then have "m \<noteq> n" using n(3) by auto
    from flushers_differ(2) [OF p(1) this m(1) n(1) m(2) fl] m(4) k show False by (auto simp: ps_def)
  qed
  have ps: "k < n \<and> k < length xs \<and> fst (xs ! k) = libsqfs_fragment_piece_vmt \<and> st img k \<noteq> libsqfs_chunk_none" if "k \<in> set ps" for k
    using content(3) [of k] that n(1) content(1) by auto
  have source: "cached_data (chunk_at img k) = Some (src_bytes (xs ! k)) \<and> ck_data (chunk_at img k) = snd (xs ! k) \<and>
      length (src_bytes (xs ! k)) = piece_size (snd (xs ! k)) \<and> src_bytes (xs ! k) \<noteq> []" if k: "k \<in> set ps" for k
    using p(8) [of k] ps [OF k] unused [OF k] source_nonempty [OF inv, of k] by (simp add: chunk_inv_def)
  let ?buffer = "block_content ?bs xs n" and ?img1 = "release_pieces ps img"
  have buffer: "?buffer = concat (map (\<lambda>k. src_bytes (xs ! k)) ps)" by (simp add: block_content_def ps_def)
  have collect: "collect_pieces ps img = Some (?buffer, ?img1)"
    unfolding buffer using content(1,4) ps source p(3) by (intro collect_pieces) auto
  have l: "last (plan_upto ?bs xs n) \<in> set (plan_upto ?bs xs n)" using plan_flush_nonempty [OF fl] by simp
  have "length ?buffer = (\<Sum>k\<leftarrow>ps. length (src_bytes (xs ! k)))" by (simp add: buffer length_concat comp_def)
  also have "\<dots> = (\<Sum>k\<leftarrow>ps. piece_size (snd (xs ! k)))" using source by (intro arg_cong [of _ _ sum_list] map_cong) auto
  also have "\<dots> = fb_size old" using plan_sizes [OF l] content(2) by (simp add: ps_def)
  finally have size: "length ?buffer = fb_size old" .
  have "ps \<noteq> []" using plan_nonempty_blocks [OF l] by (simp add: ps_def)
  then have nonempty: "?buffer \<noteq> []" using source unfolding buffer by (cases ps) auto
  let ?out = "stored_form (job_ci J) ?z ?buffer"
  define block where "block = (fb_dst old)\<lparr>ib_size := length (fst ?out), ib_data := Some (fst ?out), ib_compressed := snd ?out\<rparr>"
  let ?img2 = "upd_fragment_block B (fb_dst_update (\<lambda>_. block)) ?img1" and ?g = "ck_state_update (\<lambda>_. libsqfs_chunk_writable)"
  define img' where "img' = (if n = bd_finished (bulkdata img) then push_front_writeq n (upd_chunk n ?g ?img2) else upd_chunk n ?g ?img2)"
  have z: "compress_fragments (bulkdata img) = ?z" and ci: "vmt_compress (job_ci J) \<noteq> None" using inv by (simp_all add: run_inv_def)
  have "libsqfs_chunk_try_writeout n (upd_chunk n ?g ?img2) = img'"
    unfolding img'_def by (rule try_writeout [OF inv n(1)]) (use n in simp_all)
  then have res: "libsqfs_fragment_piece_compress_leave (job_ci J) n img = Some (True, img')"
    using fb(1) collect content(1) size z block_stored [OF p(2) nonempty ci, of ?z "fb_dst old"]
    by (simp add: libsqfs_fragment_piece_compress_leave_def Let_def block_def [symmetric] old_def [symmetric] mem_same p(2)
        split del: if_split cong: if_cong)
  have chunks': "bd_chunks (bulkdata img') = (bd_chunks (bulkdata ?img1))[n := ?g (chunk_at ?img1 n)]"
    and blocks': "fragment_blocks (bulkdata img') = (fragment_blocks (bulkdata img))[B := old\<lparr>fb_dst := block\<rparr>]"
    by (simp_all add: img'_def old_def)
  have n_ps: "n \<notin> set ps" using ps by blast
  have at: "chunk_at img' i = (if i = n then ?g (chunk_at img n) else if i \<in> set ps then (chunk_at img i)\<lparr>cached_data := None\<rparr>
      else chunk_at img i)" if "i < length xs" for i
    using that chunks' n n_ps p(3) by simp
  have st': "st img' = (st img)(n := libsqfs_chunk_writable)" using chunks' n(2) by (intro ext) simp
  note st_at = fun_cong [OF st', unfolded fun_upd_apply]
  have cons: "consumed ?bs xs img' k \<longleftrightarrow> consumed ?bs xs img k \<or> k \<in> set ps" for k
  proof -
    have "libsqfs_chunk_writable \<le> st img' m \<longleftrightarrow> m = n \<or> libsqfs_chunk_writable \<le> st img m" for m using st_at [of m] by simp
    then have "consumed ?bs xs img' k \<longleftrightarrow> (\<exists>m < length xs. is_piece xs m \<and> plan_flush ?bs xs m \<and>
        (m = n \<or> libsqfs_chunk_writable \<le> st img m) \<and> k \<in> set (fst (last (plan_upto ?bs xs m))))"
      by (simp only: consumed_def)
    then show ?thesis using n(1) piece fl unfolding consumed_def ps_def by auto
  qed
  have c: "chunks_inv J xs img'"
  proof -
    have "chunk_inv J xs (consumed ?bs xs img' i) i (chunk_at img' i)" if i: "i < length xs" for i
    proof -
      consider "i = n" | "i \<in> set ps" | "i \<noteq> n" "i \<notin> set ps" by blast
      then show ?thesis
      proof cases
        case 1
        then show ?thesis using p(8) [OF i] at [OF i] cons n_ps n(3) piece fl by (simp add: chunk_inv_def)
      next
        case 2
        then show ?thesis using p(8) [OF i] at [OF i] cons n_ps ps [of i] by (auto simp: chunk_inv_def)
      next
        case 3
        then show ?thesis using p(8) [OF i] at [OF i] cons by simp
      qed
    qed
    then show ?thesis using p(3,4) by (simp add: chunks_inv_def img'_def)
  qed
  have other: "length (plan_upto ?bs xs i) - 1 \<noteq> B" if "i < length xs" "plan_flush ?bs xs i" "i \<noteq> n" for i
    using flushers_differ(1) [OF p(1) that(3,1) n(1) that(2) fl] by (simp add: B_def)
  have "chunk_output J xs n = Some ?out" using piece fl by (simp add: chunk_output_def)
  then have "block_inv J xs n libsqfs_chunk_writable block" by (simp add: block_inv_def block_def split: prod.splits)
  then have b: "blocks_inv J xs img'"
    by (intro blocks_inv_flusher [OF p(1,5) n(1) fl B_def fb(2) _ st_at]) (simp_all add: blocks' old_def n(3))
  have q: "queues_inv xs img' (remove1 (Compressing n) ts)" and wk: "work img' (remove1 (Compressing n) ts) < work img ts"
    by (rule compress_queues [OF inv t st']; simp add: img'_def)+
  have d: "disk_inv J xs img' (remove1 (Compressing n) ts)"
  proof (rule disk_inv_same [OF p(7)])
    fix i assume i: "i < length xs" "i < bd_finished (bulkdata img) + length (writers ts)" "chunk_output J xs i \<noteq> None"
    have ne: "i \<noteq> n" using written_writable [OF inv i(1,2)] n(3) by auto
    show "written_block J xs img' i = written_block J xs img i"
    proof (cases "is_piece xs i")
      case True
      from other [OF i(1) output_flush [OF i(3) True] ne] True show ?thesis by (simp add: written_block_def blocks')
    next
      case False
      then show ?thesis using at [OF i(1)] ne ps [of i] by (auto simp: written_block_def)
    qed
  qed (simp_all add: img'_def readers_remove1)
  have "run_inv J xs img' (remove1 (Compressing n) ts)" using c b d q inv by (simp add: run_inv_def img'_def)
  with res wk show ?thesis by blast
qed

lemma leave_compress:
  assumes inv: "run_inv J xs img ts" and t: "Compressing n \<in> set ts"
  shows "\<exists>img'. chunk_compress_leave (job_ci J) n img = Some (True, img') \<and>
    run_inv J xs img' (remove1 (Compressing n) ts) \<and> work img' (remove1 (Compressing n) ts) < work img ts"
proof -
  have "ck_vmt (chunk_at img n) = fst (xs ! n)"
    using run_parts(8) [OF inv compress_task(1) [OF inv t]] by (simp add: chunk_inv_def)
  then show ?thesis using compress_full_block [OF inv t] compress_fragment_block [OF inv t]
    by (cases "is_piece xs n") (simp_all add: chunk_compress_leave_def)
qed

end
