(* ===== verification/Bulkwrite.thy ===== *)
theory Bulkwrite
  imports Bulkcompress
begin

text \<open>
  Writing: the chunks take their places in the image one after another, and every interleaving
  leaves the same image (Bulkinv).
\<close>

section \<open>The queues\<close>

lemma write_task:
  assumes "run_inv J xs img ts" "Writing n \<in> set ts"
  shows "n < length xs" "n < bd_count (bulkdata img)" "st img n = libsqfs_chunk_writable" "n = bd_finished (bulkdata img)"
    "writers ts = [n]"
proof -
  note p = run_parts [OF assms(1)]
  have "n \<in> set (writeq (bulkdata img) @ writers ts)" using assms(2) by (simp add: in_readers)
  from pipe_in(5) [OF p(9) this] show "n < length xs" "st img n = libsqfs_chunk_writable" "n = bd_finished (bulkdata img)" by blast+
  with p(3) show "n < bd_count (bulkdata img)" by simp
  have "n \<in> set (writers ts)" using assms(2) by (simp add: in_readers)
  with writers_one [OF assms(1)] \<open>n = bd_finished (bulkdata img)\<close> show "writers ts = [n]" by auto
qed

lemma write_queues:
  assumes inv: "run_inv J xs img ts" and t: "Writing n \<in> set ts"
    and st': "st img' = (st img)(n := libsqfs_chunk_finished)"
    and same: "bd_finished (bulkdata img') = Suc (bd_finished (bulkdata img))" "aborted (bulkdata img') = aborted (bulkdata img)"
      "readq (bulkdata img') = readq (bulkdata img)" "dedupq (bulkdata img') = dedupq (bulkdata img)"
      "assignq (bulkdata img') = assignq (bulkdata img)" "compressq (bulkdata img') = compressq (bulkdata img)"
    and wq: "writeq (bulkdata img') = (if Suc n < length xs \<and> st img (Suc n) = libsqfs_chunk_writable
      then Suc n # writeq (bulkdata img) else writeq (bulkdata img))"
  shows "queues_inv xs img' (remove1 (Writing n) ts)"
proof -
  note p = run_parts [OF inv]
  let ?ts = "remove1 (Writing n) ts"
  have n_in: "n \<in> set (writers ts)" using t by (simp add: in_readers)
  have dist: "distinct (writeq (bulkdata img) @ writers ts)" using p(6) by (simp add: queues_inv_def)
  note d = distinct_remove_tail [OF dist n_in]
  have notin: "Suc n \<notin> set (writeq (bulkdata img) @ writers ts)"
    using pipe_in(5) [OF p(9), of "Suc n"] write_task(4) [OF inv t] by auto
  have "set (writeq (bulkdata img') @ writers ?ts) = set (writeq (bulkdata img) @ writers ts) - {n} \<union>
      (if Suc n < length xs \<and> st img (Suc n) = libsqfs_chunk_writable then {Suc n} else {})"
    using d wq by (simp add: readers_remove1)
  then have "pipe_ok (length xs) (st img') (piece_before xs) (bd_finished (bulkdata img')) (aborted (bulkdata img'))
       (set (readq (bulkdata img') @ readers ?ts)) (set (dedupq (bulkdata img'))) (set (assignq (bulkdata img')))
       (set (compressq (bulkdata img') @ compressors ?ts)) (set (writeq (bulkdata img') @ writers ?ts))"
    using pipe_write [OF p(9), of n] n_in st' same by (simp add: readers_remove1)
  moreover have "distinct (writeq (bulkdata img') @ writers ?ts)" using d notin wq by (auto simp: readers_remove1)
  ultimately show ?thesis using p(6) same by (auto simp: queues_inv_def readers_remove1)
qed

section \<open>Reserving the place\<close>

text \<open>The block of a chunk that is to be written: it is complete.\<close>

lemma writable_block:
  assumes inv: "run_inv J xs img ts" and n: "n < length xs" "st img n = libsqfs_chunk_writable"
    and out: "chunk_output J xs n = Some (b, z)"
  shows "ib_size (written_block J xs img n) = length b" "ib_compressed (written_block J xs img n) = z"
    "ib_data (written_block J xs img n) = Some b" "block_inv J xs n libsqfs_chunk_writable (written_block J xs img n)"
proof -
  note p = run_parts [OF inv]
  show bi: "block_inv J xs n libsqfs_chunk_writable (written_block J xs img n)"
  proof (cases "is_piece xs n")
    case True
    have fl: "plan_flush (job_block_size J) xs n" using output_flush [of J xs n] out True by simp
    have pl: "placed (st img n)" using n(2) by simp
    have "length (plan_upto (job_block_size J) xs n) \<le> length (fragment_blocks (bulkdata img))"
      using flushed(2) [OF inv n(1) pl fl] by linarith
    then show ?thesis using p(5) n True fl by (auto simp: blocks_inv_def written_block_def)
  next
    case False
    then show ?thesis using p(8) [OF n(1)] n(2) by (simp add: chunk_inv_def written_block_def)
  qed
  then show "ib_size (written_block J xs img n) = length b" "ib_compressed (written_block J xs img n) = z"
    "ib_data (written_block J xs img n) = Some b" using out by (simp_all add: block_inv_def)
qed

text \<open>Replacing the block of a chunk, wherever it is kept.\<close>

definition upd_written :: "bulk_job \<Rightarrow> submission list \<Rightarrow> nat \<Rightarrow> libsqfs_image_block \<Rightarrow> 'a sqfs_bulk_scheme \<Rightarrow> 'a sqfs_bulk_scheme" where
  "upd_written J xs n block img =
     (if is_piece xs n then upd_fragment_block (length (plan_upto (job_block_size J) xs n) - 1) (fb_dst_update (\<lambda>_. block)) img
      else upd_chunk n (ck_dst_update (\<lambda>_. block)) img)"

lemma upd_written_fields [simp]:
  "bd_count (bulkdata (upd_written J xs n block img)) = bd_count (bulkdata img)"
  "bd_finished (bulkdata (upd_written J xs n block img)) = bd_finished (bulkdata img)"
  "fragment_pieces (bulkdata (upd_written J xs n block img)) = fragment_pieces (bulkdata img)"
  "readq (bulkdata (upd_written J xs n block img)) = readq (bulkdata img)"
  "dedupq (bulkdata (upd_written J xs n block img)) = dedupq (bulkdata img)"
  "assignq (bulkdata (upd_written J xs n block img)) = assignq (bulkdata img)"
  "compressq (bulkdata (upd_written J xs n block img)) = compressq (bulkdata img)"
  "writeq (bulkdata (upd_written J xs n block img)) = writeq (bulkdata img)"
  "may_add_chunks (bulkdata (upd_written J xs n block img)) = may_add_chunks (bulkdata img)"
  "aborted (bulkdata (upd_written J xs n block img)) = aborted (bulkdata img)"
  "compress_blocks (bulkdata (upd_written J xs n block img)) = compress_blocks (bulkdata img)"
  "compress_fragments (bulkdata (upd_written J xs n block img)) = compress_fragments (bulkdata img)"
  "mem (upd_written J xs n block img) = mem img" "dst (upd_written J xs n block img) = dst img"
  "img_size (upd_written J xs n block img) = img_size img" "img_options (upd_written J xs n block img) = img_options img"
  by (simp_all add: upd_written_def)

lemma upd_written_chunk:
  "n < bd_count (bulkdata img) \<Longrightarrow> chunk_at (upd_written J xs n block img) i =
     (if i = n \<and> \<not> is_piece xs n then (chunk_at img n)\<lparr>ck_dst := block\<rparr> else chunk_at img i)"
  by (simp add: upd_written_def)

lemma written_inv:
  assumes sub: "submissions_ok (job_block_size J) xs" and ci: "chunks_inv J xs img" and bi: "blocks_inv J xs img"
    and n: "n < length xs" "placed (st img n)" and out: "chunk_output J xs n \<noteq> None" and block: "block_inv J xs n (st img n) block"
  shows "chunks_inv J xs (upd_written J xs n block img)" "blocks_inv J xs (upd_written J xs n block img)"
    "st (upd_written J xs n block img) = st img"
    "\<And>i. i < length xs \<Longrightarrow> chunk_output J xs i \<noteq> None \<Longrightarrow>
      written_block J xs (upd_written J xs n block img) i = (if i = n then block else written_block J xs img i)"
proof -
  let ?bs = "job_block_size J" and ?img = "upd_written J xs n block img"
  have len: "n < bd_count (bulkdata img)" using n(1) ci by (simp add: chunks_inv_def)
  note at = upd_written_chunk [OF len, of J xs block]
  show st': "st ?img = st img" by (intro ext) (simp add: at)
  have "chunks_inv J xs ?img \<and> blocks_inv J xs ?img \<and> (\<forall>i < length xs. chunk_output J xs i \<noteq> None \<longrightarrow>
      written_block J xs ?img i = (if i = n then block else written_block J xs img i))"
  proof (cases "is_piece xs n")
    case True
    have fl: "plan_flush ?bs xs n" by (rule output_flush [OF out True])
    let ?B = "length (plan_upto ?bs xs n) - 1"
    have B: "?B < length (fragment_blocks (bulkdata img))" by (rule flushed_exists [OF bi n fl])
    have img: "?img = upd_fragment_block ?B (fb_dst_update (\<lambda>_. block)) img" using True by (simp add: upd_written_def)
    have other: "length (plan_upto ?bs xs i) - 1 \<noteq> ?B" if "i < length xs" "plan_flush ?bs xs i" "i \<noteq> n" for i
      using flushers_differ(1) [OF sub that(3,1) n(1) that(2) fl] .
    have c: "chunks_inv J xs ?img" using ci unfolding img by (subst chunks_inv_cong [of _ img]) simp_all
    have b: "blocks_inv J xs ?img"
      by (rule blocks_inv_flusher [OF sub bi n(1) fl refl B _ _ refl block]) (simp_all add: img)
    have "written_block J xs ?img i = (if i = n then block else written_block J xs img i)"
      if i: "i < length xs" "chunk_output J xs i \<noteq> None" for i
      using other [OF i(1) output_flush [OF i(2)]] B True unfolding img by (auto simp: written_block_def)
    with b c show ?thesis by blast
  next
    case False
    have img: "?img = upd_chunk n (ck_dst_update (\<lambda>_. block)) img" using False by (simp add: upd_written_def)
    have "chunks_inv J xs ?img" unfolding img using n False block by (intro chunks_inv_upd [OF ci]) (simp_all add: chunk_inv_def)
    moreover have "blocks_inv J xs ?img" unfolding img using n len False by (intro blocks_inv_upd [OF bi]) simp_all
    ultimately show ?thesis using False len unfolding img by (auto simp: written_block_def)
  qed
  then show "chunks_inv J xs ?img" "blocks_inv J xs ?img"
    "\<And>i. i < length xs \<Longrightarrow> chunk_output J xs i \<noteq> None \<Longrightarrow> written_block J xs ?img i = (if i = n then block else written_block J xs img i)"
    by blast+
qed

lemma write_enter:
  assumes inv: "run_inv J xs img ts" and q: "writeq (bulkdata img) = n # q"
  defines "img0 \<equiv> upd_bulk (writeq_update (\<lambda>_. q)) img"
  shows "chunk_write_enter n img0 = Some (if chunk_output J xs n = None then img0
    else upd_written J xs n ((written_block J xs img n)\<lparr>ib_offset := img_size img\<rparr>)
      (img0\<lparr>img_size := img_size img + of_nat (output_size J xs n)\<rparr>))"
proof -
  note p = run_parts [OF inv]
  have n: "n < length xs" "st img n = libsqfs_chunk_writable" using pipe_in(5) [OF p(9), of n] q by auto
  have len: "n < bd_count (bulkdata img)" using n p(3) by simp
  have vmt: "ck_vmt (chunk_at img n) = fst (xs ! n)" using p(8) [OF n(1)] by (simp add: chunk_inv_def)
  have pl: "placed (st img n)" using n(2) by simp
  have flush: "flush_previous_block (chunk_at img n) \<longleftrightarrow> plan_flush (job_block_size J) xs n"
    using p(8) [OF n(1)] pl by (simp add: chunk_inv_def)
  have size: "ib_size (written_block J xs img n) = output_size J xs n" if "chunk_output J xs n \<noteq> None"
    using writable_block(1) [OF inv n] that by (cases "chunk_output J xs n") (auto simp: output_size_def)
  show ?thesis
  proof (cases "is_piece xs n")
    case True
    show ?thesis
    proof (cases "plan_flush (job_block_size J) xs n")
      case fl: True
      obtain out' where out: "chunk_output J xs n = Some out'" using True fl by (simp add: chunk_output_def)
      have "flushed_block n img0 = Some (length (plan_upto (job_block_size J) xs n) - 1)"
        using flushed(1) [OF inv n(1) pl fl] by (simp add: flushed_block_def img0_def)
      then show ?thesis using True vmt n(2) flush fl out size
        by (simp add: chunk_write_enter_def libsqfs_fragment_piece_write_enter_def libsqfs_image_block_write_enter_def
            libsqfs_image_reserve_def upd_written_def written_block_def img0_def Let_def)
    next
      case False
      then have "chunk_output J xs n = None" using True by (simp add: chunk_output_def)
      then show ?thesis using True False vmt n(2) flush
        by (simp add: chunk_write_enter_def libsqfs_fragment_piece_write_enter_def img0_def)
    qed
  next
    case False
    then obtain out' where "chunk_output J xs n = Some out'" by (simp add: chunk_output_def)
    then show ?thesis using False vmt n(2) size
      by (simp add: chunk_write_enter_def libsqfs_full_block_write_enter_def libsqfs_image_block_write_enter_def
          libsqfs_image_reserve_def upd_written_def written_block_def img0_def Let_def)
  qed
qed

lemma written_block_cong:
  "bd_chunks (bulkdata img') = bd_chunks (bulkdata img) \<Longrightarrow> fragment_blocks (bulkdata img') = fragment_blocks (bulkdata img) \<Longrightarrow>
   written_block J xs img' i = written_block J xs img i"
  by (simp add: written_block_def)

lemma enter_write:
  assumes inv: "run_inv J xs img ts" and q: "writeq (bulkdata img) = n # q"
  shows "\<exists>img'. chunk_write_enter n (upd_bulk (writeq_update (\<lambda>_. q)) img) = Some img' \<and> run_inv J xs img' (Writing n # ts) \<and>
    work img' (Writing n # ts) < work img ts"
proof -
  note p = run_parts [OF inv]
  let ?img0 = "upd_bulk (writeq_update (\<lambda>_. q)) img" and ?ts = "Writing n # ts"
  have n: "n < length xs" "st img n = libsqfs_chunk_writable" "n = bd_finished (bulkdata img)"
    using pipe_in(5) [OF p(9), of n] q by auto
  have w: "writers ts = []" using writers_one [OF inv] p(6) q n(3) by (auto simp: queues_inv_def)
  have c0: "chunks_inv J xs ?img0" and b0: "blocks_inv J xs ?img0" by (rule pop_inv [OF inv]; simp)+
  have q0: "queues_inv xs img' ?ts" if "st img' = st img" "bd_finished (bulkdata img') = bd_finished (bulkdata img)"
    "aborted (bulkdata img') = aborted (bulkdata img)" "readq (bulkdata img') = readq (bulkdata img)"
    "dedupq (bulkdata img') = dedupq (bulkdata img)" "assignq (bulkdata img') = assignq (bulkdata img)"
    "compressq (bulkdata img') = compressq (bulkdata img)" "writeq (bulkdata img') = q" for img' :: "'a sqfs_bulk_scheme"
    using p(6) q that by (simp add: queues_inv_def insert_commute)
  show ?thesis
  proof (cases "chunk_output J xs n")
    case None
    have "disk_inv J xs ?img0 ?ts"
    proof -
      have "written_block J xs ?img0 i = written_block J xs img i" for i by (simp add: written_block_def)
      then show ?thesis using p(7) None n(3) w by (auto simp: disk_inv_def output_size_def less_Suc_eq)
    qed
    moreover have "queues_inv xs ?img0 ?ts" by (rule q0) simp_all
    ultimately have "run_inv J xs ?img0 ?ts" using c0 b0 inv by (simp add: run_inv_def)
    moreover have "work ?img0 ?ts < work img ts" by (rule work_same) (simp_all add: queued_def q)
    ultimately show ?thesis using write_enter [OF inv q] None by simp
  next
    case (Some o')
    then obtain b z where out: "chunk_output J xs n = Some (b, z)" by (cases o') simp
    let ?block = "(written_block J xs img n)\<lparr>ib_offset := img_size img\<rparr>"
    let ?img1 = "upd_written J xs n ?block img"
    let ?img2 = "upd_written J xs n ?block (?img0\<lparr>img_size := img_size img + of_nat (output_size J xs n)\<rparr>)"
    have bi: "block_inv J xs n libsqfs_chunk_writable ?block"
      using writable_block(4) [OF inv n(1,2) out] by (simp add: block_inv_def out)
    have pl: "placed (st img n)" using n(2) by simp
    note wr = written_inv [OF p(1,4,5) n(1) pl _ bi [folded n(2)]]
    have same: "bd_chunks (bulkdata ?img2) = bd_chunks (bulkdata ?img1)"
      "fragment_blocks (bulkdata ?img2) = fragment_blocks (bulkdata ?img1)"
      by (simp_all add: upd_written_def upd_chunk_def upd_fragment_block_def)
    have c: "chunks_inv J xs ?img2" using wr(1) out same(1) by (subst chunks_inv_cong [of _ ?img1]) simp_all
    have b: "blocks_inv J xs ?img2" using wr(2) out same by (subst blocks_inv_cong [of _ ?img1]) simp_all
    have st2: "st ?img2 = st img" using wr(3) out unfolding same(1) by simp
    then have qi: "queues_inv xs ?img2 ?ts" by (rule q0) simp_all
    have "written_block J xs ?img2 i = written_block J xs ?img1 i" for i
      by (rule written_block_cong) (rule same)+
    then have blocks: "written_block J xs ?img2 i = (if i = n then ?block else written_block J xs img i)"
      if "i < length xs" "chunk_output J xs i \<noteq> None" for i
      using wr(4) [OF _ that] out by simp
    have d: "disk_inv J xs ?img2 ?ts"
      using p(7) blocks n(3) w by (auto simp: disk_inv_def less_Suc_eq)
    have "run_inv J xs ?img2 ?ts" using c b qi d inv by (simp add: run_inv_def)
    moreover have "work ?img2 ?ts < work img ts" by (rule work_same [OF st2]) (simp_all add: queued_def q)
    ultimately show ?thesis using write_enter [OF inv q] out by simp
  qed
qed

section \<open>Writing\<close>

lemma mark_finished:
  assumes inv: "run_inv J xs img ts" and t: "Writing n \<in> set ts" and same: "st img' = st img" "bd_count (bulkdata img') = length xs"
  shows "libsqfs_chunk_mark_finished n img' = Some (upd_bulk (bd_finished_update Suc)
    (if Suc n < length xs \<and> st img (Suc n) = libsqfs_chunk_writable
     then push_front_writeq (Suc n) (upd_chunk n (ck_state_update (\<lambda>_. libsqfs_chunk_finished)) img')
     else upd_chunk n (ck_state_update (\<lambda>_. libsqfs_chunk_finished)) img'))"
proof -
  note w = write_task [OF inv t] and at = fun_cong [OF same(1)]
  have "st img (n - 1) = libsqfs_chunk_finished" if "n \<noteq> 0"
    using pipe_parts(2) [OF run_parts(9) [OF inv], of "n - 1"] w(1,4) that by simp
  then show ?thesis using at same(2) w(1) by (cases "n = 0") (simp_all add: libsqfs_chunk_mark_finished_def Let_def)
qed

text \<open>The image after the block of a chunk has been written, or there was nothing to write.\<close>

definition after_write :: "bulk_job \<Rightarrow> submission list \<Rightarrow> nat \<Rightarrow> 'a sqfs_bulk_scheme \<Rightarrow> 'a sqfs_bulk_scheme" where
  "after_write J xs n img = (if chunk_output J xs n = None then img
     else upd_written J xs n ((written_block J xs img n)\<lparr>ib_data := None\<rparr>)
       (img\<lparr>dst := snd (libsqfs_pwrite (dst img) (fst (the (chunk_output J xs n))) (ib_offset (written_block J xs img n)))\<rparr>))"

lemma after_write_fields [simp]:
  "bd_count (bulkdata (after_write J xs n img)) = bd_count (bulkdata img)"
  "bd_finished (bulkdata (after_write J xs n img)) = bd_finished (bulkdata img)"
  "fragment_pieces (bulkdata (after_write J xs n img)) = fragment_pieces (bulkdata img)"
  "readq (bulkdata (after_write J xs n img)) = readq (bulkdata img)"
  "dedupq (bulkdata (after_write J xs n img)) = dedupq (bulkdata img)"
  "assignq (bulkdata (after_write J xs n img)) = assignq (bulkdata img)"
  "compressq (bulkdata (after_write J xs n img)) = compressq (bulkdata img)"
  "writeq (bulkdata (after_write J xs n img)) = writeq (bulkdata img)"
  "may_add_chunks (bulkdata (after_write J xs n img)) = may_add_chunks (bulkdata img)"
  "aborted (bulkdata (after_write J xs n img)) = aborted (bulkdata img)"
  "compress_blocks (bulkdata (after_write J xs n img)) = compress_blocks (bulkdata img)"
  "compress_fragments (bulkdata (after_write J xs n img)) = compress_fragments (bulkdata img)"
  "mem (after_write J xs n img) = mem img" "img_size (after_write J xs n img) = img_size img"
  "img_options (after_write J xs n img) = img_options img"
  by (simp_all add: after_write_def)

lemma after_write_st:
  assumes "n < bd_count (bulkdata img)"
  shows "st (after_write J xs n img) = st img"
  using assms upd_written_chunk [of n "img\<lparr>dst := d\<rparr>" J xs for d] by (intro ext) (simp add: after_write_def)

text \<open>Marking the chunk finished and replacing its block may be done in either order.\<close>

lemma finished_written:
  assumes inv: "run_inv J xs img ts" and t: "Writing n \<in> set ts"
  defines "img1 \<equiv> upd_chunk n (ck_state_update (\<lambda>_. libsqfs_chunk_finished)) (after_write J xs n img)"
  shows "chunks_inv J xs img1" "blocks_inv J xs img1" "st img1 = (st img)(n := libsqfs_chunk_finished)"
    "\<And>i. i < length xs \<Longrightarrow> chunk_output J xs i \<noteq> None \<Longrightarrow> ib_offset (written_block J xs img1 i) = ib_offset (written_block J xs img i)"
proof -
  note p = run_parts [OF inv] and w = write_task [OF inv t]
  let ?g = "ck_state_update (\<lambda>_. libsqfs_chunk_finished)"
  let ?img0 = "upd_chunk n ?g img"
  have early: "block_inv J xs n libsqfs_chunk_writable b \<Longrightarrow> block_inv J xs n libsqfs_chunk_finished b" for b
    by (auto simp: block_inv_def split: option.splits prod.splits)
  have c0: "chunks_inv J xs ?img0"
    using w(1,3) early by (intro chunks_inv_upd [OF p(4)]) (auto simp: chunk_inv_def)
  have b0: "blocks_inv J xs ?img0"
    using w(1,2,3) early by (intro blocks_inv_upd [OF p(5)]) auto
  show st1: "st img1 = (st img)(n := libsqfs_chunk_finished)"
    unfolding img1_def using st_upd [of n "after_write J xs n img" ?g] w(2) after_write_st [OF w(2), of J xs] by simp
  have pl: "placed (st ?img0 n)" using w(2) by simp
  have "chunks_inv J xs img1 \<and> blocks_inv J xs img1 \<and> (\<forall>i < length xs. chunk_output J xs i \<noteq> None \<longrightarrow>
      ib_offset (written_block J xs img1 i) = ib_offset (written_block J xs img i))"
  proof (cases "chunk_output J xs n")
    case None
    then have "img1 = ?img0" by (simp add: img1_def after_write_def)
    moreover have "written_block J xs ?img0 i = written_block J xs img i" for i
      using w(2) by (cases "i = n") (simp_all add: written_block_def)
    ultimately show ?thesis using c0 b0 by simp
  next
    case (Some o')
    then obtain b z where out: "chunk_output J xs n = Some (b, z)" by (cases o') simp
    let ?block = "(written_block J xs img n)\<lparr>ib_data := None\<rparr>"
    have "block_inv J xs n (st ?img0 n) ?block"
      using writable_block [OF inv w(1,3) out] w(2) by (simp add: block_inv_def out)
    note wr = written_inv [OF p(1) c0 b0 w(1) pl _ this]
    have swap: "c\<lparr>ck_dst := x, ck_state := s\<rparr> = c\<lparr>ck_state := s, ck_dst := x\<rparr>" for c :: libsqfs_chunk and x s
      by (cases c) simp
    have same: "bd_chunks (bulkdata img1) = bd_chunks (bulkdata (upd_written J xs n ?block ?img0))"
      "fragment_blocks (bulkdata img1) = fragment_blocks (bulkdata (upd_written J xs n ?block ?img0))"
      "fragment_pieces (bulkdata img1) = fragment_pieces (bulkdata (upd_written J xs n ?block ?img0))"
      using w(2) out by (simp_all add: img1_def after_write_def upd_written_def swap)
    have c: "chunks_inv J xs img1" using wr(1) out by (subst chunks_inv_cong [OF same(1,3)]) simp
    have b: "blocks_inv J xs img1" using wr(2) out by (subst blocks_inv_cong [OF same(1,2)]) simp
    have "written_block J xs ?img0 i = written_block J xs img i" for i
      using w(2) by (cases "i = n") (simp_all add: written_block_def)
    then have "written_block J xs img1 i = (if i = n then ?block else written_block J xs img i)"
      if "i < length xs" "chunk_output J xs i \<noteq> None" for i
      using wr(4) [OF _ that] out written_block_cong [OF same(1,2)] by simp
    with b c show ?thesis by auto
  qed
  then show "chunks_inv J xs img1" "blocks_inv J xs img1"
    "\<And>i. i < length xs \<Longrightarrow> chunk_output J xs i \<noteq> None \<Longrightarrow> ib_offset (written_block J xs img1 i) = ib_offset (written_block J xs img i)"
    by blast+
qed

lemma finish_run:
  assumes inv: "run_inv J xs img ts" and t: "Writing n \<in> set ts"
    and complete: "\<And>b z. chunk_output J xs n = Some (b, z) \<Longrightarrow>
      fst (libsqfs_pwrite (dst img) b (ib_offset (written_block J xs img n))) = int (length b)"
  defines "img1 \<equiv> upd_chunk n (ck_state_update (\<lambda>_. libsqfs_chunk_finished)) (after_write J xs n img)"
  shows "\<exists>img'. img' = upd_bulk (bd_finished_update Suc) (if Suc n < length xs \<and> st img (Suc n) = libsqfs_chunk_writable
      then push_front_writeq (Suc n) img1 else img1) \<and>
    run_inv J xs img' (remove1 (Writing n) ts) \<and> work img' (remove1 (Writing n) ts) < work img ts"
proof -
  note p = run_parts [OF inv] and w = write_task [OF inv t] and f = finished_written [OF inv t, folded img1_def]
  let ?next = "Suc n < length xs \<and> st img (Suc n) = libsqfs_chunk_writable" and ?ts = "remove1 (Writing n) ts"
  define img' where "img' = upd_bulk (bd_finished_update Suc) (if ?next then push_front_writeq (Suc n) img1 else img1)"
  have same: "bd_chunks (bulkdata img') = bd_chunks (bulkdata img1)" "fragment_blocks (bulkdata img') = fragment_blocks (bulkdata img1)"
    "fragment_pieces (bulkdata img') = fragment_pieces (bulkdata img1)" "bd_finished (bulkdata img') = Suc (bd_finished (bulkdata img))"
    "aborted (bulkdata img') = aborted (bulkdata img)" "readq (bulkdata img') = readq (bulkdata img)"
    "dedupq (bulkdata img') = dedupq (bulkdata img)" "assignq (bulkdata img') = assignq (bulkdata img)"
    "compressq (bulkdata img') = compressq (bulkdata img)"
    "writeq (bulkdata img') = (if ?next then Suc n # writeq (bulkdata img) else writeq (bulkdata img))"
    "may_add_chunks (bulkdata img') = may_add_chunks (bulkdata img)" "mem img' = mem img" "img_size img' = img_size img"
    "img_options img' = img_options img" "compress_blocks (bulkdata img') = compress_blocks (bulkdata img)"
    "compress_fragments (bulkdata img') = compress_fragments (bulkdata img)" "dst img' = dst (after_write J xs n img)"
    by (cases ?next; simp add: img'_def img1_def)+
  have c: "chunks_inv J xs img'" using f(1) by (subst chunks_inv_cong [OF same(1,3)])
  have b: "blocks_inv J xs img'" using f(2) by (subst blocks_inv_cong [OF same(1,2)])
  have q: "queues_inv xs img' ?ts"
    by (rule write_queues [OF inv t]) (simp_all only: same(4-10), use f(3) in \<open>simp add: same(1)\<close>)
  have wt: "writers ?ts = []" using w(5) by (simp add: readers_remove1)
  have d: "disk_inv J xs img' ?ts"
  proof (cases "aborted (bulkdata img)")
    case True
    then show ?thesis using same(5) by (simp add: disk_inv_def)
  next
    case False
    have old: "img_size img = output_offset J xs (Suc n)" "dst img = output_disk J xs n" "\<And>i. i < n \<Longrightarrow> write_complete J xs i"
      "\<And>i. i < length xs \<Longrightarrow> chunk_output J xs i \<noteq> None \<Longrightarrow> i < Suc n \<Longrightarrow>
        ib_offset (written_block J xs img i) = output_offset J xs i"
      using p(7) False w(4,5) by (simp_all add: disk_inv_def)
    have "dst (after_write J xs n img) = output_disk J xs (Suc n)"
      using old(2) old(4) [of n] w(1) by (cases "chunk_output J xs n") (auto simp: after_write_def)
    moreover have "ib_offset (written_block J xs img' i) = output_offset J xs i"
      if i: "i < length xs" "chunk_output J xs i \<noteq> None" "i < Suc n" for i
      using f(4) [OF i(1,2)] old(4) [OF i] written_block_cong [OF same(1,2)] by simp
    moreover have "write_complete J xs n"
      using complete old(2) old(4) [of n] w(1) by (auto simp: write_complete_def split: option.split)
    ultimately show ?thesis using old(1,3) w(4) same wt by (auto simp: disk_inv_def less_Suc_eq)
  qed
  have "run_inv J xs img' ?ts" using c b q d inv same by (simp add: run_inv_def)
  moreover have "work img' ?ts < work img ts"
  proof (rule work_advance [OF w(2)])
    show "bd_count (bulkdata img') = bd_count (bulkdata img)" using same(1) by (simp add: img1_def)
    show "st img' = (st img)(n := libsqfs_chunk_finished)" using f(3) unfolding same(1) .
    show "2 * queued img' + length ?ts < 2 * queued img + length ts + 3"
      using task_done [OF t] by (simp add: queued_def same(6-10))
  qed (use w(3) in simp)
  ultimately show ?thesis using img'_def by blast
qed

lemma write_leave:
  assumes inv: "run_inv J xs img ts" and t: "Writing n \<in> set ts"
  shows "chunk_write_leave n img = do {
     (ok, img) \<leftarrow> (if chunk_output J xs n = None then Some (True, img)
       else do {
         (ok, block, img) \<leftarrow> libsqfs_image_block_write_leave (written_block J xs img n) img;
         Some (ok, upd_written J xs n block img) });
     if \<not> ok then Some (False, img)
     else do {
       img \<leftarrow> libsqfs_chunk_mark_finished n img;
       Some (True, img) } }"
proof -
  note p = run_parts [OF inv] and w = write_task [OF inv t]
  have pl: "placed (st img n)" using w(3) by simp
  have c: "ck_vmt (chunk_at img n) = fst (xs ! n)" "flush_previous_block (chunk_at img n) \<longleftrightarrow> plan_flush (job_block_size J) xs n"
    using p(8) [OF w(1)] pl by (simp_all add: chunk_inv_def)
  show ?thesis
  proof (cases "is_piece xs n")
    case True
    show ?thesis
    proof (cases "plan_flush (job_block_size J) xs n")
      case fl: True
      obtain out where "chunk_output J xs n = Some out" using True fl by (simp add: chunk_output_def)
      then show ?thesis using True c fl flushed(1) [OF inv w(1) pl fl]
        by (simp add: chunk_write_leave_def libsqfs_fragment_piece_write_leave_def upd_written_def written_block_def Let_def)
    next
      case False
      then have "chunk_output J xs n = None" using True by (simp add: chunk_output_def)
      then show ?thesis using True False c by (simp add: chunk_write_leave_def libsqfs_fragment_piece_write_leave_def)
    qed
  next
    case False
    then obtain out where "chunk_output J xs n = Some out" by (simp add: chunk_output_def)
    then show ?thesis using False c
      by (cases "libsqfs_image_block_write_leave (ck_dst (chunk_at img n)) img")
        (auto simp: chunk_write_leave_def libsqfs_full_block_write_leave_def upd_written_def written_block_def Let_def)
  qed
qed

lemma upd_written_same:
  assumes "bd_chunks (bulkdata img') = bd_chunks (bulkdata img)" "fragment_blocks (bulkdata img') = fragment_blocks (bulkdata img)"
  shows "upd_written J xs n (written_block J xs img n) img' = img'"
proof -
  have "c\<lparr>ck_dst := ck_dst c\<rparr> = c" for c :: libsqfs_chunk by simp
  moreover have "b\<lparr>fb_dst := fb_dst b\<rparr> = b" for b :: libsqfs_fragment_block by simp
  ultimately show ?thesis using assms
    by (simp add: upd_written_def written_block_def upd_chunk_def upd_fragment_block_def)
qed

lemma leave_write:
  assumes inv: "run_inv J xs img ts" and t: "Writing n \<in> set ts"
  shows "\<exists>r img'. chunk_write_leave n img = Some (r, img') \<and> run_inv J xs img' (remove1 (Writing n) ts) \<and>
    work img' (remove1 (Writing n) ts) < work img ts \<and> (\<not> r \<longrightarrow> aborted (bulkdata img'))"
proof -
  note p = run_parts [OF inv] and w = write_task [OF inv t] and leave = write_leave [OF inv t]
  have count: "bd_count (bulkdata (after_write J xs n img)) = length xs" using p(3) by simp
  note mark = mark_finished [OF inv t after_write_st [OF w(2), of J xs] count]
  show ?thesis
  proof (cases "chunk_output J xs n")
    case None
    then have "after_write J xs n img = img" by (simp add: after_write_def)
    with mark None leave finish_run [OF inv t] show ?thesis by (intro exI [of _ True]) auto
  next
    case (Some o')
    then obtain b z where out: "chunk_output J xs n = Some (b, z)" by (cases o') simp
    note block = writable_block [OF inv w(1,3) out]
    obtain count d where put: "libsqfs_pwrite (dst img) b (ib_offset (written_block J xs img n)) = (count, d)" by fastforce
    show ?thesis
    proof (cases "count = int (length b)")
      case True
      then have "libsqfs_image_block_write_leave (written_block J xs img n) img =
          Some (True, (written_block J xs img n)\<lparr>ib_data := None\<rparr>, img\<lparr>dst := d\<rparr>)"
        using block put by (simp add: libsqfs_image_block_write_leave_def)
      moreover have "upd_written J xs n ((written_block J xs img n)\<lparr>ib_data := None\<rparr>) (img\<lparr>dst := d\<rparr>) = after_write J xs n img"
        using out put by (simp add: after_write_def)
      ultimately show ?thesis using leave out mark finish_run [OF inv t] put True by (intro exI [of _ True]) auto
    next
      case False
      define m where "m = ''Write to image file failed: '' @ (if count = -1 then ''short write'' else strerror)"
      let ?img = "img\<lparr>dst := d\<rparr>"
      have "libsqfs_image_block_write_leave (written_block J xs img n) img =
          Some (False, written_block J xs img n, libsqfs_image_flag_error ?img m True)"
        using False block put by (simp add: libsqfs_image_block_write_leave_def m_def Let_def)
      moreover have "upd_written J xs n (written_block J xs img n) (libsqfs_image_flag_error ?img m True) = libsqfs_image_flag_error ?img m True"
        by (rule upd_written_same)
          (simp_all add: libsqfs_image_flag_error_def libsqfs_image_cancel_pending_operations_def libsqfs_bulkdata_abort_def Let_def
            split: prod.split)
      moreover have "run_inv J xs (libsqfs_image_flag_error ?img m True) (remove1 (Writing n) ts)"
      proof (rule abort_inv [OF inv])
        show "chunks_inv J xs ?img" using p(4) by (subst chunks_inv_cong [of _ img]) simp_all
        show "blocks_inv J xs ?img" using p(5) by (subst blocks_inv_cong [of _ img]) simp_all
      qed (use p(2) in simp_all)
      moreover have "work (libsqfs_image_flag_error ?img m True) (remove1 (Writing n) ts) < work img ts"
        by (rule abort_work [OF _ _ t]) simp_all
      ultimately show ?thesis using leave out by auto
    qed
  qed
qed

end
