(* ===== verification/Bulkrun.thy ===== *)
theory Bulkrun
  imports Bulkread Bulkwrite
begin

text \<open>
  Runs of the bulk data: any number of threads that take chunks from the queues and finish what
  they took, in any order, while the client submits chunks and at last seals the queues.
\<close>

section \<open>The steps\<close>

text \<open>
  A state is the list of submissions so far, the image, and the tasks that threads have taken and
  not yet finished. A thread takes a chunk (the part of an operation under the lock) or finishes a
  task (the rest). The client submits chunks with data, fragments no larger than a block, and nothing
  after the closing piece; and it works on other parts of the image.
\<close>

type_synonym 'a run = "submission list \<times> 'a sqfs_bulk_scheme \<times> bulk_task list"

inductive bulk_step :: "libsqfs_compressor_instance \<Rightarrow> 'a run \<Rightarrow> 'a run \<Rightarrow> bool" for ci where
  enter: "process_single_enter img = Some (outcome, img') \<Longrightarrow> bulk_step ci (xs, img, ts) (xs, img', tasks_after outcome ts)"
| leave: "t \<in> set ts \<Longrightarrow> task_leave ci t img = Some (r, img') \<Longrightarrow> bulk_step ci (xs, img, ts) (xs, img', remove1 t ts)"
| submit: "\<forall>x \<in> set xs. fst x \<noteq> libsqfs_closing_piece_vmt \<Longrightarrow> 0 < piece_size d \<Longrightarrow>
    bulk_step ci (xs, img, ts) (xs @ [(libsqfs_full_block_vmt, d)], snd (libsqfs_bulkdata_sumbit d img), ts)"
| submit_fragment: "\<forall>x \<in> set xs. fst x \<noteq> libsqfs_closing_piece_vmt \<Longrightarrow> 0 < piece_size d \<Longrightarrow> piece_size d \<le> block_size (img_options img) \<Longrightarrow>
    bulk_step ci (xs, img, ts) (xs @ [(libsqfs_fragment_piece_vmt, d)], snd (libsqfs_bulkdata_submit_fragment d img), ts)"
| seal: "may_add_chunks (bulkdata img) \<Longrightarrow>
    bulk_step ci (xs, img, ts) (xs @ [(libsqfs_closing_piece_vmt, null_piece)], snd (libsqfs_bulkdata_seal img), ts)"
| client: "bulkdata img' = bulkdata img \<Longrightarrow> mem img' = mem img \<Longrightarrow> dst img' = dst img \<Longrightarrow>
    img_size img' = img_size img \<Longrightarrow> img_options img' = img_options img \<Longrightarrow> bulk_step ci (xs, img, ts) (xs, img', ts)"

inductive_cases bulk_stepE: "bulk_step ci (xs, img, ts) s"

section \<open>Taking and finishing\<close>

lemma enter_run:
  assumes inv: "run_inv J xs img ts"
  shows "\<exists>outcome img'. process_single_enter img = Some (outcome, img') \<and> run_inv J xs img' (tasks_after outcome ts) \<and>
    (outcome \<noteq> Inl False \<longrightarrow> work img' (tasks_after outcome ts) < work img ts) \<and>
    (outcome = Inl False \<longrightarrow> img' = img \<and> writeq (bulkdata img) = [] \<and> compressq (bulkdata img) = [] \<and>
       assignq (bulkdata img) = [] \<and> dedupq (bulkdata img) = [] \<and> readq (bulkdata img) = [])"
proof (cases "writeq (bulkdata img)")
  case (Cons n q)
  from enter_write [OF inv this] show ?thesis unfolding process_single_enter_def Cons Let_def by auto
next
  case w: Nil
  show ?thesis
  proof (cases "compressq (bulkdata img)")
    case (Cons n q)
    from enter_compress [OF inv this] show ?thesis unfolding process_single_enter_def Cons w Let_def by auto
  next
    case c: Nil
    show ?thesis
    proof (cases "assignq (bulkdata img)")
      case (Cons n q)
      from enter_assign [OF inv this] obtain img' where "chunk_assign n (upd_bulk (assignq_update (\<lambda>_. q)) img) = Some (True, img')"
        "run_inv J xs img' ts" "work img' ts < work img ts" by blast
      then show ?thesis unfolding process_single_enter_def Cons w c Let_def by (intro exI [of _ "Inl True"] exI [of _ img']) simp
    next
      case a: Nil
      show ?thesis
      proof (cases "dedupq (bulkdata img)")
        case (Cons n q)
        from enter_deduplicate [OF inv this] obtain img' where
          "chunk_deduplicate n (upd_bulk (dedupq_update (\<lambda>_. q)) img) = Some (True, img')"
          "run_inv J xs img' ts" "work img' ts < work img ts" by blast
        then show ?thesis unfolding process_single_enter_def Cons w c a Let_def
          by (intro exI [of _ "Inl True"] exI [of _ img']) simp
      next
        case d: Nil
        show ?thesis
        proof (cases "readq (bulkdata img)")
          case (Cons n q)
          from enter_read [OF inv this] show ?thesis unfolding process_single_enter_def Cons w c a d Let_def by auto
        qed (use inv w c a d in \<open>simp add: process_single_enter_def\<close>)
      qed
    qed
  qed
qed

lemma leave_run:
  assumes inv: "run_inv J xs img ts" and t: "t \<in> set ts"
  shows "\<exists>r img'. task_leave (job_ci J) t img = Some (r, img') \<and> run_inv J xs img' (remove1 t ts) \<and>
    work img' (remove1 t ts) < work img ts \<and> (\<not> r \<longrightarrow> aborted (bulkdata img'))"
proof (cases t)
  case (Reading n)
  then show ?thesis using leave_read [OF inv] t by simp
next
  case (Compressing n)
  with leave_compress [OF inv] t show ?thesis by fastforce
next
  case (Writing n)
  then show ?thesis using leave_write [OF inv] t by simp
qed

section \<open>Submitting\<close>

lemma block_inv_append: "i < length xs \<Longrightarrow> block_inv J (xs @ ys) i s b = block_inv J xs i s b"
  by (simp add: block_inv_def chunk_output_append)

lemma chunk_inv_append:
  assumes "chunk_inv J xs used i c" "i < length xs"
    and c': "c' = c \<or> c' = c\<lparr>next_piece := next_piece c'\<rparr>"
    and nxt: "\<And>k. next_piece c' = Some k \<longleftrightarrow> k < length (xs @ ys) \<and> piece_before (xs @ ys) k = Some i"
  shows "chunk_inv J (xs @ ys) used i c'"
proof -
  have "ck_vmt c' = ck_vmt c" "ck_data c' = ck_data c" "ck_state c' = ck_state c" "prev_piece c' = prev_piece c"
    "flush_previous_block c' = flush_previous_block c" "ck_fragment_block c' = ck_fragment_block c" "ck_offset c' = ck_offset c"
    "cached_data c' = cached_data c" "ck_dst c' = ck_dst c"
    using c' by (elim disjE, simp, metis libsqfs_chunk.select_convs libsqfs_chunk.surjective libsqfs_chunk.update_convs(7))+
  moreover have "(xs @ ys) ! i = xs ! i" using assms(2) by (simp add: nth_append)
  moreover have "Suc i \<le> length xs" using assms(2) by simp
  ultimately show ?thesis using assms(1,2) nxt
    by (simp add: chunk_inv_def piece_before_append plan_flush_append plan_upto_append plan_offset_append block_inv_append
        del: plan_upto.simps)
qed

lemma enqueue_run:
  fixes img img' :: "'a sqfs_bulk_scheme"
  assumes inv: "run_inv J xs img ts" and still: "\<forall>x \<in> set xs. fst x \<noteq> libsqfs_closing_piece_vmt"
    and size: "v \<noteq> libsqfs_closing_piece_vmt \<Longrightarrow> 0 < piece_size d"
      "v = libsqfs_fragment_piece_vmt \<Longrightarrow> piece_size d \<le> job_block_size J"
    and p: "p = (if v = libsqfs_full_block_vmt then None else last_opt (fragment_pieces (bulkdata img)))"
    and chunks: "bd_chunks (bulkdata img') = (case p of None \<Rightarrow> bd_chunks (bulkdata img)
      | Some q \<Rightarrow> (bd_chunks (bulkdata img))[q := (chunk_at img q)\<lparr>next_piece := Some (length xs)\<rparr>]) @
      [(libsqfs_chunk_init v d)\<lparr>prev_piece := p\<rparr>]"
    and pieces: "fragment_pieces (bulkdata img') = fragment_pieces (bulkdata img) @ (if v = libsqfs_full_block_vmt then [] else [length xs])"
    and same: "fragment_blocks (bulkdata img') = fragment_blocks (bulkdata img)"
      "bd_finished (bulkdata img') = bd_finished (bulkdata img)" "aborted (bulkdata img') = aborted (bulkdata img)"
      "readq (bulkdata img') = readq (bulkdata img) @ [length xs]" "dedupq (bulkdata img') = dedupq (bulkdata img)"
      "assignq (bulkdata img') = assignq (bulkdata img)" "compressq (bulkdata img') = compressq (bulkdata img)"
      "writeq (bulkdata img') = writeq (bulkdata img)"
      "compress_blocks (bulkdata img') = compress_blocks (bulkdata img)"
      "compress_fragments (bulkdata img') = compress_fragments (bulkdata img)"
      "mem img' = mem img" "dst img' = dst img" "img_size img' = img_size img" "img_options img' = img_options img"
    and may: "may_add_chunks (bulkdata img') \<Longrightarrow> v \<noteq> libsqfs_closing_piece_vmt"
  shows "run_inv J (xs @ [(v, d)]) img' ts"
proof -
  note r = run_parts [OF inv]
  let ?bs = "job_block_size J" and ?N = "length xs" and ?ys = "xs @ [(v, d)]"
  have not_closing: "fst (xs ! i) \<noteq> libsqfs_closing_piece_vmt" if "i < ?N" for i using still nth_mem [OF that] by blast
  have sub: "submissions_ok ?bs ?ys"
    using r(1) not_closing size unfolding submissions_ok_def by (auto simp: nth_append less_Suc_eq)
  have fp: "fragment_pieces (bulkdata img) = pieces_below xs ?N" using r(4) by (simp add: chunks_inv_def)
  have pN: "piece_before ?ys ?N = p" using p fp by (simp add: piece_before_def pieces_below_append)
  have p_lt: "q < ?N" if "p = Some q" for q using pN that by (simp add: piece_before_Some)
  have pb: "piece_before ?ys i = piece_before xs i" if "i < ?N" for i by (rule piece_before_append [OF that])
  have at: "chunk_at img' i = (if p = Some i then (chunk_at img i)\<lparr>next_piece := Some ?N\<rparr> else chunk_at img i)" if "i < ?N" for i
    using chunks that r(3) p_lt by (auto simp: nth_append split: option.splits)
  have new: "chunk_at img' ?N = (libsqfs_chunk_init v d)\<lparr>prev_piece := p\<rparr>" and count: "bd_count (bulkdata img') = Suc ?N"
    using chunks r(3) by (auto simp: nth_append split: option.splits)
  have st_old: "st img' i = st img i" if "i < ?N" for i using at [OF that] by simp
  have st_new: "st img' ?N = libsqfs_chunk_none" using new by (simp add: libsqfs_chunk_init_def)
  have cons: "consumed ?bs ?ys img' i \<longleftrightarrow> consumed ?bs xs img i" for i
    unfolding consumed_def
    by (auto simp: less_Suc_eq st_old st_new nth_append plan_flush_append plan_upto_append)
  have c: "chunks_inv J ?ys img'"
  proof -
    have "chunk_inv J ?ys (consumed ?bs xs img i) i (chunk_at img' i)" if i: "i < ?N" for i
    proof (rule chunk_inv_append [OF r(8) [OF i] i])
      show "chunk_at img' i = chunk_at img i \<or> chunk_at img' i = (chunk_at img i)\<lparr>next_piece := next_piece (chunk_at img' i)\<rparr>"
        using at [OF i] by auto
      have old: "next_piece (chunk_at img i) = Some k \<longleftrightarrow> k < ?N \<and> piece_before xs k = Some i" for k
        using r(8) [OF i] by (simp add: chunk_inv_def)
      show "next_piece (chunk_at img' i) = Some k \<longleftrightarrow> k < length ?ys \<and> piece_before ?ys k = Some i" for k
      proof (cases "p = Some i")
        case True
        then have "piece_before ?ys k = Some i \<longleftrightarrow> k = ?N" using pN piece_before_inj by metis
        then show ?thesis using True at [OF i] by auto
      next
        case False
        then show ?thesis using old [of k] at [OF i] pb [of k] pN by (auto simp: less_Suc_eq)
      qed
    qed
    moreover have "chunk_inv J ?ys (consumed ?bs xs img ?N) ?N (chunk_at img' ?N)"
    proof -
      have "piece_before ?ys k \<noteq> Some ?N" if "k < Suc ?N" for k using that by (auto simp: piece_before_Some)
      then show ?thesis unfolding new
        by (simp add: chunk_inv_def libsqfs_chunk_init_def pN block_inv_def split: option.splits)
    qed
    moreover have "fragment_pieces (bulkdata img') = pieces_below ?ys (length ?ys)"
      using pieces fp by (simp add: pieces_below_Suc pieces_below_append)
    ultimately show ?thesis using count by (simp add: chunks_inv_def cons less_Suc_eq)
  qed
  obtain a where a: "a \<le> ?N" "\<And>i. i < ?N \<Longrightarrow> is_piece xs i \<Longrightarrow> placed (st img i) \<longleftrightarrow> i < a"
      "map (\<lambda>b. (fb_pieces b, fb_size b)) (fragment_blocks (bulkdata img)) = plan_upto ?bs xs a"
    using r(5) by (auto simp: blocks_inv_def)
  have flushers: "plan_flush ?bs ?ys i \<longleftrightarrow> plan_flush ?bs xs i" "plan_upto ?bs ?ys i = plan_upto ?bs xs i" "is_piece ?ys i = is_piece xs i"
    if "i < ?N" for i using that by (simp_all add: plan_flush_append plan_upto_append nth_append)
  have b: "blocks_inv J ?ys img'"
  proof -
    have blk: "block_inv J ?ys i (st img' i) (fb_dst (fragment_blocks (bulkdata img) ! (length (plan_upto ?bs ?ys i) - 1)))"
      if i: "i < Suc ?N" "is_piece ?ys i" "plan_flush ?bs ?ys i" "length (plan_upto ?bs ?ys i) \<le> length (fragment_blocks (bulkdata img))" for i
    proof (cases "i < ?N")
      case True
      have "block_inv J xs i (st img i) (fb_dst (fragment_blocks (bulkdata img) ! (length (plan_upto ?bs xs i) - 1)))"
        using r(5) i True by (auto simp: blocks_inv_def flushers)
      then show ?thesis using True by (simp add: flushers st_old block_inv_append)
    next
      case False
      then have iN: "i = ?N" using i(1) by simp
      let ?j = "length (plan_upto ?bs xs ?N) - 1"
      have e: "plan_upto ?bs xs ?N \<noteq> []" "length (plan_upto ?bs xs ?N) \<le> length (fragment_blocks (bulkdata img))"
        using plan_flush_nonempty [OF i(3)] i(4) by (simp_all add: iN plan_upto_append)
      have "length (plan_upto ?bs xs m) - 1 \<noteq> ?j" if m: "m < ?N" "plan_flush ?bs xs m" for m
      proof -
        have "fst (xs ! m) = libsqfs_fragment_piece_vmt"
          using plan_flush_full [OF m(2)] not_closing [OF m(1)] by (cases "fst (xs ! m)") simp_all
        from plan_flush_fragment [OF m(2) this] length_plan_mono [of "Suc m" ?N ?bs xs] m(1)
        have "length (plan_upto ?bs xs m) < length (plan_upto ?bs xs ?N)" by simp
        then show ?thesis using plan_flush_nonempty [OF m(2)] by (cases "plan_upto ?bs xs m") auto
      qed
      moreover have "?j < length (fragment_blocks (bulkdata img))" using e by (cases "plan_upto ?bs xs ?N") auto
      ultimately have "fb_dst (fragment_blocks (bulkdata img) ! ?j) = libsqfs_image_block_init"
        using r(5) by (simp add: blocks_inv_def)
      then show ?thesis by (simp add: iN st_new plan_upto_append block_inv_def split: option.split)
    qed
    have un: "fb_dst (fragment_blocks (bulkdata img) ! j) = libsqfs_image_block_init"
      if "j < length (fragment_blocks (bulkdata img))" "\<forall>i < Suc ?N. plan_flush ?bs ?ys i \<longrightarrow> length (plan_upto ?bs ?ys i) - 1 \<noteq> j" for j
    proof -
      have "\<forall>i < ?N. plan_flush ?bs xs i \<longrightarrow> length (plan_upto ?bs xs i) - 1 \<noteq> j" using that(2) flushers less_SucI by metis
      then show ?thesis using r(5) that(1) by (simp add: blocks_inv_def)
    qed
    have pl: "placed (st img' i) \<longleftrightarrow> i < a" if "i < Suc ?N" "is_piece ?ys i" for i
      using a(1,2) st_old st_new that by (cases "i < ?N") (auto simp: flushers less_Suc_eq)
    have "plan_upto ?bs ?ys a = plan_upto ?bs xs a" using a(1) by (rule plan_upto_append)
    then show ?thesis using a(1,3) pl blk un unfolding blocks_inv_def same(1)
      by (intro conjI exI [of _ a]) auto
  qed
  have fin: "bd_finished (bulkdata img) \<le> ?N" by (rule pipe_parts(1) [OF r(9)])
  have in_range: "n < ?N" if "n \<in> set (readq (bulkdata img) @ readers ts)" for n using pipe_in(1) [OF r(9) that] by blast
  have q: "queues_inv ?ys img' ts"
  proof -
    have "pipe_ok (Suc ?N) ((st img)(?N := libsqfs_chunk_none)) ((piece_before xs)(?N := p)) (bd_finished (bulkdata img)) (aborted (bulkdata img))
       (insert ?N (set (readq (bulkdata img) @ readers ts))) (set (dedupq (bulkdata img))) (set (assignq (bulkdata img)))
       (set (compressq (bulkdata img) @ compressors ts)) (set (writeq (bulkdata img) @ writers ts))"
      by (rule pipe_enqueue [OF r(9)]) (rule p_lt)
    then have "pipe_ok (Suc ?N) (st img') (piece_before ?ys) (bd_finished (bulkdata img)) (aborted (bulkdata img))
       (insert ?N (set (readq (bulkdata img) @ readers ts))) (set (dedupq (bulkdata img))) (set (assignq (bulkdata img)))
       (set (compressq (bulkdata img) @ compressors ts)) (set (writeq (bulkdata img) @ writers ts))"
      by (rule pipe_cong [rotated 2]) (auto simp: less_Suc_eq st_old st_new pb pN)
    moreover have "?N \<notin> set (readq (bulkdata img) @ readers ts)" using in_range by blast
    moreover have "\<forall>n \<in> set (readers ts). fst (?ys ! n) \<noteq> libsqfs_closing_piece_vmt"
      using r(6) in_range by (auto simp: queues_inv_def nth_append)
    ultimately show ?thesis using r(6) same by (simp add: queues_inv_def)
  qed
  have w: "bd_finished (bulkdata img) + length (writers ts) \<le> ?N"
  proof (cases "writers ts")
    case Nil
    with fin show ?thesis by simp
  next
    case (Cons n ns)
    then have "n < ?N" using pipe_in(5) [OF r(9), of n] by simp
    with Cons writers_one [OF inv] show ?thesis by auto
  qed
  have d: "disk_inv J ?ys img' ts"
  proof -
    have "written_block J ?ys img' i = written_block J xs img i" if "i < ?N" for i
      using at [OF that] flushers [OF that] by (simp add: written_block_def same(1))
    then show ?thesis using r(7) same(2,3,12,13) w fin
      by (auto simp: disk_inv_def output_offset_append output_disk_append write_complete_append chunk_output_append less_Suc_eq)
  qed
  have may': "may_add_chunks (bulkdata img') \<Longrightarrow> \<forall>i < length ?ys. fst (?ys ! i) \<noteq> libsqfs_closing_piece_vmt"
    using may not_closing by (auto simp: nth_append less_Suc_eq)
  show ?thesis using inv sub c b q d may' same by (simp add: run_inv_def)
qed

lemma submit_block_run:
  assumes "run_inv J xs img ts" "\<forall>x \<in> set xs. fst x \<noteq> libsqfs_closing_piece_vmt" "0 < piece_size d"
  shows "run_inv J (xs @ [(libsqfs_full_block_vmt, d)]) (snd (libsqfs_bulkdata_sumbit d img)) ts"
  by (rule enqueue_run [OF assms(1,2), where p = None])
    (use assms(3) run_parts(2,3) [OF assms(1)] in \<open>simp_all add: libsqfs_bulkdata_sumbit_def libsqfs_bulkdata_enqueue_chunk_locked_def
      libsqfs_chunk_init_def mem_same\<close>)

text \<open>The chunks after a piece has been entered.\<close>

lemma enqueue_piece:
  assumes "last_opt (fragment_pieces bd) = p" "\<And>q. p = Some q \<Longrightarrow> q < bd_count bd" "next_piece piece = None"
  shows "bd_chunks (libsqfs_bulkdata_enqueue_piece_locked bd piece) = (case p of None \<Rightarrow> bd_chunks bd
      | Some q \<Rightarrow> (bd_chunks bd)[q := (bd_chunks bd ! q)\<lparr>next_piece := Some (bd_count bd)\<rparr>]) @ [piece\<lparr>prev_piece := p\<rparr>]"
    "fragment_pieces (libsqfs_bulkdata_enqueue_piece_locked bd piece) = fragment_pieces bd @ [bd_count bd]"
proof -
  have "piece\<lparr>prev_piece := p, next_piece := None\<rparr> = piece\<lparr>prev_piece := p\<rparr>" using assms(3) by (cases piece) simp
  then show "bd_chunks (libsqfs_bulkdata_enqueue_piece_locked bd piece) = (case p of None \<Rightarrow> bd_chunks bd
      | Some q \<Rightarrow> (bd_chunks bd)[q := (bd_chunks bd ! q)\<lparr>next_piece := Some (bd_count bd)\<rparr>]) @ [piece\<lparr>prev_piece := p\<rparr>]"
    using assms(1,2) by (cases p) (simp_all add: libsqfs_bulkdata_enqueue_piece_locked_def libsqfs_bulkdata_enqueue_chunk_locked_def
      nth_append list_update_append Let_def)
  show "fragment_pieces (libsqfs_bulkdata_enqueue_piece_locked bd piece) = fragment_pieces bd @ [bd_count bd]"
    by (cases "last_opt (fragment_pieces bd)")
      (simp_all add: libsqfs_bulkdata_enqueue_piece_locked_def libsqfs_bulkdata_enqueue_chunk_locked_def Let_def)
qed

lemma enqueue_piece_rest [simp]:
  "fragment_blocks (libsqfs_bulkdata_enqueue_piece_locked bd piece) = fragment_blocks bd"
  "bd_finished (libsqfs_bulkdata_enqueue_piece_locked bd piece) = bd_finished bd"
  "aborted (libsqfs_bulkdata_enqueue_piece_locked bd piece) = aborted bd"
  "readq (libsqfs_bulkdata_enqueue_piece_locked bd piece) = readq bd @ [bd_count bd]"
  "dedupq (libsqfs_bulkdata_enqueue_piece_locked bd piece) = dedupq bd"
  "assignq (libsqfs_bulkdata_enqueue_piece_locked bd piece) = assignq bd"
  "compressq (libsqfs_bulkdata_enqueue_piece_locked bd piece) = compressq bd"
  "writeq (libsqfs_bulkdata_enqueue_piece_locked bd piece) = writeq bd"
  "compress_blocks (libsqfs_bulkdata_enqueue_piece_locked bd piece) = compress_blocks bd"
  "compress_fragments (libsqfs_bulkdata_enqueue_piece_locked bd piece) = compress_fragments bd"
  "may_add_chunks (libsqfs_bulkdata_enqueue_piece_locked bd piece) = may_add_chunks bd"
  by (cases "last_opt (fragment_pieces bd)";
      simp add: libsqfs_bulkdata_enqueue_piece_locked_def libsqfs_bulkdata_enqueue_chunk_locked_def Let_def)+

lemma last_piece:
  assumes "run_inv J xs img ts" "last_opt (fragment_pieces (bulkdata img)) = Some q"
  shows "q < bd_count (bulkdata img)"
  using assms run_parts(3,4) [OF assms(1)] by (simp add: chunks_inv_def last_pieces_below)

lemma submit_piece_run:
  assumes "run_inv J xs img ts" "\<forall>x \<in> set xs. fst x \<noteq> libsqfs_closing_piece_vmt" "0 < piece_size d" "piece_size d \<le> block_size (img_options img)"
  shows "run_inv J (xs @ [(libsqfs_fragment_piece_vmt, d)]) (snd (libsqfs_bulkdata_submit_fragment d img)) ts"
proof -
  let ?c = "libsqfs_chunk_init libsqfs_fragment_piece_vmt d"
  have "next_piece ?c = None" by (simp add: libsqfs_chunk_init_def)
  note e = enqueue_piece [OF refl last_piece [OF assms(1)] this]
  have img: "snd (libsqfs_bulkdata_submit_fragment d img) = upd_bulk (\<lambda>bd. libsqfs_bulkdata_enqueue_piece_locked bd ?c) img"
    using run_parts(2) [OF assms(1)] by (simp add: libsqfs_bulkdata_submit_fragment_def mem_same)
  have "block_size (img_options img) = job_block_size J" using assms(1) by (simp add: run_inv_def)
  then show ?thesis unfolding img
    by (intro enqueue_run [OF assms(1,2) _ _ refl]) (use assms(3,4) run_parts(2,3) [OF assms(1)] e in \<open>simp_all cong: option.case_cong\<close>)
qed

lemma seal_run:
  assumes inv: "run_inv J xs img ts" and may: "may_add_chunks (bulkdata img)"
  shows "run_inv J (xs @ [(libsqfs_closing_piece_vmt, null_piece)]) (snd (libsqfs_bulkdata_seal img)) ts"
proof -
  let ?c = "libsqfs_chunk_init libsqfs_closing_piece_vmt null_piece"
  have "next_piece ?c = None" by (simp add: libsqfs_chunk_init_def)
  note e = enqueue_piece [OF refl last_piece [OF inv] this]
  have img: "snd (libsqfs_bulkdata_seal img) = upd_bulk (\<lambda>bd. (libsqfs_bulkdata_enqueue_piece_locked bd ?c)\<lparr>may_add_chunks := False\<rparr>) img"
    using run_parts(2) [OF inv] may by (simp add: libsqfs_bulkdata_seal_def mem_same)
  have "\<forall>i < length xs. fst (xs ! i) \<noteq> libsqfs_closing_piece_vmt" using inv may by (simp add: run_inv_def)
  then have still: "\<forall>x \<in> set xs. fst x \<noteq> libsqfs_closing_piece_vmt" by (metis in_set_conv_nth)
  show ?thesis unfolding img
    by (intro enqueue_run [OF inv still _ _ refl]) (use run_parts(2,3) [OF inv] e in \<open>simp_all cong: option.case_cong\<close>)
qed

section \<open>Runs\<close>

text \<open>The circumstances of a run that begins with an image.\<close>

definition job_of :: "libsqfs_compressor_instance \<Rightarrow> 'a sqfs_bulk_scheme \<Rightarrow> bulk_job" where
  "job_of ci img = \<lparr>job_ci = ci, job_compress_blocks = compress_blocks (bulkdata img),
     job_compress_fragments = compress_fragments (bulkdata img), job_block_size = block_size (img_options img),
     job_base = img_size img, job_dst = dst img\<rparr>"

definition fresh_run :: "libsqfs_compressor_instance \<Rightarrow> 'a sqfs_bulk_scheme \<Rightarrow> bool" where
  "fresh_run ci img \<longleftrightarrow> (\<exists>cb cf. bulkdata img = libsqfs_bulkdata_init cb cf) \<and> mem img = [] \<and> vmt_compress ci \<noteq> None"

lemma fresh_run_inv: "fresh_run ci img \<Longrightarrow> run_inv (job_of ci img) [] img []"
  by (auto simp: fresh_run_def run_inv_def job_of_def submissions_ok_def chunks_inv_def blocks_inv_def queues_inv_def disk_inv_def
      libsqfs_bulkdata_init_def pieces_below_def pipe_empty)

lemma run_inv_cong:
  assumes "run_inv J xs img ts" "bulkdata img' = bulkdata img" "mem img' = mem img" "dst img' = dst img"
    "img_size img' = img_size img" "img_options img' = img_options img"
  shows "run_inv J xs img' ts"
proof -
  have "chunks_inv J xs img' = chunks_inv J xs img" "blocks_inv J xs img' = blocks_inv J xs img"
    by (simp_all add: chunks_inv_cong [of img' img] blocks_inv_cong [of img' img] assms(2))
  moreover have "queues_inv xs img' ts = queues_inv xs img ts" by (simp add: queues_inv_def assms(2))
  moreover have "disk_inv J xs img' ts = disk_inv J xs img ts"
    by (simp add: disk_inv_def written_block_def assms(2,4,5))
  ultimately show ?thesis using assms(1) unfolding run_inv_def assms(2,3,6) by simp
qed

lemma bulk_step_inv:
  assumes "bulk_step (job_ci J) (xs, img, ts) (xs', img', ts')" "run_inv J xs img ts"
  shows "run_inv J xs' img' ts'"
  using assms(1)
proof cases
  case (enter outcome)
  obtain o' i where e: "process_single_enter img = Some (o', i)" "run_inv J xs i (tasks_after o' ts)"
    using enter_run [OF assms(2)] by blast
  have "o' = outcome" "i = img'" using e(1) enter(3) by simp_all
  with e(2) show ?thesis unfolding enter(1,2) by blast
next
  case (leave t r)
  obtain r' i where e: "task_leave (job_ci J) t img = Some (r', i)" "run_inv J xs i (remove1 t ts)"
    using leave_run [OF assms(2) leave(3)] by blast
  have "i = img'" using e(1) leave(4) by simp
  with e(2) show ?thesis unfolding leave(1,2) by blast
next
  case (submit d)
  show ?thesis unfolding submit(1-3) by (rule submit_block_run [OF assms(2) submit(4,5)])
next
  case (submit_fragment d)
  show ?thesis unfolding submit_fragment(1-3) by (rule submit_piece_run [OF assms(2) submit_fragment(4-6)])
next
  case seal
  show ?thesis unfolding seal(1-3) by (rule seal_run [OF assms(2) seal(4)])
next
  case client
  show ?thesis unfolding client(1,2) by (rule run_inv_cong [OF assms(2) client(3-7)])
qed

lemma bulk_steps_inv:
  assumes "(bulk_step (job_ci J))\<^sup>*\<^sup>* (xs, img, ts) (xs', img', ts')" "run_inv J xs img ts"
  shows "run_inv J xs' img' ts'"
  using assms
proof (induction "(xs', img', ts')" arbitrary: xs' img' ts' rule: rtranclp_induct)
  case (step s)
  obtain xs1 img1 ts1 where "s = (xs1, img1, ts1)" by (cases s)
  show ?case by (rule bulk_step_inv [OF step(2) [unfolded \<open>s = _\<close>] step(3) [OF \<open>s = _\<close> step(4)]])
qed simp

section \<open>A thread on its own\<close>

lemma nothing_left:
  assumes inv: "run_inv J xs img []" and "\<not> aborted (bulkdata img)"
    and "writeq (bulkdata img) = []" "compressq (bulkdata img) = []" "assignq (bulkdata img) = []" "dedupq (bulkdata img) = []"
      "readq (bulkdata img) = []"
  shows "bd_finished (bulkdata img) = bd_count (bulkdata img)"
proof (rule ccontr)
  assume "bd_finished (bulkdata img) \<noteq> bd_count (bulkdata img)"
  moreover note r = run_parts [OF inv]
  ultimately have "bd_finished (bulkdata img) < length xs" using pipe_parts(1) [OF r(9)] by simp
  moreover have "pipe_ok (length xs) (st img) (piece_before xs) (bd_finished (bulkdata img)) False {} {} {} {} {}"
    using r(9) assms(2-) by simp
  ultimately show False using pipe_progress by blast
qed

lemma process_single_run:
  assumes inv: "run_inv J xs img []"
  shows "\<exists>more img'. libsqfs_bulkdata_process_single_locked (job_ci J) img = Some (more, img') \<and> run_inv J xs img' [] \<and>
    (more \<longrightarrow> work img' [] < work img []) \<and>
    (\<not> more \<longrightarrow> aborted (bulkdata img') \<or> bd_finished (bulkdata img') = bd_count (bulkdata img'))"
proof -
  obtain outcome img1 where e: "process_single_enter img = Some (outcome, img1)" "run_inv J xs img1 (tasks_after outcome [])"
    "outcome \<noteq> Inl False \<Longrightarrow> work img1 (tasks_after outcome []) < work img []"
    "outcome = Inl False \<Longrightarrow> img1 = img \<and> writeq (bulkdata img) = [] \<and> compressq (bulkdata img) = [] \<and>
       assignq (bulkdata img) = [] \<and> dedupq (bulkdata img) = [] \<and> readq (bulkdata img) = []"
    using enter_run [OF inv] by blast
  show ?thesis
  proof (cases outcome)
    case (Inl more)
    show ?thesis
    proof (cases more)
      case True
      then show ?thesis using e Inl by (intro exI [of _ True]) (simp add: libsqfs_bulkdata_process_single_locked_def)
    next
      case False
      then have "img1 = img" "aborted (bulkdata img) \<or> bd_finished (bulkdata img) = bd_count (bulkdata img)"
        using e(4) Inl nothing_left [OF inv] by auto
      then show ?thesis using e(1) Inl False inv by (intro exI [of _ False]) (simp add: libsqfs_bulkdata_process_single_locked_def)
    qed
  next
    case (Inr t)
    then have "run_inv J xs img1 [t]" "work img1 [t] < work img []" using e(2,3) by simp_all
    moreover from leave_run [OF this(1), of t] obtain r img2 where "task_leave (job_ci J) t img1 = Some (r, img2)"
      "run_inv J xs img2 []" "work img2 [] < work img1 [t]" "\<not> r \<longrightarrow> aborted (bulkdata img2)" by auto
    ultimately show ?thesis using e(1) Inr by (auto simp: libsqfs_bulkdata_process_single_locked_def)
  qed
qed

lemma process_run:
  assumes "run_inv J xs img []" "\<exists>x \<in> set xs. fst x = libsqfs_closing_piece_vmt"
  shows "\<exists>img'. libsqfs_bulkdata_process (job_ci J) img = Some img' \<and> run_inv J xs img' [] \<and>
    (aborted (bulkdata img') \<or> bd_finished (bulkdata img') = bd_count (bulkdata img'))"
  using assms(1)
proof (induction "work img []" arbitrary: img rule: less_induct)
  case less
  obtain more img' where s: "libsqfs_bulkdata_process_single_locked (job_ci J) img = Some (more, img')" "run_inv J xs img' []"
    "more \<Longrightarrow> work img' [] < work img []" "\<not> more \<Longrightarrow> aborted (bulkdata img') \<or> bd_finished (bulkdata img') = bd_count (bulkdata img')"
    using process_single_run [OF less.prems] by blast
  show ?case
  proof (cases more)
    case True
    then show ?thesis using less.hyps [OF s(3) s(2)] s(1) by (subst libsqfs_bulkdata_process.simps) simp
  next
    case False
    have "\<not> may_add_chunks (bulkdata img')" using s(2) assms(2) unfolding run_inv_def by (metis in_set_conv_nth)
    then show ?thesis using False s by (subst libsqfs_bulkdata_process.simps) auto
  qed
qed

end
