(* ===== verification/Bulkresult.thy ===== *)
theory Bulkresult
  imports Bulkrun Inodes
begin

text \<open>
  What runs of the bulk data come to: no interleaving of threads fails an assertion, every run comes
  to its end, the end is the same whatever the interleaving was, and the chunks can be read back from
  the output.
\<close>

section \<open>Where a piece is in the plan\<close>

lemma last_at: "length p = Suc j \<Longrightarrow> last p = p ! j"
  by (cases p rule: rev_cases) auto

text \<open>A placed piece stays where it is, at its offset in its block, while blocks and pieces are added behind it.\<close>

lemma plan_step_keeps:
  assumes "j < length p" "fst (p ! j) = us @ i # vs"
  shows "\<exists>vs'. fst (plan_step bs a x p ! j) = us @ i # vs'"
proof -
  obtain v d where x: "x = (v, d)" by (cases x)
  show ?thesis
  proof (cases "v = libsqfs_fragment_piece_vmt \<and> \<not> (p = [] \<or> snd (last p) + piece_size d > bs) \<and> j = length p - 1")
    case True
    then show ?thesis using assms by (auto simp: x nth_append last_conv_nth)
  next
    case False
    then have "plan_step bs a x p ! j = p ! j" using assms(1) unfolding x
      by (cases v) (auto simp: nth_append nth_butlast)
    then show ?thesis using assms(2) by simp
  qed
qed

lemma plan_position:
  fixes bs :: nat
  assumes "i < a" "fst (xs ! i) = libsqfs_fragment_piece_vmt"
  defines "j \<equiv> length (plan_upto bs xs (Suc i)) - 1"
  shows "j < length (plan_upto bs xs a) \<and> (\<exists>us vs. fst (plan_upto bs xs a ! j) = us @ i # vs \<and>
    (\<Sum>k\<leftarrow>us. piece_size (snd (xs ! k))) = plan_offset bs xs i)"
  using assms(1)
proof (induction a)
  case (Suc a)
  show ?case
  proof (cases "i = a")
    case True
    obtain d where d: "xs ! i = (libsqfs_fragment_piece_vmt, d)" using assms(2) by (cases "xs ! i") auto
    let ?p = "plan_upto bs xs i"
    show ?thesis
    proof (cases "?p = [] \<or> snd (last ?p) + piece_size d > bs")
      case new: True
      then show ?thesis unfolding True [symmetric] j_def using d
        by (auto simp: plan_offset_def plan_flush.simps nth_append intro!: exI [of _ "[]"])
    next
      case False
      then have "last ?p \<in> set ?p" by simp
      note s = plan_sizes [OF this]
      show ?thesis unfolding True [symmetric] j_def using d False s
        by (auto simp: plan_offset_def plan_flush.simps nth_append)
    qed
  next
    case False
    then obtain us vs where IH: "j < length (plan_upto bs xs a)" "fst (plan_upto bs xs a ! j) = us @ i # vs"
      "(\<Sum>k\<leftarrow>us. piece_size (snd (xs ! k))) = plan_offset bs xs i" using Suc by auto
    from plan_step_keeps [OF IH(1,2)] IH(1,3) length_plan_step [of "plan_upto bs xs a" bs a "xs ! a"]
    show ?thesis by fastforce
  qed
qed simp

text \<open>Every block but the last has been flushed.\<close>

lemma plan_flusher:
  "Suc j < length (plan_upto bs xs a) \<Longrightarrow> \<exists>i < a. plan_flush bs xs i \<and> length (plan_upto bs xs i) = Suc j \<and>
     last (plan_upto bs xs i) = plan_upto bs xs a ! j"
proof (induction a)
  case (Suc a)
  let ?p = "plan_upto bs xs a"
  obtain v d where x: "xs ! a = (v, d)" by (cases "xs ! a")
  show ?case
  proof (cases "Suc j < length ?p")
    case True
    from Suc.IH [OF this] obtain i where "i < a" "plan_flush bs xs i" "length (plan_upto bs xs i) = Suc j"
      "last (plan_upto bs xs i) = ?p ! j" by blast
    moreover have "plan_upto bs xs (Suc a) ! j = ?p ! j" using True unfolding plan_upto.simps x
      by (cases v) (auto simp: nth_append nth_butlast)
    ultimately show ?thesis by (intro exI [of _ i]) auto
  next
    case False
    then have new: "v = libsqfs_fragment_piece_vmt" "snd (last ?p) + piece_size d > bs" "length ?p = Suc j"
      using Suc.prems unfolding plan_upto.simps x by (cases v; auto split: if_splits)+
    then have "plan_flush bs xs a" using x by (auto simp: plan_flush.simps)
    moreover have "last ?p = plan_upto bs xs (Suc a) ! j" using new x by (auto simp: nth_append last_at)
    ultimately show ?thesis using new(3) by (intro exI [of _ a]) simp
  qed
qed simp

lemma sealed_flusher:
  assumes "xs = ys @ [(libsqfs_closing_piece_vmt, d)]" "j < length (plan_upto bs xs (length xs))"
  shows "\<exists>i < length xs. plan_flush bs xs i \<and> length (plan_upto bs xs i) = Suc j \<and>
     last (plan_upto bs xs i) = plan_upto bs xs (length xs) ! j"
proof (cases "Suc j < length (plan_upto bs xs (length xs))")
  case False
  let ?n = "length ys"
  have x: "xs ! ?n = (libsqfs_closing_piece_vmt, d)" "length xs = Suc ?n" using assms(1) by simp_all
  then have p: "plan_upto bs xs (length xs) = plan_upto bs xs ?n" by simp
  then have "length (plan_upto bs xs ?n) = Suc j" using False assms(2) by simp
  moreover from this have "plan_flush bs xs ?n" using x by (auto simp: plan_flush.simps)
  ultimately show ?thesis using x(2) p by (intro exI [of _ ?n]) (auto simp: last_at)
qed (rule plan_flusher)

section \<open>The output\<close>

text \<open>The blocks of an output that was written completely lie where they were written, in order.\<close>

lemma output_disk_blocks:
  assumes "file_dest_ok (job_dst J)" "\<forall>i < n. write_complete J xs i"
  shows "file_dest_ok (output_disk J xs n) \<and> unat (job_base J) \<le> unat (output_offset J xs n) \<and>
    (unat (job_base J) < 2 ^ 63 \<longrightarrow> unat (output_offset J xs n) < 2 ^ 63) \<and>
    (\<forall>i < n. \<forall>b z. chunk_output J xs i = Some (b, z) \<longrightarrow>
       slice (unat (output_offset J xs i)) (length b) (dest_bytes (output_disk J xs n)) = b \<and>
       unat (output_offset J xs i) + length b \<le> unat (output_offset J xs n))"
  using assms(2)
proof (induction n)
  case 0
  then show ?case using assms(1) by simp
next
  case (Suc n)
  then have IH: "file_dest_ok (output_disk J xs n)" "unat (job_base J) \<le> unat (output_offset J xs n)"
    "unat (job_base J) < 2 ^ 63 \<Longrightarrow> unat (output_offset J xs n) < 2 ^ 63"
    "\<And>i b z. i < n \<Longrightarrow> chunk_output J xs i = Some (b, z) \<Longrightarrow>
       slice (unat (output_offset J xs i)) (length b) (dest_bytes (output_disk J xs n)) = b \<and>
       unat (output_offset J xs i) + length b \<le> unat (output_offset J xs n)" by simp_all
  note IH4 = IH(4)
  show ?case
  proof (cases "chunk_output J xs n")
    case None
    then show ?thesis using IH by (auto simp: output_size_def less_Suc_eq)
  next
    case (Some bz)
    obtain b z where bz: "bz = (b, z)" by (cases bz)
    obtain s' where put: "libsqfs_pwrite (output_disk J xs n) b (output_offset J xs n) = (int (length b), s')"
      using Suc.prems Some bz by (cases "libsqfs_pwrite (output_disk J xs n) b (output_offset J xs n)")
        (auto simp: write_complete_def)
    then have disk: "output_disk J xs (Suc n) = s'" using Some bz by simp
    have bound: "b \<noteq> [] \<Longrightarrow> unat (output_offset J xs n) + length b < 2 ^ 63"
      using dest_sink.put_bound [OF IH(1) put] .
    have "unat (output_offset J xs n) + length b < 2 ^ 64"
    proof (cases "b = []")
      case True
      then show ?thesis using unsigned_less [of "output_offset J xs n", where ?'a = nat] by simp
    qed (use bound in simp)
    then have nxt: "unat (output_offset J xs (Suc n)) = unat (output_offset J xs n) + length b"
      using Some bz by (simp add: output_size_def unat_plus_of_nat)
    have new: "slice (unat (output_offset J xs n)) (length b) (dest_bytes s') = b"
      using dest_sink.put_full [OF IH(1) put] by (cases "b = []") (auto simp: slice_def)
    have old: "slice (unat (output_offset J xs i)) (length c) (dest_bytes s') = c"
      if "i < n" "chunk_output J xs i = Some (c, y)" for i c y
    proof (cases "c = []")
      case False
      note i = IH4 [OF that]
      with False have "unat (output_offset J xs i) + length c \<le> length (dest_bytes (output_disk J xs n))"
        by (blast intro: dest_sink.slice_nonempty_bound)
      with dest_sink.put_frame [OF IH(1) put] i show ?thesis by simp
    qed (simp add: slice_def)
    have "unat (output_offset J xs i) + length c \<le> unat (output_offset J xs (Suc n))"
      if "i < n" "chunk_output J xs i = Some (c, y)" for i c y
      using IH4 [OF that] unfolding nxt by simp
    moreover have "unat (job_base J) \<le> unat (output_offset J xs (Suc n))" unfolding nxt using IH(2) by simp
    moreover have "unat (job_base J) < 2 ^ 63 \<longrightarrow> unat (output_offset J xs (Suc n)) < 2 ^ 63"
      unfolding nxt using IH(3) bound by (cases "b = []") auto
    ultimately show ?thesis using dest_sink.put_ok [OF IH(1) put] new old nxt Some bz
      unfolding disk by (auto simp: less_Suc_eq simp del: output_offset.simps)
  qed
qed

text \<open>The stored form of a block reads back.\<close>

definition unstored :: "(byte list \<Rightarrow> byte list) \<Rightarrow> bool \<Rightarrow> byte list \<Rightarrow> byte list" where
  "unstored decomp compressed bs = (if compressed then decomp bs else bs)"

lemma stored_form_reads:
  assumes "lossless_codec f decomp" "vmt_compress ci = Some f" "stored_form ci compress src = (b, z)"
  shows "unstored decomp z b = src"
  using assms(2,3) lossless_codec.decomp_comp [OF assms(1)]
  by (auto simp: stored_form_def unstored_def libsqfs_compressor_instance_compress_def split: if_splits option.splits)

section \<open>The end of a run\<close>

text \<open>Where a block is, and where the data of a chunk is.\<close>

definition block_place :: "libsqfs_image_block \<Rightarrow> u64 \<times> nat \<times> bool" where
  "block_place b = (ib_offset b, ib_size b, ib_compressed b)"

definition chunk_place :: "libsqfs_chunk \<Rightarrow> (u64 \<times> nat \<times> bool) + (nat option \<times> u64)" where
  "chunk_place c = (if ck_vmt c = libsqfs_full_block_vmt then Inl (block_place (ck_dst c))
     else if ck_vmt c = libsqfs_fragment_piece_vmt then Inr (ck_fragment_block c, ck_offset c)
     else Inr (None, 0))"

definition run_finished :: "'a sqfs_bulk_scheme \<Rightarrow> bool" where
  "run_finished img \<longleftrightarrow> \<not> aborted (bulkdata img) \<and> bd_finished (bulkdata img) = bd_count (bulkdata img)"

lemma finished_run:
  assumes inv: "run_inv J xs img []" and fin: "run_finished img"
  shows "bd_finished (bulkdata img) = length xs" "\<And>i. i < length xs \<Longrightarrow> st img i = libsqfs_chunk_finished"
    "dst img = output_disk J xs (length xs)" "img_size img = output_offset J xs (length xs)"
    "\<forall>i < length xs. write_complete J xs i"
    "map (\<lambda>b. (fb_pieces b, fb_size b)) (fragment_blocks (bulkdata img)) = plan_upto (job_block_size J) xs (length xs)"
proof -
  note p = run_parts [OF inv]
  show N: "bd_finished (bulkdata img) = length xs" using fin p(3) by (simp add: run_finished_def)
  show st: "st img i = libsqfs_chunk_finished" if "i < length xs" for i using pipe_parts(2) [OF p(9) that] that N by simp
  show "dst img = output_disk J xs (length xs)" "img_size img = output_offset J xs (length xs)"
    "\<forall>i < length xs. write_complete J xs i"
    using p(7) fin N by (simp_all add: disk_inv_def run_finished_def)
  obtain a where a: "a \<le> length xs" "\<And>i. i < length xs \<Longrightarrow> is_piece xs i \<Longrightarrow> placed (st img i) \<longleftrightarrow> i < a"
      "map (\<lambda>b. (fb_pieces b, fb_size b)) (fragment_blocks (bulkdata img)) = plan_upto (job_block_size J) xs a"
    using p(5) by (auto simp: blocks_inv_def)
  have "plan_upto (job_block_size J) xs (length xs) = plan_upto (job_block_size J) xs a"
    by (rule plan_gap [OF a(1)]) (use a(2) st in fastforce)
  with a(3) show "map (\<lambda>b. (fb_pieces b, fb_size b)) (fragment_blocks (bulkdata img)) = plan_upto (job_block_size J) xs (length xs)"
    by simp
qed

lemma finished_block:
  assumes inv: "run_inv J xs img []" and fin: "run_finished img" and i: "i < length xs" "chunk_output J xs i = Some (b, z)"
  shows "block_place (written_block J xs img i) = (output_offset J xs i, length b, z)"
proof -
  note p = run_parts [OF inv] and f = finished_run [OF inv fin]
  have "block_inv J xs i libsqfs_chunk_finished (written_block J xs img i)"
  proof (cases "is_piece xs i")
    case True
    then have fl: "plan_flush (job_block_size J) xs i" using output_flush i(2) by blast
    have "placed (st img i)" using f(2) [OF i(1)] by simp
    note e = flushed_exists [OF p(5) i(1) this fl]
    have "length (plan_upto (job_block_size J) xs i) \<le> length (fragment_blocks (bulkdata img))" using e by linarith
    then show ?thesis using p(5) i(1) True fl f(2) [OF i(1)] by (auto simp: blocks_inv_def written_block_def)
  next
    case False
    then show ?thesis using p(8) [OF i(1)] f(2) [OF i(1)] by (simp add: chunk_inv_def written_block_def)
  qed
  moreover have "ib_offset (written_block J xs img i) = output_offset J xs i"
    using p(7) fin f(1) i by (auto simp: disk_inv_def run_finished_def)
  ultimately show ?thesis using i(2) by (simp add: block_inv_def block_place_def)
qed

lemma finished_fragment:
  assumes inv: "run_inv J xs img []" and fin: "run_finished img" and j: "j < length (fragment_blocks (bulkdata img))"
  shows "i < length xs \<Longrightarrow> plan_flush (job_block_size J) xs i \<Longrightarrow> length (plan_upto (job_block_size J) xs i) = Suc j \<Longrightarrow>
      written_block J xs img i = fb_dst (fragment_blocks (bulkdata img) ! j)"
    "(\<forall>i < length xs. plan_flush (job_block_size J) xs i \<longrightarrow> length (plan_upto (job_block_size J) xs i) \<noteq> Suc j) \<Longrightarrow>
      fb_dst (fragment_blocks (bulkdata img) ! j) = libsqfs_image_block_init"
proof -
  show "written_block J xs img i = fb_dst (fragment_blocks (bulkdata img) ! j)"
    if "i < length xs" "plan_flush (job_block_size J) xs i" "length (plan_upto (job_block_size J) xs i) = Suc j"
    using that plan_flush_full [OF that(2)] by (simp add: written_block_def)
  assume a: "\<forall>i < length xs. plan_flush (job_block_size J) xs i \<longrightarrow> length (plan_upto (job_block_size J) xs i) \<noteq> Suc j"
  have "length (plan_upto (job_block_size J) xs i) - 1 \<noteq> j" if "i < length xs" "plan_flush (job_block_size J) xs i" for i
    using a that plan_flush_nonempty [OF that(2)] by (cases "plan_upto (job_block_size J) xs i") auto
  then show "fb_dst (fragment_blocks (bulkdata img) ! j) = libsqfs_image_block_init"
    using run_parts(5) [OF inv] j by (auto simp: blocks_inv_def)
qed

section \<open>Reading back\<close>

definition read_block :: "(byte list \<Rightarrow> byte list) \<Rightarrow> libsqfs_destination \<Rightarrow> libsqfs_image_block \<Rightarrow> byte list" where
  "read_block decomp d b = unstored decomp (ib_compressed b) (slice (unat (ib_offset b)) (ib_size b) (dest_bytes d))"

definition read_chunk :: "(byte list \<Rightarrow> byte list) \<Rightarrow> 'a sqfs_bulk_scheme \<Rightarrow> libsqfs_chunk \<Rightarrow> byte list" where
  "read_chunk decomp img c =
     (case ck_vmt c of
        libsqfs_full_block_vmt \<Rightarrow> read_block decomp (dst img) (ck_dst c)
      | libsqfs_fragment_piece_vmt \<Rightarrow>
          (case ck_fragment_block c of
             None \<Rightarrow> []
           | Some f \<Rightarrow> slice (unat (ck_offset c)) (piece_size (ck_data c))
               (read_block decomp (dst img) (fb_dst (fragment_blocks (bulkdata img) ! f))))
      | libsqfs_closing_piece_vmt \<Rightarrow> [])"

text \<open>
  Later outputs keep what a run has written: from where it began to the end of the image.
\<close>

definition disk_kept :: "bulk_job \<Rightarrow> 'a sqfs_bulk_scheme \<Rightarrow> libsqfs_destination \<Rightarrow> bool" where
  "disk_kept J img later \<longleftrightarrow> (\<forall>k n. unat (job_base J) \<le> k \<longrightarrow> k + n \<le> unat (img_size img) \<longrightarrow> k + n \<le> length (dest_bytes (dst img)) \<longrightarrow>
     slice k n (dest_bytes later) = slice k n (dest_bytes (dst img)))"

lemma disk_kept_refl: "disk_kept J img (dst img)"
  by (simp add: disk_kept_def)

lemma read_written:
  assumes inv: "run_inv J xs img []" and fin: "run_finished img" and d: "file_dest_ok (job_dst J)"
    and codec: "lossless_codec f decomp" "vmt_compress (job_ci J) = Some f" and kept: "disk_kept J img later"
    and i: "i < length xs" "chunk_output J xs i = Some (stored_form (job_ci J) compress src)"
  shows "read_block decomp later (written_block J xs img i) = src"
proof -
  note r = finished_run [OF inv fin]
  obtain b z where bz: "stored_form (job_ci J) compress src = (b, z)" by force
  have here: "slice (unat (output_offset J xs i)) (length b) (dest_bytes (dst img)) = b"
    "unat (output_offset J xs i) + length b \<le> unat (img_size img)"
    using output_disk_blocks [OF d r(5)] i bz unfolding r(3,4) by auto
  have "\<forall>k < i. write_complete J xs k" using r(5) i(1) by simp
  then have "unat (job_base J) \<le> unat (output_offset J xs i)" using output_disk_blocks [OF d] by blast
  moreover have "unat (output_offset J xs i) + length b \<le> length (dest_bytes (dst img))" if "b \<noteq> []"
    by (rule dest_sink.slice_nonempty_bound [OF here(1) that])
  ultimately have "slice (unat (output_offset J xs i)) (length b) (dest_bytes later) = b"
    using kept here unfolding disk_kept_def by (cases "b = []") (auto simp: slice_def)
  moreover have "block_place (written_block J xs img i) = (output_offset J xs i, length b, z)"
    using i bz by (intro finished_block [OF inv fin]) simp_all
  ultimately show ?thesis using stored_form_reads [OF codec bz] by (simp add: block_place_def read_block_def)
qed

lemma slice_piece:
  assumes "\<forall>k \<in> set us. length (f k) = g k" "length (f i) = g i"
  shows "slice (\<Sum>k\<leftarrow>us. g k) (g i) (concat (map f (us @ i # vs))) = f i"
proof -
  have "map (length \<circ> f) us = map g us" using assms(1) by simp
  then have "length (concat (map f us)) = (\<Sum>k\<leftarrow>us. g k)" by (metis length_concat map_map)
  then show ?thesis using assms(2) by (simp add: slice_def)
qed

lemma finished_source:
  assumes "run_inv J xs img []" "run_finished img" "i < length xs" "fst (xs ! i) \<noteq> libsqfs_closing_piece_vmt"
  shows "length (src_bytes (xs ! i)) = piece_size (snd (xs ! i))"
  using run_parts(8) [OF assms(1,3)] finished_run(2) [OF assms(1-3)] assms(4) by (simp add: chunk_inv_def)

text \<open>The place of a piece.\<close>

lemma finished_piece:
  assumes inv: "run_inv J xs img []" and fin: "run_finished img"
    and i: "i < length xs" "fst (xs ! i) = libsqfs_fragment_piece_vmt" and size: "job_block_size J < 2 ^ 64"
  defines "bs \<equiv> job_block_size J"
  shows "\<exists>j us vs. ck_fragment_block (chunk_at img i) = Some j \<and> j < length (fragment_blocks (bulkdata img)) \<and>
    j < length (plan_upto bs xs (length xs)) \<and> fst (plan_upto bs xs (length xs) ! j) = us @ i # vs \<and>
    unat (ck_offset (chunk_at img i)) = (\<Sum>k\<leftarrow>us. piece_size (snd (xs ! k))) \<and> unat (ck_offset (chunk_at img i)) \<le> bs"
proof -
  let ?N = "length xs"
  note p = run_parts [OF inv] and r = finished_run [OF inv fin]
  define j where "j = length (plan_upto bs xs (Suc i)) - 1"
  have at: "ck_fragment_block (chunk_at img i) = Some j" "ck_offset (chunk_at img i) = of_nat (plan_offset bs xs i)"
    using p(8) [OF i(1)] r(2) [OF i(1)] i(2) unfolding j_def bs_def by (simp_all add: chunk_inv_def del: plan_upto.simps)
  obtain us vs where pos: "j < length (plan_upto bs xs ?N)" "fst (plan_upto bs xs ?N ! j) = us @ i # vs"
    "(\<Sum>k\<leftarrow>us. piece_size (snd (xs ! k))) = plan_offset bs xs i"
    using plan_position [OF i] unfolding j_def by blast
  have blk: "plan_upto bs xs ?N ! j \<in> set (plan_upto bs xs ?N)" using pos(1) by simp
  have "snd (plan_upto bs xs ?N ! j) \<le> bs"
    using p(1) by (intro plan_fits [OF blk]) (simp add: submissions_ok_def bs_def)
  moreover have "plan_offset bs xs i \<le> snd (plan_upto bs xs ?N ! j)"
    unfolding plan_sizes [OF blk] pos(2) pos(3) [symmetric] by simp
  ultimately have "unat (ck_offset (chunk_at img i)) = plan_offset bs xs i" "plan_offset bs xs i \<le> bs"
    using size at(2) by (simp_all add: unsigned_of_nat take_bit_nat_eq_self bs_def)
  moreover have "j < length (fragment_blocks (bulkdata img))" using pos(1) r(6) unfolding bs_def by (metis length_map)
  ultimately show ?thesis using at(1) pos by auto
qed

lemma finished_piece_reads:
  assumes inv: "run_inv J xs img []" and fin: "run_finished img" and d: "file_dest_ok (job_dst J)"
    and codec: "lossless_codec f decomp" "vmt_compress (job_ci J) = Some f" and kept: "disk_kept J img later"
    and sealed: "xs = ys @ [(libsqfs_closing_piece_vmt, e)]" and size: "job_block_size J < 2 ^ 64"
    and i: "i < length xs" "fst (xs ! i) = libsqfs_fragment_piece_vmt"
  shows "\<exists>j. ck_fragment_block (chunk_at img i) = Some j \<and> j < length (fragment_blocks (bulkdata img)) \<and>
    unat (ck_offset (chunk_at img i)) \<le> job_block_size J \<and>
    slice (unat (ck_offset (chunk_at img i))) (piece_size (snd (xs ! i)))
      (read_block decomp later (fb_dst (fragment_blocks (bulkdata img) ! j))) = src_bytes (xs ! i)"
proof -
  let ?bs = "job_block_size J" and ?N = "length xs"
  note p = run_parts [OF inv] and r = finished_run [OF inv fin]
  obtain j us vs where at: "ck_fragment_block (chunk_at img i) = Some j" "j < length (fragment_blocks (bulkdata img))"
    and pos: "j < length (plan_upto ?bs xs ?N)" "fst (plan_upto ?bs xs ?N ! j) = us @ i # vs"
    and off: "unat (ck_offset (chunk_at img i)) = (\<Sum>k\<leftarrow>us. piece_size (snd (xs ! k)))" "unat (ck_offset (chunk_at img i)) \<le> ?bs"
    using finished_piece [OF inv fin i size] by blast
  have blk: "plan_upto ?bs xs ?N ! j \<in> set (plan_upto ?bs xs ?N)" using pos(1) by simp
  obtain m where m: "m < ?N" "plan_flush ?bs xs m" "length (plan_upto ?bs xs m) = Suc j"
    "last (plan_upto ?bs xs m) = plan_upto ?bs xs ?N ! j" using sealed_flusher [OF sealed pos(1)] by blast
  have "chunk_output J xs m = Some (stored_form (job_ci J) (job_compress_fragments J) (block_content ?bs xs m))"
    using m(2) plan_flush_full [OF m(2)] by (simp add: chunk_output_def)
  note rd = read_written [OF inv fin d codec kept m(1) this]
  from finished_fragment(1) [OF inv fin at(2) m(1-3)] rd
  have "read_block decomp later (fb_dst (fragment_blocks (bulkdata img) ! j)) = block_content ?bs xs m" by simp
  moreover have "block_content ?bs xs m = concat (map (\<lambda>k. src_bytes (xs ! k)) (us @ i # vs))"
    by (simp add: block_content_def m(4) pos(2))
  moreover have "length (src_bytes (xs ! k)) = piece_size (snd (xs ! k))" if "k \<in> set (us @ i # vs)" for k
    using plan_pieces [OF blk] that unfolding pos(2) by (intro finished_source [OF inv fin]) auto
  then have "slice (\<Sum>k\<leftarrow>us. piece_size (snd (xs ! k))) (piece_size (snd (xs ! i)))
      (concat (map (\<lambda>k. src_bytes (xs ! k)) (us @ i # vs))) = src_bytes (xs ! i)"
    by (intro slice_piece) simp_all
  ultimately show ?thesis using at off by simp
qed

lemma finished_reads:
  assumes inv: "run_inv J xs img []" and fin: "run_finished img" and d: "file_dest_ok (job_dst J)"
    and codec: "lossless_codec f decomp" "vmt_compress (job_ci J) = Some f"
    and sealed: "xs = ys @ [(libsqfs_closing_piece_vmt, e)]" and size: "job_block_size J < 2 ^ 64" and i: "i < length xs"
  shows "read_chunk decomp img (chunk_at img i) = (if fst (xs ! i) = libsqfs_closing_piece_vmt then [] else src_bytes (xs ! i))"
proof -
  note p = run_parts [OF inv]
  have c: "ck_vmt (chunk_at img i) = fst (xs ! i)" "ck_data (chunk_at img i) = snd (xs ! i)"
    using p(8) [OF i] by (simp_all add: chunk_inv_def)
  show ?thesis
  proof (cases "fst (xs ! i)")
    case libsqfs_full_block_vmt
    then have "chunk_output J xs i = Some (stored_form (job_ci J) (job_compress_blocks J) (src_bytes (xs ! i)))"
      by (simp add: chunk_output_def)
    from read_written [OF inv fin d codec disk_kept_refl i this] show ?thesis
      using c libsqfs_full_block_vmt by (simp add: read_chunk_def written_block_def)
  next
    case libsqfs_fragment_piece_vmt
    with finished_piece_reads [OF inv fin d codec disk_kept_refl sealed size i] c show ?thesis
      by (auto simp: read_chunk_def)
  qed (use c in \<open>simp add: read_chunk_def\<close>)
qed

lemma src_bytes_ok: "data_ok (piece_data (snd x)) \<Longrightarrow> src_bytes x = piece_bytes (snd x)"
  by (cases "snd x") (simp add: src_bytes_def data_handle.read_ok)

lemma options_block_size: "options_ok options \<Longrightarrow> block_size options \<le> 2 ^ 20"
  using power_increasing [of "block_size_log options" 20 "2 :: nat"] by (simp add: options_ok_def)

text \<open>Two complete runs of the same submissions end in the same.\<close>

lemma finished_same:
  assumes "run_inv J xs img1 []" "run_finished img1" "run_inv J xs img2 []" "run_finished img2"
  shows "dst img1 = dst img2 \<and> img_size img1 = img_size img2 \<and>
    map fragment_table_entry (fragment_blocks (bulkdata img1)) = map fragment_table_entry (fragment_blocks (bulkdata img2)) \<and>
    map chunk_place (bd_chunks (bulkdata img1)) = map chunk_place (bd_chunks (bulkdata img2))"
proof -
  let ?bs = "job_block_size J"
  note r1 = finished_run [OF assms(1,2)] and r2 = finished_run [OF assms(3,4)]
  note p1 = run_parts [OF assms(1)] and p2 = run_parts [OF assms(3)]
  have blk: "block_place (written_block J xs img1 i) = block_place (written_block J xs img2 i)"
    if "i < length xs" "chunk_output J xs i \<noteq> None" for i
    using finished_block [OF assms(1,2) that(1)] finished_block [OF assms(3,4) that(1)] that(2) by fastforce
  have len: "length (fragment_blocks (bulkdata img1)) = length (fragment_blocks (bulkdata img2))"
    using r1(6) r2(6) by (metis length_map)
  have frag: "fragment_table_entry (fragment_blocks (bulkdata img1) ! j) = fragment_table_entry (fragment_blocks (bulkdata img2) ! j)"
    if j: "j < length (fragment_blocks (bulkdata img1))" for j
  proof -
    have "block_place (fb_dst (fragment_blocks (bulkdata img1) ! j)) = block_place (fb_dst (fragment_blocks (bulkdata img2) ! j))"
    proof (cases "\<exists>i < length xs. plan_flush ?bs xs i \<and> length (plan_upto ?bs xs i) = Suc j")
      case True
      then obtain i where i: "i < length xs" "plan_flush ?bs xs i" "length (plan_upto ?bs xs i) = Suc j" by blast
      have "chunk_output J xs i \<noteq> None" using i(2) plan_flush_full [OF i(2)] by (simp add: chunk_output_def)
      from blk [OF i(1) this] show ?thesis
        using finished_fragment(1) [OF assms(1,2) j i] finished_fragment(1) [OF assms(3,4) j [unfolded len] i] by simp
    next
      case False
      then show ?thesis using finished_fragment(2) [OF assms(1,2) j] finished_fragment(2) [OF assms(3,4) j [unfolded len]] by auto
    qed
    then show ?thesis by (simp add: fragment_table_entry_def block_place_def)
  qed
  have "chunk_place (chunk_at img1 i) = chunk_place (chunk_at img2 i)" if i: "i < length xs" for i
  proof -
    note c1 = p1(8) [OF i] and c2 = p2(8) [OF i]
    have "ck_vmt (chunk_at img1 i) = fst (xs ! i)" "ck_vmt (chunk_at img2 i) = fst (xs ! i)"
      using c1 c2 by (simp_all add: chunk_inv_def)
    moreover have "block_place (ck_dst (chunk_at img1 i)) = block_place (ck_dst (chunk_at img2 i))"
      if "fst (xs ! i) = libsqfs_full_block_vmt"
      using blk [OF i] that by (simp add: chunk_output_def written_block_def)
    moreover have "ck_fragment_block (chunk_at img1 i) = ck_fragment_block (chunk_at img2 i) \<and>
        ck_offset (chunk_at img1 i) = ck_offset (chunk_at img2 i)" if "fst (xs ! i) = libsqfs_fragment_piece_vmt"
      using c1 c2 r1(2) [OF i] r2(2) [OF i] that by (simp add: chunk_inv_def del: plan_upto.simps)
    ultimately show ?thesis by (cases "fst (xs ! i)") (simp_all add: chunk_place_def)
  qed
  then have "map chunk_place (bd_chunks (bulkdata img1)) = map chunk_place (bd_chunks (bulkdata img2))"
    using p1(3) p2(3) by (intro nth_equalityI) simp_all
  moreover have "map fragment_table_entry (fragment_blocks (bulkdata img1)) = map fragment_table_entry (fragment_blocks (bulkdata img2))"
    using frag len by (intro nth_equalityI) simp_all
  ultimately show ?thesis using r1(3,4) r2(3,4) by simp
qed

section \<open>Steps of threads\<close>

text \<open>The steps with which threads get on; a thread that finds nothing to do waits.\<close>

inductive thread_step ::
    "libsqfs_compressor_instance \<Rightarrow> 'a sqfs_bulk_scheme \<times> bulk_task list \<Rightarrow> 'a sqfs_bulk_scheme \<times> bulk_task list \<Rightarrow> bool"
  for ci where
  take_chunk: "process_single_enter img = Some (outcome, img') \<Longrightarrow> outcome \<noteq> Inl False \<Longrightarrow>
    thread_step ci (img, ts) (img', tasks_after outcome ts)"
| finish_task: "t \<in> set ts \<Longrightarrow> task_leave ci t img = Some (r, img') \<Longrightarrow> thread_step ci (img, ts) (img', remove1 t ts)"

inductive_cases thread_stepE: "thread_step ci (img, ts) s"

lemma thread_step_run:
  assumes "thread_step (job_ci J) (img, ts) (img', ts')" "run_inv J xs img ts"
  shows "run_inv J xs img' ts' \<and> work img' ts' < work img ts"
  using assms(1)
proof cases
  case (take_chunk outcome)
  with enter_run [OF assms(2)] show ?thesis by auto
next
  case (finish_task t r)
  with leave_run [OF assms(2) finish_task(2)] show ?thesis by auto
qed

lemma thread_steps_work:
  "(thread_step (job_ci J) ^^ n) (img, ts) (img', ts') \<Longrightarrow> run_inv J xs img ts \<Longrightarrow>
   run_inv J xs img' ts' \<and> n + work img' ts' \<le> work img ts"
proof (induction n arbitrary: img' ts')
  case (Suc n)
  then obtain img1 ts1 where s: "(thread_step (job_ci J) ^^ n) (img, ts) (img1, ts1)" "thread_step (job_ci J) (img1, ts1) (img', ts')"
    by auto
  from Suc.IH [OF s(1) Suc.prems(2)] thread_step_run [OF s(2)] show ?case by fastforce
qed simp

lemma stuck_run:
  assumes inv: "run_inv J xs img ts" and stuck: "\<nexists>s. thread_step (job_ci J) (img, ts) s"
  shows "ts = []" "aborted (bulkdata img) \<or> bd_finished (bulkdata img) = bd_count (bulkdata img)"
proof -
  show ts: "ts = []"
  proof (rule ccontr)
    assume "ts \<noteq> []"
    then have "hd ts \<in> set ts" by simp
    with leave_run [OF inv this] stuck show False by (blast intro: thread_step.finish_task)
  qed
  obtain outcome img' where e: "process_single_enter img = Some (outcome, img')"
    "outcome = Inl False \<Longrightarrow> writeq (bulkdata img) = [] \<and> compressq (bulkdata img) = [] \<and>
       assignq (bulkdata img) = [] \<and> dedupq (bulkdata img) = [] \<and> readq (bulkdata img) = []"
    using enter_run [OF inv] by blast
  have "outcome = Inl False" using e(1) stuck by (blast intro: thread_step.take_chunk)
  then show "aborted (bulkdata img) \<or> bd_finished (bulkdata img) = bd_count (bulkdata img)"
    using nothing_left [OF inv [unfolded ts]] e(2) by blast
qed

lemma finished_idle:
  assumes inv: "run_inv J xs img []" and fin: "run_finished img"
  shows "\<nexists>s. thread_step ci (img, []) s"
proof -
  note p = run_parts(9) [OF inv] and st = finished_run(2) [OF inv fin]
  have "n \<notin> set (readq (bulkdata img))" "n \<notin> set (dedupq (bulkdata img))" "n \<notin> set (assignq (bulkdata img))"
    "n \<notin> set (compressq (bulkdata img))" "n \<notin> set (writeq (bulkdata img))" for n
    using pipe_in [OF p, of n] st [of n] by auto
  then have "readq (bulkdata img) = []" "dedupq (bulkdata img) = []" "assignq (bulkdata img) = []"
    "compressq (bulkdata img) = []" "writeq (bulkdata img) = []"
    by (metis list.set_intros(1) list.exhaust)+
  then have "process_single_enter img = Some (Inl False, img)" by (simp add: process_single_enter_def)
  then show ?thesis by (intro notI, elim exE thread_stepE) simp_all
qed

lemma reachable_run:
  assumes "fresh_run ci img0" "(bulk_step ci)\<^sup>*\<^sup>* ([], img0, []) (xs, img, ts)"
  shows "run_inv (job_of ci img0) xs img ts"
proof -
  have "job_ci (job_of ci img0) = ci" by (simp add: job_of_def)
  then show ?thesis using bulk_steps_inv [of "job_of ci img0"] assms fresh_run_inv by metis
qed

section \<open>One thread is an interleaving\<close>

lemma single_steps:
  assumes "libsqfs_bulkdata_process_single_locked ci img = Some (again, img')"
  shows "(bulk_step ci)\<^sup>*\<^sup>* (xs, img, []) (xs, img', [])"
proof -
  obtain outcome img1 where e: "process_single_enter img = Some (outcome, img1)"
    and l: "case outcome of Inl r \<Rightarrow> r = again \<and> img1 = img' | Inr t \<Rightarrow> task_leave ci t img1 = Some (again, img')"
    using assms unfolding libsqfs_bulkdata_process_single_locked_def
    by (auto split: Option.bind_splits sum.splits)
  note s = bulk_step.enter [OF e, of ci xs "[]"]
  show ?thesis
  proof (cases outcome)
    case (Inl r)
    then show ?thesis using s l by (auto intro: r_into_rtranclp)
  next
    case (Inr t)
    then have "bulk_step ci (xs, img1, [t]) (xs, img', remove1 t [t])" using l by (intro bulk_step.leave) simp_all
    then show ?thesis using s Inr by (auto intro: converse_rtranclp_into_rtranclp)
  qed
qed

lemma process_steps:
  assumes "libsqfs_bulkdata_process ci img = Some img'"
  shows "(bulk_step ci)\<^sup>*\<^sup>* (xs, img, []) (xs, img', [])"
proof (rule libsqfs_bulkdata_process.raw_induct [OF _ assms, where P = "\<lambda>ci img img'. (bulk_step ci)\<^sup>*\<^sup>* (xs, img, []) (xs, img', [])"])
  fix process :: "libsqfs_compressor_instance \<Rightarrow> 'a sqfs_bulk_scheme \<Rightarrow> 'a sqfs_bulk_scheme option" and ci img img'
  assume IH: "\<And>ci img img'. process ci img = Some img' \<Longrightarrow> (bulk_step ci)\<^sup>*\<^sup>* (xs, img, []) (xs, img', [])"
    and step: "Option.bind (libsqfs_bulkdata_process_single_locked ci img) (\<lambda>(again, img).
       if again then process ci img
       else if bd_finished (bulkdata img) = bd_count (bulkdata img) \<and> \<not> may_add_chunks (bulkdata img) then Some img
       else if aborted (bulkdata img) then Some img
       else process ci img) = Some img'"
  then obtain again img1 where s: "libsqfs_bulkdata_process_single_locked ci img = Some (again, img1)"
    and r: "process ci img1 = Some img' \<or> img1 = img'" by (auto split: Option.bind_splits if_splits)
  from single_steps [OF s] IH [of ci img1 img'] r show "(bulk_step ci)\<^sup>*\<^sup>* (xs, img, []) (xs, img', [])"
    by (auto intro: rtranclp_trans)
qed

lemma finish_steps:
  assumes "libsqfs_bulkdata_finish ci img = Some (r, img')" "may_add_chunks (bulkdata img)"
  shows "(bulk_step ci)\<^sup>*\<^sup>* (xs, img, []) (xs @ [(libsqfs_closing_piece_vmt, null_piece)], img', [])"
proof -
  have "libsqfs_bulkdata_process ci (snd (libsqfs_bulkdata_seal img)) = Some img'"
    using assms(1) by (auto simp: libsqfs_bulkdata_finish_def split: Option.bind_splits prod.splits)
  from process_steps [OF this] bulk_step.seal [OF assms(2)] show ?thesis
    by (blast intro: converse_rtranclp_into_rtranclp)
qed

section \<open>A run\<close>

text \<open>A full block and a fragment, and the rounds of a thread that takes them to their end.\<close>

primrec process_rounds :: "libsqfs_compressor_instance \<Rightarrow> nat \<Rightarrow> 'a sqfs_bulk_scheme \<Rightarrow> 'a sqfs_bulk_scheme option" where
  "process_rounds ci 0 img = Some img"
| "process_rounds ci (Suc n) img =
     (case libsqfs_bulkdata_process_single_locked ci img of None \<Rightarrow> None | Some (r, img) \<Rightarrow> process_rounds ci n img)"

lemma process_rounds_numeral: "process_rounds ci (numeral k) img =
    (case libsqfs_bulkdata_process_single_locked ci img of None \<Rightarrow> None | Some (r, img) \<Rightarrow> process_rounds ci (pred_numeral k) img)"
  by (simp add: numeral_eq_Suc)

lemma process_rounds_steps:
  "process_rounds ci n img = Some img' \<Longrightarrow> (bulk_step ci)\<^sup>*\<^sup>* (xs, img, []) (xs, img', [])"
proof (induction n arbitrary: img)
  case (Suc n)
  then obtain r img1 where "libsqfs_bulkdata_process_single_locked ci img = Some (r, img1)"
    "process_rounds ci n img1 = Some img'" by (auto split: option.splits)
  from single_steps [OF this(1)] Suc.IH [OF this(2)] show ?case by (rule rtranclp_trans)
qed simp

lemmas submit_simps = libsqfs_bulkdata_seal_def libsqfs_bulkdata_submit_fragment_def libsqfs_bulkdata_sumbit_def
  libsqfs_bulkdata_enqueue_piece_locked_def libsqfs_bulkdata_enqueue_chunk_locked_def libsqfs_chunk_init_def
  libsqfs_image_block_init_def last_opt_def

lemmas round_simps = process_rounds_numeral libsqfs_bulkdata_process_single_locked_def process_single_enter_def
  chunk_read_enter_def chunk_deduplicate_def chunk_assign_def chunk_compress_enter_def chunk_compress_leave_def
  chunk_write_enter_def chunk_write_leave_def libsqfs_chunk_do_read_enter_def libsqfs_chunk_do_read_leave_def
  libsqfs_chunk_do_deduplicate_def libsqfs_chunk_do_assign_def libsqfs_chunk_try_writeout_def libsqfs_chunk_mark_finished_def
  libsqfs_full_block_compress_enter_def libsqfs_full_block_compress_leave_def libsqfs_full_block_write_enter_def
  libsqfs_full_block_write_leave_def libsqfs_image_block_write_enter_def libsqfs_image_block_write_leave_def
  libsqfs_image_block_compress_def libsqfs_image_block_uncompressed_def libsqfs_closing_piece_read_def
  libsqfs_closing_piece_deduplicate_def libsqfs_closing_piece_assign_def libsqfs_fragment_piece_deduplicate_def
  libsqfs_fragment_piece_assign_def libsqfs_fragment_piece_compress_enter_def libsqfs_fragment_piece_compress_leave_def
  libsqfs_fragment_piece_write_enter_def libsqfs_fragment_piece_write_leave_def fragment_piece_choose_block_def
  flushed_block_def libsqfs_fragment_block_create_def libsqfs_fragment_block_add_piece_def upd_chunk_def
  upd_fragment_block_def chunk_state_less libsqfs_compressor_instance_compress_def null_compressor_vmt_def
  null_compressor_instance_compress_def libsqfs_image_reserve_def libsqfs_destination_file_pwrite_def pwrite_def
  memcpy_def libsqfs_memorydata_pread_def slice_def

definition demo_submitted :: libsqfs_image where
  "demo_submitted = snd (libsqfs_bulkdata_submit_fragment (Piece (Memorydata [1, 2, 3]) 3 0)
     (snd (libsqfs_bulkdata_sumbit (Piece (Memorydata [7, 7]) 2 0) demo_image)))"

abbreviation demo_submissions :: "submission list" where
  "demo_submissions \<equiv> [(libsqfs_full_block_vmt, Piece (Memorydata [7, 7]) 2 0),
     (libsqfs_fragment_piece_vmt, Piece (Memorydata [1, 2, 3]) 3 0)]"

lemma demo_fresh: "fresh_run null_compressor_vmt demo_image"
  unfolding fresh_run_def
  by (intro conjI exI [of _ True]) (simp_all add: demo_image_def null_compressor_vmt_def)

lemma demo_steps: "(bulk_step null_compressor_vmt)\<^sup>*\<^sup>* ([], demo_image, []) (demo_submissions, demo_submitted, [])"
proof -
  have "bulk_step null_compressor_vmt ([], demo_image, [])
      ([] @ [(libsqfs_full_block_vmt, Piece (Memorydata [7, 7]) 2 0)],
       snd (libsqfs_bulkdata_sumbit (Piece (Memorydata [7, 7]) 2 0) demo_image), [])"
    by (rule bulk_step.submit) simp_all
  moreover have "bulk_step null_compressor_vmt ([(libsqfs_full_block_vmt, Piece (Memorydata [7, 7]) 2 0)],
       snd (libsqfs_bulkdata_sumbit (Piece (Memorydata [7, 7]) 2 0) demo_image), [])
      ([(libsqfs_full_block_vmt, Piece (Memorydata [7, 7]) 2 0)] @
       [(libsqfs_fragment_piece_vmt, Piece (Memorydata [1, 2, 3]) 3 0)], demo_submitted, [])"
    unfolding demo_submitted_def by (rule bulk_step.submit_fragment)
      (simp_all add: libsqfs_bulkdata_sumbit_def demo_image_def libsqfs_image_options_defaults_def libsqfs_compressor_copy_def)
  ultimately show ?thesis by (auto intro: converse_rtranclp_into_rtranclp)
qed

lemma demo_may_add: "may_add_chunks (bulkdata demo_submitted)"
  by (simp add: demo_submitted_def submit_simps demo_image_def libsqfs_bulkdata_init_def)

lemma demo_run: "\<exists>img. (bulk_step null_compressor_vmt)\<^sup>*\<^sup>* ([], demo_image, [])
    (demo_submissions @ [(libsqfs_closing_piece_vmt, null_piece)], img, []) \<and> run_finished img"
proof -
  have "\<exists>img. process_rounds null_compressor_vmt 14 (snd (libsqfs_bulkdata_seal demo_submitted)) = Some img \<and> run_finished img"
    by (simp add: round_simps submit_simps Let_def demo_submitted_def demo_image_def demo_out_def demo_file_def
        libsqfs_bulkdata_init_def libsqfs_image_options_defaults_def libsqfs_compressor_copy_def run_finished_def)
  then obtain img where "process_rounds null_compressor_vmt 14 (snd (libsqfs_bulkdata_seal demo_submitted)) = Some img"
    and fin: "run_finished img" by blast
  note run = process_rounds_steps [OF this(1), of "demo_submissions @ [(libsqfs_closing_piece_vmt, null_piece)]"]
  have "(bulk_step null_compressor_vmt)\<^sup>*\<^sup>* ([], demo_image, [])
      (demo_submissions @ [(libsqfs_closing_piece_vmt, null_piece)], snd (libsqfs_bulkdata_seal demo_submitted), [])"
    by (rule rtranclp.rtrancl_into_rtrancl [OF demo_steps bulk_step.seal [OF demo_may_add]])
  from rtranclp_trans [OF this run] fin show ?thesis by blast
qed

text \<open>Another interleaving: the block is written before the fragment is submitted.\<close>

lemma demo_run_interleaved: "\<exists>img. (bulk_step null_compressor_vmt)\<^sup>*\<^sup>* ([], demo_image, [])
    (demo_submissions @ [(libsqfs_closing_piece_vmt, null_piece)], img, []) \<and> run_finished img"
proof -
  let ?d1 = "Piece (Memorydata [7, 7]) 2 0" and ?d2 = "Piece (Memorydata [1, 2, 3]) 3 0"
  have "\<exists>a b. process_rounds null_compressor_vmt 5 (snd (libsqfs_bulkdata_sumbit ?d1 demo_image)) = Some a \<and>
      process_rounds null_compressor_vmt 9 (snd (libsqfs_bulkdata_seal (snd (libsqfs_bulkdata_submit_fragment ?d2 a)))) = Some b \<and>
      run_finished b \<and> 3 \<le> block_size (img_options a) \<and>
      may_add_chunks (bulkdata (snd (libsqfs_bulkdata_submit_fragment ?d2 a)))"
    by (simp add: round_simps submit_simps Let_def demo_image_def demo_out_def demo_file_def
        libsqfs_bulkdata_init_def libsqfs_image_options_defaults_def libsqfs_compressor_copy_def run_finished_def)
  then obtain a b where a: "process_rounds null_compressor_vmt 5 (snd (libsqfs_bulkdata_sumbit ?d1 demo_image)) = Some a"
    and b: "process_rounds null_compressor_vmt 9 (snd (libsqfs_bulkdata_seal (snd (libsqfs_bulkdata_submit_fragment ?d2 a)))) = Some b"
    and c: "run_finished b" "3 \<le> block_size (img_options a)"
      "may_add_chunks (bulkdata (snd (libsqfs_bulkdata_submit_fragment ?d2 a)))" by blast
  have "bulk_step null_compressor_vmt ([], demo_image, [])
      ([] @ [(libsqfs_full_block_vmt, ?d1)], snd (libsqfs_bulkdata_sumbit ?d1 demo_image), [])"
    by (rule bulk_step.submit) simp_all
  moreover have "bulk_step null_compressor_vmt ([(libsqfs_full_block_vmt, ?d1)], a, [])
      ([(libsqfs_full_block_vmt, ?d1)] @ [(libsqfs_fragment_piece_vmt, ?d2)], snd (libsqfs_bulkdata_submit_fragment ?d2 a), [])"
    by (rule bulk_step.submit_fragment) (use c(2) in simp_all)
  ultimately have "(bulk_step null_compressor_vmt)\<^sup>*\<^sup>* ([], demo_image, [])
      (demo_submissions, snd (libsqfs_bulkdata_submit_fragment ?d2 a), [])"
    using process_rounds_steps [OF a, of "[(libsqfs_full_block_vmt, ?d1)]"]
    by (auto intro: rtranclp.rtrancl_into_rtrancl converse_rtranclp_into_rtranclp)
  from rtranclp.rtrancl_into_rtrancl [OF this bulk_step.seal [OF c(3)]] process_rounds_steps [OF b] c(1)
  show ?thesis by (blast intro: rtranclp_trans)
qed

section \<open>Properties\<close>



text \<open>C20: the threads come to an end. From any reachable state the number of steps in which threads take
  or finish something is bounded; there is no infinite sequence of them.\<close>

theorem bulk_threads_terminate:
  assumes "fresh_run ci img0" "(bulk_step ci)\<^sup>*\<^sup>* ([], img0, []) (xs, img, ts)"
  shows "\<exists>bound. \<forall>n s. (thread_step ci ^^ n) (img, ts) s \<longrightarrow> n \<le> bound"
proof -
  have "job_ci (job_of ci img0) = ci" by (simp add: job_of_def)
  then have "n \<le> work img ts" if "(thread_step ci ^^ n) (img, ts) s" for n s
    using thread_steps_work [of n "job_of ci img0" img ts "fst s" "snd s" xs] that reachable_run [OF assms] by simp
  then show ?thesis by blast
qed

theorem bulk_threads_terminate_witness:
  "\<exists>bound. \<forall>n s. (thread_step null_compressor_vmt ^^ n) (demo_submitted, []) s \<longrightarrow> n \<le> bound"
  using bulk_threads_terminate [OF demo_fresh demo_steps] .

text \<open>C7: there is no deadlock and nothing is forgotten. When no thread can take a step any more, all tasks are
  finished, and either the run was aborted after an error or every submitted chunk is finished.\<close>

theorem bulk_threads_complete:
  assumes "fresh_run ci img0" "(bulk_step ci)\<^sup>*\<^sup>* ([], img0, []) (xs, img, ts)"
    and "\<nexists>s. thread_step ci (img, ts) s"
  shows "ts = [] \<and> bd_count (bulkdata img) = length xs \<and>
    (aborted (bulkdata img) \<or> bd_finished (bulkdata img) = length xs)"
proof -
  note inv = reachable_run [OF assms(1,2)]
  have "\<nexists>s. thread_step (job_ci (job_of ci img0)) (img, ts) s" using assms(3) by (simp add: job_of_def)
  from stuck_run [OF inv this] run_parts(3) [OF inv] show ?thesis by simp
qed

theorem bulk_threads_complete_witness:
  "\<exists>img. (bulk_step null_compressor_vmt)\<^sup>*\<^sup>* ([], demo_image, [])
       (demo_submissions @ [(libsqfs_closing_piece_vmt, null_piece)], img, []) \<and>
     \<not> aborted (bulkdata img) \<and> bd_finished (bulkdata img) = 3"
proof -
  obtain img where r: "(bulk_step null_compressor_vmt)\<^sup>*\<^sup>* ([], demo_image, [])
      (demo_submissions @ [(libsqfs_closing_piece_vmt, null_piece)], img, [])" "run_finished img"
    using demo_run by blast
  have "\<nexists>s. thread_step null_compressor_vmt (img, []) s"
    by (rule finished_idle [OF reachable_run [OF demo_fresh r(1)] r(2)])
  from bulk_threads_complete [OF demo_fresh r(1) this] r(2)
  have "\<not> aborted (bulkdata img) \<and> bd_finished (bulkdata img) = 3" by (simp add: run_finished_def)
  with r(1) show ?thesis by (intro exI [of _ img] conjI) simp_all
qed



text \<open>C3: the output does not depend on the threads. Two complete runs from the same image, with the same
  submissions, leave the same output, of the same size, the same fragment table, and the same
  places of all blocks and pieces, however their steps were interleaved.\<close>

theorem bulk_output_deterministic:
  assumes "fresh_run ci img0"
    and "(bulk_step ci)\<^sup>*\<^sup>* ([], img0, []) (xs, img1, [])" "run_finished img1"
    and "(bulk_step ci)\<^sup>*\<^sup>* ([], img0, []) (xs, img2, [])" "run_finished img2"
  shows "dst img1 = dst img2 \<and> img_size img1 = img_size img2 \<and>
    map fragment_table_entry (fragment_blocks (bulkdata img1)) = map fragment_table_entry (fragment_blocks (bulkdata img2)) \<and>
    map chunk_place (bd_chunks (bulkdata img1)) = map chunk_place (bd_chunks (bulkdata img2))"
  using finished_same [OF reachable_run [OF assms(1,2)] assms(3) reachable_run [OF assms(1,4)] assms(5)] by blast

theorem bulk_output_deterministic_witness:
  "\<exists>img1 img2. (bulk_step null_compressor_vmt)\<^sup>*\<^sup>* ([], demo_image, [])
       (demo_submissions @ [(libsqfs_closing_piece_vmt, null_piece)], img1, []) \<and>
     (bulk_step null_compressor_vmt)\<^sup>*\<^sup>* ([], demo_image, [])
       (demo_submissions @ [(libsqfs_closing_piece_vmt, null_piece)], img2, []) \<and>
     run_finished img1 \<and> run_finished img2 \<and> dst img1 = dst img2"
  using bulk_output_deterministic [OF demo_fresh] demo_run demo_run_interleaved by blast

text \<open>C8: the data is in the image. After a complete run over a file as output, with a compressor that loses
  nothing, every block and every fragment piece is read back, from the place where the image says
  it is, as the bytes of the data source: a block by its offset, size and compression flag, a piece
  by its fragment block and its offset in it.\<close>

theorem bulk_data_stored:
  assumes "fresh_run ci img0" "options_ok (img_options img0)" "file_dest_ok (dst img0)"
    and "lossless_codec f decomp" "vmt_compress ci = Some f"
    and "(bulk_step ci)\<^sup>*\<^sup>* ([], img0, []) (xs @ [(libsqfs_closing_piece_vmt, e)], img, [])" "run_finished img"
    and "\<forall>x \<in> set xs. data_ok (piece_data (snd x))" "\<forall>x \<in> set xs. fst x \<noteq> libsqfs_closing_piece_vmt"
  shows "map (read_chunk decomp img) (take (length xs) (bd_chunks (bulkdata img))) = map (\<lambda>x. piece_bytes (snd x)) xs"
proof -
  note inv = reachable_run [OF assms(1,6)]
  have size: "job_block_size (job_of ci img0) < 2 ^ 64" using options_block_size [OF assms(2)] by (simp add: job_of_def)
  have "read_chunk decomp img (chunk_at img i) = piece_bytes (snd (xs ! i))" if i: "i < length xs" for i
  proof -
    have "read_chunk decomp img (chunk_at img i) = src_bytes (xs ! i)"
      using finished_reads [OF inv assms(7) _ assms(4) _ refl size, of i] assms(3,5,9) i
      by (auto simp: job_of_def nth_append)
    moreover have "src_bytes (xs ! i) = piece_bytes (snd (xs ! i))"
      using assms(8) i by (intro src_bytes_ok) simp
    ultimately show ?thesis by simp
  qed
  then show ?thesis using run_parts(3) [OF inv] by (intro nth_equalityI) simp_all
qed

theorem bulk_data_stored_witness:
  "\<exists>img. (bulk_step null_compressor_vmt)\<^sup>*\<^sup>* ([], demo_image, [])
       (demo_submissions @ [(libsqfs_closing_piece_vmt, null_piece)], img, []) \<and>
     map (read_chunk (\<lambda>bs. bs) img) (take 2 (bd_chunks (bulkdata img))) = [[7, 7], [1, 2, 3]]"
proof -
  obtain img where r: "(bulk_step null_compressor_vmt)\<^sup>*\<^sup>* ([], demo_image, [])
      (demo_submissions @ [(libsqfs_closing_piece_vmt, null_piece)], img, [])" "run_finished img"
    using demo_run by blast
  have o: "options_ok (img_options demo_image)" "file_dest_ok (dst demo_image)"
    by (simp_all add: demo_image_def libsqfs_image_options_defaults_def libsqfs_compressor_copy_def options_ok_def
        demo_out_def demo_file_def)
  have v: "vmt_compress null_compressor_vmt = Some null_compressor_instance_compress" by (simp add: null_compressor_vmt_def)
  have s: "\<forall>x \<in> set demo_submissions. data_ok (piece_data (snd x))"
    "\<forall>x \<in> set demo_submissions. fst x \<noteq> libsqfs_closing_piece_vmt" by simp_all
  have l: "length demo_submissions = 2" "map (\<lambda>x. piece_bytes (snd x)) demo_submissions = [[7, 7], [1, 2, 3]]"
    by (simp_all add: slice_def)
  have "map (read_chunk (\<lambda>bs. bs) img) (take 2 (bd_chunks (bulkdata img))) = [[7, 7], [1, 2, 3]]"
    by (rule bulk_data_stored [OF demo_fresh o null_codec.lossless_codec_axioms v r s, unfolded l])
  with r(1) show ?thesis by (intro exI [of _ img] conjI)
qed

end
