(* ===== verification/Bulkfile.thy ===== *)
theory Bulkfile
  imports Bulkresult Regular
begin

text \<open>
  Regular files through the bulk data: the chunks that creating a file submits (Regular), the run of
  the threads (Bulkresult), and a reader that knows only what the inode and the fragment table say.
\<close>

section \<open>Creating a file\<close>

text \<open>With memory available, creating a file is a run of submissions and of other work on the image.\<close>

lemma submit_block_step:
  assumes "mem img = []" "\<forall>x \<in> set xs. fst x \<noteq> libsqfs_closing_piece_vmt" "0 < piece_size d"
  shows "\<exists>img'. libsqfs_bulkdata_sumbit d img = (Some (bd_count (bulkdata img)), img') \<and> mem img' = [] \<and>
    img_options img' = img_options img \<and> bulk_step ci (xs, img, ts) (xs @ [(libsqfs_full_block_vmt, d)], img', ts)"
  using bulk_step.submit [OF assms(2,3), of ci img ts] assms(1)
  by (simp add: libsqfs_bulkdata_sumbit_def Let_def)

lemma submit_fragment_step:
  assumes "mem img = []" "\<forall>x \<in> set xs. fst x \<noteq> libsqfs_closing_piece_vmt" "0 < piece_size d"
    "piece_size d \<le> block_size (img_options img)"
  shows "\<exists>img'. libsqfs_bulkdata_submit_fragment d img = (Some (bd_count (bulkdata img)), img') \<and> mem img' = [] \<and>
    bulk_step ci (xs, img, ts) (xs @ [(libsqfs_fragment_piece_vmt, d)], img', ts)"
  using bulk_step.submit_fragment [OF assms(2-4), of ci ts] assms(1)
  by (simp add: libsqfs_bulkdata_submit_fragment_def Let_def)

lemma upd_regular_step: "bulk_step ci (xs, img, ts) (xs, upd_regular i f img, ts)"
  by (rule bulk_step.client) (simp_all add: upd_regular_def upd_inode_def)

lemma upd_regular_mem: "mem (upd_regular i f img) = mem img"
  by (simp add: upd_regular_def upd_inode_def)

lemma submit_blocks_steps:
  assumes "mem img = []" "\<forall>x \<in> set xs. fst x \<noteq> libsqfs_closing_piece_vmt" "0 < block_size (img_options img)"
    "\<forall>n \<in> set ns. n * block_size (img_options img) < fsize"
  shows "\<exists>img'. submit_blocks i data fsize ns img = (True, img') \<and> mem img' = [] \<and> img_options img' = img_options img \<and>
    (bulk_step ci)\<^sup>*\<^sup>* (xs, img, ts)
      (xs @ map (\<lambda>n. (libsqfs_full_block_vmt, block_piece (block_size (img_options img)) data fsize n)) ns, img', ts)"
  using assms
proof (induction ns arbitrary: xs img)
  case (Cons n ns)
  let ?d = "block_piece (block_size (img_options img)) data fsize n"
  have "0 < piece_size ?d" using block_piece_bounds Cons.prems(3,4) by simp
  from submit_block_step [OF Cons.prems(1,2) this, of ci ts] obtain img1 where
    s: "libsqfs_bulkdata_sumbit ?d img = (Some (bd_count (bulkdata img)), img1)" "mem img1 = []" "img_options img1 = img_options img"
    "bulk_step ci (xs, img, ts) (xs @ [(libsqfs_full_block_vmt, ?d)], img1, ts)" by blast
  let ?img = "upd_regular i (\<lambda>reg. reg\<lparr>reg_blocks := (reg_blocks reg)[n := Some (bd_count (bulkdata img))]\<rparr>) img1"
  have "\<exists>img'. submit_blocks i data fsize ns ?img = (True, img') \<and> mem img' = [] \<and> img_options img' = img_options ?img \<and>
    (bulk_step ci)\<^sup>*\<^sup>* (xs @ [(libsqfs_full_block_vmt, ?d)], ?img, ts)
      ((xs @ [(libsqfs_full_block_vmt, ?d)]) @
        map (\<lambda>n. (libsqfs_full_block_vmt, block_piece (block_size (img_options ?img)) data fsize n)) ns, img', ts)"
    using Cons.prems s(2,3) by (intro Cons.IH) (auto simp: upd_regular_frame upd_regular_mem)
  moreover have "(bulk_step ci)\<^sup>*\<^sup>* (xs, img, ts) (xs @ [(libsqfs_full_block_vmt, ?d)], ?img, ts)"
    using s(4) upd_regular_step by (blast intro: rtranclp.rtrancl_into_rtrancl)
  ultimately show ?case using s(1,3) by (fastforce simp: upd_regular_frame intro: rtranclp_trans)
qed simp

lemma regular_create_steps:
  assumes data: "data_ok data" and opts: "options_ok (img_options img)"
    and m: "mem img = []" and xs: "\<forall>x \<in> set xs. fst x \<noteq> libsqfs_closing_piece_vmt"
  shows "\<exists>i img'. libsqfs_regular_inode_create attr data img = (Some i, img') \<and>
    (bulk_step ci)\<^sup>*\<^sup>* (xs, img, ts) (xs @ file_chunks (img_options img) data (length (data_bytes data)), img', ts)"
proof -
  let ?fsize = "length (data_bytes data)" and ?bs = "block_size (img_options img)"
  have bs: "0 < ?bs" using opts by (simp add: options_ok_def)
  have get: "libsqfs_data_get_size data = (int ?fsize, None)" by (rule get_size_ok [OF data])
  obtain nblocks tail_size where layout: "regular_layout (img_options img) ?fsize = (nblocks, tail_size)" by force
  note cover = regular_layout_cover [OF bs layout]
  let ?reg = "\<lparr>file_size = of_nat ?fsize, sparse_size = 0, reg_blocks = replicate nblocks None, tail_piece = None\<rparr>"
  obtain i img1 where init: "libsqfs_inode_init (Regular_Inode ?reg) attr img = (i, img1)" by force
  have f1: "bulkdata img1 = bulkdata img" "mem img1 = []" "dst img1 = dst img" "img_size img1 = img_size img"
    "img_options img1 = img_options img"
    using init m by (auto simp: libsqfs_inode_init_def Let_def)
  let ?blocks = "map (\<lambda>n. (libsqfs_full_block_vmt, block_piece ?bs data ?fsize n)) [0..<nblocks]"
  have "\<exists>img2. submit_blocks i data ?fsize [0..<nblocks] img1 = (True, img2) \<and> mem img2 = [] \<and> img_options img2 = img_options img1 \<and>
    (bulk_step ci)\<^sup>*\<^sup>* (xs, img1, ts)
      (xs @ map (\<lambda>n. (libsqfs_full_block_vmt, block_piece (block_size (img_options img1)) data ?fsize n)) [0..<nblocks], img2, ts)"
    using cover bs by (intro submit_blocks_steps f1(2) xs) (simp_all add: f1(5))
  then obtain img2 where s: "submit_blocks i data ?fsize [0..<nblocks] img1 = (True, img2)" "mem img2 = []" "img_options img2 = img_options img"
    "(bulk_step ci)\<^sup>*\<^sup>* (xs, img1, ts) (xs @ ?blocks, img2, ts)" unfolding f1(5) by blast
  have "bulk_step ci (xs, img, ts) (xs, img1, ts)" by (rule bulk_step.client) (simp_all add: f1 m)
  with s(4) have run: "(bulk_step ci)\<^sup>*\<^sup>* (xs, img, ts) (xs @ ?blocks, img2, ts)"
    by (rule converse_rtranclp_into_rtranclp [rotated])
  show ?thesis
  proof (cases "tail_size = 0")
    case True
    then have "libsqfs_regular_inode_create attr data img = (Some i, img2)"
      using s(1) init by (simp add: libsqfs_regular_inode_create_def get layout m mem_same Let_def)
    then show ?thesis using run True by (auto simp: file_chunks_def layout)
  next
    case False
    let ?d = "Piece data tail_size (?fsize - tail_size)"
    have "\<forall>x \<in> set (xs @ ?blocks). fst x \<noteq> libsqfs_closing_piece_vmt" using xs by auto
    from submit_fragment_step [OF s(2) this, of ?d ci ts] False cover s(3) obtain img3 where
      f: "libsqfs_bulkdata_submit_fragment ?d img2 = (Some (bd_count (bulkdata img2)), img3)"
      "bulk_step ci (xs @ ?blocks, img2, ts) ((xs @ ?blocks) @ [(libsqfs_fragment_piece_vmt, ?d)], img3, ts)" by auto
    let ?img = "upd_regular i (\<lambda>reg. reg\<lparr>tail_piece := Some (bd_count (bulkdata img2))\<rparr>) img3"
    have "libsqfs_regular_inode_create attr data img = (Some i, ?img)"
      using s(1) init f(1) False by (simp add: libsqfs_regular_inode_create_def get layout m mem_same Let_def)
    moreover have "(bulk_step ci)\<^sup>*\<^sup>* (xs, img, ts) ((xs @ ?blocks) @ [(libsqfs_fragment_piece_vmt, ?d)], ?img, ts)"
      using run f(2) upd_regular_step by (blast intro: rtranclp.rtrancl_into_rtrancl)
    ultimately show ?thesis using False by (auto simp: file_chunks_def layout)
  qed
qed

section \<open>A reader\<close>

text \<open>
  A reader finds the blocks of a file one after the other, from the start block on, by the sizes in the
  inode, and the tail by the fragment table.
\<close>

fun read_blocks :: "(byte list \<Rightarrow> byte list) \<Rightarrow> byte list \<Rightarrow> u64 \<Rightarrow> u32 list \<Rightarrow> byte list" where
  "read_blocks decomp d start [] = []"
| "read_blocks decomp d start (w # ws) =
     unstored decomp (SQUASHFS_COMPRESSED_BLOCK w) (slice (unat start) (SQUASHFS_COMPRESSED_SIZE_BLOCK w) d) @
     read_blocks decomp d (start + of_nat (SQUASHFS_COMPRESSED_SIZE_BLOCK w)) ws"

definition read_tail ::
    "(byte list \<Rightarrow> byte list) \<Rightarrow> byte list \<Rightarrow> squashfs_fragment_entry list \<Rightarrow> u32 \<times> u32 \<Rightarrow> nat \<Rightarrow> byte list" where
  "read_tail decomp d table fragment n =
     (if fst fragment = -1 then []
      else let e = table ! unat (fst fragment) in
        slice (unat (snd fragment)) n
          (read_blocks decomp d (fragment_entry_start_block e) [fragment_entry_size e]))"

definition read_regular ::
    "(byte list \<Rightarrow> byte list) \<Rightarrow> byte list \<Rightarrow> squashfs_fragment_entry list \<Rightarrow> u64 \<Rightarrow> u32 list \<Rightarrow> u32 \<times> u32 \<Rightarrow> nat \<Rightarrow> byte list" where
  "read_regular decomp d table start infos fragment fsize =
     (let blocks = read_blocks decomp d start infos in
      blocks @ read_tail decomp d table fragment (fsize - length blocks))"

lemma stored_form_length:
  assumes "lossless_codec f decomp" "vmt_compress ci = Some f" "stored_form ci compress src = (b, z)"
  shows "length b \<le> length src"
  using assms(2,3) lossless_codec.comp_fits [OF assms(1)]
  by (auto simp: stored_form_def libsqfs_compressor_instance_compress_def split: if_splits option.splits)

lemma read_block_word:
  assumes "ib_size b < 2 ^ 24"
  shows "read_blocks decomp (dest_bytes d) (ib_offset b) (block_size_word (ib_size b) (ib_compressed b) # ws) =
    read_block decomp d b @ read_blocks decomp (dest_bytes d) (ib_offset b + of_nat (ib_size b)) ws"
  by (simp add: read_block_def block_size_word_macros [OF assms])

abbreviation block_word :: "libsqfs_image_block \<Rightarrow> u32" where
  "block_word b \<equiv> block_size_word (ib_size b) (ib_compressed b)"

text \<open>The facts about a complete run that a reader needs.\<close>

definition readable_run ::
    "(byte list \<Rightarrow> byte list) \<Rightarrow> bulk_job \<Rightarrow> submission list \<Rightarrow> 'a sqfs_bulk_scheme \<Rightarrow> bool" where
  "readable_run decomp J zs img \<longleftrightarrow> run_inv J zs img [] \<and> run_finished img \<and> file_dest_ok (job_dst J) \<and>
     (\<exists>f. lossless_codec f decomp \<and> vmt_compress (job_ci J) = Some f) \<and> job_block_size J \<le> 2 ^ 20 \<and>
     (\<exists>ys e. zs = ys @ [(libsqfs_closing_piece_vmt, e)])"

lemma readable_block:
  assumes rd: "readable_run decomp J zs img" and kept: "disk_kept J img later"
    and i: "i < length zs" "fst (zs ! i) = libsqfs_full_block_vmt" "piece_size (snd (zs ! i)) \<le> job_block_size J"
  shows "ib_size (ck_dst (chunk_at img i)) < 2 ^ 24" "ib_offset (ck_dst (chunk_at img i)) = output_offset J zs i"
    "output_offset J zs (Suc i) = output_offset J zs i + of_nat (ib_size (ck_dst (chunk_at img i)))"
    "read_block decomp later (ck_dst (chunk_at img i)) = src_bytes (zs ! i)"
proof -
  obtain f where r: "run_inv J zs img []" "run_finished img" "file_dest_ok (job_dst J)" "lossless_codec f decomp"
    "vmt_compress (job_ci J) = Some f" "job_block_size J \<le> 2 ^ 20" using rd by (auto simp: readable_run_def)
  obtain b z where bz: "stored_form (job_ci J) (job_compress_blocks J) (src_bytes (zs ! i)) = (b, z)" by force
  have out: "chunk_output J zs i = Some (b, z)" using i(2) bz by (simp add: chunk_output_def)
  have len: "length (src_bytes (zs ! i)) = piece_size (snd (zs ! i))" by (rule finished_source [OF r(1,2) i(1)]) (simp add: i(2))
  have "block_place (ck_dst (chunk_at img i)) = (output_offset J zs i, length b, z)"
    using finished_block [OF r(1,2) i(1) out] i(2) by (simp add: written_block_def)
  then show "ib_size (ck_dst (chunk_at img i)) < 2 ^ 24" "ib_offset (ck_dst (chunk_at img i)) = output_offset J zs i"
    "output_offset J zs (Suc i) = output_offset J zs i + of_nat (ib_size (ck_dst (chunk_at img i)))"
    using stored_form_length [OF r(4,5) bz] len i(3) r(6) out by (simp_all add: block_place_def output_size_def)
  show "read_block decomp later (ck_dst (chunk_at img i)) = src_bytes (zs ! i)"
    using read_written [OF r(1-5) kept i(1) out [folded bz]] i(2) by (simp add: written_block_def)
qed

lemma readable_blocks:
  assumes rd: "readable_run decomp J zs img" and kept: "disk_kept J img later"
    and "\<forall>k < n. c + k < length zs \<and> fst (zs ! (c + k)) = libsqfs_full_block_vmt \<and>
      piece_size (snd (zs ! (c + k))) \<le> job_block_size J"
  shows "read_blocks decomp (dest_bytes later) (output_offset J zs c) (map (\<lambda>i. block_word (ck_dst (chunk_at img i))) [c..<c + n]) =
    concat (map (\<lambda>i. src_bytes (zs ! i)) [c..<c + n])"
  using assms(3)
proof (induction n arbitrary: c)
  case (Suc n)
  have c: "c < length zs" "fst (zs ! c) = libsqfs_full_block_vmt" "piece_size (snd (zs ! c)) \<le> job_block_size J"
    using Suc.prems by (metis add.right_neutral zero_less_Suc)+
  have "\<forall>k < n. Suc c + k < length zs \<and> fst (zs ! (Suc c + k)) = libsqfs_full_block_vmt \<and>
      piece_size (snd (zs ! (Suc c + k))) \<le> job_block_size J"
    using Suc.prems by (metis Suc_less_eq add_Suc_shift)
  note IH = Suc.IH [OF this] and b = readable_block [OF rd kept c]
  have "[c..<c + Suc n] = c # [Suc c..<Suc c + n]" by (simp add: upt_rec)
  then show ?case using read_block_word [OF b(1), of decomp later] IH b by (simp del: read_blocks.simps(2))
qed simp

text \<open>The tail of a file, in its fragment block.\<close>

lemma fragment_entry_word: "fragment_entry_start_block (fragment_table_entry fb) = ib_offset (fb_dst fb)"
  "fragment_entry_size (fragment_table_entry fb) = block_word (fb_dst fb)"
  by (simp_all add: fragment_table_entry_def block_size_word_def Let_def)

lemma readable_fragment_size:
  assumes rd: "readable_run decomp J zs img" and j: "j < length (fragment_blocks (bulkdata img))"
  shows "ib_size (fb_dst (fragment_blocks (bulkdata img) ! j)) < 2 ^ 24"
proof -
  let ?bs = "job_block_size J"
  obtain f ys e where r: "run_inv J zs img []" "run_finished img" "file_dest_ok (job_dst J)" "lossless_codec f decomp"
    "vmt_compress (job_ci J) = Some f" "?bs \<le> 2 ^ 20" "zs = ys @ [(libsqfs_closing_piece_vmt, e)]"
    using rd by (auto simp: readable_run_def)
  have "length (fragment_blocks (bulkdata img)) = length (plan_upto ?bs zs (length zs))"
    using finished_run(6) [OF r(1,2)] by (metis length_map)
  with j sealed_flusher [OF r(7), of j ?bs] obtain m where m: "m < length zs" "plan_flush ?bs zs m"
    "length (plan_upto ?bs zs m) = Suc j" by auto
  let ?p = "last (plan_upto ?bs zs m)"
  have blk: "?p \<in> set (plan_upto ?bs zs m)" using m(3) by (cases "plan_upto ?bs zs m" rule: rev_cases) simp_all
  have "length (src_bytes (zs ! k)) = piece_size (snd (zs ! k))" if "k \<in> set (fst ?p)" for k
    using plan_pieces [OF blk] that m(1) by (intro finished_source [OF r(1,2)]) auto
  then have "map (\<lambda>k. length (src_bytes (zs ! k))) (fst ?p) = map (\<lambda>k. piece_size (snd (zs ! k))) (fst ?p)"
    by (rule map_cong [OF refl])
  then have "length (block_content ?bs zs m) = snd ?p"
    unfolding plan_sizes [OF blk] block_content_def length_concat map_map comp_def by (rule arg_cong)
  moreover have "snd ?p \<le> ?bs"
    using run_parts(1) [OF r(1)] m(1) by (intro plan_fits [OF blk]) (simp add: submissions_ok_def)
  moreover obtain b z where bz: "stored_form (job_ci J) (job_compress_fragments J) (block_content ?bs zs m) = (b, z)" by force
  moreover have out: "chunk_output J zs m = Some (b, z)" using m(2) plan_flush_full [OF m(2)] bz by (simp add: chunk_output_def)
  ultimately show ?thesis
    using finished_block [OF r(1,2) m(1) out] finished_fragment(1) [OF r(1,2) j m] stored_form_length [OF r(4,5) bz] r(6)
    by (simp add: block_place_def)
qed

lemma readable_tail:
  assumes rd: "readable_run decomp J zs img" and kept: "disk_kept J img later" and i: "i < length zs" "fst (zs ! i) = libsqfs_fragment_piece_vmt"
    and few: "length (fragment_blocks (bulkdata img)) < 2 ^ 32 - 1"
  shows "\<exists>j. ck_fragment_block (chunk_at img i) = Some j \<and> j < length (fragment_blocks (bulkdata img)) \<and>
    unat (of_nat j :: u32) = j \<and> read_tail decomp (dest_bytes later) (map fragment_table_entry (fragment_blocks (bulkdata img)))
      (of_nat j, ucast (ck_offset (chunk_at img i))) (piece_size (snd (zs ! i))) = src_bytes (zs ! i)"
proof -
  let ?bs = "job_block_size J"
  obtain f ys e where r: "run_inv J zs img []" "run_finished img" "file_dest_ok (job_dst J)" "lossless_codec f decomp"
    "vmt_compress (job_ci J) = Some f" "?bs \<le> 2 ^ 20" "zs = ys @ [(libsqfs_closing_piece_vmt, e)]"
    using rd by (auto simp: readable_run_def)
  have size: "?bs < 2 ^ 64" using r(6) by simp
  obtain j where j: "ck_fragment_block (chunk_at img i) = Some j" "j < length (fragment_blocks (bulkdata img))"
      "unat (ck_offset (chunk_at img i)) \<le> ?bs"
    and tail: "slice (unat (ck_offset (chunk_at img i))) (piece_size (snd (zs ! i)))
      (read_block decomp later (fb_dst (fragment_blocks (bulkdata img) ! j))) = src_bytes (zs ! i)"
    using finished_piece_reads [OF r(1-5) kept r(7) size i] by blast
  have n: "unat (of_nat j :: u32) = j" using j(2) few by (simp add: unsigned_of_nat take_bit_nat_eq_self)
  moreover have "unat (-1 :: u32) = 2 ^ 32 - 1" by (simp add: unsigned_minus_1_eq_mask mask_eq_exp_minus_1)
  then have "(of_nat j :: u32) \<noteq> -1" using n j(2) few by (metis less_irrefl less_trans)
  moreover have "unat (ucast (ck_offset (chunk_at img i)) :: u32) = unat (ck_offset (chunk_at img i))"
    using j(3) r(6) by (simp add: unsigned_ucast_eq take_bit_nat_eq_self)
  moreover note read_block_word [OF readable_fragment_size [OF rd j(2)], of decomp later "[]"]
  ultimately show ?thesis using j(1,2) n tail by (intro exI [of _ j]) (simp add: read_tail_def Let_def fragment_entry_word del: read_blocks.simps(2))
qed

section \<open>The chunks of a file in a run\<close>

lemma bulk_steps_extend:
  assumes "(bulk_step ci)\<^sup>*\<^sup>* (xs, img, ts) (ys, img', ts')"
  shows "\<exists>rest. ys = xs @ rest"
  using assms
proof (induction "(ys, img', ts')" arbitrary: ys img' ts' rule: rtranclp_induct)
  case (step s)
  obtain zs img1 ts1 where s: "s = (zs, img1, ts1)" by (cases s)
  from step(2) obtain new where "ys = zs @ new" unfolding s by (auto elim: bulk_stepE)
  then show ?case using step(3) [OF s] by auto
qed simp

lemma submissions_run:
  assumes "run_inv J xs img ts"
  shows "submissions img = xs"
proof (rule nth_equalityI)
  show "length (submissions img) = length xs" using run_parts(3) [OF assms] by simp
  fix i assume "i < length (submissions img)"
  then show "submissions img ! i = xs ! i"
    using run_parts(8) [OF assms, of i] run_parts(3) [OF assms] by (cases "xs ! i") (simp add: chunk_inv_def)
qed

lemma block_infos_map: "block_infos (map (\<lambda>n. Some (f n)) ns) = Some (map (\<lambda>n. block_word (f n)) ns)"
  by (induction ns) simp_all

lemma upt_shift: "map (\<lambda>n. g (c + n)) [0..<k] = map g [c..<c + k]"
  by (induction k) simp_all

lemma file_chunks_nth:
  assumes "regular_layout options fsize = (nblocks, tail_size)"
  shows "k < nblocks \<Longrightarrow> file_chunks options data fsize ! k = (libsqfs_full_block_vmt, block_piece (block_size options) data fsize k)"
    "tail_size \<noteq> 0 \<Longrightarrow> file_chunks options data fsize ! nblocks = (libsqfs_fragment_piece_vmt, Piece data tail_size (fsize - tail_size))"
    "length (file_chunks options data fsize) = nblocks + (if tail_size \<noteq> 0 then 1 else 0)"
  using assms by (simp_all add: file_chunks_def nth_append)

lemma file_chunks_split:
  assumes "regular_layout options fsize = (nblocks, tail_size)"
  shows "map g (file_chunks options data fsize) = map (\<lambda>k. g (file_chunks options data fsize ! k)) [0..<nblocks] @
    (if tail_size \<noteq> 0 then [g (file_chunks options data fsize ! nblocks)] else [])"
  by (rule nth_equalityI) (auto simp: file_chunks_nth [OF assms] nth_append less_Suc_eq)

text \<open>Reading a file whose chunks stand at \<open>c\<close> in the submissions of a complete run.\<close>

lemma file_reads:
  assumes rd: "readable_run decomp J zs img" and kept: "disk_kept J img later"
    and zs: "zs = xs @ file_chunks options data (length (data_bytes data)) @ rest"
    and data: "data_ok data" and bs: "0 < block_size options" "block_size options = job_block_size J"
    and layout: "regular_layout options (length (data_bytes data)) = (nblocks, tail_size)"
    and few: "length (fragment_blocks (bulkdata img)) < 2 ^ 32 - 1"
    and reg: "reg_blocks reg = map Some [length xs..<length xs + nblocks]"
      "tail_piece reg = (if tail_size \<noteq> 0 then Some (length xs + nblocks) else None)"
  shows "\<exists>start fragment infos. start_block_of reg img = Some start \<and> fragment_of reg img = Some fragment \<and>
    block_infos (map (\<lambda>n. block_dst reg n img) [0..<length (reg_blocks reg)]) = Some infos \<and>
    length infos = nblocks \<and> (if tail_size = 0 then fst fragment = -1
      else fst fragment \<noteq> -1 \<and> unat (fst fragment) < length (fragment_blocks (bulkdata img))) \<and>
    read_regular decomp (dest_bytes later) (map fragment_table_entry (fragment_blocks (bulkdata img))) start infos fragment
      (length (data_bytes data)) = data_bytes data"
proof -
  let ?fsize = "length (data_bytes data)" and ?c = "length xs" and ?d = "dest_bytes later"
    and ?table = "map fragment_table_entry (fragment_blocks (bulkdata img))"
  let ?chunks = "file_chunks options data ?fsize"
  note n = file_chunks_nth [OF layout, where data = data] and correct = file_chunks_correct [OF refl bs(1), of data]
  have at: "?c + k < length zs \<and> zs ! (?c + k) = ?chunks ! k" if "k < length ?chunks" for k
    using that zs by (simp add: nth_append)
  have src: "src_bytes (zs ! (?c + k)) = piece_bytes (snd (?chunks ! k))" if k: "k < length ?chunks" for k
  proof -
    have "data_ok (piece_data (snd (?chunks ! k)))" using k n data
      by (cases "k < nblocks") (auto simp: block_piece_def Let_def split: if_splits dest: less_antisym)
    then show ?thesis using at [OF k] src_bytes_ok [of "?chunks ! k"] by simp
  qed
  have sz: "piece_size (snd (?chunks ! k)) \<le> job_block_size J" if "k < length ?chunks" for k
    using correct(2) nth_mem [OF that] bs(2) by simp
  let ?infos = "map (\<lambda>i. block_word (ck_dst (chunk_at img i))) [?c..<?c + nblocks]"
  define blocks where "blocks = concat (map (\<lambda>k. piece_bytes (snd (?chunks ! k))) [0..<nblocks])"
  have "read_blocks decomp ?d (output_offset J zs ?c) ?infos = concat (map (\<lambda>i. src_bytes (zs ! i)) [?c..<?c + nblocks])"
  proof (rule readable_blocks [OF rd kept], intro allI impI)
    fix k assume "k < nblocks"
    then have k: "k < length ?chunks" "fst (?chunks ! k) = libsqfs_full_block_vmt" using n(1,3) by simp_all
    show "?c + k < length zs \<and> fst (zs ! (?c + k)) = libsqfs_full_block_vmt \<and> piece_size (snd (zs ! (?c + k))) \<le> job_block_size J"
      using at [OF k(1)] sz [OF k(1)] k(2) by simp
  qed
  also have "\<dots> = blocks" unfolding blocks_def upt_shift [symmetric] using src n(3)
    by (intro arg_cong [where f = concat] map_cong) auto
  finally have rb: "read_blocks decomp ?d (output_offset J zs ?c) ?infos = blocks" .
  have infos: "block_infos (map (\<lambda>k. block_dst reg k img) [0..<length (reg_blocks reg)]) = Some ?infos"
  proof -
    have e: "map (\<lambda>k. block_dst reg k img) [0..<length (reg_blocks reg)] = map (\<lambda>k. Some (ck_dst (chunk_at img (?c + k)))) [0..<nblocks]"
      using reg(1) by (auto simp: block_dst_def)
    show ?thesis unfolding e block_infos_map by (simp only: upt_shift [of "\<lambda>i. block_word (ck_dst (chunk_at img i))"])
  qed
  obtain start where start: "start_block_of reg img = Some start" "read_blocks decomp ?d start ?infos = blocks"
  proof (cases "nblocks = 0")
    case True
    with rb reg(1) that [of 0] show ?thesis by (simp add: start_block_of_def)
  next
    case False
    then have "ib_offset (ck_dst (chunk_at img ?c)) = output_offset J zs ?c"
      using at [of 0] sz [of 0] n by (intro readable_block(2) [OF rd kept]) simp_all
    with False rb reg(1) that [of "output_offset J zs ?c"] show ?thesis by (simp add: start_block_of_def block_dst_def)
  qed
  have all: "concat (map (\<lambda>x. piece_bytes (snd x)) ?chunks) = data_bytes data" by (rule correct(1))
  show ?thesis
  proof (cases "tail_size = 0")
    case True
    then have "blocks = data_bytes data" using all file_chunks_split [OF layout, where data = data and g = "\<lambda>x. piece_bytes (snd x)"] by (simp add: blocks_def)
    with start True reg(2) infos show ?thesis
      by (intro exI [of _ start] exI [of _ "(-1, 0)"] exI [of _ ?infos]) (simp add: fragment_of_def read_regular_def read_tail_def)
  next
    case False
    then have t: "nblocks < length ?chunks" "?chunks ! nblocks = (libsqfs_fragment_piece_vmt, Piece data tail_size (?fsize - tail_size))"
      using n by simp_all
    have split: "blocks @ piece_bytes (snd (?chunks ! nblocks)) = data_bytes data"
      using all file_chunks_split [OF layout, where data = data and g = "\<lambda>x. piece_bytes (snd x)"] False by (simp add: blocks_def)
    have "tail_size \<le> ?fsize" using correct(2) nth_mem [OF t(1)] t(2) by fastforce
    then have "length (piece_bytes (snd (?chunks ! nblocks))) = tail_size" using t(2) by (simp add: slice_def)
    then have len: "?fsize - length blocks = tail_size" using split by (metis add_diff_cancel_left' length_append)
    obtain j where j: "ck_fragment_block (chunk_at img (?c + nblocks)) = Some j"
      "j < length (fragment_blocks (bulkdata img))" "unat (of_nat j :: u32) = j"
      "read_tail decomp ?d ?table (of_nat j, ucast (ck_offset (chunk_at img (?c + nblocks)))) tail_size =
        src_bytes (zs ! (?c + nblocks))"
      using readable_tail [OF rd kept _ _ few, of "?c + nblocks"] at [OF t(1)] t(2) by auto
    have "fragment_of reg img = Some (of_nat j, ucast (ck_offset (chunk_at img (?c + nblocks))))"
      using reg(2) False j(1) by (simp add: fragment_of_def)
    moreover have "unat (-1 :: u32) = 2 ^ 32 - 1" by (simp add: unsigned_minus_1_eq_mask mask_eq_exp_minus_1)
    then have "(of_nat j :: u32) \<noteq> -1" using j(2,3) few by (metis less_irrefl less_trans)
    moreover have "unat (of_nat j :: u32) < length (fragment_blocks (bulkdata img))" using j(2,3) by simp
    moreover have "length ?infos = nblocks" by simp
    ultimately show ?thesis using start infos j(4) src [OF t(1)] split len False
      by (intro exI [of _ start] exI [of _ "(of_nat j, ucast (ck_offset (chunk_at img (?c + nblocks))))"] exI [of _ ?infos])
        (simp add: read_regular_def)
  qed
qed

section \<open>Properties\<close>

text \<open>C2: the contents of a file can be read back from the image. Let a regular file be created at any time
  before the bulk data is sealed, with memory available, and let the run be completed, with any number of
  threads and whatever else is submitted before and after. Then the start block and block sizes and
  the fragment reference that go into the inode exist, and a reader that only has these, the fragment
  table and the output finds exactly the bytes of the data source.\<close>

theorem regular_file_stored:
  assumes "fresh_run ci img0" "file_dest_ok (dst img0)" "lossless_codec f decomp" "vmt_compress ci = Some f"
    and "(bulk_step ci)\<^sup>*\<^sup>* ([], img0, []) (xs, img1, ts)" "may_add_chunks (bulkdata img1)"
    and "data_ok data" "length (data_bytes data) < 2 ^ 63" "options_ok (img_options img1)"
    and "libsqfs_regular_inode_create attr data img1 = (Some i, img2)"
    and "(bulk_step ci)\<^sup>*\<^sup>* (submissions img2, img2, ts) (ys @ [(libsqfs_closing_piece_vmt, e)], img, [])"
    and "run_finished img" "length (fragment_blocks (bulkdata img)) < 2 ^ 32 - 1"
  shows "\<exists>reg start fragment infos. has_regular img2 i reg \<and>
    start_block_of reg img = Some start \<and> fragment_of reg img = Some fragment \<and>
    block_infos (map (\<lambda>n. block_dst reg n img) [0..<length (reg_blocks reg)]) = Some infos \<and>
    read_regular decomp (dest_bytes (dst img)) (map fragment_table_entry (fragment_blocks (bulkdata img)))
      start infos fragment (unat (file_size reg)) = data_bytes data"
proof -
  let ?n = "length (data_bytes data)" and ?zs = "ys @ [(libsqfs_closing_piece_vmt, e)]"
  let ?chunks = "file_chunks (img_options img1) data ?n"
  note inv1 = reachable_run [OF assms(1,5)]
  have bs: "0 < block_size (img_options img1)" using assms(9) by (simp add: options_ok_def)
  have sub1: "submissions img1 = xs" "bd_count (bulkdata img1) = length xs"
    using submissions_run [OF inv1] run_parts(3) [OF inv1] by simp_all
  have "\<forall>x \<in> set xs. fst x \<noteq> libsqfs_closing_piece_vmt"
    using inv1 assms(6) unfolding run_inv_def by (metis in_set_conv_nth)
  from regular_create_steps [OF assms(7,9) run_parts(2) [OF inv1] this, of attr ci ts] assms(10)
  have create: "(bulk_step ci)\<^sup>*\<^sup>* (xs, img1, ts) (xs @ ?chunks, img2, ts)" by auto
  from regular_create_ok [OF assms(7,8,10)] obtain nb tl where layout: "regular_layout (img_options img1) ?n = (nb, tl)"
    and sub2: "submissions img2 = xs @ ?chunks"
    and reg: "has_regular img2 i \<lparr>file_size = of_nat ?n, sparse_size = 0, reg_blocks = map Some [length xs..<length xs + nb],
      tail_piece = (if tl \<noteq> 0 then Some (length xs + nb) else None)\<rparr>" unfolding sub1 by blast
  note rest = assms(11) [unfolded sub2]
  from bulk_steps_extend [OF rest] obtain more where zs: "?zs = xs @ ?chunks @ more" by auto
  note inv = reachable_run [OF assms(1) rtranclp_trans [OF assms(5) rtranclp_trans [OF create rest]]]
  have size: "block_size (img_options img1) = job_block_size (job_of ci img0)" using inv1 by (simp add: run_inv_def)
  have rd: "readable_run decomp (job_of ci img0) ?zs img"
    using inv assms(2,3,4,12) options_block_size [OF assms(9)] size unfolding readable_run_def by (auto simp: job_of_def)
  let ?reg = "\<lparr>file_size = of_nat ?n, sparse_size = 0, reg_blocks = map Some [length xs..<length xs + nb],
      tail_piece = (if tl \<noteq> 0 then Some (length xs + nb) else None)\<rparr>"
  have "unat (file_size ?reg) = ?n" using assms(8) by (simp add: unsigned_of_nat take_bit_nat_eq_self)
  moreover have "reg_blocks ?reg = map Some [length xs..<length xs + nb]"
    "tail_piece ?reg = (if tl \<noteq> 0 then Some (length xs + nb) else None)" by simp_all
  note file_reads [OF rd disk_kept_refl zs assms(7) bs size layout assms(13) this]
  ultimately show ?thesis using reg by metis
qed

theorem regular_file_stored_witness:
  "\<exists>img2 reg img start fragment infos. libsqfs_regular_inode_create demo_attr (Memorydata [1, 2, 3]) demo_image = (Some 0, img2) \<and>
     has_regular img2 0 reg \<and> start_block_of reg img = Some start \<and> fragment_of reg img = Some fragment \<and>
     read_regular (\<lambda>bs. bs) (dest_bytes (dst img)) (map fragment_table_entry (fragment_blocks (bulkdata img)))
       start infos fragment (unat (file_size reg)) = [1, 2, 3]"
proof -
  have "\<exists>img2 img. libsqfs_regular_inode_create demo_attr (Memorydata [1, 2, 3]) demo_image = (Some 0, img2) \<and>
      process_rounds null_compressor_vmt 9 (snd (libsqfs_bulkdata_seal img2)) = Some img \<and> run_finished img \<and>
      length (fragment_blocks (bulkdata img)) = 1 \<and> may_add_chunks (bulkdata img2)"
    by (simp add: libsqfs_regular_inode_create_def regular_layout_def libsqfs_inode_init_def upd_regular_def upd_inode_def
        round_simps submit_simps Let_def demo_image_def demo_out_def demo_file_def
        libsqfs_bulkdata_init_def libsqfs_image_options_defaults_def libsqfs_compressor_copy_def run_finished_def)
  then obtain img2 img where c: "libsqfs_regular_inode_create demo_attr (Memorydata [1, 2, 3]) demo_image = (Some 0, img2)"
    and p: "process_rounds null_compressor_vmt 9 (snd (libsqfs_bulkdata_seal img2)) = Some img"
    and f: "run_finished img" "length (fragment_blocks (bulkdata img)) = 1" "may_add_chunks (bulkdata img2)" by blast
  have o: "options_ok (img_options demo_image)" "file_dest_ok (dst demo_image)" "may_add_chunks (bulkdata demo_image)"
    by (simp_all add: demo_image_def libsqfs_image_options_defaults_def libsqfs_compressor_copy_def options_ok_def
        demo_out_def demo_file_def libsqfs_bulkdata_init_def)
  have v: "vmt_compress null_compressor_vmt = Some null_compressor_instance_compress" by (simp add: null_compressor_vmt_def)
  have run: "(bulk_step null_compressor_vmt)\<^sup>*\<^sup>* (submissions img2, img2, [])
      (submissions img2 @ [(libsqfs_closing_piece_vmt, null_piece)], img, [])"
    by (rule converse_rtranclp_into_rtranclp [OF bulk_step.seal [OF f(3)] process_rounds_steps [OF p]])
  have few: "length (fragment_blocks (bulkdata img)) < 2 ^ 32 - 1" using f(2) by simp
  have d: "data_ok (Memorydata [1, 2, 3])" "length (data_bytes (Memorydata [1, 2, 3])) < 2 ^ 63"
    "data_bytes (Memorydata [1, 2, 3]) = [1, 2, 3]" by simp_all
  from regular_file_stored [OF demo_fresh o(2) null_codec.lossless_codec_axioms v rtranclp.rtrancl_refl o(3) d(1,2) o(1) c run f(1) few]
    c show ?thesis unfolding d(3) by (elim exE conjE) (intro exI conjI, assumption+)
qed

end
