(* ===== verification/Failures.thy ===== *)
theory Failures
  imports Client Bulkresult
begin

text \<open>
  What becomes of errors while an image is finalized: finishing the bulk data reports success also
  when a file could not be read, and the rest of the finalisation goes on.
\<close>

section \<open>A file that cannot be read\<close>

lemma abort_ends_processing:
  assumes "libsqfs_bulkdata_process_single_locked ci img = Some (False, img')" "aborted (bulkdata img')"
  shows "libsqfs_bulkdata_process ci img = Some img'"
  by (subst libsqfs_bulkdata_process.simps) (use assms in simp)

lemmas creation_simps = libsqfs_regular_inode_create_def libsqfs_filedata_get_size_def libsqfs_inode_init_def Let_def
  libsqfs_bulkdata_submit_fragment_def upd_regular_def upd_inode_def

lemmas failed_read_simps = libsqfs_bulkdata_process_single_locked_def process_single_enter_def chunk_read_enter_def
  libsqfs_chunk_do_read_enter_def libsqfs_chunk_do_read_leave_def host_pread_def Let_def upd_chunk_def
  libsqfs_image_flag_error_def libsqfs_image_cancel_pending_operations_def libsqfs_bulkdata_abort_def

text \<open>C18: a file that can be looked up but not opened brings the program down. When it fits into a fragment,
  creating its inode succeeds, finishing the bulk data reports success although the error is recorded
  as fatal, and then serialising the inode follows the pointer to a fragment block that has never been
  set. Here it is the first file of the image, with memory available.
\<close>

theorem unreadable_file_crashes:
  assumes "hf_bytes f = None" "hf_stat_size f = Some n" "0 < n" "n < block_size (img_options img)"
    and "fragments (img_options img) \<noteq> libsqfs_fragments_never" "mem img = []" "bulkdata img = libsqfs_bulkdata_init b c"
  shows "\<exists>i img1 img2. libsqfs_regular_inode_create attr (Filedata f) img = (Some i, img1) \<and>
    libsqfs_bulkdata_finish ci img1 = Some (True, img2) \<and> img_state img2 = libsqfs_image_fatal_error \<and>
    libsqfs_regular_inode_serialize i img2 = None"
proof -
  let ?piece = "libsqfs_chunk_init libsqfs_fragment_piece_vmt (Piece (Filedata f) n 0)"
  have layout: "regular_layout (img_options img) n = (0, n)"
    using assms(4,5) by (cases "fragments (img_options img)") (simp_all add: regular_layout_def)
  obtain i img1 where create: "libsqfs_regular_inode_create attr (Filedata f) img = (Some i, img1)"
    using assms layout by (simp add: creation_simps)
  have "\<exists>reg. has_regular img1 i reg \<and> reg_blocks reg = [] \<and> tail_piece reg = Some 0"
    using assms layout create by (auto simp: creation_simps libsqfs_bulkdata_init_def)
  then obtain reg where reg: "in_body (inode_at img1 i) = Regular_Inode reg" "reg_blocks reg = []" "tail_piece reg = Some 0" by blast
  have "bulkdata img1 = libsqfs_bulkdata_enqueue_piece_locked (libsqfs_bulkdata_init b c) ?piece" "mem img1 = []"
    using assms layout create by (auto simp: creation_simps)
  then have "\<exists>img2. libsqfs_bulkdata_process_single_locked ci (snd (libsqfs_bulkdata_seal img1)) = Some (False, img2) \<and>
      aborted (bulkdata img2) \<and> img_state img2 = libsqfs_image_fatal_error \<and> inodes img2 = inodes img1 \<and>
      ck_fragment_block (chunk_at img2 0) = None"
    using assms by (simp add: submit_simps libsqfs_bulkdata_init_def failed_read_simps split: prod.splits)
  then obtain img2 where run: "libsqfs_bulkdata_process ci (snd (libsqfs_bulkdata_seal img1)) = Some img2"
    and img2: "img_state img2 = libsqfs_image_fatal_error" "inodes img2 = inodes img1" "ck_fragment_block (chunk_at img2 0) = None"
    using abort_ends_processing by blast
  have "libsqfs_bulkdata_finish ci img1 = Some (True, img2)"
    using run by (cases "libsqfs_bulkdata_seal img1") (simp add: libsqfs_bulkdata_finish_def)
  moreover have "libsqfs_regular_inode_serialize i img2 = None"
    using reg img2 by (simp add: libsqfs_regular_inode_serialize_def regular_type_def start_block_of_def fragment_of_def Let_def)
  ultimately show ?thesis using create img2(1) by blast
qed

definition demo_unreadable :: host_file where
  "demo_unreadable = \<lparr>pathname = ''f'', hf_stat_size = Some 5, hf_bytes = None, hf_readable = 0\<rparr>"

theorem unreadable_file_crashes_witness:
  "\<exists>i img1 img2. libsqfs_regular_inode_create demo_attr (Filedata demo_unreadable) demo_image = (Some i, img1) \<and>
    libsqfs_bulkdata_finish null_compressor_vmt img1 = Some (True, img2) \<and> img_state img2 = libsqfs_image_fatal_error \<and>
    libsqfs_regular_inode_serialize i img2 = None"
  by (rule unreadable_file_crashes [where n = 5 and b = True and c = True])
    (simp_all add: demo_unreadable_def demo_image_def libsqfs_image_options_defaults_def libsqfs_compressor_copy_def)

section \<open>Finalising after an error\<close>


text \<open>An image with an empty root directory and a file that cannot be opened.\<close>

definition demo_failed :: libsqfs_image where
  "demo_failed = (let img = demo_image\<lparr>img_options := (img_options demo_image)\<lparr>padding := False\<rparr>\<rparr>;
       img = snd (libsqfs_directory_inode_create demo_attr img);
       img = snd (libsqfs_regular_inode_create demo_attr (Filedata demo_unreadable) img) in
     snd (libsqfs_image_set_root 0 img))"

lemma demo_failed_read:
  "\<exists>B m img1. libsqfs_bulkdata_seal demo_failed = (True, img1) \<and> compressor img1 = null_compressor_vmt \<and>
     libsqfs_bulkdata_process_single_locked null_compressor_vmt (snd (libsqfs_bulkdata_seal img1)) =
       Some (False, demo_failed\<lparr>img_state := libsqfs_image_fatal_error, error_msg := Some m, bulkdata := B\<rparr>) \<and>
     aborted B \<and> fragment_blocks B = []"
  by (simp add: demo_failed_def demo_image_def libsqfs_directory_inode_create_def libsqfs_image_set_root_def creation_simps submit_simps
      libsqfs_bulkdata_init_def failed_read_simps demo_unreadable_def libsqfs_image_options_defaults_def libsqfs_compressor_copy_def
      regular_layout_def)

lemma demo_failed_rest:
  fixes B m
  defines "img2 \<equiv> demo_failed\<lparr>img_state := libsqfs_image_fatal_error, error_msg := Some m, bulkdata := B\<rparr>"
  assumes "fragment_blocks B = []"
  shows "\<exists>img3 img4. libsqfs_inode_serialize 0 img2 = Some (True, img3) \<and>
     all_steps (drop 3 (final_steps demo_failed)) img3 = Some (True, img4) \<and> \<not> padding (img_options img4)"
  unfolding img2_def
  by (simp add: assms(2) demo_failed_def demo_image_def demo_attr_def demo_unreadable_def demo_table_simps creation_simps submit_simps
      libsqfs_directory_inode_create_def libsqfs_image_set_root_def libsqfs_bulkdata_init_def libsqfs_image_options_defaults_def
      libsqfs_compressor_copy_def regular_layout_def libsqfs_inode_serialize_def libsqfs_directory_serialize_def directory_write_def
      libsqfs_directory_encode_def libsqfs_directory_inode_prune_index_def upd_directory_def libsqfs_directory_inode_encode_def
      append_inode_header_def append_inode_table_def encode_dir_inode_header_def parent_inode_number_def final_steps_def
      write_inode_table_def write_dir_table_def write_id_table_def write_xattr_table_def libsqfs_idtable_write_def
      libsqfs_xattr_table_write_def libsqfs_xattr_table_init_def libsqfs_idtable_init_def libsqfs_image_write_compressor_options_def
      libsqfs_bulkdata_write_fragment_table_def libsqfs_write_superblock_def superblock_of_def encode_super_block_def
      null_compressor_vmt_def)


end
