(* ===== verification/Mksqfs.thy ===== *)
theory Mksqfs
  imports Client
begin

text \<open>
  examples/mksqfs.c: the example client, which turns a directory of the host into an image.

  The host's file system is a parameter: a tree of nodes with what \<open>lstat\<close>, \<open>readdir\<close>,
  \<open>readlink\<close>, \<open>listxattr\<close> and \<open>getxattr\<close> report for them; \<open>lstat\<close> succeeds, and the host does not change
  during the run. The program checks few results. Where it
  goes on with a null pointer the model ends with \<open>Undefined\<close>; for attributes, directories and the
  destination this is earlier than the crash, which comes when the pointer is used.
\<close>

section \<open>The host\<close>

text \<open>Names of attributes with their values; \<open>None\<close>: \<open>getxattr\<close> fails.\<close>

record host_stat =
  st_dev :: u64
  st_ino :: u64
  st_mode :: u32
  st_uid :: u32
  st_gid :: u32
  st_ctime :: u64
  host_xattrs :: "(cstring \<times> byte list option) list"

text \<open>The file types of \<open>st_mode\<close>; \<open>None\<close>: \<open>opendir\<close> or \<open>readlink\<close> fails.\<close>

datatype host_node =
    Host_File (stat_of: host_stat) host_file
  | Host_Directory (stat_of: host_stat) "(cstring \<times> host_node) list option"
  | Host_Symlink (stat_of: host_stat) "cstring option"
  | Host_Device (stat_of: host_stat) bool u32 u32
  | Host_Fifo (stat_of: host_stat)
  | Host_Other (stat_of: host_stat)

section \<open>How the program ends early\<close>

datatype mksqfs_stop =
    Undefined
  | Getxattr_Failed
  | Path_Too_Long
  | Unknown_File_Type
  | Invalid_Compressor
  | Usage

primrec andthen :: "mksqfs_stop + 'a \<Rightarrow> ('a \<Rightarrow> mksqfs_stop + 'b) \<Rightarrow> mksqfs_stop + 'b" where
  "andthen (Inl e) f = Inl e"
| "andthen (Inr x) f = f x"

lemma andthen_cong [fundef_cong]:
  "m = m' \<Longrightarrow> (\<And>x. m' = Inr x \<Longrightarrow> f x = g x) \<Longrightarrow> andthen m f = andthen m' g"
  by (cases m'; simp)

lemma andthen_Inr: "andthen m f = Inr y \<longleftrightarrow> (\<exists>x. m = Inr x \<and> f x = Inr y)"
  by (cases m) simp_all

abbreviation nonnull :: "'a option \<times> 's \<Rightarrow> mksqfs_stop + ('a \<times> 's)" where
  "nonnull r \<equiv> (case r of (None, s) \<Rightarrow> Inl Undefined | (Some x, s) \<Rightarrow> Inr (x, s))"

text \<open>An allocation of the program itself, whose result it uses unchecked.\<close>

definition own_malloc :: "libsqfs_image \<Rightarrow> mksqfs_stop + libsqfs_image" where
  "own_malloc img = (let (ok, h) = malloc (mem img) in if ok then Inr (img\<lparr>mem := h\<rparr>) else Inl Undefined)"

section \<open>The inode cache\<close>

text \<open>A hash table with chains, by device and inode number; a new entry comes first in its chain.\<close>

abbreviation INODE_HASH_SIZE :: nat where "INODE_HASH_SIZE \<equiv> 1024"

type_synonym inode_cache = "((u64 \<times> u64) \<times> nat) list list"

definition inode_cache_bucket :: "u64 \<times> u64 \<Rightarrow> nat" where
  "inode_cache_bucket key = unat (fst key + snd key) mod INODE_HASH_SIZE"

definition inode_cache_lookup :: "inode_cache \<Rightarrow> u64 \<times> u64 \<Rightarrow> nat option" where
  "inode_cache_lookup cache key = map_of (cache ! inode_cache_bucket key) key"

definition inode_cache_insert :: "inode_cache \<Rightarrow> u64 \<times> u64 \<Rightarrow> nat \<Rightarrow> inode_cache" where
  "inode_cache_insert cache key inode =
     cache[inode_cache_bucket key := (key, inode) # cache ! inode_cache_bucket key]"

abbreviation cache_key :: "host_stat \<Rightarrow> u64 \<times> u64" where
  "cache_key st \<equiv> (st_dev st, st_ino st)"

section \<open>Attributes\<close>

text \<open>The buffer for a value is doubled until the value fits.\<close>

function fit_buffer :: "heap \<Rightarrow> nat \<Rightarrow> nat \<Rightarrow> bool \<times> nat \<times> heap" where
  "fit_buffer h bufsize len =
     (if len \<le> bufsize \<or> bufsize = 0 then (True, bufsize, h)
      else let (ok, h) = malloc h in if \<not> ok then (False, bufsize, h) else fit_buffer h (2 * bufsize) len)"
  by pat_completeness auto
termination by (relation "measure (\<lambda>(h, bufsize, len). len - bufsize)") auto

text \<open>
  The loop over the list of names, each ended by a zero byte. An attribute of an unknown domain is a
  null pointer in the array.
\<close>

function xattr_loop ::
    "(cstring \<times> byte list option) list \<Rightarrow> byte list \<Rightarrow> nat \<Rightarrow> libsqfs_xattr option list \<Rightarrow> libsqfs_image \<Rightarrow>
     mksqfs_stop + (libsqfs_xattr option list \<times> libsqfs_image)" where
  "xattr_loop xs names bufsize attrs img =
     (let name = takeWhile (\<lambda>c. c \<noteq> 0) names in
      case map_of xs name of
        Some (Some value) \<Rightarrow>
          let (ok, bufsize, h) = fit_buffer (mem img) bufsize (length value) in
          if \<not> ok then Inl Undefined
          else
            andthen (own_malloc (img\<lparr>mem := h\<rparr>)) (\<lambda>img.
              let (xattr, tab, h) = libsqfs_xattr_create (mem img) (xattr_table img) name value;
                  img = img\<lparr>xattr_table := tab, mem := h\<rparr>;
                  attrs = attrs @ [xattr];
                  rest = drop (length name + 1) names in
              if rest = [] then Inr (attrs, img) else xattr_loop xs rest bufsize attrs img)
      | _ \<Rightarrow> Inl Getxattr_Failed)"
  by pat_completeness auto
termination
  by (relation "measure (\<lambda>(xs, names, bufsize, attrs, img). length names)") auto

definition get_xattrset ::
    "byte_order \<Rightarrow> host_stat \<Rightarrow> libsqfs_image \<Rightarrow> mksqfs_stop + (libsqfs_xattrset option \<times> libsqfs_image)" where
  "get_xattrset ord st img =
     (let names = concat (map (\<lambda>x. fst x @ [0]) (host_xattrs st)) in
      if names = [] then Inr (None, img)
      else
        andthen (own_malloc img) (\<lambda>img.
        andthen (xattr_loop (host_xattrs st) names 128 [] img) (\<lambda>(attrs, img).
          if None \<in> set attrs then Inl Undefined
          else
            case libsqfs_xattrset_create ord (mem img) (xattr_table img) (map the attrs) of
              None \<Rightarrow> Inl Undefined
            | Some (xattrset, tab, h) \<Rightarrow> Inr (xattrset, img\<lparr>xattr_table := tab, mem := h\<rparr>))))"

definition get_inode_attrs ::
    "byte_order \<Rightarrow> host_stat \<Rightarrow> libsqfs_image \<Rightarrow> mksqfs_stop + (libsqfs_inodeattr \<times> libsqfs_image)" where
  "get_inode_attrs ord st img =
     andthen (get_xattrset ord st img) (\<lambda>(xattrset, img).
       nonnull (libsqfs_inodeattr_create_extended (st_uid st) (st_gid st) (st_mode st AND 0x1ff) (st_ctime st) xattrset img))"

section \<open>Inodes\<close>

definition add_file :: "libsqfs_inodeattr \<Rightarrow> host_file \<Rightarrow> libsqfs_image \<Rightarrow> mksqfs_stop + (nat \<times> libsqfs_image)" where
  "add_file attr f img =
     andthen (nonnull (libsqfs_data_create_from_file f img)) (\<lambda>(data, img).
       nonnull (libsqfs_regular_inode_create attr data img))"

text \<open>At most 1023 bytes of a target are read; when \<open>readlink\<close> fails, a byte in front of the buffer is written.\<close>

definition add_symlink :: "libsqfs_inodeattr \<Rightarrow> cstring option \<Rightarrow> libsqfs_image \<Rightarrow> mksqfs_stop + (nat \<times> libsqfs_image)" where
  "add_symlink attr target img =
     (case target of None \<Rightarrow> Inl Undefined
      | Some target \<Rightarrow> nonnull (libsqfs_symlink_inode_create attr (take 1023 target) img))"

definition add_fifo :: "libsqfs_inodeattr \<Rightarrow> libsqfs_image \<Rightarrow> mksqfs_stop + (nat \<times> libsqfs_image)" where
  "add_fifo attr img = nonnull (libsqfs_fifo_inode_create attr img)"

definition add_device ::
    "libsqfs_inodeattr \<Rightarrow> bool \<Rightarrow> u32 \<Rightarrow> u32 \<Rightarrow> libsqfs_image \<Rightarrow> mksqfs_stop + (nat \<times> libsqfs_image)" where
  "add_device attr is_chr major minor img =
     nonnull (libsqfs_device_inode_create attr (if is_chr then 99 else 98) major minor img)"

text \<open>An entry is added whatever the result.\<close>

definition add_entry :: "nat \<Rightarrow> cstring \<Rightarrow> nat \<Rightarrow> libsqfs_image \<Rightarrow> mksqfs_stop + libsqfs_image" where
  "add_entry dir name inode img =
     (case libsqfs_directory_add_entry dir name inode img of
        None \<Rightarrow> Inl Undefined
      | Some (_, img) \<Rightarrow> Inr img)"

section \<open>Directories\<close>

text \<open>Scanning: the entries but the first two names, sorted by name; \<open>plen\<close> is the length of the path.\<close>

definition listed :: "cstring \<times> host_node \<Rightarrow> bool" where
  "listed x \<longleftrightarrow> fst x \<noteq> cstr ''.'' \<and> fst x \<noteq> cstr ''..''"

abbreviation PATH_MAX :: nat where "PATH_MAX \<equiv> 4096"

fun insert_name :: "cstring \<times> host_node \<Rightarrow> (cstring \<times> host_node) list \<Rightarrow> (cstring \<times> host_node) list" where
  "insert_name x [] = [x]"
| "insert_name x (y # ys) = (if strcmp (fst x) (fst y) > 0 then y # insert_name x ys else x # y # ys)"

fun scan_directory ::
    "nat \<Rightarrow> (cstring \<times> host_node) list \<Rightarrow> (cstring \<times> host_node) list \<Rightarrow> libsqfs_image \<Rightarrow>
     mksqfs_stop + ((cstring \<times> host_node) list \<times> libsqfs_image)" where
  "scan_directory plen [] found img = Inr (found, img)"
| "scan_directory plen (x # xs) found img =
     (if \<not> listed x then scan_directory plen xs found img
      else
        andthen (own_malloc img) (\<lambda>img.
          if plen + 1 + length (fst x) \<ge> PATH_MAX + 1 then Inl Path_Too_Long
          else scan_directory plen xs (insert_name x found) img))"

text \<open>The files come first; those with several names are found in the cache.\<close>

type_synonym mksqfs_state = "inode_cache \<times> libsqfs_image"

fun add_files ::
    "byte_order \<Rightarrow> nat \<Rightarrow> (cstring \<times> host_node) list \<Rightarrow> mksqfs_state \<Rightarrow> mksqfs_stop + mksqfs_state" where
  "add_files ord dir [] s = Inr s"
| "add_files ord dir ((name, Host_File st f) # xs) (cache, img) =
     andthen
       (case inode_cache_lookup cache (cache_key st) of
          Some inode \<Rightarrow> Inr (inode, cache, img)
        | None \<Rightarrow>
            andthen (get_inode_attrs ord st img) (\<lambda>(attr, img).
            andthen (add_file attr f img) (\<lambda>(inode, img).
            andthen (own_malloc img) (\<lambda>img.
              Inr (inode, inode_cache_insert cache (cache_key st) inode, img)))))
       (\<lambda>(inode, cache, img).
          andthen (add_entry dir name inode img) (\<lambda>img. add_files ord dir xs (cache, img)))"
| "add_files ord dir (x # xs) s = add_files ord dir xs s"

text \<open>The size of a tree, for the termination of the traversal.\<close>

fun node_weight :: "host_node \<Rightarrow> nat" where
  "node_weight (Host_Directory st (Some xs)) = Suc (\<Sum>x\<leftarrow>xs. node_weight (snd x))"
| "node_weight _ = 1"

abbreviation total_weight :: "(cstring \<times> host_node) list \<Rightarrow> nat" where
  "total_weight xs \<equiv> (\<Sum>x\<leftarrow>xs. node_weight (snd x))"

lemma node_weight_pos: "0 < node_weight n"
  by (cases n rule: node_weight.cases) simp_all

lemma insert_name_weight: "total_weight (insert_name x xs) = node_weight (snd x) + total_weight xs"
  by (induction xs) simp_all

lemma scan_weight:
  "scan_directory plen xs found img = Inr (ys, img') \<Longrightarrow> total_weight ys \<le> total_weight xs + total_weight found"
proof (induction xs arbitrary: found img)
  case (Cons x xs)
  then show ?case
    by (cases "listed x") (fastforce simp: andthen_Inr insert_name_weight split: if_splits)+
qed simp

function (sequential) add_directory ::
    "byte_order \<Rightarrow> nat \<Rightarrow> libsqfs_inodeattr \<Rightarrow> (cstring \<times> host_node) list option \<Rightarrow> mksqfs_state \<Rightarrow>
     mksqfs_stop + (nat \<times> mksqfs_state)"
  and add_others ::
    "byte_order \<Rightarrow> nat \<Rightarrow> nat \<Rightarrow> (cstring \<times> host_node) list \<Rightarrow> mksqfs_state \<Rightarrow> mksqfs_stop + mksqfs_state" where
  "add_directory ord plen attr None s = Inl Undefined"
| "add_directory ord plen attr (Some xs) (cache, img) =
     andthen (nonnull (libsqfs_directory_inode_create attr img)) (\<lambda>(dir, img).
     andthen (scan_directory plen xs [] img) (\<lambda>(sorted, img).
     andthen (add_files ord dir sorted (cache, img)) (\<lambda>s.
     andthen (add_others ord plen dir sorted s) (\<lambda>s. Inr (dir, s)))))"
| "add_others ord plen dir [] s = Inr s"
| "add_others ord plen dir ((name, node) # xs) (cache, img) =
     (if is_Host_File node then add_others ord plen dir xs (cache, img)
      else
        andthen (get_inode_attrs ord (stat_of node) img) (\<lambda>(attr, img).
        andthen
          (case node of
             Host_Directory st entries \<Rightarrow> add_directory ord (plen + 1 + length name) attr entries (cache, img)
           | Host_Symlink st target \<Rightarrow> andthen (add_symlink attr target img) (\<lambda>(sub, img). Inr (sub, cache, img))
           | Host_Device st is_chr major minor \<Rightarrow>
               andthen (add_device attr is_chr major minor img) (\<lambda>(sub, img). Inr (sub, cache, img))
           | Host_Fifo st \<Rightarrow> andthen (add_fifo attr img) (\<lambda>(sub, img). Inr (sub, cache, img))
           | _ \<Rightarrow> Inl Unknown_File_Type)
          (\<lambda>(sub, cache, img).
             andthen (add_entry dir name sub img) (\<lambda>img. add_others ord plen dir xs (cache, img)))))"
  by pat_completeness auto
termination
  by (relation "measure (\<lambda>a. case a of
      Inl (ord, plen, attr, entries, s) \<Rightarrow> (case entries of None \<Rightarrow> 0 | Some xs \<Rightarrow> 2 * total_weight xs + 1)
    | Inr (ord, plen, dir, xs, s) \<Rightarrow> 2 * total_weight xs)")
    (auto simp: less_Suc_eq_le split: option.split intro: node_weight_pos dest!: scan_weight)

section \<open>The program\<close>

definition parse_compressor :: "bool \<Rightarrow> bool \<Rightarrow> bool \<Rightarrow> string \<Rightarrow> heap \<Rightarrow> mksqfs_stop + (libsqfs_compressor \<times> heap)" where
  "parse_compressor have_zlib have_zstd have_lzma descr h =
     (let (compressor, h) =
        (if descr = ''null'' then libsqfs_compressor_copy h Compressor_Null
         else if have_zlib \<and> descr = ''zlib'' then libsqfs_compressor_copy h Compressor_Zlib
         else if have_zstd \<and> descr = ''zstd'' then libsqfs_compressor_zstd_create_default h
         else if have_lzma \<and> descr = ''lzma'' then libsqfs_compressor_copy h Compressor_Lzma
         else if have_lzma \<and> descr = ''xz'' then libsqfs_compressor_xz_create_default h
         else (None, h)) in
      case compressor of None \<Rightarrow> Inl Invalid_Compressor | Some c \<Rightarrow> Inr (c, h))"

text \<open>
  The arguments as \<open>getopt_long\<close> finds them: those of \<open>-c\<close> in order, and those that are left.
\<close>

fun parse_options ::
    "bool \<Rightarrow> bool \<Rightarrow> bool \<Rightarrow> string list \<Rightarrow> string list \<Rightarrow> libsqfs_image_options option \<Rightarrow> heap \<Rightarrow>
     mksqfs_stop + (libsqfs_image_options option \<times> string \<times> string \<times> heap)" where
  "parse_options have_zlib have_zstd have_lzma (c # cs) rest options h =
     andthen (parse_compressor have_zlib have_zstd have_lzma c h) (\<lambda>(compressor, h).
       case options of None \<Rightarrow> Inl Undefined
       | Some options \<Rightarrow>
           let (options, h) = libsqfs_image_options_set_compressor h options compressor in
           parse_options have_zlib have_zstd have_lzma cs rest (Some options) h)"
| "parse_options have_zlib have_zstd have_lzma [] rest options h =
     (case rest of source # target # _ \<Rightarrow> Inr (options, source, target, h) | _ \<Rightarrow> Inl Usage)"

text \<open>
  The host: the directories by path, the outcome of opening the output, the number of processors and
  the outcomes of starting threads.
\<close>

record mksqfs_host =
  host_directory :: "string \<Rightarrow> (cstring \<times> host_node) list option"
  host_create :: "string \<Rightarrow> libsqfs_destination_file option"
  host_processors :: "nat option"
  host_threads :: "bool list"
  host_time :: u32

definition mksqfs_main ::
    "external_codecs \<Rightarrow> bool \<Rightarrow> bool \<Rightarrow> bool \<Rightarrow> byte_order \<Rightarrow> mksqfs_host \<Rightarrow> string list \<Rightarrow> string list \<Rightarrow> heap \<Rightarrow>
     mksqfs_stop + (libsqfs_image_state \<times> libsqfs_destination)" where
  "mksqfs_main ext have_zlib have_zstd have_lzma ord host copts rest h =
     (let (options, h) = libsqfs_image_options_create have_zlib h in
      andthen (parse_options have_zlib have_zstd have_lzma copts rest options h) (\<lambda>(options, source, target, h).
      let (dest, fd, h) = libsqfs_destination_create_for_file h (host_create host target) in
      case dest of None \<Rightarrow> Inl Undefined
      | Some dest \<Rightarrow>
        (case libsqfs_image_create ext have_zlib (host_time host) h dest options of
           Some (Some img, h) \<Rightarrow>
             let (n, img) = libsqfs_image_auto_spawn_threads (host_processors host) (host_threads host) img in
             andthen (nonnull (libsqfs_inodeattr_create_simple 0 0 0x1ed 0 img)) (\<lambda>(attr, img).
             andthen (add_directory ord (length source) attr (host_directory host source)
               (replicate INODE_HASH_SIZE [], img)) (\<lambda>(r, cache, img).
             case libsqfs_image_close (snd (libsqfs_image_set_root r img)) of
               None \<Rightarrow> Inl Undefined | Some result \<Rightarrow> Inr result))
         | _ \<Rightarrow> Inl Undefined)))"

end
