(* ===== verification/Mirror.thy ===== *)
theory Mirror
  imports Mksqfs Bulkfile "HOL-Library.Multiset"
begin

text \<open>
  What mksqfs builds: a tree of inodes that mirrors the directory of the host.
\<close>

section \<open>The cache as a map\<close>

text \<open>What the traversal relies on: a store of values by key.\<close>

locale key_store =
  fixes find_key :: "'s \<Rightarrow> 'k \<Rightarrow> 'v option"
    and put_key :: "'s \<Rightarrow> 'k \<Rightarrow> 'v \<Rightarrow> 's"
    and sound :: "'s \<Rightarrow> bool"
  assumes put_sound: "sound s \<Longrightarrow> sound (put_key s k v)"
    and find_put: "sound s \<Longrightarrow> find_key (put_key s k v) k' = (if k' = k then Some v else find_key s k')"
begin

text \<open>A statement about all that is stored is kept when it holds of what is put.\<close>

lemma all_put:
  "sound s \<Longrightarrow> (\<And>k v. find_key s k = Some v \<Longrightarrow> Q k v) \<Longrightarrow> Q k v \<Longrightarrow> find_key (put_key s k v) k' = Some v' \<Longrightarrow> Q k' v'"
  by (auto simp: find_put split: if_splits)

end

abbreviation cache_sound :: "inode_cache \<Rightarrow> bool" where
  "cache_sound cache \<equiv> length cache = INODE_HASH_SIZE"

interpretation cache: key_store inode_cache_lookup inode_cache_insert cache_sound
proof
  fix s :: inode_cache and k k' v assume s: "cache_sound s"
  show "cache_sound (inode_cache_insert s k v)" using s by (simp add: inode_cache_insert_def)
  have "inode_cache_bucket k < length s" using s by (simp add: inode_cache_bucket_def)
  then show "inode_cache_lookup (inode_cache_insert s k v) k' = (if k' = k then Some v else inode_cache_lookup s k')"
    by (auto simp: inode_cache_lookup_def inode_cache_insert_def nth_list_update)
qed

section \<open>The mirror of a host tree\<close>

text \<open>An index into the table of ids, as long as the table has no more ids than there are indices.\<close>

definition id_index :: "u32 list \<Rightarrow> u16 \<Rightarrow> u32 \<Rightarrow> bool" where
  "id_index xs k x \<longleftrightarrow> (length xs \<le> 65536 \<longrightarrow> unat k < length xs \<and> xs ! unat k = x)"

definition attr_matches :: "libsqfs_image \<Rightarrow> libsqfs_inodeattr \<Rightarrow> host_stat \<Rightarrow> bool" where
  "attr_matches img a stat \<longleftrightarrow> ia_uid a = st_uid stat \<and> ia_gid a = st_gid stat \<and> ia_mode a = SQUASHFS_MODE (st_mode stat AND 0x1ff) \<and>
     ia_ctime a = st_ctime stat \<and> id_index (ids (idtable img)) (mapped_uid a) (st_uid stat) \<and>
     id_index (ids (idtable img)) (mapped_gid a) (st_gid stat)"

text \<open>
  The chunks of a file are those that creating it from a data source submits, next to each other, and the
  inode refers to them.
\<close>

definition submitted_file :: "libsqfs_image \<Rightarrow> nat \<Rightarrow> libsqfs_data \<Rightarrow> bool" where
  "submitted_file img n data \<longleftrightarrow> data_ok data \<and> length (data_bytes data) < 2 ^ 63 \<and>
     (\<exists>xs rest nblocks tail_size.
        submissions img = xs @ file_chunks (img_options img) data (length (data_bytes data)) @ rest \<and>
        regular_layout (img_options img) (length (data_bytes data)) = (nblocks, tail_size) \<and>
        has_regular img n \<lparr>file_size = of_nat (length (data_bytes data)), sparse_size = 0,
          reg_blocks = map Some [length xs..<length xs + nblocks],
          tail_piece = (if tail_size \<noteq> 0 then Some (length xs + nblocks) else None)\<rparr>)"

definition file_mirrored :: "libsqfs_image \<Rightarrow> nat \<Rightarrow> host_file \<Rightarrow> bool" where
  "file_mirrored img n f \<longleftrightarrow> (\<exists>data. submitted_file img n data \<and> hf_bytes f = Some (data_bytes data))"

text \<open>
  Inode \<open>n\<close> mirrors a node: it is of the same kind, with the same content; a directory has the same names,
  and each leads to a mirror of the node with this name, with its attributes. The directories in
  the mirror come from position \<open>k\<close> on.
\<close>

fun mirrors :: "libsqfs_image \<Rightarrow> nat \<Rightarrow> nat \<Rightarrow> host_node \<Rightarrow> bool" where
  "mirrors img k n (Host_File stat f) \<longleftrightarrow> file_mirrored img n f"
| "mirrors img k n (Host_Directory stat (Some xs)) \<longleftrightarrow> k \<le> n \<and> n < length (inodes img) \<and>
     (\<exists>d. in_body (inode_at img n) = Directory_Inode d \<and> mset (map de_name (dd_entries d)) = mset (map fst (filter listed xs)) \<and>
       (\<forall>x \<in> set xs. listed x \<longrightarrow> (\<exists>e \<in> set (dd_entries d). de_name e = fst x \<and> mirrors img k (de_inode e) (snd x) \<and>
          attr_matches img (in_attr (inode_at img (de_inode e))) (stat_of (snd x)))))"
| "mirrors img k n (Host_Symlink stat (Some target)) \<longleftrightarrow> n < length (inodes img) \<and>
     in_body (inode_at img n) = Symlink_Inode (take 1023 target)"
| "mirrors img k n (Host_Device stat is_chr major minor) \<longleftrightarrow> n < length (inodes img) \<and>
     in_body (inode_at img n) = Device_Inode (if is_chr then 99 else 98) major minor"
| "mirrors img k n (Host_Fifo stat) \<longleftrightarrow> n < length (inodes img) \<and> in_body (inode_at img n) = Fifo_Inode"
| "mirrors img k n _ \<longleftrightarrow> False"

section \<open>Growing images\<close>

text \<open>An inode without what adding it to a directory changes.\<close>

fun skeleton :: "libsqfs_inode_body \<Rightarrow> libsqfs_inode_body" where
  "skeleton (Directory_Inode d) = Directory_Inode (d\<lparr>dd_parent := None\<rparr>)"
| "skeleton b = b"

definition same_inode :: "libsqfs_image \<Rightarrow> libsqfs_image \<Rightarrow> nat \<Rightarrow> bool" where
  "same_inode img img' n \<longleftrightarrow> skeleton (in_body (inode_at img' n)) = skeleton (in_body (inode_at img n)) \<and>
     in_attr (inode_at img' n) = in_attr (inode_at img n)"

text \<open>What stays of the image in general; ids are only added.\<close>

definition same_setup :: "libsqfs_image \<Rightarrow> libsqfs_image \<Rightarrow> bool" where
  "same_setup img img' \<longleftrightarrow> root img' = root img \<and> img_state img' = img_state img \<and> compressor img' = compressor img \<and>
     compressor_option_data img' = compressor_option_data img \<and> compressor_option_data_loc img' = compressor_option_data_loc img \<and>
     (\<exists>more. ids (idtable img') = ids (idtable img) @ more)"

lemma same_setup_refl [simp]: "same_setup img img"
  by (simp add: same_setup_def)

lemma same_setup_trans: "same_setup img img1 \<Longrightarrow> same_setup img1 img2 \<Longrightarrow> same_setup img img2"
  by (auto simp: same_setup_def)

text \<open>The run of the bulk data goes on, as long as it has not been sealed.\<close>

abbreviation submitting :: "bulk_job \<Rightarrow> libsqfs_image \<Rightarrow> bool" where
  "submitting J img \<equiv> may_add_chunks (bulkdata img) \<and> run_inv J (submissions img) img []"

definition run_goes_on :: "libsqfs_image \<Rightarrow> libsqfs_image \<Rightarrow> bool" where
  "run_goes_on img img' \<longleftrightarrow> (\<forall>J. submitting J img \<longrightarrow> submitting J img')"

lemma run_goes_on_refl [simp]: "run_goes_on img img"
  by (simp add: run_goes_on_def)

lemma run_goes_on_trans: "run_goes_on img img1 \<Longrightarrow> run_goes_on img1 img2 \<Longrightarrow> run_goes_on img img2"
  unfolding run_goes_on_def by blast

lemma run_goes_on_frame:
  "bulkdata img' = bulkdata img \<Longrightarrow> mem img' = mem img \<Longrightarrow> dst img' = dst img \<Longrightarrow> img_size img' = img_size img \<Longrightarrow>
   img_options img' = img_options img \<Longrightarrow> run_goes_on img img'"
  using run_inv_cong [of _ "submissions img" img "[]" img'] by (simp add: run_goes_on_def)

lemma setup_frame:
  "bulkdata img' = bulkdata img \<Longrightarrow> mem img' = mem img \<Longrightarrow> dst img' = dst img \<Longrightarrow> img_size img' = img_size img \<Longrightarrow>
   img_options img' = img_options img \<Longrightarrow> root img' = root img \<Longrightarrow> img_state img' = img_state img \<Longrightarrow>
   compressor img' = compressor img \<Longrightarrow> compressor_option_data img' = compressor_option_data img \<Longrightarrow>
   compressor_option_data_loc img' = compressor_option_data_loc img \<Longrightarrow> idtable img' = idtable img \<Longrightarrow>
   same_setup img img' \<and> run_goes_on img img'"
  using run_goes_on_frame by (simp add: same_setup_def)

text \<open>What the steps of the program do to an image, with memory available; \<open>P\<close> are directories being filled.\<close>

definition img_grows :: "nat set \<Rightarrow> libsqfs_image \<Rightarrow> libsqfs_image \<Rightarrow> bool" where
  "img_grows P img img' \<longleftrightarrow> length (inodes img) \<le> length (inodes img') \<and> (\<exists>more. submissions img' = submissions img @ more) \<and>
     mem img' = [] \<and> img_options img' = img_options img \<and> same_setup img img' \<and> run_goes_on img img' \<and>
     (\<forall>n < length (inodes img). n \<notin> P \<longrightarrow> same_inode img img' n)"

lemma img_grows_refl: "mem img = [] \<Longrightarrow> img_grows P img img"
  by (simp add: img_grows_def same_inode_def)

lemma img_grows_trans: "img_grows P img img1 \<Longrightarrow> img_grows P img1 img2 \<Longrightarrow> img_grows P img img2"
  using same_setup_trans run_goes_on_trans unfolding img_grows_def same_inode_def by fastforce

lemma grows_mono: "img_grows P img img' \<Longrightarrow> P \<subseteq> Q \<Longrightarrow> img_grows Q img img'"
  unfolding img_grows_def by blast

lemma grows_mem: "img_grows P img img' \<Longrightarrow> mem img' = []"
  by (simp add: img_grows_def)

lemma skeleton_directory: "skeleton b = skeleton (Directory_Inode d) \<Longrightarrow> \<exists>d'. b = Directory_Inode d' \<and> dd_entries d' = dd_entries d"
  by (cases b) (auto dest: arg_cong [where f = dd_entries])

lemma skeleton_other: "skeleton b = skeleton b' \<Longrightarrow> (\<And>d. b' \<noteq> Directory_Inode d) \<Longrightarrow> b = b'"
  by (cases b; cases b') auto

lemma grows_body:
  assumes "img_grows P img img'" "n < length (inodes img)" "n \<notin> P" "\<And>d. in_body (inode_at img n) \<noteq> Directory_Inode d"
  shows "n < length (inodes img') \<and> in_body (inode_at img' n) = in_body (inode_at img n)"
  using assms skeleton_other [of "in_body (inode_at img' n)" "in_body (inode_at img n)"] by (auto simp: img_grows_def same_inode_def)

lemma attr_matches_grows:
  assumes "attr_matches img a stat" "same_setup img img'"
  shows "attr_matches img' a stat"
proof -
  obtain more where "ids (idtable img') = ids (idtable img) @ more" using assms(2) by (auto simp: same_setup_def)
  with assms(1) show ?thesis by (auto simp: attr_matches_def id_index_def nth_append)
qed

lemma submitted_file_grows:
  assumes "submitted_file img n data" "img_grows P img img'" "n \<notin> P"
  shows "submitted_file img' n data"
proof -
  obtain more where sub: "submissions img' = submissions img @ more" and opt: "img_options img' = img_options img"
    using assms(2) unfolding img_grows_def by blast
  have body: "has_regular img' n reg" if "has_regular img n reg" for reg
    using grows_body [OF assms(2) _ assms(3)] that by simp
  obtain xs rest nb ts where f: "submissions img = xs @ file_chunks (img_options img) data (length (data_bytes data)) @ rest"
    "regular_layout (img_options img) (length (data_bytes data)) = (nb, ts)"
    "has_regular img n \<lparr>file_size = of_nat (length (data_bytes data)), sparse_size = 0,
       reg_blocks = map Some [length xs..<length xs + nb], tail_piece = (if ts \<noteq> 0 then Some (length xs + nb) else None)\<rparr>"
    using assms(1) unfolding submitted_file_def by (elim conjE exE) (rule that; (intro conjI)?; assumption)
  have "submissions img' = xs @ file_chunks (img_options img) data (length (data_bytes data)) @ rest @ more"
    unfolding sub f(1) by simp
  then show ?thesis using assms(1) f(2) body [OF f(3)] unfolding submitted_file_def opt by blast
qed

lemma file_mirrored_grows:
  assumes "file_mirrored img n f" "img_grows P img img'" "\<forall>p \<in> P. \<exists>d. in_body (inode_at img p) = Directory_Inode d"
  shows "file_mirrored img' n f"
proof -
  obtain data where m: "submitted_file img n data" "hf_bytes f = Some (data_bytes data)" using assms(1) by (auto simp: file_mirrored_def)
  have "n \<notin> P" using m(1) assms(3) by (fastforce simp: submitted_file_def)
  from submitted_file_grows [OF m(1) assms(2) this] m(2) show ?thesis unfolding file_mirrored_def by blast
qed

lemma mirrors_index:
  assumes "mirrors img k n node"
  shows "n < length (inodes img) \<and> (k \<le> n \<or> (\<forall>d. in_body (inode_at img n) \<noteq> Directory_Inode d))"
  using assms by (cases "(img, k, n, node)" rule: mirrors.cases) (auto simp: file_mirrored_def submitted_file_def)

lemma mirrors_grows:
  assumes "mirrors img k n node" "img_grows P img img'" "\<forall>p \<in> P. p < k \<and> (\<exists>d. in_body (inode_at img p) = Directory_Inode d)"
  shows "mirrors img' k n node"
  using assms
proof (induction img k n node rule: mirrors.induct)
  case (1 img k n stat f)
  then show ?case using file_mirrored_grows by auto
next
  case (2 img k n stat xs)
  from "2.prems"(1) [unfolded mirrors.simps] obtain d where n: "k \<le> n" "n < length (inodes img)"
    and d: "in_body (inode_at img n) = Directory_Inode d" "mset (map de_name (dd_entries d)) = mset (map fst (filter listed xs))"
    and entries: "\<forall>x \<in> set xs. listed x \<longrightarrow> (\<exists>e \<in> set (dd_entries d). de_name e = fst x \<and> mirrors img k (de_inode e) (snd x) \<and>
      attr_matches img (in_attr (inode_at img (de_inode e))) (stat_of (snd x)))" by blast
  have same: "m < length (inodes img') \<and> same_inode img img' m" if "m < length (inodes img)" "m \<notin> P" for m
    using that "2.prems"(2) by (simp add: img_grows_def)
  have "n \<notin> P" using n(1) "2.prems"(3) by auto
  note s = same [OF n(2) this]
  then have "skeleton (in_body (inode_at img' n)) = skeleton (Directory_Inode d)" using d(1) by (simp add: same_inode_def)
  from skeleton_directory [OF this] obtain d' where d': "in_body (inode_at img' n) = Directory_Inode d'" "dd_entries d' = dd_entries d"
    by blast
  have "\<exists>e \<in> set (dd_entries d'). de_name e = fst x \<and> mirrors img' k (de_inode e) (snd x) \<and>
      attr_matches img' (in_attr (inode_at img' (de_inode e))) (stat_of (snd x))" if x: "x \<in> set xs" "listed x" for x
  proof -
    obtain e where e: "e \<in> set (dd_entries d)" "de_name e = fst x" "mirrors img k (de_inode e) (snd x)"
      "attr_matches img (in_attr (inode_at img (de_inode e))) (stat_of (snd x))" using entries x by blast
    have "mirrors img' k (de_inode e) (snd x)" by (rule "2.IH" [OF x e(1,3) "2.prems"(2,3)])
    moreover have "de_inode e < length (inodes img)" "de_inode e \<notin> P"
      using mirrors_index [OF e(3)] "2.prems"(3) by auto
    then have "in_attr (inode_at img' (de_inode e)) = in_attr (inode_at img (de_inode e))"
      using same by (simp add: same_inode_def)
    moreover have "attr_matches img' (in_attr (inode_at img (de_inode e))) (stat_of (snd x))"
      using attr_matches_grows [OF e(4)] "2.prems"(2) by (simp add: img_grows_def)
    ultimately show ?thesis using e d'(2) by auto
  qed
  then show ?case using n s d(2) d' by auto
next
  case (3 img k n stat target)
  then have "n \<notin> P" by fastforce
  with 3 grows_body [of P img img' n] show ?case by simp
next
  case (4 img k n stat is_chr major minor)
  then have "n \<notin> P" by fastforce
  with 4 grows_body [of P img img' n] show ?case by simp
next
  case (5 img k n stat)
  then have "n \<notin> P" by fastforce
  with 5 grows_body [of P img img' n] show ?case by simp
qed simp_all

lemma mirrors_mono: "mirrors img k n node \<Longrightarrow> k' \<le> k \<Longrightarrow> mirrors img k' n node"
  by (induction img k n node rule: mirrors.induct) fastforce+

end
