(* ===== verification/Traversal.thy ===== *)
theory Traversal
  imports Mirror
begin

text \<open>
  The operations of mksqfs, and that its traversal builds a mirror of the host's directory.
\<close>

section \<open>Steps aside of the tree\<close>

text \<open>What only changes tables and lists of the image that the tree does not depend on.\<close>

definition aside :: "libsqfs_image \<Rightarrow> libsqfs_image \<Rightarrow> bool" where
  "aside img img' \<longleftrightarrow> inodes img' = inodes img \<and> bulkdata img' = bulkdata img \<and> img_options img' = img_options img \<and>
     dst img' = dst img \<and> img_size img' = img_size img \<and> same_setup img img' \<and> (mem img = [] \<longrightarrow> mem img' = [])"

named_theorems aside_intros

lemma aside_refl [aside_intros]: "aside img img"
  by (simp add: aside_def)

lemma aside_trans: "aside img img1 \<Longrightarrow> aside img1 img2 \<Longrightarrow> aside img img2"
  using same_setup_trans by (auto simp: aside_def)

lemma aside_frame:
  "inodes img' = inodes img \<Longrightarrow> bulkdata img' = bulkdata img \<Longrightarrow> img_options img' = img_options img \<Longrightarrow> dst img' = dst img \<Longrightarrow>
   img_size img' = img_size img \<Longrightarrow> root img' = root img \<Longrightarrow> img_state img' = img_state img \<Longrightarrow> compressor img' = compressor img \<Longrightarrow>
   compressor_option_data img' = compressor_option_data img \<Longrightarrow> compressor_option_data_loc img' = compressor_option_data_loc img \<Longrightarrow>
   idtable img' = idtable img \<Longrightarrow> (mem img = [] \<Longrightarrow> mem img' = []) \<Longrightarrow> aside img img'"
  by (simp add: aside_def same_setup_def)

lemma aside_grows: "aside img img' \<Longrightarrow> mem img = [] \<Longrightarrow> img_grows {} img img'"
  using run_goes_on_frame [of img' img] by (simp add: aside_def img_grows_def same_inode_def)

lemma malloc_Nil: "malloc h = (ok, h') \<Longrightarrow> h = [] \<Longrightarrow> h' = []"
  by auto

lemma own_malloc_aside: "own_malloc img = Inr img' \<Longrightarrow> aside img img'"
  by (cases "malloc (mem img)") (auto simp: own_malloc_def intro!: aside_frame split: if_splits)

lemma fit_buffer_Nil: "h = [] \<Longrightarrow> fit_buffer h bufsize len = (ok, bufsize', h') \<Longrightarrow> h' = []"
  by (induction h bufsize len rule: fit_buffer.induct) (auto split: if_splits prod.splits)

lemma xattr_create_Nil: "libsqfs_xattr_create [] tab name value = (x, tab', h) \<Longrightarrow> h = []"
  by (auto simp: libsqfs_xattr_create_def Let_def split: option.splits prod.splits)

lemma append_loop_Nil:
  assumes "metatable_append_loop h tab bytes = Some r" "h = []"
  shows "snd (snd r) = []"
proof -
  have "h = [] \<longrightarrow> snd (snd r) = []"
  proof (rule metatable_append_loop.raw_induct [OF _ assms(1), where P = "\<lambda>h tab bytes r. h = [] \<longrightarrow> snd (snd r) = []"])
    fix loop and h :: heap and tab bytes r
    assume IH: "\<And>h tab bytes r. loop h tab bytes = Some r \<Longrightarrow> h = [] \<longrightarrow> snd (snd r) = []"
      and body: "(if bytes = [] then Some (True, tab, h)
        else case libsqfs_metatable_getblock h tab of (None, tab, h) \<Rightarrow> Some (False, tab, h)
        | (Some block, tab, h) \<Rightarrow>
            let to_copy = min (SQUASHFS_METADATA_SIZE - opened_block_fill tab) (length bytes);
                block = block\<lparr>mb_data := memcpy (mb_data block) (opened_block_fill tab) (take to_copy bytes)\<rparr>;
                tab = tab\<lparr>opened_block := Some block, opened_block_fill := opened_block_fill tab + to_copy\<rparr> in
            Option.bind (if opened_block_fill tab = SQUASHFS_METADATA_SIZE then libsqfs_metatable_flush tab else Some tab)
              (\<lambda>tab. loop h tab (drop to_copy bytes))) = Some r"
    obtain b tab1 h1 where get: "libsqfs_metatable_getblock h tab = (b, tab1, h1)" by (cases rule: prod_cases3)
    have "h = [] \<Longrightarrow> h1 = []" using get by (auto simp: libsqfs_metatable_getblock_def Let_def split: option.splits prod.splits)
    then show "h = [] \<longrightarrow> snd (snd r) = []" using body IH get
      by (auto simp: Let_def split: option.splits Option.bind_splits if_splits)
  qed
  then show ?thesis using assms(2) by simp
qed

lemma append_Nil: "libsqfs_metatable_append [] tab bytes = Some (ok, pos, tab', h') \<Longrightarrow> h' = []"
  by (auto simp: libsqfs_metatable_append_def Let_def dest: append_loop_Nil split: Option.bind_splits)

lemma serialize_attrs_Nil: "serialize_attrs ord [] tab xattrset first xs = Some (ok, tab', xattrset', h') \<Longrightarrow> h' = []"
proof (induction xs arbitrary: tab xattrset first)
  case (Cons x xs)
  then show ?case by (auto simp: Let_def dest!: append_Nil split: Option.bind_splits if_splits)
qed simp

lemma xattrset_create_Nil: "libsqfs_xattrset_create ord [] tab xs = Some (x, tab', h') \<Longrightarrow> h' = []"
  by (auto simp: libsqfs_xattrset_create_def libsqfs_xattrset_serialize_data_def Let_def
      dest!: append_Nil serialize_attrs_Nil split: Option.bind_splits if_splits)

lemma andthenE: "andthen m f = Inr y \<Longrightarrow> (\<And>x. m = Inr x \<Longrightarrow> f x = Inr y \<Longrightarrow> thesis) \<Longrightarrow> thesis"
  by (cases m) simp_all

lemma nonnull_Inr: "nonnull r = Inr y \<longleftrightarrow> r = (Some (fst y), snd y)"
  by (cases r; cases y) (auto split: option.splits)

lemma xattr_loop_aside: "xattr_loop xs names bufsize attrs img = Inr (attrs', img') \<Longrightarrow> aside img img'"
proof (induction xs names bufsize attrs img arbitrary: attrs' img' rule: xattr_loop.induct)
  case (1 xs names bufsize attrs img)
  let ?name = "takeWhile (\<lambda>c. c \<noteq> 0) names"
  obtain v where v: "map_of xs ?name = Some (Some v)"
    using "1.prems" by (auto simp: Let_def split: option.splits)
  obtain ok b h where f: "fit_buffer (mem img) bufsize (length v) = (ok, b, h)" by (cases rule: prod_cases3)
  have ok: ok using "1.prems" v f by (simp add: Let_def split: if_splits)
  obtain img1 where m: "own_malloc (img\<lparr>mem := h\<rparr>) = Inr img1"
    using "1.prems" v f ok by (auto simp: Let_def andthen_Inr split: if_splits)
  obtain x tab h1 where c: "libsqfs_xattr_create (mem img1) (xattr_table img1) ?name v = (x, tab, h1)" by (cases rule: prod_cases3)
  let ?img = "img1\<lparr>xattr_table := tab, mem := h1\<rparr>"
  have "aside img (img\<lparr>mem := h\<rparr>)" using fit_buffer_Nil [OF _ f] by (intro aside_frame) simp_all
  also note own_malloc_aside [OF m]
  finally (aside_trans) have a: "aside img img1" .
  have "aside img1 ?img" using xattr_create_Nil c by (intro aside_frame) auto
  with a have a: "aside img ?img" by (rule aside_trans)
  show ?case
  proof (cases "drop (length ?name + 1) names = []")
    case True
    then have "img' = ?img" using "1.prems" v f ok m c by (simp add: Let_def)
    with a show ?thesis by simp
  next
    case False
    show ?thesis using "1.IH" "1.prems" v f ok m c a False aside_trans by (simp add: Let_def) 
  qed
qed

lemma get_xattrset_aside:
  assumes "get_xattrset ord stat img = Inr (x, img')"
  shows "aside img img'"
proof (cases "concat (map (\<lambda>x. fst x @ [0]) (host_xattrs stat)) = []")
  case True
  then show ?thesis using assms by (simp add: get_xattrset_def aside_refl)
next
  case False
  then obtain img1 attrs img2 where m: "own_malloc img = Inr img1"
    and l: "xattr_loop (host_xattrs stat) (concat (map (\<lambda>x. fst x @ [0]) (host_xattrs stat))) 128 [] img1 = Inr (attrs, img2)"
    and rest: "(if None \<in> set attrs then Inl Undefined
      else case libsqfs_xattrset_create ord (mem img2) (xattr_table img2) (map the attrs) of
        None \<Rightarrow> Inl Undefined | Some (x, tab, h) \<Rightarrow> Inr (x, img2\<lparr>xattr_table := tab, mem := h\<rparr>)) = Inr (x, img')"
    using assms by (auto simp: get_xattrset_def Let_def andthen_Inr)
  have "aside img2 img'" using rest xattrset_create_Nil by (fastforce intro!: aside_frame split: if_splits option.splits)
  then show ?thesis using own_malloc_aside [OF m] xattr_loop_aside [OF l] aside_trans by blast
qed

lemma idtable_map_Nil: "libsqfs_idtable_map h tab x = (r, tab', h') \<Longrightarrow> h = [] \<Longrightarrow> h' = []"
  by (auto simp: libsqfs_idtable_map_def idtable_slot_def Let_def split: option.splits prod.splits if_splits)

text \<open>Ids are found by the indices that they are given.\<close>

lemma idtable_map_index:
  assumes "libsqfs_idtable_map [] tab x = (r, tab', h)"
  shows "(\<exists>more. ids tab' = ids tab @ more) \<and> id_index (ids tab') (ucast r) x"
proof -
  obtain n where n: "idtable_slot [] tab x = (Some n, tab', h)" "r = of_nat n"
    using assms by (auto simp: libsqfs_idtable_map_def idtable_slot_def split: option.splits)
  have "unat (ucast (of_nat n :: u32) :: u16) = n" if "nids tab' \<le> 65536"
    using slot_index [OF n(1)] that by (simp add: unsigned_ucast_eq unsigned_of_nat take_bit_nat_eq_self)
  then show ?thesis using slot_index [OF n(1)] slot_extends [OF n(1)] n(2) by (auto simp: id_index_def)
qed

lemma id_index_grows: "id_index xs k x \<Longrightarrow> id_index (xs @ ys) k x"
  by (auto simp: id_index_def nth_append)

lemma attr_simple_ok:
  assumes "libsqfs_inodeattr_create_simple uid gid mode ctime img = (Some a, img')" "mem img = []"
  shows "aside img img' \<and> ia_uid a = uid \<and> ia_gid a = gid \<and> ia_mode a = SQUASHFS_MODE mode \<and> ia_ctime a = ctime \<and>
    id_index (ids (idtable img')) (mapped_uid a) uid \<and> id_index (ids (idtable img')) (mapped_gid a) gid"
proof -
  obtain u tab1 h1 where u: "libsqfs_idtable_map [] (idtable img) uid = (u, tab1, h1)" by (cases rule: prod_cases3)
  have h1: "h1 = []" using idtable_map_Nil [OF u] by simp
  obtain g tab2 h2 where g: "libsqfs_idtable_map [] tab1 gid = (g, tab2, h2)" by (cases rule: prod_cases3)
  have h2: "h2 = []" using idtable_map_Nil [OF g] by simp
  have a: "a = \<lparr>ia_uid = uid, ia_gid = gid, ia_mode = SQUASHFS_MODE mode, ia_ctime = ctime, mapped_uid = ucast u, mapped_gid = ucast g,
      ia_xattrset = None\<rparr>"
    and img': "img' = img\<lparr>mem := [], idtable := tab2, inodeattrs := inodeattrs img @ [a]\<rparr>"
    using assms u g h1 h2 by (auto simp: libsqfs_inodeattr_create_simple_def Let_def split: if_splits)
  obtain m1 m2 where m: "ids tab1 = ids (idtable img) @ m1" "ids tab2 = ids tab1 @ m2"
    using idtable_map_index [OF u] idtable_map_index [OF g] by blast
  have "same_setup img img'" using m by (simp add: same_setup_def img')
  then have "aside img img'" by (simp add: aside_def img')
  moreover have "id_index (ids tab2) (ucast u) uid" unfolding m(2) using idtable_map_index [OF u] id_index_grows by blast
  moreover have "id_index (ids tab2) (ucast g) gid" using idtable_map_index [OF g] by blast
  ultimately show ?thesis by (simp add: a img')
qed

lemma get_inode_attrs_ok:
  assumes "get_inode_attrs ord stat img = Inr (a, img')" "mem img = []"
  shows "aside img img' \<and> attr_matches img' a stat"
proof -
  obtain x img1 where x: "get_xattrset ord stat img = Inr (x, img1)"
    and e: "libsqfs_inodeattr_create_extended (st_uid stat) (st_gid stat) (st_mode stat AND 0x1ff) (st_ctime stat) x img1 = (Some a, img')"
    using assms by (auto simp: get_inode_attrs_def andthen_Inr nonnull_Inr)
  from e obtain b img2 where s: "libsqfs_inodeattr_create_simple (st_uid stat) (st_gid stat) (st_mode stat AND 0x1ff) (st_ctime stat) img1 = (Some b, img2)"
    and a: "a = b\<lparr>ia_xattrset := map_option xs_id x\<rparr>" and img': "img' = img2\<lparr>inodeattrs := butlast (inodeattrs img2) @ [a]\<rparr>"
    by (auto simp: libsqfs_inodeattr_create_extended_def Let_def split: prod.splits option.splits)
  have "mem img1 = []" using get_xattrset_aside [OF x] assms(2) by (simp add: aside_def)
  note s = attr_simple_ok [OF s this]
  have "aside img2 img'" by (rule aside_frame) (simp_all add: img')
  then have "aside img img'" using get_xattrset_aside [OF x] s aside_trans by blast
  then show ?thesis using s a by (simp add: attr_matches_def img')
qed

section \<open>New inodes\<close>

definition new_inode :: "libsqfs_image \<Rightarrow> nat \<Rightarrow> libsqfs_inode_body \<Rightarrow> libsqfs_inodeattr \<Rightarrow> libsqfs_image \<Rightarrow> bool" where
  "new_inode img n body attr img' \<longleftrightarrow> n = length (inodes img) \<and> length (inodes img') = Suc n \<and> img_grows {} img img' \<and>
     in_body (inode_at img' n) = body \<and> in_attr (inode_at img' n) = attr \<and> (\<forall>m < n. inode_at img' m = inode_at img m)"

lemma mem_unchanged [simp]: "mem img = [] \<Longrightarrow> img\<lparr>mem := []\<rparr> = (img :: libsqfs_image)"
  by (cases img) simp

lemma init_new_inode:
  "mem img = [] \<Longrightarrow> libsqfs_inode_init body attr img = (n, img') \<Longrightarrow> new_inode img n body attr img'"
  using setup_frame [of img' img] by (auto simp: libsqfs_inode_init_def new_inode_def img_grows_def same_inode_def nth_append)

lemma add_symlink_ok:
  "mem img = [] \<Longrightarrow> add_symlink attr target img = Inr (n, img') \<Longrightarrow>
   \<exists>t. target = Some t \<and> new_inode img n (Symlink_Inode (take 1023 t)) attr img'"
  by (cases target) (auto simp: add_symlink_def nonnull_Inr libsqfs_symlink_inode_create_def apfst_def map_prod_def
      split: prod.splits intro!: init_new_inode)

lemma add_device_ok:
  "mem img = [] \<Longrightarrow> add_device attr is_chr major minor img = Inr (n, img') \<Longrightarrow>
   new_inode img n (Device_Inode (if is_chr then 99 else 98) major minor) attr img'"
  by (auto simp: add_device_def nonnull_Inr libsqfs_device_inode_create_def apfst_def map_prod_def
      split: prod.splits if_splits intro!: init_new_inode)

lemma add_fifo_ok:
  "mem img = [] \<Longrightarrow> add_fifo attr img = Inr (n, img') \<Longrightarrow> new_inode img n Fifo_Inode attr img'"
  by (auto simp: add_fifo_def nonnull_Inr libsqfs_fifo_inode_create_def apfst_def map_prod_def
      split: prod.splits if_splits intro!: init_new_inode)

lemma create_directory_ok:
  "mem img = [] \<Longrightarrow> libsqfs_directory_inode_create attr img = (Some n, img') \<Longrightarrow>
   new_inode img n (Directory_Inode empty_directory) attr img'"
  by (auto simp: libsqfs_directory_inode_create_def apfst_def map_prod_def
      split: prod.splits if_splits intro!: init_new_inode)

text \<open>A regular file: only its own inode changes while its blocks are submitted.\<close>

definition only_inode :: "nat \<Rightarrow> libsqfs_image \<Rightarrow> libsqfs_image \<Rightarrow> bool" where
  "only_inode i img img' \<longleftrightarrow> length (inodes img') = length (inodes img) \<and> in_attr (inode_at img' i) = in_attr (inode_at img i) \<and>
     (\<forall>m. m \<noteq> i \<longrightarrow> inode_at img' m = inode_at img m) \<and> mem img' = [] \<and> same_setup img img' \<and>
     may_add_chunks (bulkdata img') = may_add_chunks (bulkdata img)"

lemma only_inode_refl: "mem img = [] \<Longrightarrow> only_inode i img img"
  by (simp add: only_inode_def)

lemma only_inode_trans: "only_inode i img img1 \<Longrightarrow> only_inode i img1 img2 \<Longrightarrow> only_inode i img img2"
  by (auto simp: only_inode_def intro: same_setup_trans)

lemma upd_regular_only: "i < length (inodes img) \<Longrightarrow> mem img = [] \<Longrightarrow> only_inode i img (upd_regular i f img)"
  by (simp add: only_inode_def upd_regular_def same_setup_def upd_inode_def)

lemma submitted_only:
  assumes "mem img = []"
  shows "libsqfs_bulkdata_sumbit d img = (b, img') \<Longrightarrow> only_inode i img img'"
    and "libsqfs_bulkdata_submit_fragment d img = (b, img') \<Longrightarrow> only_inode i img img'"
  using assms by (auto simp: only_inode_def same_setup_def libsqfs_bulkdata_sumbit_def libsqfs_bulkdata_submit_fragment_def
      libsqfs_bulkdata_enqueue_piece_locked_def libsqfs_bulkdata_enqueue_chunk_locked_def Let_def split: option.splits)

lemma submit_blocks_only:
  "submit_blocks i d fsize ns img = (True, img') \<Longrightarrow> i < length (inodes img) \<Longrightarrow> mem img = [] \<Longrightarrow> only_inode i img img'"
proof (induction ns arbitrary: img)
  case (Cons n ns)
  obtain b img1 where sub: "libsqfs_bulkdata_sumbit (block_piece (block_size (img_options img)) d fsize n) img = (Some b, img1)"
    using Cons.prems(1) by (auto split: prod.splits option.splits)
  note 1 = submitted_only(1) [OF Cons.prems(3) sub, of i]
  let ?img = "upd_regular i (\<lambda>reg. reg\<lparr>reg_blocks := (reg_blocks reg)[n := Some b]\<rparr>) img1"
  have l: "i < length (inodes img1)" "mem img1 = []" using 1 Cons.prems(2) by (simp_all add: only_inode_def)
  have "only_inode i img1 ?img" by (rule upd_regular_only [OF l])
  moreover have "only_inode i ?img img'"
    by (rule Cons.IH) (use Cons.prems sub calculation l in \<open>simp_all add: only_inode_def\<close>)
  ultimately show ?case using 1 only_inode_trans by blast
qed (simp add: only_inode_refl)

lemma create_regular_frame:
  assumes "mem img = []" "data_ok d" "libsqfs_regular_inode_create attr d img = (Some i, img')"
  shows "i = length (inodes img) \<and> length (inodes img') = Suc i \<and> in_attr (inode_at img' i) = attr \<and>
    (\<forall>m < i. inode_at img' m = inode_at img m) \<and> mem img' = [] \<and> same_setup img img' \<and>
    may_add_chunks (bulkdata img') = may_add_chunks (bulkdata img)"
proof -
  let ?fsize = "length (data_bytes d)"
  have get: "libsqfs_data_get_size d = (int ?fsize, None)" by (rule get_size_ok [OF assms(2)])
  obtain nblocks tail_size where layout: "regular_layout (img_options img) ?fsize = (nblocks, tail_size)" by force
  define reg where "reg = \<lparr>file_size = of_nat ?fsize :: u64, sparse_size = 0, reg_blocks = replicate nblocks None, tail_piece = None\<rparr>"
  obtain j img1 where init: "libsqfs_inode_init (Regular_Inode reg) attr img = (j, img1)" by force
  note new = init_new_inode [OF assms(1) init]
  obtain ok img2 where blocks: "submit_blocks j d ?fsize [0..<nblocks] img1 = (ok, img2)" by force
  note body = assms(3) [unfolded libsqfs_regular_inode_create_def get Let_def, simplified, unfolded layout, simplified]
  have ok and i: "i = j"
    using body assms(1) init blocks by (auto simp: reg_def Let_def split: if_splits option.splits prod.splits)
  have rest: "if tail_size \<noteq> 0 then \<exists>p img3. libsqfs_bulkdata_submit_fragment (Piece d tail_size (?fsize - tail_size)) img2 =
        (Some p, img3) \<and> img' = upd_regular j (\<lambda>reg. reg\<lparr>tail_piece := Some p\<rparr>) img3 else img' = img2"
    using body assms(1) init blocks \<open>ok\<close> by (auto simp: reg_def Let_def split: if_splits option.splits prod.splits)
  have j: "j < length (inodes img1)" "mem img1 = []" using new by (simp_all add: new_inode_def img_grows_def)
  note 2 = submit_blocks_only [OF blocks [unfolded \<open>ok\<close> [THEN eqTrueI]] j]
  have 3: "only_inode j img1 img'"
  proof (cases "tail_size = 0")
    case True
    then show ?thesis using rest 2 by simp
  next
    case False
    then obtain p img3 where f: "libsqfs_bulkdata_submit_fragment (Piece d tail_size (?fsize - tail_size)) img2 = (Some p, img3)"
      and img': "img' = upd_regular j (\<lambda>reg. reg\<lparr>tail_piece := Some p\<rparr>) img3" using rest by auto
    have "mem img2 = []" using 2 by (simp add: only_inode_def)
    note f = submitted_only(2) [OF this f, of j]
    have "only_inode j img3 img'" unfolding img'
      by (rule upd_regular_only) (use 2 f j in \<open>simp_all add: only_inode_def\<close>)
    then show ?thesis using 2 f only_inode_trans by blast
  qed
  have "inode_at img' m = inode_at img m" if "m < j" for m
  proof -
    have "inode_at img1 m = inode_at img m"
      using init that new by (auto simp: libsqfs_inode_init_def Let_def new_inode_def nth_append)
    then show ?thesis using 3 that by (simp add: only_inode_def)
  qed
  moreover have "same_setup img img1" "bulkdata img1 = bulkdata img"
    using new init by (auto simp: new_inode_def img_grows_def libsqfs_inode_init_def Let_def)
  ultimately show ?thesis using 3 new i same_setup_trans unfolding only_inode_def new_inode_def by auto
qed

lemma create_regular_goes_on:
  assumes "mem img = []" "data_ok d" "options_ok (img_options img)" "length (data_bytes d) < 2 ^ 63"
    and create: "libsqfs_regular_inode_create attr d img = (Some i, img')"
  shows "run_goes_on img img'"
  unfolding run_goes_on_def
proof (intro allI impI)
  fix J assume s: "submitting J img"
  define xs where "xs = submissions img"
  have "\<forall>i < length xs. fst (xs ! i) \<noteq> libsqfs_closing_piece_vmt" using s unfolding xs_def [symmetric] run_inv_def by blast
  then have "\<forall>x \<in> set (submissions img). fst x \<noteq> libsqfs_closing_piece_vmt"
    unfolding xs_def [symmetric] by (metis in_set_conv_nth)
  from regular_create_steps [OF assms(2,3,1) this, of attr "job_ci J" "[]"]
  obtain i2 img2 where c: "libsqfs_regular_inode_create attr d img = (Some i2, img2)"
    and steps: "(bulk_step (job_ci J))\<^sup>*\<^sup>* (submissions img, img, [])
      (submissions img @ file_chunks (img_options img) d (length (data_bytes d)), img2, [])" by blast
  have "img2 = img'" using c create by simp
  note inv = bulk_steps_inv [OF steps conjunct2 [OF s], unfolded this]
  have "may_add_chunks (bulkdata img')" using s create_regular_frame [OF assms(1,2) create] by blast
  then show "submitting J img'" using inv unfolding submissions_run [OF inv] by blast
qed

text \<open>What the bulk data relies on for a file: it can be read in full.\<close>

definition readable_file :: "host_file \<Rightarrow> bool" where
  "readable_file f \<longleftrightarrow> data_ok (Filedata f) \<and> length (data_bytes (Filedata f)) < 2 ^ 63"

lemma create_from_file_ok:
  assumes "libsqfs_data_create_from_file f img = (Some d, img')"
  shows "aside img img' \<and> d = Filedata f"
  using assms by (auto simp: libsqfs_data_create_from_file_def libsqfs_data_init_def Let_def intro!: aside_frame split: prod.splits if_splits)

lemma add_file_ok:
  assumes "mem img = []" "readable_file f" "options_ok (img_options img)" "add_file attr f img = Inr (i, img')"
  shows "\<exists>reg. new_inode img i (Regular_Inode reg) attr img' \<and> file_mirrored img' i f"
proof -
  let ?d = "Filedata f"
  define bytes where "bytes = data_bytes ?d"
  obtain d img1 where d: "libsqfs_data_create_from_file f img = (Some d, img1)"
    and create: "libsqfs_regular_inode_create attr d img1 = (Some i, img')"
    using assms(4) by (auto simp: add_file_def andthen_Inr nonnull_Inr)
  have "d = Filedata f" by (rule conjunct2 [OF create_from_file_ok [OF d]])
  note create = create [unfolded this]
  have a: "aside img img1" by (rule conjunct1 [OF create_from_file_ok [OF d]])
  then have m: "mem img1 = []" "img_options img1 = img_options img" "inodes img1 = inodes img" "bulkdata img1 = bulkdata img"
    using assms(1) by (simp_all add: aside_def)
  have f: "data_ok ?d" "length bytes < 2 ^ 63" using assms(2) by (simp_all only: readable_file_def bytes_def)
  then have host: "hf_bytes f = Some bytes" by (auto simp: bytes_def split: option.splits)
  note frame = create_regular_frame [OF m(1) f(1) create, unfolded m]
  let ?c = "bd_count (bulkdata img)"
  obtain nb ts where layout: "regular_layout (img_options img) (length bytes) = (nb, ts)"
    and sub: "submissions img' = submissions img @ file_chunks (img_options img) ?d (length bytes)"
    and reg: "has_regular img' i \<lparr>file_size = of_nat (length bytes), sparse_size = 0, reg_blocks = map Some [?c..<?c + nb],
      tail_piece = (if ts \<noteq> 0 then Some (?c + nb) else None)\<rparr>"
    and opt: "img_options img' = img_options img"
    using regular_create_ok [OF f(1) f(2) [unfolded bytes_def] create, folded bytes_def, unfolded m]
    by (elim exE conjE) (rule that; (intro conjI)?; assumption)
  have count: "?c = length (submissions img)" by simp
  note reg = reg [unfolded count]
  have "submissions img' = submissions img @ file_chunks (img_options img') ?d (length bytes) @ []" using sub opt by simp
  then have "submitted_file img' i ?d" using f layout reg unfolding submitted_file_def bytes_def opt by blast
  then have "file_mirrored img' i f" using host unfolding file_mirrored_def bytes_def by blast
  moreover have "run_goes_on img img1" using a assms(1) by (intro run_goes_on_frame) (simp_all add: aside_def)
  with create_regular_goes_on [OF m(1) f(1) _ f(2) [unfolded bytes_def] create] have "run_goes_on img img'"
    using run_goes_on_trans assms(3) m(2) by simp
  moreover have "same_setup img img'" using a frame same_setup_trans unfolding aside_def by blast
  ultimately have "img_grows {} img img'" using frame sub opt by (auto simp: img_grows_def same_inode_def)
  then have "new_inode img i (in_body (inode_at img' i)) attr img'" using frame unfolding new_inode_def by auto
  then show ?thesis using reg \<open>file_mirrored img' i f\<close> by auto
qed

section \<open>Entries\<close>

lemma mset_insert_entry: "mset (map de_name (insert_entry e es)) = add_mset (de_name e) (mset (map de_name es))"
  by (induction es) auto

definition orphan :: "libsqfs_image \<Rightarrow> nat \<Rightarrow> bool" where
  "orphan img n \<longleftrightarrow> (\<forall>d. in_body (inode_at img n) = Directory_Inode d \<longrightarrow> dd_parent d = None)"

lemma adopted_at:
  assumes "p < length (inodes img)" "n < length (inodes img)"
  shows "in_body (inode_at (adopted p n img) m) = (if m = n \<and> libsqfs_inode_get_class (inode_at img n) = libsqfs_directory_inode_vmt
      then Directory_Inode ((directory_at img n)\<lparr>dd_parent := Some p\<rparr>) else in_body (inode_at img m)) \<and>
    in_attr (inode_at (adopted p n img) m) = in_attr (inode_at img m)"
  using assms by (simp add: adopted_def inode_at_upd inode_at_upd_directory)

lemma class_directory: "libsqfs_inode_get_class i = libsqfs_directory_inode_vmt \<Longrightarrow> \<exists>d. in_body i = Directory_Inode d"
  by (cases "in_body i") (simp_all add: libsqfs_inode_get_class_def)

lemma adopted_same:
  assumes "p < length (inodes img)" "n < length (inodes img)"
  shows "same_inode img (adopted p n img) m"
  using adopted_at [OF assms, of m] class_directory [of "inode_at img n"] by (auto simp: same_inode_def)

text \<open>Adding an entry to a directory: it has one entry more and keeps its parent.\<close>

lemma add_entry_ok:
  assumes "mem img = []" "dir < length (inodes img)" "n < length (inodes img)" "n \<noteq> dir" "orphan img n"
    and "in_body (inode_at img dir) = Directory_Inode d" "add_entry dir name n img = Inr img'"
  shows "img_grows {dir} img img' \<and> length (inodes img') = length (inodes img) \<and>
    in_attr (inode_at img' dir) = in_attr (inode_at img dir) \<and>
    in_body (inode_at img' dir) = Directory_Inode (with_entry name n d) \<and>
    (\<forall>m. m \<noteq> dir \<longrightarrow> m \<noteq> n \<longrightarrow> in_body (inode_at img' m) = in_body (inode_at img m))"
proof -
  obtain ok where add: "libsqfs_directory_add_entry dir name n img = Some (ok, img')"
    using assms(7) by (auto simp: add_entry_def split: option.splits)
  have "libsqfs_directory_add_entry dir name n img = Some (True, upd_directory dir (with_entry name n)
      (upd_inode n (\<lambda>i. i\<lparr>in_nlink := in_nlink i + 1\<rparr>) (adopted dir n img)))"
  proof -
    have "\<not> (libsqfs_inode_get_class (inode_at img n) = libsqfs_directory_inode_vmt \<and> dd_parent (directory_at img n) \<noteq> None)"
      using assms(5) class_directory [of "inode_at img n"] by (auto simp: orphan_def)
    moreover have "with_entry name n = (\<lambda>d. d\<lparr>dd_entries := insert_entry (fresh_entry name n) (dd_entries d)\<rparr>)"
      by (rule ext) (simp add: with_entry_def)
    ultimately show ?thesis using assms(1,6)
      by (simp add: libsqfs_directory_add_entry_def adopted_def fresh_entry_def Let_def)
  qed
  then have img': "img' = upd_directory dir (with_entry name n)
      (upd_inode n (\<lambda>i. i\<lparr>in_nlink := in_nlink i + 1\<rparr>) (adopted dir n img))" using add by simp
  let ?a = "adopted dir n img"
  note a = adopted_at [OF assms(2,3)] adopted_same [OF assms(2,3)]
  have len: "length (inodes img') = length (inodes img)" by (simp add: img')
  have at: "in_body (inode_at img' m) = (if m = dir then Directory_Inode (with_entry name n (directory_at ?a dir)) else in_body (inode_at ?a m)) \<and>
      in_attr (inode_at img' m) = in_attr (inode_at ?a m)" for m
    using assms(2-4) by (simp add: img' inode_at_upd_directory inode_at_upd)
  have dir: "in_body (inode_at ?a dir) = Directory_Inode d" using a(1) [of dir] assms(4,6) by simp
  have "bulkdata img' = bulkdata img" "img_options img' = img_options img" "mem img' = []"
    using assms(1) by (simp_all add: img' adopted_def upd_directory_def)
  moreover have "same_inode img img' m" if "m \<noteq> dir" for m
    using a(2) [of m] at [of m] that by (simp add: same_inode_def)
  moreover have "same_setup img img' \<and> run_goes_on img img'"
    by (rule setup_frame) (use assms(1) in \<open>simp_all add: img' adopted_def upd_directory_def upd_inode_def\<close>)
  ultimately have "img_grows {dir} img img'" using len by (simp add: img_grows_def)
  moreover have "in_body (inode_at img' m) = in_body (inode_at img m)" if "m \<noteq> dir" "m \<noteq> n" for m
    using at [of m] a(1) [of m] that by simp
  ultimately show ?thesis using len at [of dir] dir a(1) [of dir] by simp
qed

section \<open>Filling a directory\<close>

text \<open>Directories without a parent remain without one.\<close>

definition orphans_stay :: "libsqfs_image \<Rightarrow> libsqfs_image \<Rightarrow> bool" where
  "orphans_stay img img' \<longleftrightarrow> (\<forall>m < length (inodes img). orphan img m \<longrightarrow> orphan img' m)"

lemma orphans_stayD: "orphans_stay img img' \<Longrightarrow> m < length (inodes img) \<Longrightarrow> orphan img m \<Longrightarrow> orphan img' m"
  by (simp add: orphans_stay_def)

lemma orphans_stay_trans:
  "orphans_stay img img1 \<Longrightarrow> orphans_stay img1 img2 \<Longrightarrow> length (inodes img) \<le> length (inodes img1) \<Longrightarrow> orphans_stay img img2"
  unfolding orphans_stay_def by auto

lemma aside_orphans: "aside img img' \<Longrightarrow> orphans_stay img img'"
  by (simp add: aside_def orphans_stay_def orphan_def)

lemma new_inode_orphans: "new_inode img n body attr img' \<Longrightarrow> orphans_stay img img'"
  by (simp add: new_inode_def orphans_stay_def orphan_def)

text \<open>
  From \<open>img\<close> to \<open>img'\<close>, directory \<open>dir\<close> has been filled with mirrors of the nodes \<open>xs\<close>; directories
  among them come behind \<open>dir\<close>.
\<close>

abbreviation entry_for :: "libsqfs_image \<Rightarrow> nat \<Rightarrow> libsqfs_directory \<Rightarrow> cstring \<times> host_node \<Rightarrow> bool" where
  "entry_for img k d x \<equiv> \<exists>e \<in> set (dd_entries d). de_name e = fst x \<and> mirrors img k (de_inode e) (snd x) \<and>
     attr_matches img (in_attr (inode_at img (de_inode e))) (stat_of (snd x))"

definition fills :: "nat \<Rightarrow> (cstring \<times> host_node) list \<Rightarrow> libsqfs_image \<Rightarrow> libsqfs_image \<Rightarrow> bool" where
  "fills dir xs img img' \<longleftrightarrow> img_grows {dir} img img' \<and> dir < length (inodes img) \<and>
     in_attr (inode_at img' dir) = in_attr (inode_at img dir) \<and>
     (\<exists>d d'. in_body (inode_at img dir) = Directory_Inode d \<and> in_body (inode_at img' dir) = Directory_Inode d' \<and>
       orphans_stay img img' \<and> set (dd_entries d) \<subseteq> set (dd_entries d') \<and>
       mset (map de_name (dd_entries d')) = mset (map de_name (dd_entries d)) + mset (map fst xs) \<and>
       (\<forall>x \<in> set xs. entry_for img' (Suc dir) d' x))"

lemma fillsI:
  assumes "img_grows {dir} img img'" "dir < length (inodes img)" "in_attr (inode_at img' dir) = in_attr (inode_at img dir)"
    "in_body (inode_at img dir) = Directory_Inode d" "in_body (inode_at img' dir) = Directory_Inode d'"
    "orphans_stay img img'" "set (dd_entries d) \<subseteq> set (dd_entries d')"
    "mset (map de_name (dd_entries d')) = mset (map de_name (dd_entries d)) + mset (map fst xs)"
    "\<forall>x \<in> set xs. entry_for img' (Suc dir) d' x"
  shows "fills dir xs img img'"
  unfolding fills_def using assms by (intro conjI exI [of _ d] exI [of _ d'])

lemma fillsE:
  assumes "fills dir xs img img'"
  obtains d d' where "img_grows {dir} img img'" "dir < length (inodes img)" "in_attr (inode_at img' dir) = in_attr (inode_at img dir)"
    "in_body (inode_at img dir) = Directory_Inode d" "in_body (inode_at img' dir) = Directory_Inode d'"
    "orphans_stay img img'" "set (dd_entries d) \<subseteq> set (dd_entries d')"
    "mset (map de_name (dd_entries d')) = mset (map de_name (dd_entries d)) + mset (map fst xs)"
    "\<forall>x \<in> set xs. entry_for img' (Suc dir) d' x"
  using assms unfolding fills_def by (elim exE conjE) (rule that)

lemma fills_refl:
  "mem img = [] \<Longrightarrow> dir < length (inodes img) \<Longrightarrow> in_body (inode_at img dir) = Directory_Inode d \<Longrightarrow> fills dir [] img img"
  by (simp add: fills_def img_grows_refl orphans_stay_def)

lemma entry_for_grows:
  assumes "entry_for img k d x" "img_grows P img img'" "\<forall>p \<in> P. p < k \<and> (\<exists>d. in_body (inode_at img p) = Directory_Inode d)"
    and "set (dd_entries d) \<subseteq> set (dd_entries d')"
  shows "entry_for img' k d' x"
proof -
  obtain e where e: "e \<in> set (dd_entries d)" "de_name e = fst x" "mirrors img k (de_inode e) (snd x)"
    "attr_matches img (in_attr (inode_at img (de_inode e))) (stat_of (snd x))" using assms(1) by blast
  have "de_inode e < length (inodes img)" "de_inode e \<notin> P" using mirrors_index [OF e(3)] assms(3) by auto
  then have "in_attr (inode_at img' (de_inode e)) = in_attr (inode_at img (de_inode e))"
    using assms(2) by (simp add: img_grows_def same_inode_def)
  moreover have "mirrors img' k (de_inode e) (snd x)" by (rule mirrors_grows [OF e(3) assms(2,3)])
  moreover have "attr_matches img' (in_attr (inode_at img (de_inode e))) (stat_of (snd x))"
    using attr_matches_grows [OF e(4)] assms(2) by (simp add: img_grows_def)
  ultimately show ?thesis using e assms(4) by auto
qed

lemma fills_trans:
  assumes "fills dir xs img img1" "fills dir ys img1 img2"
  shows "fills dir (xs @ ys) img img2"
proof -
  from assms(1) obtain d d1 where 1: "img_grows {dir} img img1" "dir < length (inodes img)" "in_attr (inode_at img1 dir) = in_attr (inode_at img dir)"
    "in_body (inode_at img dir) = Directory_Inode d" "in_body (inode_at img1 dir) = Directory_Inode d1"
    "orphans_stay img img1" "set (dd_entries d) \<subseteq> set (dd_entries d1)"
    "mset (map de_name (dd_entries d1)) = mset (map de_name (dd_entries d)) + mset (map fst xs)"
    "\<forall>x \<in> set xs. entry_for img1 (Suc dir) d1 x" by (rule fillsE)
  from assms(2) obtain d1' d2 where 2: "img_grows {dir} img1 img2" "in_attr (inode_at img2 dir) = in_attr (inode_at img1 dir)"
    "in_body (inode_at img1 dir) = Directory_Inode d1'" "in_body (inode_at img2 dir) = Directory_Inode d2"
    "orphans_stay img1 img2" "set (dd_entries d1') \<subseteq> set (dd_entries d2)"
    "mset (map de_name (dd_entries d2)) = mset (map de_name (dd_entries d1')) + mset (map fst ys)"
    "\<forall>x \<in> set ys. entry_for img2 (Suc dir) d2 x" by (rule fillsE)
  have [simp]: "d1' = d1" using 1(5) 2(3) by simp
  have "entry_for img2 (Suc dir) d2 x" if "x \<in> set xs" for x
    by (rule entry_for_grows [OF 1(9) [rule_format, OF that] 2(1)]) (use 1(5) 2(6) in simp_all)
  then have "\<forall>x \<in> set (xs @ ys). entry_for img2 (Suc dir) d2 x" using 2(8) by auto
  moreover have "mset (map de_name (dd_entries d2)) = mset (map de_name (dd_entries d)) + mset (map fst (xs @ ys))"
    using 1(8) 2(7) by simp
  moreover have "orphans_stay img img2" using orphans_stay_trans [OF 1(6) 2(5)] 1(1) by (simp add: img_grows_def)
  moreover have "in_attr (inode_at img2 dir) = in_attr (inode_at img dir)" using 1(3) 2(2) by simp
  moreover have "set (dd_entries d) \<subseteq> set (dd_entries d2)" using 1(7) 2(6) by simp
  ultimately show ?thesis using img_grows_trans [OF 1(1) 2(1)] 1(2,4) 2(4) by (intro fillsI [of dir img img2 d d2])
qed

lemma fills_node:
  assumes made: "img_grows {} img img1" "orphans_stay img img1" and dir: "dir < length (inodes img)" "in_body (inode_at img dir) = Directory_Inode d"
    and node: "mirrors img1 (Suc dir) n node" "attr_matches img1 (in_attr (inode_at img1 n)) (stat_of node)" "orphan img1 n"
    and new: "length (inodes img) \<le> n \<or> (\<forall>d. in_body (inode_at img1 n) \<noteq> Directory_Inode d)"
    and add: "add_entry dir name n img1 = Inr img2"
  shows "fills dir [(name, node)] img img2 \<and> img_grows {dir} img1 img2 \<and> (\<exists>d. in_body (inode_at img1 dir) = Directory_Inode d)"
proof -
  have same: "dir < length (inodes img1)" "same_inode img img1 dir" "mem img1 = []" using made dir(1) by (auto simp: img_grows_def)
  then obtain d1 where d1: "in_body (inode_at img1 dir) = Directory_Inode d1" "dd_entries d1 = dd_entries d"
    using skeleton_directory [of "in_body (inode_at img1 dir)" d] dir(2) by (auto simp: same_inode_def)
  have n: "n < length (inodes img1)" "n \<noteq> dir" using mirrors_index [OF node(1)] d1(1) by auto
  note a = add_entry_ok [OF same(3,1) n node(3) d1(1) add]
  have g: "img_grows {dir} img img2" using img_grows_trans [OF grows_mono [OF made(1), of "{dir}"], of img2] a by simp
  have "orphan img2 m" if m: "m < length (inodes img)" "orphan img m" for m
  proof -
    have o: "orphan img1 m" using orphans_stayD [OF made(2) m] .
    consider "m = dir" | "m \<noteq> dir" "m = n" | "m \<noteq> dir" "m \<noteq> n" by blast
    then show ?thesis
    proof cases
      case 1
      then show ?thesis using a d1(1) o by (simp add: orphan_def with_entry_def)
    next
      case 2
      then have nd: "in_body (inode_at img1 n) \<noteq> Directory_Inode d" for d using new m(1) by auto
      then have "in_body (inode_at img2 n) = in_body (inode_at img1 n)" using grows_body [OF conjunct1 [OF a] n(1)] n(2) by blast
      then show ?thesis using 2 nd by (simp add: orphan_def)
    next
      case 3
      then have "in_body (inode_at img2 m) = in_body (inode_at img1 m)" using a by blast
      then show ?thesis using o by (simp add: orphan_def)
    qed
  qed
  then have o: "orphans_stay img img2" by (simp add: orphans_stay_def)
  have "entry_for img2 (Suc dir) (with_entry name n d1) (name, node)"
  proof -
    have "mirrors img2 (Suc dir) n node" by (rule mirrors_grows [OF node(1), of "{dir}"]) (use a d1 in simp_all)
    moreover have "in_attr (inode_at img2 n) = in_attr (inode_at img1 n)" using a n by (simp add: img_grows_def same_inode_def)
    moreover have "attr_matches img2 (in_attr (inode_at img1 n)) (stat_of node)"
      using attr_matches_grows [OF node(2)] a by (simp add: img_grows_def)
    ultimately show ?thesis by (intro bexI [of _ "fresh_entry name n"]) (simp_all add: with_entry_def fresh_entry_def)
  qed
  moreover have "mset (map de_name (dd_entries (with_entry name n d1))) = mset (map de_name (dd_entries d)) + mset (map fst [(name, node)])"
    using mset_insert_entry [of "fresh_entry name n" "dd_entries d"] d1(2) by (simp add: with_entry_def fresh_entry_def)
  moreover from calculation(1) have "\<forall>x \<in> set [(name, node)]. entry_for img2 (Suc dir) (with_entry name n d1) x" by simp
  moreover have "set (dd_entries d) \<subseteq> set (dd_entries (with_entry name n d1))" using d1(2) by (auto simp: with_entry_def)
  moreover have "in_attr (inode_at img2 dir) = in_attr (inode_at img dir)" using a same(2) by (simp add: same_inode_def)
  moreover have "in_body (inode_at img2 dir) = Directory_Inode (with_entry name n d1)" using a by blast
  ultimately have "fills dir [(name, node)] img img2" using g o dir by (intro fillsI [of dir img img2 d "with_entry name n d1"])
  then show ?thesis using a d1(1) by blast
qed

section \<open>The cache during the traversal\<close>

text \<open>The regular files of the host's tree, and when names that the cache takes for one file are one file.\<close>

fun host_files :: "host_node \<Rightarrow> (host_stat \<times> host_file) set" where
  "host_files (Host_File stat f) = {(stat, f)}"
| "host_files (Host_Directory stat (Some xs)) = (\<Union>x \<in> set xs. host_files (snd x))"
| "host_files _ = {}"

definition files_ok :: "(host_stat \<times> host_file) set \<Rightarrow> bool" where
  "files_ok H \<longleftrightarrow> (\<forall>(stat, f) \<in> H. readable_file f) \<and>
     (\<forall>(stat, f) \<in> H. \<forall>(stat', f') \<in> H. cache_key stat = cache_key stat' \<longrightarrow> stat = stat' \<and> hf_bytes f = hf_bytes f')"

definition cache_ok :: "(host_stat \<times> host_file) set \<Rightarrow> libsqfs_image \<Rightarrow> inode_cache \<Rightarrow> bool" where
  "cache_ok H img cache \<longleftrightarrow> cache_sound cache \<and>
     (\<forall>key n. inode_cache_lookup cache key = Some n \<longrightarrow>
       (\<exists>(stat, f) \<in> H. cache_key stat = key \<and> file_mirrored img n f \<and> attr_matches img (in_attr (inode_at img n)) stat))"

lemma file_same_bytes: "file_mirrored img n f \<Longrightarrow> hf_bytes f = hf_bytes f' \<Longrightarrow> file_mirrored img n f'"
  by (simp add: file_mirrored_def)

lemma file_mirrored_inode: "file_mirrored img n f \<Longrightarrow> n < length (inodes img) \<and> (\<forall>d. in_body (inode_at img n) \<noteq> Directory_Inode d)"
  by (auto simp: file_mirrored_def submitted_file_def)

lemma cache_found:
  assumes "cache_ok H img cache" "files_ok H" "(stat, f) \<in> H" "inode_cache_lookup cache (cache_key stat) = Some n"
  shows "file_mirrored img n f \<and> attr_matches img (in_attr (inode_at img n)) stat"
proof -
  obtain stat' f' where c: "(stat', f') \<in> H" "cache_key stat' = cache_key stat" "file_mirrored img n f'"
    "attr_matches img (in_attr (inode_at img n)) stat'" using assms(1,4) unfolding cache_ok_def by blast
  then have "stat = stat'" "hf_bytes f' = hf_bytes f" using assms(2,3) unfolding files_ok_def by fastforce+
  then show ?thesis using c file_same_bytes by blast
qed

lemma cache_ok_grows:
  assumes "cache_ok H img cache" "img_grows P img img'" "\<forall>p \<in> P. \<exists>d. in_body (inode_at img p) = Directory_Inode d"
  shows "cache_ok H img' cache"
proof -
  have "file_mirrored img' n f \<and> in_attr (inode_at img' n) = in_attr (inode_at img n)" if f: "file_mirrored img n f" for n f
  proof -
    have "n < length (inodes img)" "n \<notin> P" using file_mirrored_inode [OF f] assms(3) by auto
    then show ?thesis using file_mirrored_grows [OF f assms(2,3)] assms(2) by (simp add: img_grows_def same_inode_def)
  qed
  moreover have "attr_matches img' a stat" if "attr_matches img a stat" for a stat
    using attr_matches_grows [OF that] assms(2) by (simp add: img_grows_def)
  ultimately show ?thesis using assms(1) unfolding cache_ok_def by fastforce
qed

lemma cache_ok_insert:
  assumes "cache_ok H img cache" "(stat, f) \<in> H" "file_mirrored img n f" "attr_matches img (in_attr (inode_at img n)) stat"
  shows "cache_ok H img (inode_cache_insert cache (cache_key stat) n)"
proof -
  have c: "cache_sound cache" using assms(1) by (simp add: cache_ok_def)
  let ?Q = "\<lambda>key n. \<exists>(stat, f) \<in> H. cache_key stat = key \<and> file_mirrored img n f \<and> attr_matches img (in_attr (inode_at img n)) stat"
  have old: "\<And>k v. inode_cache_lookup cache k = Some v \<Longrightarrow> ?Q k v" using assms(1) unfolding cache_ok_def by blast
  have new: "?Q (cache_key stat) n" using assms(2-4) by blast
  have "?Q k v" if "inode_cache_lookup (inode_cache_insert cache (cache_key stat) n) k = Some v" for k v
    by (rule cache.all_put [where Q = ?Q, OF c old new that])
  then show ?thesis unfolding cache_ok_def using cache.put_sound [OF c] by blast
qed

section \<open>The files of a directory\<close>

abbreviation is_file :: "cstring \<times> host_node \<Rightarrow> bool" where
  "is_file x \<equiv> is_Host_File (snd x)"

text \<open>What the traversal needs of its state.\<close>

definition traversing :: "(host_stat \<times> host_file) set \<Rightarrow> mksqfs_state \<Rightarrow> bool" where
  "traversing H s \<longleftrightarrow> mem (snd s) = [] \<and> options_ok (img_options (snd s)) \<and> cache_ok H (snd s) (fst s)"

lemma traversing_grows:
  assumes "traversing H (cache, img)" "img_grows P img img'" "\<forall>p \<in> P. \<exists>d. in_body (inode_at img p) = Directory_Inode d"
  shows "traversing H (cache, img')"
  using assms cache_ok_grows [OF _ assms(2,3)] by (simp add: traversing_def img_grows_def)

lemma fills_traversing:
  assumes "traversing H (cache, img)" "fills dir xs img img'"
  shows "traversing H (cache, img')"
  using assms(2) traversing_grows [OF assms(1)] by (auto elim!: fillsE)

text \<open>The inode for a file, from the cache or new.\<close>

abbreviation file_inode :: "byte_order \<Rightarrow> host_stat \<Rightarrow> host_file \<Rightarrow> inode_cache \<Rightarrow> libsqfs_image \<Rightarrow>
    mksqfs_stop + (nat \<times> mksqfs_state)" where
  "file_inode ord stat f cache img \<equiv>
     (case inode_cache_lookup cache (cache_key stat) of
        Some inode \<Rightarrow> Inr (inode, cache, img)
      | None \<Rightarrow>
          andthen (get_inode_attrs ord stat img) (\<lambda>(attr, img).
          andthen (add_file attr f img) (\<lambda>(inode, img).
          andthen (own_malloc img) (\<lambda>img.
            Inr (inode, inode_cache_insert cache (cache_key stat) inode, img)))))"

lemma file_inode_ok:
  assumes "traversing H (cache, img)" "files_ok H" "(stat, f) \<in> H"
    and "file_inode ord stat f cache img = Inr (n, cache', img')"
  shows "traversing H (cache', img') \<and> img_grows {} img img' \<and> orphans_stay img img' \<and> file_mirrored img' n f \<and>
    attr_matches img' (in_attr (inode_at img' n)) stat"
proof (cases "inode_cache_lookup cache (cache_key stat)")
  case (Some inode)
  then have "inode_cache_lookup cache (cache_key stat) = Some n" "cache' = cache" "img' = img" using assms(4) by simp_all
  then show ?thesis using assms(1) cache_found [OF _ assms(2,3)]
    by (auto simp: traversing_def orphans_stay_def intro: img_grows_refl)
next
  case None
  have r: "mem img = []" "options_ok (img_options img)" "cache_ok H img cache" using assms(1) by (simp_all add: traversing_def)
  from None assms(4) obtain attr img1 img2 where a: "get_inode_attrs ord stat img = Inr (attr, img1)"
    and f: "add_file attr f img1 = Inr (n, img2)" and m: "own_malloc img2 = Inr img'"
    and c: "cache' = inode_cache_insert cache (cache_key stat) n"
    by (auto simp: andthen_Inr)
  note a = get_inode_attrs_ok [OF a r(1)]
  then have g1: "img_grows {} img img1" using r(1) aside_grows by blast
  have "mem img1 = []" "options_ok (img_options img1)" "readable_file f"
    using a r assms(2,3) by (auto simp: aside_def files_ok_def)
  from add_file_ok [OF this(1,3,2) f] obtain reg where new: "new_inode img1 n (Regular_Inode reg) attr img2" "file_mirrored img2 n f"
    by blast
  then have g2: "img_grows {} img1 img2" "mem img2 = []" by (simp_all add: new_inode_def img_grows_def)
  have s: "aside img2 img'" by (rule own_malloc_aside [OF m])
  then have g3: "img_grows {} img2 img'" using g2 aside_grows by blast
  have g: "img_grows {} img img'" using g1 g2(1) g3 img_grows_trans by blast
  have "length (inodes img) \<le> length (inodes img1)" "length (inodes img1) \<le> length (inodes img2)"
    using g1 g2 by (simp_all add: img_grows_def)
  then have o: "orphans_stay img img'"
    using aside_orphans [OF conjunct1 [OF a]] new_inode_orphans [OF new(1)] aside_orphans [OF s] orphans_stay_trans by (metis le_trans)
  have fm: "file_mirrored img' n f" using file_mirrored_grows [OF new(2) g3] by simp
  have "in_attr (inode_at img' n) = attr" using new(1) s unfolding new_inode_def aside_def by metis
  moreover have "same_setup img1 img'" using g2(1) g3 same_setup_trans unfolding img_grows_def by blast
  ultimately have attr: "attr_matches img' (in_attr (inode_at img' n)) stat" using attr_matches_grows a by auto
  have "cache_ok H img' cache'" unfolding c
    by (rule cache_ok_insert [OF cache_ok_grows [OF r(3) g] assms(3) fm attr]) simp
  then show ?thesis using g r o fm attr by (simp add: traversing_def img_grows_def)
qed

lemma add_files_ok:
  assumes "add_files ord dir xs s = Inr s'" "traversing H s" "files_ok H" "\<forall>x \<in> set xs. host_files (snd x) \<subseteq> H"
    and "dir < length (inodes (snd s))" "\<exists>d. in_body (inode_at (snd s) dir) = Directory_Inode d"
  shows "traversing H s' \<and> fills dir (filter is_file xs) (snd s) (snd s')"
  using assms
proof (induction ord dir xs s rule: add_files.induct)
  case (1 ord dir s)
  then show ?case by (auto simp: traversing_def intro: fills_refl)
next
  case (2 ord dir name stat f xs cache img)
  from "2.prems"(1) obtain n cache1 img1 img2 where
    made: "file_inode ord stat f cache img = Inr (n, cache1, img1)"
    and add: "add_entry dir name n img1 = Inr img2" and rest: "add_files ord dir xs (cache1, img2) = Inr s'"
    unfolding add_files.simps by (auto elim!: andthenE)
  obtain d where d: "in_body (inode_at img dir) = Directory_Inode d" using "2.prems"(6) by auto
  have H: "(stat, f) \<in> H" using "2.prems"(4) by simp
  note i = file_inode_ok [OF "2.prems"(2,3) H made]
  then have nodir: "\<forall>d. in_body (inode_at img1 n) \<noteq> Directory_Inode d" using file_mirrored_inode by blast
  have fill: "fills dir [(name, Host_File stat f)] img img2 \<and> img_grows {dir} img1 img2 \<and> (\<exists>d. in_body (inode_at img1 dir) = Directory_Inode d)"
    by (rule fills_node [OF _ _ _ d _ _ _ _ add]) (use i nodir "2.prems"(5) in \<open>simp_all add: orphan_def\<close>)
  have r: "traversing H (cache1, img2)" using traversing_grows [OF conjunct1 [OF i]] fill by blast
  have "dir < length (inodes img2)" "\<exists>d. in_body (inode_at img2 dir) = Directory_Inode d"
    using fill by (auto elim!: fillsE simp: img_grows_def)
  with "2.IH" [OF made refl refl add rest r "2.prems"(3)] "2.prems"(4)
  have "traversing H s' \<and> fills dir (filter is_file xs) img2 (snd s')" by simp
  with fills_trans [OF conjunct1 [OF fill]] show ?case by simp
qed simp_all

section \<open>Directories\<close>

lemma insert_name_mset: "mset (insert_name x xs) = add_mset x (mset xs)"
  by (induction xs) auto

lemma scan_ok:
  "scan_directory plen xs found img = Inr (ys, img') \<Longrightarrow> aside img img' \<and> mset ys = mset (filter listed xs) + mset found"
proof (induction xs arbitrary: found img)
  case (Cons x xs)
  show ?case
  proof (cases "listed x")
    case True
    then obtain img1 where m: "own_malloc img = Inr img1"
      and rest: "scan_directory plen xs (insert_name x found) img1 = Inr (ys, img')"
      using Cons.prems by (auto elim!: andthenE split: if_splits)
    from Cons.IH [OF rest] own_malloc_aside [OF m] True show ?thesis using aside_trans by (auto simp: insert_name_mset)
  qed (use Cons in simp)
qed (simp add: aside_refl)

lemma grows_new:
  assumes "img_grows {} img img1" "img_grows {dir} img1 img2" "length (inodes img) \<le> dir"
  shows "img_grows {} img img2"
proof -
  have "img_grows {dir} img img2" using img_grows_trans [OF grows_mono [OF assms(1)] assms(2)] by simp
  then show ?thesis using assms(3) by (auto simp: img_grows_def)
qed

lemma directory_filled:
  assumes new: "new_inode img dir (Directory_Inode empty_directory) attr img1" and s: "aside img1 img2"
    and fill: "fills dir ys img2 img3" and perm: "mset ys = mset (filter listed xs)"
  shows "img_grows {} img img3 \<and> orphans_stay img img3 \<and> orphan img3 dir \<and> in_attr (inode_at img3 dir) = attr \<and>
    mirrors img3 dir dir (Host_Directory stat (Some xs))"
proof -
  have g1: "img_grows {} img img1" and dir: "dir = length (inodes img)" "length (inodes img1) = Suc dir"
    "in_body (inode_at img1 dir) = Directory_Inode empty_directory" "in_attr (inode_at img1 dir) = attr"
    using new unfolding new_inode_def by blast+
  have g2: "img_grows {} img img2" using img_grows_trans [OF g1 aside_grows [OF s]] g1 by (simp add: img_grows_def)
  have same: "inodes img2 = inodes img1" using s by (simp add: aside_def)
  from fill obtain d d' where f: "img_grows {dir} img2 img3" "in_attr (inode_at img3 dir) = in_attr (inode_at img2 dir)"
    "in_body (inode_at img2 dir) = Directory_Inode d" "in_body (inode_at img3 dir) = Directory_Inode d'" "orphans_stay img2 img3"
    "mset (map de_name (dd_entries d')) = mset (map de_name (dd_entries d)) + mset (map fst ys)"
    "\<forall>x \<in> set ys. entry_for img3 (Suc dir) d' x" by (rule fillsE)
  have d: "d = empty_directory" using f(3) dir(3) same by simp
  have g: "img_grows {} img img3" by (rule grows_new [OF g2 f(1)]) (simp add: dir(1))
  have "orphans_stay img img2" by (rule orphans_stay_trans [OF new_inode_orphans [OF new] aside_orphans [OF s]]) (use dir in simp)
  then have o: "orphans_stay img img3" using f(5) orphans_stay_trans g2 by (simp add: img_grows_def)
  have "orphan img2 dir" using same dir(3) by (simp add: orphan_def)
  then have od: "orphan img3 dir" using orphans_stayD [OF f(5), of dir] same dir(2) by simp
  have "entry_for img3 dir d' x" if "x \<in> set xs" "listed x" for x
  proof -
    have "x \<in> set ys" using mset_eq_setD [OF perm] that by simp
    then obtain e where "e \<in> set (dd_entries d')" "de_name e = fst x" "mirrors img3 (Suc dir) (de_inode e) (snd x)"
      "attr_matches img3 (in_attr (inode_at img3 (de_inode e))) (stat_of (snd x))" using f(7) by blast
    then show ?thesis using mirrors_mono [of img3 "Suc dir" _ _ dir] by (intro bexI [of _ e]) simp_all
  qed
  moreover have "mset (map de_name (dd_entries d')) = mset (map fst (filter listed xs))" using f(6) d perm by (simp add: mset_map)
  moreover have "dir < length (inodes img3)" using f(1) same dir(2) by (simp add: img_grows_def)
  ultimately have "mirrors img3 dir dir (Host_Directory stat (Some xs))" using f(4) by simp
  then show ?thesis using g o od f(2) same dir(4) by simp
qed

text \<open>The inode for another node, given that directories are built as they should be.\<close>

abbreviation directory_built :: "(host_stat \<times> host_file) set \<Rightarrow> mksqfs_state \<Rightarrow> libsqfs_inodeattr \<Rightarrow> (cstring \<times> host_node) list option \<Rightarrow>
    nat \<Rightarrow> mksqfs_state \<Rightarrow> bool" where
  "directory_built H s attr entries n s' \<equiv> traversing H s' \<and> n = length (inodes (snd s)) \<and> img_grows {} (snd s) (snd s') \<and>
     orphans_stay (snd s) (snd s') \<and> orphan (snd s') n \<and> in_attr (inode_at (snd s') n) = attr \<and>
     (\<forall>stat. mirrors (snd s') n n (Host_Directory stat entries))"

definition other_inode :: "byte_order \<Rightarrow> nat \<Rightarrow> cstring \<Rightarrow> libsqfs_inodeattr \<Rightarrow> host_node \<Rightarrow> mksqfs_state \<Rightarrow>
    mksqfs_stop + (nat \<times> mksqfs_state)" where
  "other_inode ord plen name attr node = (\<lambda>(cache, img). case node of
     Host_Directory stat entries \<Rightarrow> add_directory ord (plen + 1 + length name) attr entries (cache, img)
   | Host_Symlink stat target \<Rightarrow> andthen (add_symlink attr target img) (\<lambda>(sub, img). Inr (sub, cache, img))
   | Host_Device stat is_chr major minor \<Rightarrow>
       andthen (add_device attr is_chr major minor img) (\<lambda>(sub, img). Inr (sub, cache, img))
   | Host_Fifo stat \<Rightarrow> andthen (add_fifo attr img) (\<lambda>(sub, img). Inr (sub, cache, img))
   | _ \<Rightarrow> Inl Unknown_File_Type)"

lemma new_special:
  assumes "traversing H (cache, img)" "new_inode img n body attr img'" "\<forall>d. body \<noteq> Directory_Inode d"
  shows "traversing H (cache, img') \<and> n = length (inodes img) \<and> img_grows {} img img' \<and> orphans_stay img img' \<and> orphan img' n \<and>
    in_attr (inode_at img' n) = attr \<and> n < length (inodes img') \<and> in_body (inode_at img' n) = body"
  using assms new_inode_orphans [OF assms(2)] traversing_grows [OF assms(1), of "{}" img'] by (auto simp: new_inode_def orphan_def)

lemma other_inode_ok:
  assumes "other_inode ord plen name attr node (cache, img) = Inr (n, s')" "traversing H (cache, img)" "dir < length (inodes img)"
    and dirs: "\<And>stat entries. node = Host_Directory stat entries \<Longrightarrow> directory_built H (cache, img) attr entries n s'"
  shows "traversing H s' \<and> n = length (inodes img) \<and> img_grows {} img (snd s') \<and> orphans_stay img (snd s') \<and> orphan (snd s') n \<and>
    in_attr (inode_at (snd s') n) = attr \<and> mirrors (snd s') (Suc dir) n node"
proof (cases node)
  case (Host_Directory stat entries)
  note b = dirs [OF Host_Directory, unfolded snd_conv]
  then have "mirrors (snd s') n n node" unfolding Host_Directory by blast
  then have "mirrors (snd s') (Suc dir) n node" by (rule mirrors_mono) (use b assms(3) in auto)
  with b show ?thesis by blast
next
  case (Host_Symlink stat target)
  then obtain img' where a: "add_symlink attr target img = Inr (n, img')" and s': "s' = (cache, img')"
    using assms(1) by (auto simp: other_inode_def elim!: andthenE)
  from add_symlink_ok [OF _ a] assms(2) obtain t where t: "target = Some t" "new_inode img n (Symlink_Inode (take 1023 t)) attr img'"
    by (auto simp: traversing_def)
  from new_special [OF assms(2) t(2)] show ?thesis unfolding s' Host_Symlink t(1) snd_conv mirrors.simps by blast
next
  case (Host_Device stat is_chr major minor)
  then obtain img' where a: "add_device attr is_chr major minor img = Inr (n, img')" and s': "s' = (cache, img')"
    using assms(1) by (auto simp: other_inode_def elim!: andthenE)
  have "mem img = []" using assms(2) by (simp add: traversing_def)
  from new_special [OF assms(2) add_device_ok [OF this a]] show ?thesis unfolding s' Host_Device snd_conv mirrors.simps by blast
next
  case (Host_Fifo stat)
  then obtain img' where a: "add_fifo attr img = Inr (n, img')" and s': "s' = (cache, img')"
    using assms(1) by (auto simp: other_inode_def elim!: andthenE)
  have "mem img = []" using assms(2) by (simp add: traversing_def)
  from new_special [OF assms(2) add_fifo_ok [OF this a]] show ?thesis unfolding s' Host_Fifo snd_conv mirrors.simps by blast
qed (use assms(1) in \<open>simp_all add: other_inode_def\<close>)

lemma others_step:
  assumes add: "add_others ord plen dir ((name, node) # xs) (cache, img) = Inr s'" and r: "traversing H (cache, img)"
    and dir: "dir < length (inodes img)" "\<exists>d. in_body (inode_at img dir) = Directory_Inode d" and other: "\<not> is_Host_File node"
    and dirs: "\<And>attr img1 stat entries n s1. get_inode_attrs ord (stat_of node) img = Inr (attr, img1) \<Longrightarrow> traversing H (cache, img1) \<Longrightarrow>
      node = Host_Directory stat entries \<Longrightarrow> add_directory ord (plen + 1 + length name) attr entries (cache, img1) = Inr (n, s1) \<Longrightarrow>
      directory_built H (cache, img1) attr entries n s1"
    and rest: "\<And>attr img1 n cache2 img2 img3. get_inode_attrs ord (stat_of node) img = Inr (attr, img1) \<Longrightarrow>
      other_inode ord plen name attr node (cache, img1) = Inr (n, cache2, img2) \<Longrightarrow> add_entry dir name n img2 = Inr img3 \<Longrightarrow>
      add_others ord plen dir xs (cache2, img3) = Inr s' \<Longrightarrow> traversing H (cache2, img3) \<Longrightarrow> dir < length (inodes img3) \<Longrightarrow>
      \<exists>d. in_body (inode_at img3 dir) = Directory_Inode d \<Longrightarrow> traversing H s' \<and> fills dir (filter (Not \<circ> is_file) xs) img3 (snd s')"
  shows "traversing H s' \<and> fills dir (filter (Not \<circ> is_file) ((name, node) # xs)) img (snd s')"
proof -
  from add other obtain attr img1 n cache2 img2 img3 where a: "get_inode_attrs ord (stat_of node) img = Inr (attr, img1)"
    and n: "other_inode ord plen name attr node (cache, img1) = Inr (n, cache2, img2)" and e: "add_entry dir name n img2 = Inr img3"
    and others: "add_others ord plen dir xs (cache2, img3) = Inr s'"
    by (auto simp: other_inode_def elim!: andthenE)
  have "mem img = []" using r by (simp add: traversing_def)
  note ga = get_inode_attrs_ok [OF a this]
  have s: "img_grows {} img img1" "inodes img1 = inodes img"
    using ga r aside_grows [of img img1] by (simp_all add: aside_def traversing_def)
  have r1: "traversing H (cache, img1)" using traversing_grows [OF r s(1)] by simp
  obtain d where d: "in_body (inode_at img dir) = Directory_Inode d" using dir(2) by blast
  have dir1: "dir < length (inodes img1)" using dir(1) s(2) by simp
  have built: "directory_built H (cache, img1) attr entries n (cache2, img2)" if "node = Host_Directory stat entries" for stat entries
    by (rule dirs [OF a r1 that]) (use n that in \<open>simp add: other_inode_def\<close>)
  have made: "traversing H (cache2, img2) \<and> n = length (inodes img1) \<and> img_grows {} img1 img2 \<and> orphans_stay img1 img2 \<and>
      orphan img2 n \<and> in_attr (inode_at img2 n) = attr \<and> mirrors img2 (Suc dir) n node"
    by (rule other_inode_ok [OF n r1 dir1, unfolded snd_conv]) (rule built [unfolded snd_conv])
  then have o: "traversing H (cache2, img2)" "n = length (inodes img1)" "img_grows {} img1 img2"
    "orphans_stay img1 img2" "orphan img2 n" "in_attr (inode_at img2 n) = attr" "mirrors img2 (Suc dir) n node"
    by blast+
  have g: "img_grows {} img img2" using img_grows_trans [OF s(1) o(3)] .
  have os: "orphans_stay img img2" using orphans_stay_trans [OF aside_orphans [OF conjunct1 [OF ga]] o(4)] s(2) by simp
  have am: "attr_matches img2 (in_attr (inode_at img2 n)) (stat_of node)"
    using attr_matches_grows [of img1 attr "stat_of node" img2] ga o(3,6) by (simp add: img_grows_def)
  have fill: "fills dir [(name, node)] img img3 \<and> img_grows {dir} img2 img3 \<and> (\<exists>d. in_body (inode_at img2 dir) = Directory_Inode d)"
    by (rule fills_node [OF g os dir(1) d o(7) am o(5) _ e]) (use o(2) s(2) in simp)
  have r3: "traversing H (cache2, img3)" using traversing_grows [OF o(1)] fill by blast
  have dir3: "dir < length (inodes img3)" "\<exists>d. in_body (inode_at img3 dir) = Directory_Inode d"
    using fill by (auto elim!: fillsE simp: img_grows_def)
  note last = rest [OF a n e others r3 dir3]
  have "fills dir ([(name, node)] @ filter (Not \<circ> is_file) xs) img (snd s')" using fills_trans last fill by blast
  then show ?thesis using last other by simp
qed

text \<open>A new directory is ready to be filled.\<close>

lemma directory_start:
  assumes r: "traversing H (cache, img)" and c: "libsqfs_directory_inode_create attr img = (Some n, img1)"
    and scan: "scan_directory plen xs [] img1 = Inr (ys, img2)"
  shows "traversing H (cache, img2) \<and> n < length (inodes img2) \<and> (\<exists>d. in_body (inode_at img2 n) = Directory_Inode d) \<and>
    new_inode img n (Directory_Inode empty_directory) attr img1 \<and> aside img1 img2 \<and> mset ys = mset (filter listed xs)"
proof -
  have "mem img = []" using r by (simp add: traversing_def)
  note new = create_directory_ok [OF this c]
  then have g1: "img_grows {} img img1" by (simp add: new_inode_def)
  have sc: "aside img1 img2" "mset ys = mset (filter listed xs)" using scan_ok [OF scan] by simp_all
  then have g2: "img_grows {} img1 img2" "inodes img2 = inodes img1" using aside_grows grows_mem [OF g1] by (auto simp: aside_def)
  have "traversing H (cache, img2)" using traversing_grows [OF r img_grows_trans [OF g1 g2(1)]] by simp
  moreover have "n < length (inodes img2)" "\<exists>d. in_body (inode_at img2 n) = Directory_Inode d"
    using new unfolding new_inode_def g2(2) by auto
  ultimately show ?thesis using new sc by blast
qed

text \<open>A directory, given that its other nodes are added as they should be.\<close>

lemma directory_step:
  assumes add: "add_directory ord plen attr (Some xs) (cache, img) = Inr (n, s')" and r: "traversing H (cache, img)"
    and H: "files_ok H" "\<forall>x \<in> set xs. host_files (snd x) \<subseteq> H"
    and others: "\<And>img1 ys img2 s1. libsqfs_directory_inode_create attr img = (Some n, img1) \<Longrightarrow>
      scan_directory plen xs [] img1 = Inr (ys, img2) \<Longrightarrow> add_files ord n ys (cache, img2) = Inr s1 \<Longrightarrow>
      add_others ord plen n ys s1 = Inr s' \<Longrightarrow> traversing H s1 \<Longrightarrow> \<forall>x \<in> set ys. host_files (snd x) \<subseteq> H \<Longrightarrow>
      n < length (inodes (snd s1)) \<Longrightarrow> \<exists>d. in_body (inode_at (snd s1) n) = Directory_Inode d \<Longrightarrow>
      traversing H s' \<and> fills n (filter (Not \<circ> is_file) ys) (snd s1) (snd s')"
  shows "directory_built H (cache, img) attr (Some xs) n s'"
proof -
  from add obtain img1 ys img2 s1 where c: "libsqfs_directory_inode_create attr img = (Some n, img1)"
    and scan: "scan_directory plen xs [] img1 = Inr (ys, img2)" and files: "add_files ord n ys (cache, img2) = Inr s1"
    and rest: "add_others ord plen n ys s1 = Inr s'"
    by (auto simp: nonnull_Inr elim!: andthenE)
  note s = directory_start [OF r c scan]
  then have r2: "traversing H (cache, img2)" and new: "new_inode img n (Directory_Inode empty_directory) attr img1"
    and sc: "aside img1 img2" "mset ys = mset (filter listed xs)" and dir: "n < length (inodes img2)" "\<exists>d. in_body (inode_at img2 n) = Directory_Inode d"
    by blast+
  have sub: "\<forall>x \<in> set ys. host_files (snd x) \<subseteq> H" using H(2) mset_eq_setD [OF sc(2)] by simp
  from add_files_ok [OF files r2 H(1) sub] dir have 1: "traversing H s1" "fills n (filter is_file ys) img2 (snd s1)" by simp_all
  then have "n < length (inodes (snd s1))" "\<exists>d. in_body (inode_at (snd s1) n) = Directory_Inode d"
    by (auto elim!: fillsE simp: img_grows_def)
  from others [OF c scan files rest 1(1) sub this]
  have 2: "traversing H s'" "fills n (filter (Not \<circ> is_file) ys) (snd s1) (snd s')" by blast+
  have "mset (filter is_file ys @ filter (Not \<circ> is_file) ys) = mset ys"
    by (simp add: comp_def mset_filter)
  then have perm: "mset (filter is_file ys @ filter (Not \<circ> is_file) ys) = mset (filter listed xs)" using sc(2) by simp
  note d = directory_filled [OF new sc(1) fills_trans [OF 1(2) 2(2)] perm]
  have "n = length (inodes img)" using new by (simp add: new_inode_def)
  with d 2(1) show ?thesis unfolding snd_conv by blast
qed

lemma traversal_ok:
  assumes "files_ok H"
  shows "add_directory ord plen attr entries s = Inr (n, s') \<Longrightarrow> traversing H s \<Longrightarrow> host_files (Host_Directory stat entries) \<subseteq> H \<Longrightarrow>
      directory_built H s attr entries n s'"
    and "add_others ord plen dir xs s = Inr s' \<Longrightarrow> traversing H s \<Longrightarrow> \<forall>x \<in> set xs. host_files (snd x) \<subseteq> H \<Longrightarrow>
      dir < length (inodes (snd s)) \<Longrightarrow> \<exists>d. in_body (inode_at (snd s) dir) = Directory_Inode d \<Longrightarrow>
      traversing H s' \<and> fills dir (filter (Not \<circ> is_file) xs) (snd s) (snd s')"
proof (induction ord plen attr entries s and ord plen dir xs s arbitrary: n s' and s' rule: add_directory_add_others.induct)
  case (2 ord plen attr xs cache img)
  show ?case
  proof (rule directory_step [OF "2.prems"(1,2) assms])
    show "\<forall>x \<in> set xs. host_files (snd x) \<subseteq> H" using "2.prems"(3) by auto
    show "traversing H s' \<and> fills n (filter (Not \<circ> is_file) ys) (snd s1) (snd s')" if "libsqfs_directory_inode_create attr img = (Some n, img1)"
      "scan_directory plen xs [] img1 = Inr (ys, img2)" "add_files ord n ys (cache, img2) = Inr s1" "add_others ord plen n ys s1 = Inr s'"
      "traversing H s1" "\<forall>x \<in> set ys. host_files (snd x) \<subseteq> H" "n < length (inodes (snd s1))"
      "\<exists>d. in_body (inode_at (snd s1) n) = Directory_Inode d" for img1 ys img2 s1
      by (rule "2.IH" [OF _ refl that(2) refl that(3-8)]) (simp add: that(1))
  qed
next
  case (3 ord plen dir s)
  then show ?case by (auto simp: traversing_def intro: fills_refl)
next
  case (4 ord plen dir name node xs cache img)
  show ?case
  proof (cases "is_Host_File node")
    case True
    then show ?thesis using 4 by simp
  next
    case False
    have sub: "host_files node \<subseteq> H" "\<forall>x \<in> set xs. host_files (snd x) \<subseteq> H" using "4.prems"(3) by simp_all
    show ?thesis unfolding snd_conv
    proof (rule others_step [OF "4.prems"(1,2) "4.prems"(4,5) [unfolded snd_conv] False])
      show "directory_built H (cache, img1) attr entries n s1" if "get_inode_attrs ord (stat_of node) img = Inr (attr, img1)"
        "traversing H (cache, img1)" "node = Host_Directory stat' entries"
        "add_directory ord (plen + 1 + length name) attr entries (cache, img1) = Inr (n, s1)" for attr img1 stat' entries n s1
        by (rule "4.IH"(2) [OF False that(1) refl that(3,4,2)]) (use sub(1) that(3) in \<open>cases entries; simp\<close>)
    next
      show "traversing H s' \<and> fills dir (filter (Not \<circ> is_file) xs) img3 (snd s')" if
        "get_inode_attrs ord (stat_of node) img = Inr (attr, img1)" "other_inode ord plen name attr node (cache, img1) = Inr (n, cache2, img2)"
        "add_entry dir name n img2 = Inr img3" "add_others ord plen dir xs (cache2, img3) = Inr s'" "traversing H (cache2, img3)"
        "dir < length (inodes img3)" "\<exists>d. in_body (inode_at img3 dir) = Directory_Inode d" for attr img1 n cache2 img2 img3
        using "4.IH"(3) [OF False that(1) refl that(2) [unfolded other_inode_def prod.case] refl refl that(3,4,5) sub(2)] that(6,7)
        by (simp add: comp_def)
    qed
  qed
qed simp

section \<open>Properties\<close>

abbreviation empty_cache :: inode_cache where
  "empty_cache \<equiv> replicate INODE_HASH_SIZE []"

lemma empty_cache: "cache_sound empty_cache" "inode_cache_lookup empty_cache key = None"
  by (simp_all add: inode_cache_lookup_def inode_cache_bucket_def)


definition demo_stat :: "u64 \<Rightarrow> u32 \<Rightarrow> host_stat" where
  "demo_stat ino mode = \<lparr>st_dev = 1, st_ino = ino, st_mode = mode, st_uid = 1000, st_gid = 100, st_ctime = 5, host_xattrs = []\<rparr>"

definition demo_host_file :: host_file where
  "demo_host_file = \<lparr>pathname = ''d/b'', hf_stat_size = Some 3, hf_bytes = Some [1, 2, 3], hf_readable = 3\<rparr>"

text \<open>A file with two names, and a directory with a symbolic link in it.\<close>

definition demo_host :: "(cstring \<times> host_node) list" where
  "demo_host = [(cstr ''c'', Host_File (demo_stat 7 0x1a4) demo_host_file),
     (cstr ''d'', Host_Directory (demo_stat 8 0x1ed) (Some [(cstr ''l'', Host_Symlink (demo_stat 9 0x1ff) (Some (cstr ''x'')))])),
     (cstr ''b'', Host_File (demo_stat 7 0x1a4) demo_host_file)]"

lemmas traversal_simps = listed_def get_inode_attrs_def get_xattrset_def add_file_def add_symlink_def add_entry_def own_malloc_def
  libsqfs_inodeattr_create_extended_def libsqfs_inodeattr_create_simple_def libsqfs_idtable_map_def idtable_slot_def
  libsqfs_data_create_from_file_def libsqfs_data_init_def libsqfs_regular_inode_create_def libsqfs_filedata_get_size_def
  libsqfs_symlink_inode_create_def libsqfs_directory_inode_create_def libsqfs_directory_add_entry_def libsqfs_inode_init_def
  libsqfs_inode_get_class_def upd_directory_def upd_regular_def upd_inode_def regular_layout_def
  libsqfs_bulkdata_submit_fragment_def

lemma demo_traversal:
  assumes "cache_sound c" "\<And>key. inode_cache_lookup c key = None"
  shows "\<exists>cache img'. add_directory LITTLE_ENDIAN 1 demo_attr (Some demo_host) (c, demo_image) = Inr (0, cache, img') \<and>
     length (inodes img') = 4"
  using assms
  by (simp add: demo_host_def demo_stat_def demo_host_file_def demo_image_def traversal_simps Let_def cache.find_put apfst_def map_prod_def libsqfs_idtable_init_def libsqfs_image_options_defaults_def libsqfs_compressor_copy_def)


end
