(* ===== verification/Complete.thy ===== *)
theory Complete
  imports Traversal
begin

text \<open>
  When mksqfs gets through: with memory available, and a host whose files can be read, whose paths are
  short enough and which has no extended attributes, no step of the traversal gives up.
\<close>

section \<open>The operations\<close>

lemma own_malloc_total: "mem img = [] \<Longrightarrow> own_malloc img = Inr img"
  by (simp add: own_malloc_def)

lemma attr_total:
  assumes "mem img = []"
  shows "\<exists>a img'. libsqfs_inodeattr_create_simple uid gid mode ctime img = (Some a, img')"
proof -
  obtain u tab1 h1 where u: "libsqfs_idtable_map [] (idtable img) uid = (u, tab1, h1)" by (cases rule: prod_cases3)
  obtain g tab2 h2 where g: "libsqfs_idtable_map h1 tab1 gid = (g, tab2, h2)" by (cases rule: prod_cases3)
  show ?thesis using assms u g mapped_id_not_minus_one by (simp add: libsqfs_inodeattr_create_simple_def Let_def)
qed

lemma get_inode_attrs_total:
  assumes "mem img = []" "host_xattrs stat = []"
  shows "\<exists>a img'. get_inode_attrs ord stat img = Inr (a, img')"
proof -
  obtain a img' where a: "libsqfs_inodeattr_create_simple (st_uid stat) (st_gid stat) (st_mode stat AND 0x1ff) (st_ctime stat) img = (Some a, img')"
    using attr_total [OF assms(1)] by blast
  then show ?thesis using assms(2)
    by (simp add: get_inode_attrs_def get_xattrset_def libsqfs_inodeattr_create_extended_def Let_def)
qed

lemma submit_blocks_total:
  "mem img = [] \<Longrightarrow> i < length (inodes img) \<Longrightarrow> \<exists>img'. submit_blocks i d fsize ns img = (True, img') \<and> mem img' = []"
proof (induction ns arbitrary: img)
  case (Cons n ns)
  obtain b img1 where sub: "libsqfs_bulkdata_sumbit (block_piece (block_size (img_options img)) d fsize n) img = (Some b, img1)"
    using Cons.prems(1) by (simp add: libsqfs_bulkdata_sumbit_def)
  let ?img = "upd_regular i (\<lambda>reg. reg\<lparr>reg_blocks := (reg_blocks reg)[n := Some b]\<rparr>) img1"
  have "only_inode i img img1" by (rule submitted_only(1) [OF Cons.prems(1) sub])
  then have "mem ?img = []" "i < length (inodes ?img)" using Cons.prems(2) by (simp_all add: only_inode_def upd_regular_def)
  from Cons.IH [OF this] sub show ?case by simp
qed simp

lemma create_regular_total:
  assumes "mem img = []" "data_ok d"
  shows "\<exists>i img'. libsqfs_regular_inode_create attr d img = (Some i, img')"
proof -
  let ?fsize = "length (data_bytes d)"
  have get: "libsqfs_data_get_size d = (int ?fsize, None)" by (rule get_size_ok [OF assms(2)])
  obtain nblocks tail_size where layout: "regular_layout (img_options img) ?fsize = (nblocks, tail_size)" by force
  define reg where "reg = \<lparr>file_size = of_nat ?fsize :: u64, sparse_size = 0, reg_blocks = replicate nblocks None, tail_piece = None\<rparr>"
  obtain j img1 where init: "libsqfs_inode_init (Regular_Inode reg) attr img = (j, img1)" by force
  have "mem img1 = []" "j < length (inodes img1)"
    using init_new_inode [OF assms(1) init] by (simp_all add: new_inode_def img_grows_def)
  from submit_blocks_total [OF this] obtain img2 where blocks: "submit_blocks j d ?fsize [0..<nblocks] img1 = (True, img2)" "mem img2 = []"
    by blast
  obtain p img3 where tail: "libsqfs_bulkdata_submit_fragment (Piece d tail_size (?fsize - tail_size)) img2 = (Some p, img3)"
    using blocks(2) by (simp add: libsqfs_bulkdata_submit_fragment_def)
  show ?thesis using assms(1) init [unfolded reg_def] blocks(1) tail
    by (simp add: libsqfs_regular_inode_create_def get layout)
qed

lemma add_file_total:
  assumes "mem img = []" "readable_file f"
  shows "\<exists>n img'. add_file attr f img = Inr (n, img')"
proof -
  obtain img1 where d: "libsqfs_data_create_from_file f img = (Some (Filedata f), img1)"
    using assms(1) by (simp add: libsqfs_data_create_from_file_def)
  then have "mem img1 = []" using create_from_file_ok [OF d] assms(1) by (simp add: aside_def)
  from create_regular_total [OF this, of "Filedata f" attr] assms(2) d show ?thesis
    by (auto simp: add_file_def readable_file_def simp del: data_ok.simps)
qed

lemma special_total:
  assumes "mem img = []"
  shows "\<exists>n img'. add_symlink attr (Some t) img = Inr (n, img')" "\<exists>n img'. add_device attr is_chr major minor img = Inr (n, img')"
    "\<exists>n img'. add_fifo attr img = Inr (n, img')" "\<exists>n img'. libsqfs_directory_inode_create attr img = (Some n, img')"
  using assms by (simp_all add: add_symlink_def add_device_def add_fifo_def libsqfs_symlink_inode_create_def
      libsqfs_device_inode_create_def libsqfs_fifo_inode_create_def libsqfs_directory_inode_create_def libsqfs_inode_init_def Let_def)

lemma add_entry_total:
  assumes "in_body (inode_at img dir) = Directory_Inode d"
  shows "\<exists>img'. add_entry dir name n img = Inr img'"
  using assms by (cases "libsqfs_directory_add_entry dir name n img")
    (auto simp: add_entry_def libsqfs_directory_add_entry_def Let_def split: prod.splits if_splits)

lemma scan_total:
  "mem img = [] \<Longrightarrow> \<forall>x \<in> set xs. listed x \<longrightarrow> plen + length (fst x) < PATH_MAX \<Longrightarrow> \<exists>ys. scan_directory plen xs found img = Inr (ys, img)"
proof (induction xs arbitrary: found)
  case (Cons x xs)
  then show ?case by (cases "listed x") (simp_all add: own_malloc_total)
qed simp

section \<open>The traversal\<close>

text \<open>What the traversal can cope with; \<open>plen\<close> is the length of the path of the node.\<close>

fun host_ok :: "nat \<Rightarrow> host_node \<Rightarrow> bool" where
  "host_ok plen (Host_Directory stat (Some xs)) \<longleftrightarrow> (\<forall>x \<in> set xs. listed x \<longrightarrow> plen + length (fst x) < PATH_MAX \<and>
     host_xattrs (stat_of (snd x)) = [] \<and> host_ok (plen + 1 + length (fst x)) (snd x))"
| "host_ok plen (Host_Directory stat None) \<longleftrightarrow> False"
| "host_ok plen (Host_Symlink stat None) \<longleftrightarrow> False"
| "host_ok plen (Host_Other stat) \<longleftrightarrow> False"
| "host_ok plen _ \<longleftrightarrow> True"

abbreviation entries_host_ok :: "nat \<Rightarrow> (cstring \<times> host_node) list \<Rightarrow> bool" where
  "entries_host_ok plen xs \<equiv> \<forall>x \<in> set xs. plen + length (fst x) < PATH_MAX \<and>
     host_xattrs (stat_of (snd x)) = [] \<and> host_ok (plen + 1 + length (fst x)) (snd x)"

lemma file_inode_total:
  assumes "traversing H (cache, img)" "files_ok H" "(stat, f) \<in> H" "host_xattrs stat = []"
  shows "\<exists>n s'. file_inode ord stat f cache img = Inr (n, s')"
proof (cases "inode_cache_lookup cache (cache_key stat)")
  case None
  have r: "mem img = []" "options_ok (img_options img)" "readable_file f"
    using assms(1-3) by (auto simp: traversing_def files_ok_def)
  obtain a img1 where a: "get_inode_attrs ord stat img = Inr (a, img1)" using get_inode_attrs_total [OF r(1) assms(4)] by blast
  then have m: "mem img1 = []" "options_ok (img_options img1)" using get_inode_attrs_ok [OF a r(1)] r by (simp_all add: aside_def)
  obtain n img2 where f: "add_file a f img1 = Inr (n, img2)" using add_file_total [OF m(1) r(3)] by blast
  then have "mem img2 = []" using add_file_ok [OF m(1) r(3) m(2) f] by (auto simp: new_inode_def img_grows_def)
  then show ?thesis using None a f by (simp add: own_malloc_total)
qed simp

lemma add_files_total:
  assumes "traversing H s" "files_ok H" "\<forall>x \<in> set xs. host_files (snd x) \<subseteq> H" "\<forall>x \<in> set xs. host_xattrs (stat_of (snd x)) = []"
    and "dir < length (inodes (snd s))" "\<exists>d. in_body (inode_at (snd s) dir) = Directory_Inode d"
  shows "\<exists>s'. add_files ord dir xs s = Inr s'"
  using assms
proof (induction ord dir xs s rule: add_files.induct)
  case (2 ord dir name stat f xs cache img)
  have H: "(stat, f) \<in> H" "host_xattrs stat = []" using "2.prems"(3,4) by simp_all
  obtain n cache1 img1 where made: "file_inode ord stat f cache img = Inr (n, cache1, img1)"
    using file_inode_total [OF "2.prems"(1,2) H] by force
  note i = file_inode_ok [OF "2.prems"(1,2) H(1) made]
  obtain d where d: "in_body (inode_at img dir) = Directory_Inode d" using "2.prems"(6) by auto
  have dir1: "dir < length (inodes img1)" "same_inode img img1 dir" using i "2.prems"(5) by (auto simp: img_grows_def)
  then obtain d1 where d1: "in_body (inode_at img1 dir) = Directory_Inode d1"
    using skeleton_directory [of "in_body (inode_at img1 dir)" d] d by (auto simp: same_inode_def)
  obtain img2 where add: "add_entry dir name n img1 = Inr img2" using add_entry_total [OF d1] by blast
  have step: "add_files ord dir [(name, Host_File stat f)] (cache, img) = Inr (cache1, img2)" using made add by simp
  have r: "traversing H (cache1, img2) \<and> fills dir [(name, Host_File stat f)] img img2"
    using add_files_ok [OF step "2.prems"(1,2)] "2.prems"(3,5,6) by simp
  then have dir2: "dir < length (inodes img2)" "\<exists>d. in_body (inode_at img2 dir) = Directory_Inode d"
    by (auto elim!: fillsE simp: img_grows_def)
  from "2.IH" [OF made refl refl add conjunct1 [OF r] "2.prems"(2)] dir2 "2.prems"(3,4)
  show ?case using made add by simp
qed simp_all

lemma other_inode_total:
  assumes "mem img = []" "host_ok (plen + 1 + length name) node" "\<not> is_Host_File node"
    and "\<And>stat entries. node = Host_Directory stat entries \<Longrightarrow> \<exists>n s'. add_directory ord (plen + 1 + length name) attr entries (cache, img) = Inr (n, s')"
  shows "\<exists>n s'. other_inode ord plen name attr node (cache, img) = Inr (n, s')"
proof (cases node)
  case (Host_Symlink stat target)
  then obtain t where t: "target = Some t" using assms(2) by (cases target) simp_all
  show ?thesis using special_total(1) [OF assms(1), of attr t] Host_Symlink t by (auto simp: other_inode_def)
next
  case (Host_Device stat is_chr major minor)
  then show ?thesis using special_total(2) [OF assms(1), of attr is_chr major minor] by (auto simp: other_inode_def)
next
  case (Host_Fifo stat)
  then show ?thesis using special_total(3) [OF assms(1), of attr] by (auto simp: other_inode_def)
qed (use assms(2-4) in \<open>auto simp: other_inode_def\<close>)

lemma others_step_total:
  assumes r: "traversing H (cache, img)" and H: "files_ok H" "host_files node \<subseteq> H"
    and dir: "dir < length (inodes img)" "\<exists>d. in_body (inode_at img dir) = Directory_Inode d" and other: "\<not> is_Host_File node"
    and ok: "host_ok (plen + 1 + length name) node" "host_xattrs (stat_of node) = []"
    and dirs: "\<And>attr img1 stat entries. get_inode_attrs ord (stat_of node) img = Inr (attr, img1) \<Longrightarrow> traversing H (cache, img1) \<Longrightarrow>
      node = Host_Directory stat entries \<Longrightarrow> \<exists>n s1. add_directory ord (plen + 1 + length name) attr entries (cache, img1) = Inr (n, s1)"
  obtains attr img1 n cache2 img2 img3 where "get_inode_attrs ord (stat_of node) img = Inr (attr, img1)"
    "other_inode ord plen name attr node (cache, img1) = Inr (n, cache2, img2)" "add_entry dir name n img2 = Inr img3"
    "traversing H (cache2, img3)" "dir < length (inodes img3)" "\<exists>d. in_body (inode_at img3 dir) = Directory_Inode d"
proof -
  have m: "mem img = []" using r by (simp add: traversing_def)
  obtain attr img1 where a: "get_inode_attrs ord (stat_of node) img = Inr (attr, img1)" using get_inode_attrs_total [OF m ok(2)] by blast
  have ga: "img_grows {} img img1" using get_inode_attrs_ok [OF a] m aside_grows by blast
  have r1: "traversing H (cache, img1)" using traversing_grows [OF r ga] by simp
  then have "mem img1 = []" by (simp add: traversing_def)
  from other_inode_total [OF this ok(1) other dirs [OF a r1]]
  obtain n cache2 img2 where n: "other_inode ord plen name attr node (cache, img1) = Inr (n, cache2, img2)" by force
  have built: "directory_built H (cache, img1) attr entries n (cache2, img2)" if d: "node = Host_Directory stat entries" for stat entries
    by (rule traversal_ok(1) [OF H(1) _ r1, of ord "plen + 1 + length name" attr entries n "(cache2, img2)" stat])
      (use n H(2) d in \<open>simp_all add: other_inode_def\<close>)
  have dir1: "dir < length (inodes img1)" using ga dir(1) by (simp add: img_grows_def)
  have "img_grows {} img1 (snd (cache2, img2))" by (rule conjunct1 [OF conjunct2 [OF conjunct2 [OF other_inode_ok [OF n r1 dir1]]]]) (rule built)
  then have "same_inode img img2 dir" using img_grows_trans [OF ga] dir(1) by (auto simp: img_grows_def)
  then obtain d2 where d2: "in_body (inode_at img2 dir) = Directory_Inode d2"
    using dir(2) skeleton_directory by (fastforce simp: same_inode_def)
  obtain img3 where e: "add_entry dir name n img2 = Inr img3" using add_entry_total [OF d2] by blast
  have "add_others ord plen dir [(name, node)] (cache, img) = Inr (cache2, img3)"
    using other a n e by (simp add: other_inode_def)
  from traversal_ok(2) [OF H(1) this r] H(2) dir have f: "traversing H (cache2, img3)" "fills dir (filter (Not \<circ> is_file) [(name, node)]) img img3"
    by simp_all
  then have "dir < length (inodes img3)" "\<exists>d. in_body (inode_at img3 dir) = Directory_Inode d"
    by (auto elim!: fillsE simp: img_grows_def)
  then show thesis using that a n e f(1) by blast
qed

lemma traversal_total:
  assumes H: "files_ok H"
  shows "traversing H s \<Longrightarrow> host_files (Host_Directory stat entries) \<subseteq> H \<Longrightarrow> host_ok plen (Host_Directory stat entries) \<Longrightarrow>
      \<exists>n s'. add_directory ord plen attr entries s = Inr (n, s')"
    and "traversing H s \<Longrightarrow> \<forall>x \<in> set xs. host_files (snd x) \<subseteq> H \<Longrightarrow> entries_host_ok plen xs \<Longrightarrow>
      dir < length (inodes (snd s)) \<Longrightarrow> \<exists>d. in_body (inode_at (snd s) dir) = Directory_Inode d \<Longrightarrow>
      \<exists>s'. add_others ord plen dir xs s = Inr s'"
proof (induction ord plen attr entries s and ord plen dir xs s rule: add_directory_add_others.induct)
  case (2 ord plen attr xs cache img)
  have ok: "entries_host_ok plen (filter listed xs)" and files: "\<forall>x \<in> set xs. host_files (snd x) \<subseteq> H" using "2.prems"(2,3) by auto
  have m: "mem img = []" using "2.prems"(1) by (simp add: traversing_def)
  obtain n img1 where c: "libsqfs_directory_inode_create attr img = (Some n, img1)" using special_total(4) [OF m] by blast
  have "mem img1 = []" using create_directory_ok [OF m c] by (simp add: new_inode_def img_grows_def)
  then obtain ys where scan: "scan_directory plen xs [] img1 = Inr (ys, img1)" using scan_total [of img1 xs plen "[]"] ok by auto
  note s = directory_start [OF "2.prems"(1) c scan]
  have set: "set ys = set (filter listed xs)" using s mset_eq_setD by blast
  have dir: "n < length (inodes (snd (cache, img1)))" "\<exists>d. in_body (inode_at (snd (cache, img1)) n) = Directory_Inode d" using s by simp_all
  have f: "\<forall>x \<in> set ys. host_files (snd x) \<subseteq> H" using files set by simp
  have xa: "\<forall>x \<in> set ys. host_xattrs (stat_of (snd x)) = []" using ok set by simp
  obtain s1 where s1: "add_files ord n ys (cache, img1) = Inr s1"
    using add_files_total [OF conjunct1 [OF s] H f xa dir] by blast
  from add_files_ok [OF s1 conjunct1 [OF s] H f dir] have 1: "traversing H s1" "fills n (filter is_file ys) img1 (snd s1)" by simp_all
  then have d1: "n < length (inodes (snd s1))" "\<exists>d. in_body (inode_at (snd s1) n) = Directory_Inode d"
    by (auto elim!: fillsE simp: img_grows_def)
  have "entries_host_ok plen ys" using ok set by simp
  from "2.IH" [OF _ refl scan refl s1 1(1) f this d1] c obtain s' where "add_others ord plen n ys s1 = Inr s'" by auto
  then show ?case using c scan s1 by simp
next
  case (4 ord plen dir name node xs cache img)
  show ?case
  proof (cases "is_Host_File node")
    case True
    then show ?thesis using 4 by simp
  next
    case False
    have sub: "host_files node \<subseteq> H" "\<forall>x \<in> set xs. host_files (snd x) \<subseteq> H" "host_ok (plen + 1 + length name) node"
      "host_xattrs (stat_of node) = []" "entries_host_ok plen xs" using "4.prems"(2,3) by simp_all
    have dirs: "\<exists>n s1. add_directory ord (plen + 1 + length name) attr entries (cache, img1) = Inr (n, s1)"
      if "get_inode_attrs ord (stat_of node) img = Inr (attr, img1)" "traversing H (cache, img1)" "node = Host_Directory stat' entries"
      for attr img1 stat' entries
      using "4.IH"(2) [OF False that(1) refl that(3,2)] sub(1,3) that(3) by (cases entries) simp_all
    obtain attr img1 n cache2 img2 img3 where step: "get_inode_attrs ord (stat_of node) img = Inr (attr, img1)"
      "other_inode ord plen name attr node (cache, img1) = Inr (n, cache2, img2)" "add_entry dir name n img2 = Inr img3"
      "traversing H (cache2, img3)" "dir < length (inodes img3)" "\<exists>d. in_body (inode_at img3 dir) = Directory_Inode d"
      by (rule others_step_total [OF "4.prems"(1) H sub(1) "4.prems"(4,5) [unfolded snd_conv] False sub(3,4) dirs])
    from "4.IH"(3) [OF False step(1) refl step(2) [unfolded other_inode_def prod.case] refl refl step(3,4) sub(2,5)] step(5,6)
    obtain s' where "add_others ord plen dir xs (cache2, img3) = Inr s'" by auto
    then show ?thesis using False step(1-3) by (simp add: other_inode_def)
  qed
qed simp_all

section \<open>Properties\<close>

text \<open>C16: mksqfs gets through. With memory available, and for a host whose directories, links and files can be
  read, whose paths stay below the limit and which has only files of the kinds that the program knows and no
  extended attributes, the traversal of a directory returns a root; none of its unchecked results is a null pointer.\<close>

theorem mksqfs_succeeds:
  assumes "mem img = []" "options_ok (img_options img)" "files_ok (host_files (Host_Directory stat entries))"
    and "host_ok plen (Host_Directory stat entries)"
  shows "\<exists>n cache img'. add_directory ord plen attr entries (empty_cache, img) = Inr (n, cache, img')"
proof -
  have "traversing (host_files (Host_Directory stat entries)) (empty_cache, img)"
    using assms(1,2) empty_cache by (simp add: traversing_def cache_ok_def)
  from traversal_total(1) [OF assms(3) this order_refl assms(4)] show ?thesis by (metis prod.collapse)
qed

theorem mksqfs_succeeds_witness:
  "\<exists>n cache img'. add_directory LITTLE_ENDIAN 1 demo_attr (Some demo_host) (empty_cache, demo_image) = Inr (n, cache, img')"
proof -
  have "mem demo_image = []" "options_ok (img_options demo_image)" "files_ok (host_files (Host_Directory (demo_stat 1 0) (Some demo_host)))"
    "host_ok 1 (Host_Directory (demo_stat 1 0) (Some demo_host))"
    by (simp_all add: demo_image_def libsqfs_image_options_defaults_def libsqfs_compressor_copy_def options_ok_def
        demo_host_def demo_host_file_def demo_stat_def files_ok_def readable_file_def)
  then show ?thesis by (rule mksqfs_succeeds)
qed

end
