(* ===== verification/Clientrun.thy ===== *)
theory Clientrun
  imports Traversal
begin

text \<open>
  mksqfs keeps to what a client may do: its traversal is a sequence of client steps, however the calls
  end, so that the tree it builds can be serialised.
\<close>

section \<open>Runs of a client\<close>

definition client_run :: "libsqfs_image \<Rightarrow> libsqfs_image \<Rightarrow> bool" where
  "client_run img img' \<longleftrightarrow> client_step\<^sup>*\<^sup>* img img' \<and> length (inodes img) \<le> length (inodes img')"

lemma client_run_refl: "client_run img img"
  by (simp add: client_run_def)

lemma client_run_trans: "client_run img img1 \<Longrightarrow> client_run img1 img2 \<Longrightarrow> client_run img img2"
  by (auto simp: client_run_def)

lemma client_run_step: "client_step img img' \<Longrightarrow> length (inodes img) \<le> length (inodes img') \<Longrightarrow> client_run img img'"
  by (auto simp: client_run_def)

section \<open>The operations\<close>

lemma malloc_run: "malloc (mem img) = (ok, h) \<Longrightarrow> client_run img (img\<lparr>mem := h\<rparr>)"
  using client_step.own_memory [of img] by (intro client_run_step) simp_all

lemma own_malloc_run: "own_malloc img = Inr img' \<Longrightarrow> client_run img img'"
  by (cases "malloc (mem img)") (auto simp: own_malloc_def malloc_run split: if_splits)

lemma fit_buffer_run: "fit_buffer (mem img) bufsize len = (ok, bufsize', h) \<Longrightarrow> client_run img (img\<lparr>mem := h\<rparr>)"
proof (induction "mem img" bufsize len arbitrary: img rule: fit_buffer.induct)
  case (1 bufsize len)
  show ?case
  proof (cases "len \<le> bufsize \<or> bufsize = 0")
    case True
    then have "img\<lparr>mem := h\<rparr> = img" using "1.prems" by auto
    then show ?thesis using client_run_refl by simp
  next
    case False
    obtain ok1 h1 where m: "malloc (mem img) = (ok1, h1)" by fastforce
    note r = malloc_run [OF m]
    show ?thesis
    proof (cases ok1)
      case True
      let ?img = "img\<lparr>mem := h1\<rparr>"
      have "client_run ?img (?img\<lparr>mem := h\<rparr>)"
        by (rule "1.hyps" [OF False refl]) (use "1.prems" False m True in simp_all)
      then show ?thesis using client_run_trans [OF r] by simp
    qed (use "1.prems" False m r in simp)
  qed
qed

lemma xattr_loop_run: "xattr_loop xs names bufsize attrs img = Inr (attrs', img') \<Longrightarrow> client_run img img'"
proof (induction xs names bufsize attrs img arbitrary: attrs' img' rule: xattr_loop.induct)
  case (1 xs names bufsize attrs img)
  let ?name = "takeWhile (\<lambda>c. c \<noteq> 0) names"
  obtain v where v: "map_of xs ?name = Some (Some v)"
    using "1.prems" by (auto simp: Let_def split: option.splits)
  obtain ok b h where f: "fit_buffer (mem img) bufsize (length v) = (ok, b, h)" by (cases rule: prod_cases3)
  have ok: ok using "1.prems" v f by (simp add: Let_def split: if_splits)
  obtain img1 where m: "own_malloc (img\<lparr>mem := h\<rparr>) = Inr img1"
    using "1.prems" v f ok by (auto simp: Let_def andthen_Inr split: if_splits)
  obtain x tab h1 where c: "libsqfs_xattr_create (mem img1) (xattr_table img1) ?name v = (x, tab, h1)" by (cases rule: prod_cases3)
  let ?img = "img1\<lparr>xattr_table := tab, mem := h1\<rparr>"
  have "client_run img1 ?img" by (rule client_run_step [OF client_step.xattr [OF c]]) simp
  then have a: "client_run img ?img" using fit_buffer_run [OF f] own_malloc_run [OF m] client_run_trans by blast
  show ?case
  proof (cases "drop (length ?name + 1) names = []")
    case True
    then have "img' = ?img" using "1.prems" v f ok m c by (simp add: Let_def)
    with a show ?thesis by simp
  next
    case False
    then show ?thesis using "1.IH" "1.prems" v f ok m c client_run_trans [OF a] by (simp add: Let_def)
  qed
qed

lemma get_xattrset_run:
  assumes "get_xattrset ord stat img = Inr (x, img')"
  shows "client_run img img'"
proof (cases "concat (map (\<lambda>x. fst x @ [0]) (host_xattrs stat)) = []")
  case True
  then show ?thesis using assms by (simp add: get_xattrset_def client_run_refl)
next
  case False
  then obtain img1 attrs img2 where m: "own_malloc img = Inr img1"
    and l: "xattr_loop (host_xattrs stat) (concat (map (\<lambda>x. fst x @ [0]) (host_xattrs stat))) 128 [] img1 = Inr (attrs, img2)"
    and rest: "(if None \<in> set attrs then Inl Undefined
      else case libsqfs_xattrset_create ord (mem img2) (xattr_table img2) (map the attrs) of
        None \<Rightarrow> Inl Undefined | Some (x, tab, h) \<Rightarrow> Inr (x, img2\<lparr>xattr_table := tab, mem := h\<rparr>)) = Inr (x, img')"
    using assms by (auto simp: get_xattrset_def Let_def andthen_Inr)
  from rest obtain tab h where "libsqfs_xattrset_create ord (mem img2) (xattr_table img2) (map the attrs) = Some (x, tab, h)"
    and img': "img' = img2\<lparr>xattr_table := tab, mem := h\<rparr>" by (auto split: if_splits option.splits)
  from client_step.xattrset [OF this(1)] have "client_run img2 img'" by (intro client_run_step) (simp_all add: img')
  then show ?thesis using own_malloc_run [OF m] xattr_loop_run [OF l] client_run_trans by blast
qed

lemma get_inode_attrs_run:
  assumes "get_inode_attrs ord stat img = Inr (a, img')"
  shows "client_run img img'"
proof -
  obtain x img1 where x: "get_xattrset ord stat img = Inr (x, img1)"
    and e: "libsqfs_inodeattr_create_extended (st_uid stat) (st_gid stat) (st_mode stat AND 0x1ff) (st_ctime stat) x img1 = (Some a, img')"
    using assms by (auto simp: get_inode_attrs_def andthen_Inr nonnull_Inr)
  have "client_run img1 (snd (libsqfs_inodeattr_create_extended (st_uid stat) (st_gid stat) (st_mode stat AND 0x1ff) (st_ctime stat) x img1))"
    by (rule client_run_step [OF client_step.extended_attr]) (simp add: extended_attr_frame)
  then show ?thesis using get_xattrset_run [OF x] client_run_trans e by simp
qed

text \<open>A call that makes an inode: the inode is the last one.\<close>

lemma init_run:
  assumes "client_step img img'" "libsqfs_inode_init body a img0 = (n, img')" "inodes img0 = inodes img"
  shows "client_run img img' \<and> n < length (inodes img')"
  using assms by (auto simp: libsqfs_inode_init_def Let_def intro: client_run_step)

lemma create_symlink_run:
  assumes "libsqfs_symlink_inode_create attr t img = (Some n, img')" "length t < 2 ^ 32"
  shows "client_run img img' \<and> n < length (inodes img')"
proof -
  obtain img0 where i: "libsqfs_inode_init (Symlink_Inode t) attr img0 = (n, img')" "inodes img0 = inodes img"
    using assms(1) by (auto simp: libsqfs_symlink_inode_create_def Let_def apfst_def map_prod_def split: prod.splits if_splits)
  show ?thesis using init_run [OF _ i] client_step.symlink [of t img attr] assms by simp
qed

lemma create_device_run:
  assumes "libsqfs_device_inode_create attr type major minor img = (Some n, img')"
  shows "client_run img img' \<and> n < length (inodes img')"
proof -
  obtain img0 where i: "libsqfs_inode_init (Device_Inode type major minor) attr img0 = (n, img')" "inodes img0 = inodes img"
    using assms by (auto simp: libsqfs_device_inode_create_def Let_def apfst_def map_prod_def split: prod.splits if_splits)
  show ?thesis using init_run [OF _ i] client_step.device [of img attr type major minor] assms by simp
qed

lemma create_fifo_run:
  assumes "libsqfs_fifo_inode_create attr img = (Some n, img')"
  shows "client_run img img' \<and> n < length (inodes img')"
proof -
  obtain img0 where i: "libsqfs_inode_init Fifo_Inode attr img0 = (n, img')" "inodes img0 = inodes img"
    using assms by (auto simp: libsqfs_fifo_inode_create_def Let_def apfst_def map_prod_def split: prod.splits if_splits)
  show ?thesis using init_run [OF _ i] client_step.fifo [of img attr] assms by simp
qed

lemma create_directory_run:
  assumes "libsqfs_directory_inode_create attr img = (Some n, img')"
  shows "client_run img img' \<and> n < length (inodes img')"
proof -
  obtain img0 where i: "libsqfs_inode_init (Directory_Inode empty_directory) attr img0 = (n, img')" "inodes img0 = inodes img"
    using assms by (auto simp: libsqfs_directory_inode_create_def Let_def apfst_def map_prod_def split: prod.splits if_splits)
  show ?thesis using init_run [OF _ i] client_step.directory [of img attr] assms by simp
qed

lemma add_file_run:
  assumes "add_file attr f img = Inr (n, img')"
  shows "client_run img img' \<and> n < length (inodes img')"
proof -
  obtain d img1 where d: "libsqfs_data_create_from_file f img = (Some d, img1)"
    and c: "libsqfs_regular_inode_create attr d img1 = (Some n, img')"
    using assms by (auto simp: add_file_def andthen_Inr nonnull_Inr)
  have 1: "client_run img img1"
    using client_step.file_data [of img f] data_frame(1) [of f img] d by (intro client_run_step) simp_all
  have "building_file img1 img'" "n = length (inodes img1)" using regular_building [OF c] by auto
  then have l: "length (inodes img') = Suc n" "n = length (inodes img1)" by (auto simp: building_file_def)
  then have "client_run img1 img'" using client_step.regular [of img1 attr d] c by (intro client_run_step) simp_all
  then show ?thesis using client_run_trans [OF 1] l by simp
qed

lemma add_entry_run:
  assumes "add_entry dir name n img = Inr img'" "dir < length (inodes img)" "n < length (inodes img)" "is_cstring name" "name_ok name"
  shows "client_run img img'"
proof -
  obtain ok where add: "libsqfs_directory_add_entry dir name n img = Some (ok, img')"
    using assms(1) by (auto simp: add_entry_def split: option.splits)
  have "length (inodes img') = length (inodes img)" using add
    by (rule add_entry_cases) simp_all
  then show ?thesis using client_step.entry [OF assms(2-5) add] by (intro client_run_step) simp_all
qed

section \<open>The traversal\<close>

text \<open>The names of a file system: not empty, no longer than the format allows, without zero bytes.\<close>

fun names_ok :: "host_node \<Rightarrow> bool" where
  "names_ok (Host_Directory stat (Some xs)) \<longleftrightarrow> (\<forall>x \<in> set xs. is_cstring (fst x) \<and> name_ok (fst x) \<and> names_ok (snd x))"
| "names_ok _ \<longleftrightarrow> True"

abbreviation entry_names_ok :: "(cstring \<times> host_node) list \<Rightarrow> bool" where
  "entry_names_ok xs \<equiv> \<forall>x \<in> set xs. is_cstring (fst x) \<and> name_ok (fst x) \<and> names_ok (snd x)"

definition cached_below :: "inode_cache \<Rightarrow> nat \<Rightarrow> bool" where
  "cached_below cache k \<longleftrightarrow> cache_sound cache \<and> (\<forall>key n. inode_cache_lookup cache key = Some n \<longrightarrow> n < k)"

lemma cached_below_mono: "cached_below cache k \<Longrightarrow> k \<le> k' \<Longrightarrow> cached_below cache k'"
  by (fastforce simp: cached_below_def)

lemma cached_below_insert: "cached_below cache k \<Longrightarrow> n < k \<Longrightarrow> cached_below (inode_cache_insert cache key n) k"
  by (auto simp: cached_below_def cache.find_put cache.put_sound)

text \<open>From state to state: the image by client steps, the cache with inodes of the image.\<close>

abbreviation state_ok :: "mksqfs_state \<Rightarrow> bool" where
  "state_ok s \<equiv> cached_below (fst s) (length (inodes (snd s)))"

lemma run_keeps_cache: "client_run img img' \<Longrightarrow> cached_below cache (length (inodes img)) \<Longrightarrow> cached_below cache (length (inodes img'))"
  by (auto simp: client_run_def intro: cached_below_mono)

lemma file_inode_run:
  assumes "state_ok (cache, img)"
    and "file_inode ord stat f cache img = Inr (n, cache', img')"
  shows "state_ok (cache', img') \<and> client_run img img' \<and> n < length (inodes img')"
proof (cases "inode_cache_lookup cache (cache_key stat)")
  case (Some inode)
  then show ?thesis using assms by (auto simp: cached_below_def client_run_refl)
next
  case None
  from None assms(2) obtain attr img1 img2 where a: "get_inode_attrs ord stat img = Inr (attr, img1)"
    and f: "add_file attr f img1 = Inr (n, img2)" and m: "own_malloc img2 = Inr img'"
    and c: "cache' = inode_cache_insert cache (cache_key stat) n"
    by (auto simp: andthen_Inr)
  have r: "client_run img img2" using get_inode_attrs_run [OF a] add_file_run [OF f] client_run_trans by blast
  then have run: "client_run img img'" using own_malloc_run [OF m] client_run_trans by blast
  have "length (inodes img2) \<le> length (inodes img')" using own_malloc_run [OF m] by (simp add: client_run_def)
  then have n: "n < length (inodes img')" using add_file_run [OF f] by simp
  show ?thesis using cached_below_insert [OF _ n] run_keeps_cache [OF run] assms(1) run n by (simp add: c)
qed

lemma add_files_run:
  assumes "add_files ord dir xs s = Inr s'" "state_ok s" "entry_names_ok xs" "dir < length (inodes (snd s))"
  shows "state_ok s' \<and> client_run (snd s) (snd s')"
  using assms
proof (induction ord dir xs s rule: add_files.induct)
  case (1 ord dir s)
  then show ?case by (auto simp: client_run_refl)
next
  case (2 ord dir name stat f xs cache img)
  from "2.prems"(1) obtain n cache1 img1 img2 where
    made: "file_inode ord stat f cache img = Inr (n, cache1, img1)"
    and add: "add_entry dir name n img1 = Inr img2" and rest: "add_files ord dir xs (cache1, img2) = Inr s'"
    unfolding add_files.simps by (auto elim!: andthenE)
  note i = file_inode_run [OF "2.prems"(2) made]
  have dir: "dir < length (inodes img1)" using "2.prems"(4) i by (simp add: client_run_def)
  have e: "client_run img1 img2"
    by (rule add_entry_run [OF add dir]) (use i "2.prems"(3) in simp_all)
  have r: "client_run img img2" using i e client_run_trans by blast
  have s: "state_ok (cache1, img2)" using run_keeps_cache [OF e] i by simp
  have "dir < length (inodes img2)" using e dir by (simp add: client_run_def)
  with "2.IH" [OF made refl refl add rest s] "2.prems"(3) have "state_ok s' \<and> client_run img2 (snd s')" by simp
  with client_run_trans [OF r] show ?case by simp
qed simp_all

text \<open>The other nodes.\<close>

lemma other_inode_run:
  assumes "other_inode ord plen name attr node (cache, img) = Inr (n, s')" "state_ok (cache, img)"
    and dirs: "\<And>stat entries. node = Host_Directory stat entries \<Longrightarrow> state_ok s' \<and> client_run img (snd s') \<and> n < length (inodes (snd s'))"
  shows "state_ok s' \<and> client_run img (snd s') \<and> n < length (inodes (snd s'))"
proof (cases node)
  case (Host_Directory stat entries)
  then show ?thesis by (rule dirs)
next
  case (Host_Symlink stat target)
  then obtain img' t where a: "libsqfs_symlink_inode_create attr (take 1023 t) img = (Some n, img')" and s': "s' = (cache, img')"
    using assms(1) by (auto simp: other_inode_def add_symlink_def nonnull_Inr elim!: andthenE split: option.splits)
  from create_symlink_run [OF a] run_keeps_cache [of img img' cache] show ?thesis using assms(2) s' by simp
next
  case (Host_Device stat is_chr major minor)
  then obtain img' type where a: "libsqfs_device_inode_create attr type major minor img = (Some n, img')" and s': "s' = (cache, img')"
    using assms(1) by (auto simp: other_inode_def add_device_def nonnull_Inr elim!: andthenE)
  from create_device_run [OF a] run_keeps_cache [of img img' cache] show ?thesis using assms(2) s' by simp
next
  case (Host_Fifo stat)
  then obtain img' where a: "libsqfs_fifo_inode_create attr img = (Some n, img')" and s': "s' = (cache, img')"
    using assms(1) by (auto simp: other_inode_def add_fifo_def nonnull_Inr elim!: andthenE)
  from create_fifo_run [OF a] run_keeps_cache [of img img' cache] show ?thesis using assms(2) s' by simp
qed (use assms(1) in \<open>simp_all add: other_inode_def\<close>)

lemma scan_run:
  "scan_directory plen xs found img = Inr (ys, img') \<Longrightarrow> client_run img img'"
proof (induction xs arbitrary: found img)
  case (Cons x xs)
  show ?case
  proof (cases "listed x")
    case True
    then obtain img1 where m: "own_malloc img = Inr img1"
      and rest: "scan_directory plen xs (insert_name x found) img1 = Inr (ys, img')"
      using Cons.prems by (auto elim!: andthenE split: if_splits)
    from Cons.IH [OF rest] own_malloc_run [OF m] show ?thesis using client_run_trans by blast
  qed (use Cons in simp)
qed (simp add: client_run_refl)

lemma others_step_run:
  assumes add: "add_others ord plen dir ((name, node) # xs) (cache, img) = Inr s'" and s: "state_ok (cache, img)"
    and dir: "dir < length (inodes img)" and name: "is_cstring name" "name_ok name" and other: "\<not> is_Host_File node"
    and dirs: "\<And>attr img1 stat entries n s1. get_inode_attrs ord (stat_of node) img = Inr (attr, img1) \<Longrightarrow> state_ok (cache, img1) \<Longrightarrow>
      node = Host_Directory stat entries \<Longrightarrow> add_directory ord (plen + 1 + length name) attr entries (cache, img1) = Inr (n, s1) \<Longrightarrow>
      state_ok s1 \<and> client_run img1 (snd s1) \<and> n < length (inodes (snd s1))"
    and rest: "\<And>attr img1 n cache2 img2 img3. get_inode_attrs ord (stat_of node) img = Inr (attr, img1) \<Longrightarrow>
      other_inode ord plen name attr node (cache, img1) = Inr (n, cache2, img2) \<Longrightarrow> add_entry dir name n img2 = Inr img3 \<Longrightarrow>
      add_others ord plen dir xs (cache2, img3) = Inr s' \<Longrightarrow> state_ok (cache2, img3) \<Longrightarrow> dir < length (inodes img3) \<Longrightarrow>
      state_ok s' \<and> client_run img3 (snd s')"
  shows "state_ok s' \<and> client_run img (snd s')"
proof -
  from add other obtain attr img1 n cache2 img2 img3 where a: "get_inode_attrs ord (stat_of node) img = Inr (attr, img1)"
    and n: "other_inode ord plen name attr node (cache, img1) = Inr (n, cache2, img2)" and e: "add_entry dir name n img2 = Inr img3"
    and others: "add_others ord plen dir xs (cache2, img3) = Inr s'"
    by (auto simp: other_inode_def elim!: andthenE)
  note 1 = get_inode_attrs_run [OF a]
  have s1: "state_ok (cache, img1)" using run_keeps_cache [OF 1] s by simp
  have built: "state_ok (cache2, img2) \<and> client_run img1 (snd (cache2, img2)) \<and> n < length (inodes (snd (cache2, img2)))"
    if "node = Host_Directory stat entries" for stat entries
    by (rule dirs [OF a s1 that]) (use n that in \<open>simp add: other_inode_def\<close>)
  have 2: "state_ok (cache2, img2)" "client_run img1 img2" "n < length (inodes img2)"
    using other_inode_run [OF n s1 built] by simp_all
  have dir2: "dir < length (inodes img2)" using dir 1 2(2) by (simp add: client_run_def)
  have 3: "client_run img2 img3" by (rule add_entry_run [OF e dir2 2(3) name])
  have s3: "state_ok (cache2, img3)" using run_keeps_cache [OF 3] 2(1) by simp
  have "dir < length (inodes img3)" using dir2 3 by (simp add: client_run_def)
  from rest [OF a n e others s3 this] show ?thesis using client_run_trans 1 2(2) 3 by blast
qed

lemma directory_step_run:
  assumes add: "add_directory ord plen attr (Some xs) (cache, img) = Inr (n, s')" and s: "state_ok (cache, img)"
    and names: "entry_names_ok xs"
    and others: "\<And>img1 ys img2 s1. libsqfs_directory_inode_create attr img = (Some n, img1) \<Longrightarrow>
      scan_directory plen xs [] img1 = Inr (ys, img2) \<Longrightarrow> add_files ord n ys (cache, img2) = Inr s1 \<Longrightarrow>
      add_others ord plen n ys s1 = Inr s' \<Longrightarrow> state_ok s1 \<Longrightarrow> entry_names_ok ys \<Longrightarrow> n < length (inodes (snd s1)) \<Longrightarrow>
      state_ok s' \<and> client_run (snd s1) (snd s')"
  shows "state_ok s' \<and> client_run img (snd s') \<and> n < length (inodes (snd s'))"
proof -
  from add obtain img1 ys img2 s1 where c: "libsqfs_directory_inode_create attr img = (Some n, img1)"
    and scan: "scan_directory plen xs [] img1 = Inr (ys, img2)" and files: "add_files ord n ys (cache, img2) = Inr s1"
    and rest: "add_others ord plen n ys s1 = Inr s'"
    by (auto simp: nonnull_Inr elim!: andthenE)
  note 1 = create_directory_run [OF c] and 2 = scan_run [OF scan]
  have r: "client_run img img2" using 1 2 client_run_trans by blast
  have n: "n < length (inodes img2)" using 1 2 by (simp add: client_run_def)
  have s2: "state_ok (cache, img2)" using run_keeps_cache [OF r] s by simp
  have ys: "entry_names_ok ys" using names mset_eq_setD [of ys "filter listed xs"] scan_ok [OF scan] by simp
  have 3: "state_ok s1 \<and> client_run img2 (snd s1)" using add_files_run [OF files s2 ys] n by simp
  then have n1: "n < length (inodes (snd s1))" using n by (simp add: client_run_def)
  note 4 = others [OF c scan files rest conjunct1 [OF 3] ys n1]
  then have "n < length (inodes (snd s'))" using n1 by (simp add: client_run_def)
  then show ?thesis using client_run_trans r 3 4 by blast
qed

lemma traversal_run:
  shows "add_directory ord plen attr entries s = Inr (n, s') \<Longrightarrow> state_ok s \<Longrightarrow> names_ok (Host_Directory stat entries) \<Longrightarrow>
      state_ok s' \<and> client_run (snd s) (snd s') \<and> n < length (inodes (snd s'))"
    and "add_others ord plen dir xs s = Inr s' \<Longrightarrow> state_ok s \<Longrightarrow> entry_names_ok xs \<Longrightarrow> dir < length (inodes (snd s)) \<Longrightarrow>
      state_ok s' \<and> client_run (snd s) (snd s')"
proof (induction ord plen attr entries s and ord plen dir xs s arbitrary: n s' and s' rule: add_directory_add_others.induct)
  case (2 ord plen attr xs cache img)
  show ?case unfolding snd_conv
  proof (rule directory_step_run [OF "2.prems"(1,2)])
    show "entry_names_ok xs" using "2.prems"(3) by simp
    show "state_ok s' \<and> client_run (snd s1) (snd s')" if "libsqfs_directory_inode_create attr img = (Some n, img1)"
      "scan_directory plen xs [] img1 = Inr (ys, img2)" "add_files ord n ys (cache, img2) = Inr s1" "add_others ord plen n ys s1 = Inr s'"
      "state_ok s1" "entry_names_ok ys" "n < length (inodes (snd s1))" for img1 ys img2 s1
      by (rule "2.IH" [OF _ refl that(2) refl that(3-7)]) (simp add: that(1))
  qed
next
  case (3 ord plen dir s)
  then show ?case by (simp add: client_run_refl)
next
  case (4 ord plen dir name node xs cache img)
  show ?case
  proof (cases "is_Host_File node")
    case True
    then show ?thesis using 4 by simp
  next
    case False
    have sub: "is_cstring name" "name_ok name" "names_ok node" "entry_names_ok xs" using "4.prems"(3) by simp_all
    show ?thesis unfolding snd_conv
    proof (rule others_step_run [OF "4.prems"(1,2) "4.prems"(4) [unfolded snd_conv] sub(1,2) False])
      show "state_ok s1 \<and> client_run img1 (snd s1) \<and> n < length (inodes (snd s1))"
        if "get_inode_attrs ord (stat_of node) img = Inr (attr, img1)" "state_ok (cache, img1)" "node = Host_Directory stat' entries"
          "add_directory ord (plen + 1 + length name) attr entries (cache, img1) = Inr (n, s1)" for attr img1 stat' entries n s1
        using "4.IH"(2) [OF False that(1) refl that(3,4,2)] sub(3) that(3) by (cases entries) simp_all
    next
      show "state_ok s' \<and> client_run img3 (snd s')" if
        "get_inode_attrs ord (stat_of node) img = Inr (attr, img1)" "other_inode ord plen name attr node (cache, img1) = Inr (n, cache2, img2)"
        "add_entry dir name n img2 = Inr img3" "add_others ord plen dir xs (cache2, img3) = Inr s'" "state_ok (cache2, img3)"
        "dir < length (inodes img3)" for attr img1 n cache2 img2 img3
        using "4.IH"(3) [OF False that(1) refl that(2) [unfolded other_inode_def prod.case] refl refl that(3,4,5) sub(4)] that(6)
        by simp
    qed
  qed
qed simp

section \<open>Properties\<close>

text \<open>What a sequence of client steps and the choice of the root make of a created image.\<close>

lemma traversal_built:
  assumes "built decomp img" "add_directory ord plen attr entries (empty_cache, img) = Inr (n, cache, img1)"
    and "names_ok (Host_Directory stat entries)"
  shows "n < length (inodes img1) \<and> built decomp (snd (libsqfs_image_set_root n img1))"
proof -
  have "state_ok (empty_cache, img)" using empty_cache by (simp add: cached_below_def)
  from traversal_run(1) [OF assms(2) this assms(3)] have r: "client_step\<^sup>*\<^sup>* img img1" "n < length (inodes img1)"
    by (simp_all add: client_run_def)
  have "client_step\<^sup>*\<^sup>* img (snd (libsqfs_image_set_root n img1))"
    by (rule rtranclp.rtrancl_into_rtrancl [OF r(1) client_step.set_root [OF r(2)]])
  then show ?thesis using client_steps_built assms(1) r(2) by blast
qed

lemma set_root_body:
  "n < length (inodes img) \<Longrightarrow> length (inodes (snd (libsqfs_image_set_root r img))) = length (inodes img) \<and>
   in_body (inode_at (snd (libsqfs_image_set_root r img)) n) = in_body (inode_at img n)"
  by (cases "n = r") (simp_all add: libsqfs_image_set_root_def)

text \<open>C15: what mksqfs built can be stored. Whatever was done with the image before, once the chunks of the files
  have been written and nothing else has changed, serialising the tree from the root that mksqfs
  chose returns, fails only for want of memory, and when it succeeds every inode that the root leads to
  is stored, record and listing, as the format reads them. The names of the host need to be names that the format has.\<close>

theorem mksqfs_serializes:
  assumes "libsqfs_image_create ext have_zlib now h destination options = Some (Some img0, h')"
    and "inode_compression (img_options img0) \<Longrightarrow> codec_ok decomp (Some (compressor img0))" "client_step\<^sup>*\<^sup>* img0 img"
    and "mem img = []" "options_ok (img_options img)" "files_ok (host_files (Host_Directory stat entries))" "names_ok (Host_Directory stat entries)"
    and "add_directory ord plen attr entries (empty_cache, img) = Inr (n, cache, img1)"
    and "inodes img' = inodes (snd (libsqfs_image_set_root n img1))" "inode_table img' = inode_table img1" "dir_table img' = dir_table img1"
    and "\<And>n reg. n < length (inodes img') \<Longrightarrow> in_body (inode_at img' n) = Regular_Inode reg \<Longrightarrow> file_ready img' reg"
  shows "\<exists>ok img''. libsqfs_inode_serialize n img' = Some (ok, img'') \<and> (mem img' = [] \<longrightarrow> ok) \<and>
    (ok \<longrightarrow> (\<forall>m. reaches img' n m \<longrightarrow> stored decomp img'' m))"
proof -
  let ?H = "host_files (Host_Directory stat entries)"
  have "built decomp img" by (rule client_steps_built [OF assms(3) created_built [OF assms(1,2)]])
  note b = traversal_built [OF this assms(8,7)]
  have tables: "inode_table (snd (libsqfs_image_set_root n img1)) = inode_table img1" "dir_table (snd (libsqfs_image_set_root n img1)) = dir_table img1"
    by (simp_all add: libsqfs_image_set_root_def)
  have "built decomp img'" by (rule built_frame [OF conjunct2 [OF b]]) (simp_all add: assms(9-11) tables)
  then have ok: "image_ok decomp img'" using assms(12) by (rule built_ready)
  have "traversing ?H (empty_cache, img)" using assms(4,5) empty_cache by (simp add: traversing_def cache_ok_def)
  from traversal_ok(1) [OF assms(6,8) this order_refl] have m: "mirrors img1 n n (Host_Directory stat entries)" "orphan img1 n"
    unfolding snd_conv by blast+
  then obtain d where "in_body (inode_at img1 n) = Directory_Inode d" "dd_parent d = None"
    by (cases entries) (auto simp: orphan_def)
  then have "n < length (inodes img')" "in_body (inode_at img' n) = Directory_Inode d" "dd_parent d = None"
    using b set_root_body [of n img1 n] assms(9) by simp_all
  from serialized_from [OF ok this] show ?thesis .
qed

text \<open>A directory of the host with a symbolic link in a subdirectory, in a new image.\<close>

definition demo_links :: "(cstring \<times> host_node) list" where
  "demo_links = [(cstr ''d'', Host_Directory (demo_stat 8 0x1ed) (Some [(cstr ''l'', Host_Symlink (demo_stat 9 0x1ff) (Some (cstr ''x'')))]))]"

lemma demo_links_built:
  "\<exists>cache img1 d d2. add_directory LITTLE_ENDIAN 1 demo_attr (Some demo_links) (empty_cache, demo_created) = Inr (0, cache, img1) \<and>
     root img1 = None \<and> img_state img1 = libsqfs_image_building \<and> mem img1 = [] \<and> length (inodes img1) = 3 \<and>
     in_body (inode_at img1 0) = Directory_Inode d \<and> map de_inode (dd_entries d) = [1] \<and>
     in_body (inode_at img1 1) = Directory_Inode d2 \<and> map de_inode (dd_entries d2) = [2] \<and>
     in_body (inode_at img1 2) = Symlink_Inode (cstr ''x'')"
  by (simp add: demo_links_def demo_stat_def demo_created_def demo_image_def traversal_simps Let_def apfst_def map_prod_def
      libsqfs_idtable_init_def libsqfs_image_options_defaults_def libsqfs_compressor_copy_def)

lemma reaches_child:
  assumes "reaches img r p" "in_body (inode_at img p) = Directory_Inode d" "map de_inode (dd_entries d) = [c]"
  shows "reaches img r c"
proof -
  obtain e where "e \<in> set (dd_entries d)" "de_inode e = c" using assms(3) by (cases "dd_entries d") auto
  with reaches.entry [OF assms(1,2)] show ?thesis by blast
qed

theorem mksqfs_serializes_witness:
  "\<exists>cache img1 img''. add_directory LITTLE_ENDIAN 1 demo_attr (Some demo_links) (empty_cache, demo_created) = Inr (0, cache, img1) \<and>
     libsqfs_inode_serialize 0 (snd (libsqfs_image_set_root 0 img1)) = Some (True, img'') \<and> stored (\<lambda>bs. bs) img'' 2"
proof -
  obtain cache img1 d d2 where run: "add_directory LITTLE_ENDIAN 1 demo_attr (Some demo_links) (empty_cache, demo_created) = Inr (0, cache, img1)"
    and img1: "root img1 = None" "img_state img1 = libsqfs_image_building" "mem img1 = []" "length (inodes img1) = 3"
    and body: "in_body (inode_at img1 0) = Directory_Inode d" "map de_inode (dd_entries d) = [1]"
      "in_body (inode_at img1 1) = Directory_Inode d2" "map de_inode (dd_entries d2) = [2]" "in_body (inode_at img1 2) = Symlink_Inode (cstr ''x'')"
    using demo_links_built by (elim exE conjE) (rule that)
  let ?img = "snd (libsqfs_image_set_root 0 img1)"
  have same: "in_body (inode_at ?img n) = in_body (inode_at img1 n)" "length (inodes ?img) = 3" if "n < 3" for n
    using set_root_body [of n img1 0] img1(4) that by simp_all
  have tables: "inode_table ?img = inode_table img1" "dir_table ?img = dir_table img1" "mem ?img = []"
    using img1(3) by (simp_all add: libsqfs_image_set_root_def)
  have files: "file_ready ?img reg" if "n < length (inodes ?img)" "in_body (inode_at ?img n) = Regular_Inode reg" for n reg
  proof -
    have "n = 0 \<or> n = 1 \<or> n = 2" using that(1) same(2) [of 0] by auto
    then show ?thesis using that(2) same(1) body by (elim disjE) simp_all
  qed
  have codec: "inode_compression (img_options demo_created) \<Longrightarrow> codec_ok (\<lambda>bs. bs) (Some (compressor demo_created))"
    using demo_codec_ok by (simp add: demo_created_def)
  have host: "files_ok (host_files (Host_Directory (demo_stat 1 0) (Some demo_links)))" "names_ok (Host_Directory (demo_stat 1 0) (Some demo_links))"
    "mem demo_created = []" "options_ok (img_options demo_created)"
    by (simp_all add: demo_links_def files_ok_def is_cstring_def demo_created_def demo_image_def libsqfs_image_options_defaults_def
        libsqfs_compressor_copy_def options_ok_def)
  have "reaches ?img 0 2"
    using reaches_child [OF reaches_child [OF reaches.itself, of ?img 0 d 1], of d2 2] same(1) body by simp
  moreover have "\<exists>ok img''. libsqfs_inode_serialize 0 ?img = Some (ok, img'') \<and> (mem ?img = [] \<longrightarrow> ok) \<and>
      (ok \<longrightarrow> (\<forall>m. reaches ?img 0 m \<longrightarrow> stored (\<lambda>bs. bs) img'' m))"
    by (rule mksqfs_serializes [OF demo_created _ rtranclp.rtrancl_refl host(3,4,1,2) run refl tables(1,2)])
      (fact codec | erule (1) files)+
  then obtain ok img'' where "libsqfs_inode_serialize 0 ?img = Some (ok, img'')" "mem ?img = [] \<longrightarrow> ok"
    "ok \<Longrightarrow> reaches ?img 0 2 \<Longrightarrow> stored (\<lambda>bs. bs) img'' 2" by blast
  ultimately show ?thesis using run tables(3) by (intro exI [of _ cache] exI [of _ img1] exI [of _ img'']) simp
qed

end
