(* ===== verification/Spec2Isabelle.thy ===== *)
theory Spec2Isabelle
  imports Image Listing Entries Filetree Client Bulkfile Failures Complete Clientrun
begin

text \<open>
  libsqfs: a library in C that creates squashfs file system images, and its example client mksqfs.

  \<^bold>\<open>The program.\<close> A client creates an image for a destination with some options, creates inodes
  (regular files, directories, symbolic links, devices, named pipes) with attributes and extended
  attributes, enters them into directories, chooses a root, and finalizes the image. The contents of
  regular files are cut into blocks and tail pieces and handed to the bulk data (bulkdata.c), a pipeline
  in which worker threads read, deduplicate, pack, compress and write them while the client goes on.
  Finalizing waits for the bulk data, then writes the tree of inodes into two metadata tables, the
  tables themselves, the fragment, export, id and attribute tables, and last the superblock. mksqfs
  (examples/mksqfs.c) does all this for a directory of the host.

  \<^bold>\<open>Foundations.\<close>
  \<^item> Prelude: machine integers, byte order (the macros of internal.h), the heap as a list of outcomes
    of \<open>malloc\<close>, little-endian integers and their round trip, arrays of structures with a fixed
    layout (locale \<open>struct_codec\<close>), strings of C.
  \<^item> Format (squashfs_fs.h): the structures of the format as records in the order of their fields, with
    their bytes and a decoder for each; constants and macros.

  \<^bold>\<open>Components of the library (src/src).\<close> Each theory has the state, the operations by the names of the
  functions in C, and the lemmas about them.
  \<^item> Compressor (compressor.h, compressor.c, compressor_zlib.c, compressor_liblzma.c, compressor_xz.c,
    compressor_zstd.c): classes and instances, the null compressor, the wrappers of the three external
    libraries, which are the parameter \<open>external_codecs\<close>; the contract \<open>codec_ok\<close> of a routine
    with its decompressor.
  \<^item> Destination (destination.c): output to a file or to nowhere; \<open>libsqfs_image_reserve\<close>.
  \<^item> Metatable (metatable.h, metatable.c): the compressed metadata tables; the reader of a written table,
    and the contract (a locale) that appending fulfils: old positions stay, the new one holds the bytes.
  \<^item> Idtable (idtable.c): user and group ids, with the contract of a table that interns values.
  \<^item> Datasource (datasource.c): files, buffers and compounds, against the bytes they stand for.
  \<^item> Workq (bulkdata.c, \<open>libsqfs_chunk_workq_*\<close>): the doubly linked queues, as links, refining lists.
  \<^item> Options (image.c, \<open>libsqfs_image_options_*\<close>).
  \<^item> Bulkdata (bulkdata.h, bulkdata.c): chunks, fragment blocks, queues, and every function that a thread
    or the client calls. A function that gives up the lock while it works is two definitions, one with
    the suffix \<open>_enter\<close> for what it does before it and one with \<open>_leave\<close> for what it does after.
  \<^item> Xattrs (xattrs.h, xattrs.c), Inodes (inodes.h, inodes.c and the rest of \<open>struct libsqfs_image\<close>),
    Special (special.c), Regular (regular.c), Directory (directory.c), Serialize (the recursion over
    the tree, inodes.c and directory.c), Superblock (superblock.c, export.c), Threadpool (threadpool.h,
    threadpool.c), Image (image.c).
  \<^item> Mksqfs (examples/mksqfs.c): the inode cache, attributes, the traversal of a directory, the command
    line. The file system of the host is a parameter, a tree of nodes.

  \<^bold>\<open>What is shown.\<close>
  \<^item> Listing, Entries, Stored, Filetree: the tree of inodes. Entries: directories are sorted
    dictionaries. Listing: the listing of a directory is read back from the directory table, from any
    entry of its index too. Stored: the record of each kind of inode is read back. Filetree: the recursion
    over the tree ends, and after it everything that the root leads to is read back.
  \<^item> Client: any sequence of calls of the public interface leaves an image that can be serialised so.
  \<^item> Pipeline, Plan, Bulkinv, Bulkread, Bulkassign, Bulkcompress, Bulkwrite, Bulkrun, Bulkresult: the bulk
    data under every interleaving of its threads. Pipeline is the discipline of states and queues, Plan
    says what the output must be as a function of what was submitted, Bulkinv is the invariant that
    connects a state of a run with both, and the others show that each part of an operation keeps it. It
    follows that no assertion fails and no missing object is used, that the threads end, that with none
    able to go on all chunks are finished or there was an error, and that output, fragment table and the
    places of the chunks do not depend on the interleaving.
  \<^item> Bulkfile: a regular file is read back from the output and the fragment table by what its
    inode says.
  \<^item> Failures: what becomes of errors while finalizing.
  \<^item> Mirror, Traversal, Clientrun, Complete: the inode cache is a map; the inodes that mksqfs creates mirror the
    directory of the host; its calls are those of a client, so the tree can be serialised; when its
    unchecked results are fine.

  \<^bold>\<open>How the code is rendered.\<close> Functions take the state and return it; objects that the code links by
  pointers (inodes, chunks, fragment blocks) are numbered in the order of their creation, and a pointer is
  such a number, a null pointer \<open>None\<close>. A result \<open>None\<close> of a whole operation stands for what has no result
  in C: a failed assertion, a null pointer followed, or a recursion or loop that never ends. A boolean or
  \<open>option\<close> beside the new state is the function's own report of success. \<open>mem\<close> lists the outcomes of
  the allocations to come; when the list is empty all of them succeed, so \<open>mem img = []\<close> says that memory
  is available, and theorems without this premise hold for every pattern of failures. Integers keep their
  width where the code computes with them; sizes and positions that cannot reach the bound are natural
  numbers. Byte order is a parameter where the code depends on it.

  \<^bold>\<open>Threads.\<close> A step of a run (\<open>bulk_step\<close> in Bulkrun) is a part of an operation between two changes of
  the lock: a thread takes a chunk and runs the first part of a task, a thread finishes a task that is
  under way, or the client submits or seals. The locks make these parts atomic; that mutexes and
  condition variables work is assumed. A thread that waits is one that has no step.

  \<^bold>\<open>Bounds and recursion.\<close> Serialising recurses over directories; \<open>serialize_upto\<close> has a bound on the
  stack of calls, and \<open>libsqfs_inode_serialize\<close> uses the number of inodes plus one. A longer chain of
  calls has met an inode twice while it was being written, which in C recurses until the stack is full;
  with the links of a tree the bound is never reached (Filetree). The loops that copy into a metadata table
  and that process the bulk data are \<open>partial_function\<close>s, \<open>None\<close> if they did not end, and are shown
  to end. The reader of a listing has a bound on the number of runs; the number of entries is
  enough, as no run is empty. All other recursions have a measure.

  \<^bold>\<open>Not modelled.\<close> Destructors, which only release memory (\<open>libsqfs_image_destroy\<close> and the \<open>_fini\<close> and
  \<open>_destroy\<close> functions). Signal masks of the threads. The declarations of the public header
  include/libsqfs.h apart from its enumerations. The down- and upcasts between the types of inodes, which
  are the same number here. \<open>libsqfs_bulkdata_finish\<close> is run as a function with no other thread at work;
  the interleavings are those of \<open>bulk_step\<close>. For mksqfs: \<open>lstat\<close> that fails, a host that changes
  meanwhile, and messages. The test programs (tests), which drive the library and look at the images with
  external tools.
\<close>

end
